(* ===== verification/Prelude.thy ===== *)
theory Prelude
  imports Main "HOL-Library.Sublist"
begin

text \<open>
  The prelude of the development: the fact collections its components fill and the
  generic lemmas on lists and options that more than one of them uses.  Nothing in this
  theory is about a particular component.
\<close>

section \<open>Fact collections\<close>

named_theorems queue_simps \<open>unfolding of the statements of the job store\<close>
named_theorems board_simps \<open>unfolding of the operations of a task board\<close>

section \<open>Options\<close>

text \<open>Rust's \<open>Option::is_some_and\<close>.\<close>

definition is_some_and :: "'a option \<Rightarrow> ('a \<Rightarrow> bool) \<Rightarrow> bool" where
  "is_some_and x p = (case x of None \<Rightarrow> False | Some a \<Rightarrow> p a)"

lemma is_some_and_simps [simp]:
  "is_some_and None p = False"
  "is_some_and (Some a) p = p a"
  by (simp_all add: is_some_and_def)

lemma is_some_and_iff: "is_some_and x p \<longleftrightarrow> (\<exists>a. x = Some a \<and> p a)"
  by (cases x) auto

text \<open>Rust's \<open>slice::first\<close> and \<open>Iterator::next\<close> on a fresh iterator.\<close>

definition first :: "'a list \<Rightarrow> 'a option" where
  "first xs = (case xs of [] \<Rightarrow> None | x # _ \<Rightarrow> Some x)"

lemma first_simps [simp]: "first [] = None" "first (x # xs) = Some x"
  by (simp_all add: first_def)

lemma first_None [simp]: "first xs = None \<longleftrightarrow> xs = []"
  by (cases xs) auto

lemma first_Some: "first xs = Some x \<longleftrightarrow> (\<exists>ys. xs = x # ys)"
  by (cases xs) auto

section \<open>Lists\<close>

text \<open>\<open>slice::join\<close>.\<close>

fun join_with :: "'a list \<Rightarrow> 'a list list \<Rightarrow> 'a list" where
  "join_with sep [] = []"
| "join_with sep [x] = x"
| "join_with sep (x # y # ys) = x @ sep @ join_with sep (y # ys)"

text \<open>Updating the first element that satisfies a predicate (\<open>iter_mut().find\<close>).\<close>

fun update_first :: "('a \<Rightarrow> bool) \<Rightarrow> ('a \<Rightarrow> 'a) \<Rightarrow> 'a list \<Rightarrow> 'a list" where
  "update_first p f [] = []"
| "update_first p f (x # xs) = (if p x then f x # xs else x # update_first p f xs)"

lemma length_update_first [simp]: "length (update_first p f xs) = length xs"
  by (induction xs) auto

lemma map_update_first:
  "(\<And>x. g (f x) = g x) \<Longrightarrow> map g (update_first p f xs) = map g xs"
  by (induction xs) auto

lemma update_first_split:
  assumes "find p xs = Some x"
  obtains ys zs where "xs = ys @ x # zs" and "\<forall>y \<in> set ys. \<not> p y" and "p x"
    and "\<And>f. update_first p f xs = ys @ f x # zs"
  using assms
proof (induction xs arbitrary: thesis)
  case (Cons a xs)
  show ?case
  proof (cases "p a")
    case True
    with Cons.prems(2) have "a = x" by simp
    with True show ?thesis by (intro Cons.prems(1)[of "[]" xs]) auto
  next
    case False
    with Cons.prems(2) have "find p xs = Some x" by simp
    then obtain ys zs where "xs = ys @ x # zs" "\<forall>y \<in> set ys. \<not> p y" "p x"
      "\<And>f. update_first p f xs = ys @ f x # zs"
      using Cons.IH by blast
    with False show ?thesis by (intro Cons.prems(1)[of "a # ys" zs]) auto
  qed
qed simp

lemma find_Some_set: "find p xs = Some x \<Longrightarrow> x \<in> set xs \<and> p x"
  by (auto simp: find_Some_iff)

lemma distinct_map_inj_on_find:
  "distinct (map g xs) \<Longrightarrow> x \<in> set xs \<Longrightarrow> find (\<lambda>y. g y = g x) xs = Some x"
  by (induction xs) auto

end
