(* ===== verification/Rust_Str.thy ===== *)
theory Rust_Str
  imports Prelude
begin

text \<open>
  Rust's \<open>str\<close>, as the code uses it.  A Rust string is a UTF-8 byte sequence, and HOL's
  \<open>char\<close> is a byte, so \<open>string\<close> is the type of the bytes of a Rust string: \<open>length\<close>
  is \<open>str::len\<close>, \<open>@\<close> is concatenation, and the ASCII operations are exact.  Operations
  on characters are written over the encoding: a whitespace character may take one, two or
  three bytes (\<open>ws_len\<close>), and a character boundary is a byte that is not a continuation
  byte.  Substring tests are \<open>prefix\<close>, \<open>suffix\<close> and \<open>sublist\<close> of \<open>HOL-Library.Sublist\<close>.
\<close>

section \<open>Bytes\<close>

definition byte :: "char \<Rightarrow> nat" where
  "byte c = of_char c"

definition is_ascii_digit :: "char \<Rightarrow> bool" where
  "is_ascii_digit c = (48 \<le> byte c \<and> byte c \<le> 57)"

definition is_ascii_uppercase :: "char \<Rightarrow> bool" where
  "is_ascii_uppercase c = (65 \<le> byte c \<and> byte c \<le> 90)"

definition is_ascii_lowercase :: "char \<Rightarrow> bool" where
  "is_ascii_lowercase c = (97 \<le> byte c \<and> byte c \<le> 122)"

definition is_ascii_alphabetic :: "char \<Rightarrow> bool" where
  "is_ascii_alphabetic c = (is_ascii_uppercase c \<or> is_ascii_lowercase c)"

definition is_ascii_alphanumeric :: "char \<Rightarrow> bool" where
  "is_ascii_alphanumeric c = (is_ascii_alphabetic c \<or> is_ascii_digit c)"

definition to_lower_char :: "char \<Rightarrow> char" where
  "to_lower_char c = (if is_ascii_uppercase c then char_of (byte c + 32) else c)"

definition to_upper_char :: "char \<Rightarrow> char" where
  "to_upper_char c = (if is_ascii_lowercase c then char_of (byte c - 32) else c)"

text \<open>\<open>str::to_ascii_lowercase\<close> and \<open>str::to_ascii_uppercase\<close>.\<close>

definition to_ascii_lowercase :: "string \<Rightarrow> string" where
  "to_ascii_lowercase s = map to_lower_char s"

definition to_ascii_uppercase :: "string \<Rightarrow> string" where
  "to_ascii_uppercase s = map to_upper_char s"

lemmas byte_simps = byte_def is_ascii_digit_def is_ascii_uppercase_def is_ascii_lowercase_def
  is_ascii_alphabetic_def is_ascii_alphanumeric_def

lemma byte_less: "byte c < 256"
  by (simp add: byte_def)

lemma byte_to_lower_char:
  "byte (to_lower_char c) = (if is_ascii_uppercase c then byte c + 32 else byte c)"
  by (simp add: to_lower_char_def byte_simps)

lemma to_lower_char_idem [simp]: "to_lower_char (to_lower_char c) = to_lower_char c"
proof -
  have "\<not> is_ascii_uppercase (to_lower_char c)"
    by (auto simp: is_ascii_uppercase_def byte_to_lower_char)
  then show ?thesis by (subst to_lower_char_def) simp
qed

lemma to_ascii_lowercase_simps [simp]:
  "to_ascii_lowercase [] = []"
  "to_ascii_lowercase (c # s) = to_lower_char c # to_ascii_lowercase s"
  "to_ascii_lowercase (s @ t) = to_ascii_lowercase s @ to_ascii_lowercase t"
  "length (to_ascii_lowercase s) = length s"
  "to_ascii_lowercase (to_ascii_lowercase s) = to_ascii_lowercase s"
  by (simp_all add: to_ascii_lowercase_def)

section \<open>Prefixes, suffixes, searching\<close>

definition strip_prefix :: "string \<Rightarrow> string \<Rightarrow> string option" where
  "strip_prefix p s = (if prefix p s then Some (drop (length p) s) else None)"

definition strip_suffix :: "string \<Rightarrow> string \<Rightarrow> string option" where
  "strip_suffix p s = (if suffix p s then Some (take (length s - length p) s) else None)"

lemma strip_prefix_Some: "strip_prefix p s = Some r \<longleftrightarrow> s = p @ r"
  by (auto simp: strip_prefix_def prefix_def)

lemma strip_suffix_Some: "strip_suffix p s = Some r \<longleftrightarrow> s = r @ p"
  by (auto simp: strip_suffix_def suffix_def)

text \<open>\<open>str::split_once\<close> and \<open>str::rsplit_once\<close> at an ASCII character.\<close>

fun split_once :: "char \<Rightarrow> string \<Rightarrow> (string \<times> string) option" where
  "split_once c [] = None"
| "split_once c (x # xs) =
     (if x = c then Some ([], xs)
      else map_option (\<lambda>(a, b). (x # a, b)) (split_once c xs))"

definition rsplit_once :: "char \<Rightarrow> string \<Rightarrow> (string \<times> string) option" where
  "rsplit_once c s = map_option (\<lambda>(a, b). (rev b, rev a)) (split_once c (rev s))"

lemma split_once_None: "split_once c s = None \<longleftrightarrow> c \<notin> set s"
  by (induction s) auto

lemma split_once_Some: "split_once c s = Some (a, b) \<longleftrightarrow> s = a @ c # b \<and> c \<notin> set a"
proof (induction s arbitrary: a)
  case (Cons x xs)
  then show ?case by (cases a) auto
qed simp

text \<open>\<open>str::split\<close> at the characters of a predicate: the pieces between the separators,
  the empty ones included.\<close>

fun split_on :: "(char \<Rightarrow> bool) \<Rightarrow> string \<Rightarrow> string list" where
  "split_on p [] = [[]]"
| "split_on p (c # cs) =
     (if p c then [] # split_on p cs
      else (c # hd (split_on p cs)) # tl (split_on p cs))"

lemma split_on_not_Nil [simp]: "split_on p s \<noteq> []"
  by (cases s) auto

lemma split_on_no_sep: "w \<in> set (split_on p s) \<Longrightarrow> c \<in> set w \<Longrightarrow> \<not> p c"
proof (induction s arbitrary: w)
  case (Cons x xs)
  show ?case
  proof (cases "p x")
    case True
    with Cons show ?thesis by auto
  next
    case False
    have "hd (split_on p xs) \<in> set (split_on p xs)" by simp
    moreover have "set (tl (split_on p xs)) \<subseteq> set (split_on p xs)"
      by (meson list.set_sel(2) split_on_not_Nil subsetI)
    ultimately have "w = x # hd (split_on p xs) \<or> w \<in> set (split_on p xs)"
      using False Cons.prems(1) by auto
    then show ?thesis
      using False Cons.prems(2) Cons.IH \<open>hd (split_on p xs) \<in> _\<close> by (metis set_ConsD)
  qed
qed simp

lemma split_on_id: "\<forall>c \<in> set s. \<not> p c \<Longrightarrow> split_on p s = [s]"
  by (induction s) auto

lemma hd_split_on: "hd (split_on p s) = takeWhile (\<lambda>c. \<not> p c) s"
  by (induction s) auto

text \<open>\<open>str::to_lowercase\<close>: the ASCII table on ASCII text, the Unicode tables otherwise.\<close>

definition str_to_lowercase :: "(string \<Rightarrow> string) \<Rightarrow> string \<Rightarrow> string" where
  "str_to_lowercase uni s = (if \<forall>c \<in> set s. byte c < 128 then to_ascii_lowercase s else uni s)"

section \<open>Whitespace\<close>

text \<open>
  The Unicode \<open>White_Space\<close> characters: six of ASCII, and the encodings of
  U+0085, U+00A0, U+1680, U+2000 to U+200A, U+2028, U+2029, U+202F, U+205F and U+3000.
\<close>

definition is_ascii_ws :: "char \<Rightarrow> bool" where
  "is_ascii_ws c = (c \<in> {CHR '' '', CHR 0x09, CHR 0x0A, CHR 0x0B, CHR 0x0C, CHR 0x0D})"

definition unicode_ws :: "string list" where
  "unicode_ws =
     [[CHR 0xC2, CHR 0x85], [CHR 0xC2, CHR 0xA0], [CHR 0xE1, CHR 0x9A, CHR 0x80],
      [CHR 0xE2, CHR 0x80, CHR 0x80], [CHR 0xE2, CHR 0x80, CHR 0x81],
      [CHR 0xE2, CHR 0x80, CHR 0x82], [CHR 0xE2, CHR 0x80, CHR 0x83],
      [CHR 0xE2, CHR 0x80, CHR 0x84], [CHR 0xE2, CHR 0x80, CHR 0x85],
      [CHR 0xE2, CHR 0x80, CHR 0x86], [CHR 0xE2, CHR 0x80, CHR 0x87],
      [CHR 0xE2, CHR 0x80, CHR 0x88], [CHR 0xE2, CHR 0x80, CHR 0x89],
      [CHR 0xE2, CHR 0x80, CHR 0x8A], [CHR 0xE2, CHR 0x80, CHR 0xA8],
      [CHR 0xE2, CHR 0x80, CHR 0xA9], [CHR 0xE2, CHR 0x80, CHR 0xAF],
      [CHR 0xE2, CHR 0x81, CHR 0x9F], [CHR 0xE3, CHR 0x80, CHR 0x80]]"

text \<open>The number of bytes of the whitespace character at the head of the string, or 0.\<close>

definition ws_len :: "string \<Rightarrow> nat" where
  "ws_len s = (case s of [] \<Rightarrow> 0
     | c # _ \<Rightarrow> if is_ascii_ws c then 1
               else if c \<in> {CHR 0xC2, CHR 0xE1, CHR 0xE2, CHR 0xE3}
               then (case find (\<lambda>w. prefix w s) unicode_ws of None \<Rightarrow> 0 | Some w \<Rightarrow> length w)
               else 0)"

lemma ws_len_Nil [simp]: "ws_len [] = 0"
  by (simp add: ws_len_def)

lemma ws_len_le: "ws_len s \<le> length s"
proof (cases s)
  case (Cons c cs)
  have "find (\<lambda>w. prefix w s) unicode_ws = Some w \<Longrightarrow> length w \<le> length s" for w
    by (auto simp: find_Some_iff intro: prefix_length_le)
  with Cons show ?thesis by (auto simp: ws_len_def split: option.splits)
qed simp

lemma ws_len_ascii [simp]: "is_ascii_ws c \<Longrightarrow> ws_len (c # s) = 1"
  by (simp add: ws_len_def)

lemma unicode_ws_take:
  "w \<in> set unicode_ws \<Longrightarrow> c \<in> set w \<Longrightarrow> 128 \<le> byte c"
  by (auto simp: unicode_ws_def byte_def)

text \<open>A whitespace character is an ASCII one, or has no ASCII byte.\<close>

lemma ws_len_bytes:
  assumes "0 < ws_len s"
  shows "(\<exists>c r. s = c # r \<and> is_ascii_ws c \<and> ws_len s = 1)
         \<or> (\<forall>c \<in> set (take (ws_len s) s). 128 \<le> byte c)"
proof (cases s)
  case Nil
  with assms show ?thesis by simp
next
  case (Cons c r)
  show ?thesis
  proof (cases "is_ascii_ws c")
    case True
    with Cons show ?thesis by simp
  next
    case False
    with assms Cons obtain w where w: "find (\<lambda>w. prefix w s) unicode_ws = Some w"
      and len: "ws_len s = length w"
      by (auto simp: ws_len_def split: if_splits option.splits)
    then have "w \<in> set unicode_ws" and "prefix w s" by (auto simp: find_Some_iff)
    then have "take (ws_len s) s = w" using len by (auto simp: prefix_def)
    then show ?thesis using unicode_ws_take[OF \<open>w \<in> set unicode_ws\<close>] by auto
  qed
qed

function trim_start :: "string \<Rightarrow> string" where
  "trim_start s = (if ws_len s = 0 then s else trim_start (drop (ws_len s) s))"
  by pat_completeness auto
termination
proof (relation "measure length")
  fix s :: string
  assume "ws_len s \<noteq> 0"
  moreover from this have "s \<noteq> []" by (cases s) auto
  ultimately show "(drop (ws_len s) s, s) \<in> measure length" by simp
qed simp

declare trim_start.simps [simp del]

fun trim_end :: "string \<Rightarrow> string" where
  "trim_end [] = []"
| "trim_end (c # cs) = (if trim_start (c # cs) = [] then [] else c # trim_end cs)"

definition trim :: "string \<Rightarrow> string" where
  "trim s = trim_end (trim_start s)"

text \<open>\<open>chars().any(char::is_whitespace)\<close>.\<close>

fun has_ws :: "string \<Rightarrow> bool" where
  "has_ws [] = False"
| "has_ws (c # cs) = (0 < ws_len (c # cs) \<or> has_ws cs)"

text \<open>The bytes up to the first whitespace character, and \<open>str::split_whitespace\<close>.\<close>

fun take_word :: "string \<Rightarrow> string" where
  "take_word [] = []"
| "take_word (c # cs) = (if 0 < ws_len (c # cs) then [] else c # take_word cs)"

lemma trim_start_le: "length (trim_start s) \<le> length s"
proof (induction s rule: trim_start.induct)
  case (1 s)
  then show ?case
    by (cases "ws_len s = 0") (auto simp: trim_start.simps[of s] intro: le_trans)
qed

lemma length_take_word: "length (take_word s) \<le> length s"
  by (induction s) auto

lemma take_word_Cons: "ws_len s = 0 \<Longrightarrow> s \<noteq> [] \<Longrightarrow> take_word s \<noteq> []"
  by (cases s) auto

lemma ws_len_trim_start [simp]: "ws_len (trim_start s) = 0"
proof (induction s rule: trim_start.induct)
  case (1 s)
  then show ?case by (cases "ws_len s = 0") (auto simp: trim_start.simps[of s])
qed

lemma trim_start_idem [simp]: "trim_start (trim_start s) = trim_start s"
  by (subst trim_start.simps) simp

lemma trim_start_Nil [simp]: "trim_start [] = []"
  by (subst trim_start.simps) simp

function split_whitespace :: "string \<Rightarrow> string list" where
  "split_whitespace s =
     (let t = trim_start s in
      if t = [] then []
      else take_word t # split_whitespace (drop (length (take_word t)) t))"
  by pat_completeness auto
termination
proof (relation "measure length")
  fix s t :: string
  assume t: "t = trim_start s" "t \<noteq> []"
  then have "take_word t \<noteq> []" by (intro take_word_Cons) auto
  then have "length (drop (length (take_word t)) t) < length t" using t by simp
  also have "length t \<le> length s" using t trim_start_le by simp
  finally show "(drop (length (take_word t)) t, s) \<in> measure length" by simp
qed simp

declare split_whitespace.simps [simp del]


section \<open>Algebra of trimming and splitting\<close>

lemma trim_start_suffix: "suffix (trim_start s) s"
proof (induction s rule: trim_start.induct)
  case (1 s)
  then show ?case
    by (cases "ws_len s = 0")
       (auto simp: trim_start.simps[of s] intro: suffix_order.trans suffix_drop)
qed

lemma trim_start_eq_self [simp]: "ws_len s = 0 \<Longrightarrow> trim_start s = s"
  by (subst trim_start.simps) simp

lemma trim_start_ascii_ws [simp]: "is_ascii_ws c \<Longrightarrow> trim_start (c # s) = trim_start s"
  by (subst trim_start.simps) simp

lemma trim_end_Nil_iff [simp]: "trim_end s = [] \<longleftrightarrow> trim_start s = []"
  by (cases s) auto

lemma trim_Nil_iff [simp]: "trim s = [] \<longleftrightarrow> trim_start s = []"
  by (simp add: trim_def)

lemma trim_end_prefix: "prefix (trim_end s) s"
  by (induction s) auto

lemma take_word_prefix: "prefix (take_word s) s"
  by (induction s) auto

lemma trim_sublist: "sublist (trim s) s"
proof -
  have "sublist (trim_end (trim_start s)) (trim_start s)"
    by (simp add: trim_end_prefix prefix_imp_sublist)
  then show ?thesis
    unfolding trim_def
    by (meson suffix_imp_sublist sublist_order.order_trans trim_start_suffix)
qed

lemma set_trim: "set (trim s) \<subseteq> set s"
  by (simp add: trim_sublist set_mono_sublist)

lemma split_whitespace_Nil_iff [simp]: "split_whitespace s = [] \<longleftrightarrow> trim_start s = []"
  by (subst split_whitespace.simps) (simp add: Let_def)

lemma split_whitespace_Nil [simp]: "split_whitespace [] = []"
  by simp

lemma split_whitespace_trim_start [simp]:
  "split_whitespace (trim_start s) = split_whitespace s"
  by (subst (1 2) split_whitespace.simps) simp

lemma first_split_whitespace:
  "first (split_whitespace s) =
     (if trim_start s = [] then None else Some (take_word (trim_start s)))"
  by (subst split_whitespace.simps) (simp add: Let_def)

lemma take_word_no_ws: "c \<in> set (take_word s) \<Longrightarrow> \<not> is_ascii_ws c"
  by (induction s) (auto split: if_splits)

lemma split_whitespace_words:
  "w \<in> set (split_whitespace s) \<Longrightarrow> w \<noteq> [] \<and> (\<forall>c \<in> set w. \<not> is_ascii_ws c) \<and> set w \<subseteq> set s"
proof (induction s rule: split_whitespace.induct)
  case (1 s)
  let ?t = "trim_start s"
  from "1.prems" have ne: "?t \<noteq> []" by (metis empty_iff empty_set split_whitespace_Nil_iff)
  have sub: "set ?t \<subseteq> set s" using trim_start_suffix by (rule set_mono_suffix)
  have "w = take_word ?t \<or> w \<in> set (split_whitespace (drop (length (take_word ?t)) ?t))"
    using "1.prems" ne by (subst (asm) split_whitespace.simps) (simp add: Let_def)
  then show ?case
  proof
    assume w: "w = take_word ?t"
    have "w \<noteq> []" using w ne by (simp add: take_word_Cons)
    moreover have "set w \<subseteq> set s"
      using w sub take_word_prefix[of ?t] by (auto dest: set_mono_prefix)
    ultimately show ?thesis using w take_word_no_ws by blast
  next
    assume w: "w \<in> set (split_whitespace (drop (length (take_word ?t)) ?t))"
    then show ?thesis
      using "1.IH"[OF refl ne] sub by (meson dual_order.trans set_drop_subset)
  qed
qed

text \<open>No whitespace encoding is a proper prefix of another, so the one at the head of a
  string is unique and does not depend on what follows it.\<close>

lemma unicode_ws_prefix_free:
  "\<forall>w \<in> set unicode_ws. \<forall>w' \<in> set unicode_ws. prefix w w' \<longrightarrow> w = w'"
  unfolding unicode_ws_def by simp

lemma unicode_ws_unique:
  assumes "w \<in> set unicode_ws" "w' \<in> set unicode_ws" "prefix w s" "prefix w' s"
  shows "w = w'"
  using assms unicode_ws_prefix_free prefix_same_cases by metis

lemma find_unicode_ws:
  "w \<in> set unicode_ws \<Longrightarrow> prefix w s \<Longrightarrow> find (\<lambda>w. prefix w s) unicode_ws = Some w"
proof -
  assume w: "w \<in> set unicode_ws" "prefix w s"
  then have "find (\<lambda>w. prefix w s) unicode_ws \<noteq> None" by (auto simp: find_None_iff)
  then obtain v where "find (\<lambda>w. prefix w s) unicode_ws = Some v" by auto
  with w show ?thesis using unicode_ws_unique by (metis find_Some_set)
qed

lemma ws_len_append:
  assumes "0 < ws_len s" shows "ws_len (s @ t) = ws_len s"
proof (cases s)
  case Nil
  with assms show ?thesis by simp
next
  case (Cons c r)
  show ?thesis
  proof (cases "is_ascii_ws c")
    case True
    with Cons show ?thesis by simp
  next
    case False
    with assms Cons obtain w where w: "find (\<lambda>w. prefix w s) unicode_ws = Some w"
      by (auto simp: ws_len_def split: if_splits option.splits)
    then have "w \<in> set unicode_ws" "prefix w (s @ t)"
      by (auto dest: find_Some_set)
    then have "find (\<lambda>w. prefix w (s @ t)) unicode_ws = Some w" by (rule find_unicode_ws)
    with w Cons False show ?thesis by (auto simp: ws_len_def)
  qed
qed

lemma ws_len_prefix: "prefix p s \<Longrightarrow> 0 < ws_len p \<Longrightarrow> 0 < ws_len s"
  by (auto simp: prefix_def ws_len_append)

lemma trim_start_append:
  "trim_start s = [] \<Longrightarrow> trim_start (s @ t) = trim_start t"
proof (induction s rule: trim_start.induct)
  case (1 s)
  show ?case
  proof (cases "ws_len s = 0")
    case True
    with "1.prems" show ?thesis by simp
  next
    case False
    have "trim_start (s @ t) = trim_start (drop (ws_len s) (s @ t))"
      using False by (subst trim_start.simps) (simp add: ws_len_append)
    also have "\<dots> = trim_start (drop (ws_len s) s @ t)"
      using ws_len_le[of s] by simp
    also have "\<dots> = trim_start t"
      using "1.IH"[OF False] "1.prems" False by (simp add: trim_start.simps[of s])
    finally show ?thesis .
  qed
qed

lemma trim_end_rest: "\<exists>w. s = trim_end s @ w \<and> trim_start w = []"
proof (induction s)
  case (Cons c cs)
  then obtain w where "cs = trim_end cs @ w" "trim_start w = []" by blast
  then show ?case
    by (cases "trim_start (c # cs) = []") (auto intro!: exI[of _ w])
qed simp

lemma trim_end_idem [simp]: "trim_end (trim_end s) = trim_end s"
proof (induction s)
  case (Cons c cs)
  show ?case
  proof (cases "trim_start (c # cs) = []")
    case False
    obtain w where w: "cs = trim_end cs @ w" "trim_start w = []"
      using trim_end_rest by blast
    have "trim_start (c # trim_end cs) \<noteq> []"
    proof
      assume "trim_start (c # trim_end cs) = []"
      then have "trim_start ((c # trim_end cs) @ w) = []"
        using w(2) by (simp only: trim_start_append)
      with w(1) False show False by simp
    qed
    with False Cons.IH show ?thesis by simp
  qed simp
qed simp

lemma trim_idem [simp]: "trim (trim s) = trim s"
proof -
  have "ws_len (trim_end (trim_start s)) = 0"
    using ws_len_prefix[OF trim_end_prefix[of "trim_start s"]] by auto
  then show ?thesis by (simp add: trim_def)
qed

section \<open>Character boundaries\<close>

text \<open>\<open>str::is_char_boundary\<close>: the ends of the string and every byte that starts a character.\<close>

definition is_continuation :: "char \<Rightarrow> bool" where
  "is_continuation c = (128 \<le> byte c \<and> byte c < 192)"

definition is_char_boundary :: "string \<Rightarrow> nat \<Rightarrow> bool" where
  "is_char_boundary s i =
     (if i = 0 \<or> i = length s then True
      else i < length s \<and> \<not> is_continuation (s ! i))"

text \<open>\<open>chars().count()\<close>.\<close>

definition char_count :: "string \<Rightarrow> nat" where
  "char_count s = length (filter (\<lambda>c. \<not> is_continuation c) s)"

text \<open>\<open>chars().take(n).collect()\<close>.\<close>

fun take_chars :: "nat \<Rightarrow> string \<Rightarrow> string" where
  "take_chars n [] = []"
| "take_chars n (c # cs) =
     (if is_continuation c then c # take_chars n cs
      else case n of 0 \<Rightarrow> [] | Suc m \<Rightarrow> c # take_chars m cs)"

text \<open>The loop of \<open>floor_char_boundary\<close> in \<open>src/openhuman/util.rs\<close>.\<close>

fun back_to_boundary :: "string \<Rightarrow> nat \<Rightarrow> nat" where
  "back_to_boundary s 0 = 0"
| "back_to_boundary s (Suc n) =
     (if is_char_boundary s (Suc n) then Suc n else back_to_boundary s n)"

definition floor_char_boundary :: "string \<Rightarrow> nat \<Rightarrow> nat" where
  "floor_char_boundary s index =
     (if length s \<le> index then length s else back_to_boundary s index)"

lemma back_to_boundary_le: "back_to_boundary s n \<le> n"
  by (induction n) auto

lemma back_to_boundary_boundary: "is_char_boundary s (back_to_boundary s n)"
  by (induction n) (auto simp: is_char_boundary_def)

lemma back_to_boundary_greatest:
  "m \<le> n \<Longrightarrow> is_char_boundary s m \<Longrightarrow> m \<le> back_to_boundary s n"
  by (induction n) (auto simp: le_Suc_eq)

lemma floor_char_boundary_le: "floor_char_boundary s n \<le> min n (length s)"
  using back_to_boundary_le[of s n] by (auto simp: floor_char_boundary_def)

lemma floor_char_boundary_boundary: "is_char_boundary s (floor_char_boundary s n)"
  using back_to_boundary_boundary by (simp add: floor_char_boundary_def is_char_boundary_def)

section \<open>Decimal rendering\<close>

text \<open>\<open>Display\<close> of an unsigned integer.\<close>

definition dec_digit :: "nat \<Rightarrow> char" where
  "dec_digit d = char_of (48 + d)"

fun dec_nat :: "nat \<Rightarrow> string" where
  "dec_nat n = (if n < 10 then [dec_digit n] else dec_nat (n div 10) @ [dec_digit (n mod 10)])"

declare dec_nat.simps [simp del]

definition dec_int :: "int \<Rightarrow> string" where
  "dec_int i = (if i < 0 then CHR 0x2D # dec_nat (nat (- i)) else dec_nat (nat i))"

lemma dec_nat_not_Nil [simp]: "dec_nat n \<noteq> []"
  by (subst dec_nat.simps) simp

lemma byte_dec_digit [simp]: "d < 10 \<Longrightarrow> byte (dec_digit d) = 48 + d"
  by (simp add: byte_def dec_digit_def)

lemma dec_digit_inj: "d < 10 \<Longrightarrow> e < 10 \<Longrightarrow> dec_digit d = dec_digit e \<longleftrightarrow> d = e"
  by (metis add_left_cancel byte_dec_digit)

lemma dec_nat_digits: "c \<in> set (dec_nat n) \<Longrightarrow> is_ascii_digit c"
proof (induction n rule: dec_nat.induct)
  case (1 n)
  show ?case
  proof (cases "n < 10")
    case True
    then show ?thesis using 1(2) by (subst (asm) dec_nat.simps) (simp add: is_ascii_digit_def)
  next
    case False
    then have "c \<in> set (dec_nat (n div 10)) \<or> c = dec_digit (n mod 10)"
      using 1(2) by (subst (asm) dec_nat.simps) auto
    then show ?thesis using 1(1)[OF False] by (auto simp: is_ascii_digit_def)
  qed
qed

lemma dec_nat_inj: "dec_nat m = dec_nat n \<longleftrightarrow> m = n"
proof (induction m arbitrary: n rule: dec_nat.induct)
  case (1 m)
  show ?case
  proof
    assume eq: "dec_nat m = dec_nat n"
    have len1: "k < 10 \<longleftrightarrow> length (dec_nat k) = 1" for k
      by (subst dec_nat.simps) (cases "dec_nat (k div 10)"; simp)
    show "m = n"
    proof (cases "m < 10")
      case True
      with eq len1 have "n < 10" by metis
      with True eq show ?thesis
        by (subst (asm) dec_nat.simps, subst (asm) (2) dec_nat.simps) (simp add: dec_digit_inj)
    next
      case False
      with eq len1 have n: "\<not> n < 10" by metis
      have "dec_nat (m div 10) = dec_nat (n div 10) \<and> m mod 10 = n mod 10"
        using eq False n
        by (subst (asm) dec_nat.simps, subst (asm) (2) dec_nat.simps) (simp add: dec_digit_inj)
      with 1[OF False] have "m div 10 = n div 10" "m mod 10 = n mod 10" by auto
      then show ?thesis by (metis div_mult_mod_eq)
    qed
  qed simp
qed

section \<open>Two characters of the messages\<close>

definition em_dash :: string where
  "em_dash = [CHR 0xE2, CHR 0x80, CHR 0x94]"

definition ellipsis :: string where
  "ellipsis = [CHR 0xE2, CHR 0x80, CHR 0xA6]"

end
