(* ===== verification/Policy_Types.thy ===== *)
theory Policy_Types
  imports Rust_Str "HOL-Library.Word"
begin

text \<open>
  The vocabulary of the security policy (\<open>src/openhuman/security/policy/types.rs\<close>):
  autonomy tiers, trusted roots, command risk and command class, gate decisions, tool
  operations, the policy record with its defaults, and the sliding-window action tracker.
\<close>

section \<open>Enumerations\<close>

datatype autonomy_level = ReadOnly | Supervised | Full

datatype trusted_access = Access_Read | Access_ReadWrite

record trusted_root =
  tr_path :: string
  tr_access :: trusted_access

datatype risk_level = Risk_Low | Risk_Medium | Risk_High

datatype command_class =
  Class_Read | Class_Write | Class_Network | Class_Install | Class_Destructive

datatype gate_decision = Gate_Allow | Gate_Prompt | Gate_Block

datatype tool_operation = Op_Read | Op_Act

text \<open>
  \<open>CommandClass\<close> derives \<open>Ord\<close> from the order of its variants; \<open>gate_decision\<close> is ordered
  by strictness, for the statements only (the source does not order it).
\<close>

fun class_rank :: "command_class \<Rightarrow> nat" where
  "class_rank Class_Read = 0"
| "class_rank Class_Write = 1"
| "class_rank Class_Network = 2"
| "class_rank Class_Install = 3"
| "class_rank Class_Destructive = 4"

lemma class_rank_inj [simp]: "class_rank a = class_rank b \<longleftrightarrow> a = b"
  by (cases a; cases b) simp_all

instantiation command_class :: linorder
begin

definition less_eq_command_class :: "command_class \<Rightarrow> command_class \<Rightarrow> bool" where
  "less_eq_command_class a b = (class_rank a \<le> class_rank b)"

definition less_command_class :: "command_class \<Rightarrow> command_class \<Rightarrow> bool" where
  "less_command_class a b = (class_rank a < class_rank b)"

instance
  by standard (auto simp: less_eq_command_class_def less_command_class_def)

end

instantiation command_class :: order_bot
begin

definition bot_command_class :: command_class where
  "bot_command_class = Class_Read"

instance
  by standard (simp add: bot_command_class_def less_eq_command_class_def)

end

fun gate_rank :: "gate_decision \<Rightarrow> nat" where
  "gate_rank Gate_Allow = 0"
| "gate_rank Gate_Prompt = 1"
| "gate_rank Gate_Block = 2"

lemma gate_rank_inj [simp]: "gate_rank a = gate_rank b \<longleftrightarrow> a = b"
  by (cases a; cases b) simp_all

instantiation gate_decision :: linorder
begin

definition less_eq_gate_decision :: "gate_decision \<Rightarrow> gate_decision \<Rightarrow> bool" where
  "less_eq_gate_decision a b = (gate_rank a \<le> gate_rank b)"

definition less_gate_decision :: "gate_decision \<Rightarrow> gate_decision \<Rightarrow> bool" where
  "less_gate_decision a b = (gate_rank a < gate_rank b)"

instance
  by standard (auto simp: less_eq_gate_decision_def less_gate_decision_def)

end

lemmas rank_simps = less_eq_command_class_def less_command_class_def
  less_eq_gate_decision_def less_gate_decision_def

lemma class_le_Read_iff [simp]: "c \<le> Class_Read \<longleftrightarrow> c = Class_Read"
  by (cases c) (simp_all add: rank_simps)

lemma Read_le_class [simp]: "Class_Read \<le> c"
  by (simp add: rank_simps)

lemma class_le_Destructive [simp]: "c \<le> Class_Destructive"
  by (cases c) (simp_all add: rank_simps)

section \<open>The markers and the policy record\<close>

definition POLICY_BLOCKED_MARKER :: string where
  "POLICY_BLOCKED_MARKER = ''[policy-blocked]''"

definition POLICY_DENIED_MARKER :: string where
  "POLICY_DENIED_MARKER = ''[policy-denied]''"

text \<open>An \<open>Instant\<close> is a count of nanoseconds from an arbitrary origin.\<close>

type_synonym instant = int

record security_policy =
  autonomy :: autonomy_level
  workspace_dir :: string
  action_dir :: string
  workspace_only :: bool
  allowed_commands :: "string list"
  forbidden_paths :: "string list"
  max_actions_per_hour :: "32 word"
  max_cost_per_day_cents :: "32 word"
  require_approval_for_medium_risk :: bool
  block_high_risk_commands :: bool
  trusted_roots :: "trusted_root list"
  allow_tool_install :: bool
  auto_approve :: "string list"
  tracker :: "instant list"

definition WORKSPACE_INTERNAL_DIRS :: "string list" where
  "WORKSPACE_INTERNAL_DIRS =
     [''memory'', ''memory_tree'', ''state'', ''approval'', ''sessions'', ''session_raw'',
      ''cron'', ''devices'', ''mcp_clients'', ''subconscious'', ''vault'', ''task_sources'',
      ''whatsapp_data'', ''redirect_links'', ''codegraph'', ''.openhuman'']"

definition WORKSPACE_INTERNAL_FILES :: "string list" where
  "WORKSPACE_INTERNAL_FILES =
     [''core.token'', ''dev-keychain.json'', ''.env'', ''SOUL.md'', ''IDENTITY.md'',
      ''HEARTBEAT.md'', ''PROFILE.md'']"

definition default_allowed_commands :: "string list" where
  "default_allowed_commands =
     [''git'', ''npm'', ''pnpm'', ''yarn'', ''cargo'', ''make'', ''cmake'',
      ''ls'', ''cat'', ''grep'', ''find'', ''echo'', ''pwd'', ''wc'', ''head'', ''tail'',
      ''date'', ''sort'', ''uniq'', ''diff'', ''which'', ''uname'', ''basename'', ''dirname'',
      ''tr'', ''cut'', ''realpath'', ''readlink'', ''stat'', ''file'',
      ''mkdir'', ''touch'', ''cp'', ''mv'', ''ln'',
      ''dir'', ''type'', ''where'', ''findstr'', ''more'']"

definition default_forbidden_paths :: "string list" where
  "default_forbidden_paths =
     [''/etc'', ''/root'', ''/home'', ''/usr'', ''/bin'', ''/sbin'', ''/lib'', ''/opt'',
      ''/boot'', ''/dev'', ''/proc'', ''/sys'', ''/var'', ''/tmp'',
      ''~/.ssh'', ''~/.gnupg'', ''~/.aws'', ''~/.config'']"

text \<open>\<open>SecurityPolicy::default\<close>; \<open>u32::MAX\<close> is the word \<open>- 1\<close>.\<close>

definition default_policy :: security_policy where
  "default_policy =
     \<lparr>autonomy = Supervised, workspace_dir = ''.'', action_dir = ''.'', workspace_only = True,
      allowed_commands = default_allowed_commands, forbidden_paths = default_forbidden_paths,
      max_actions_per_hour = - 1, max_cost_per_day_cents = 500,
      require_approval_for_medium_risk = True, block_high_risk_commands = True,
      trusted_roots = [], allow_tool_install = False, auto_approve = [], tracker = []\<rparr>"

section \<open>The action tracker\<close>

definition hour :: int where
  "hour = 3600 * 1000000000"

text \<open>
  \<open>Instant::checked_sub\<close> fails when the result is below the least instant of the platform,
  the parameter \<open>lo\<close>; the tracker then reads the clock again and takes that instant as its
  cutoff.  One operation of the tracker reads the clock up to three times: for the cutoff,
  for this fallback, and for the entry it pushes.
\<close>

type_synonym reads = "instant \<times> instant \<times> instant"

fun tracker_cutoff :: "instant \<Rightarrow> reads \<Rightarrow> instant" where
  "tracker_cutoff lo (now, fallback, pushed) = (if lo \<le> now - hour then now - hour else fallback)"

definition tracker_retain :: "instant \<Rightarrow> reads \<Rightarrow> instant list \<Rightarrow> instant list" where
  "tracker_retain lo r actions = filter (\<lambda>t. tracker_cutoff lo r < t) actions"

definition pushed_at :: "reads \<Rightarrow> instant" where
  "pushed_at r = snd (snd r)"

definition tracker_record :: "instant \<Rightarrow> reads \<Rightarrow> instant list \<Rightarrow> nat \<times> instant list" where
  "tracker_record lo r actions =
     (let kept = tracker_retain lo r actions @ [pushed_at r] in (length kept, kept))"

definition tracker_count :: "instant \<Rightarrow> reads \<Rightarrow> instant list \<Rightarrow> nat \<times> instant list" where
  "tracker_count lo r actions = (let kept = tracker_retain lo r actions in (length kept, kept))"

end
