(* ===== verification/Shell_Lexer.thy ===== *)
theory Shell_Lexer
  imports Policy_Types
begin

text \<open>
  The quote-aware shell lexers of \<open>src/openhuman/security/policy/policy_command.rs\<close>: the
  split of a command line into segments, and the searches for an unquoted character, for a
  single unquoted ampersand and for an unquoted background ampersand.  Each is translated
  loop for loop; the last section gives the reference reading of a command line (which of
  its bytes are live, that is neither quoted nor escaped) against which they are proved.
\<close>

section \<open>The lexers\<close>

datatype quote_state = Quote_None | Quote_Single | Quote_Double

abbreviation SQ :: char where "SQ \<equiv> CHR 0x27"
abbreviation DQ :: char where "DQ \<equiv> CHR 0x22"
abbreviation BS :: char where "BS \<equiv> CHR 0x5C"
abbreviation NL :: char where "NL \<equiv> CHR 0x0A"

text \<open>\<open>push_segment\<close>: the segment pushed, if any; the caller clears \<open>current\<close>.\<close>

definition push_segment :: "string \<Rightarrow> string list" where
  "push_segment current = (let trimmed = trim current in if trimmed \<noteq> [] then [trimmed] else [])"

fun split_go :: "quote_state \<Rightarrow> bool \<Rightarrow> string \<Rightarrow> string \<Rightarrow> string list" where
  "split_go quote escaped current [] = push_segment current"
| "split_go Quote_Single escaped current (ch # chars) =
     split_go (if ch = SQ then Quote_None else Quote_Single) escaped (current @ [ch]) chars"
| "split_go Quote_Double escaped current (ch # chars) =
     (if escaped then split_go Quote_Double False (current @ [ch]) chars
      else if ch = BS then split_go Quote_Double True (current @ [ch]) chars
      else split_go (if ch = DQ then Quote_None else Quote_Double) escaped (current @ [ch]) chars)"
| "split_go Quote_None escaped current (ch # chars) =
     (if escaped then split_go Quote_None False (current @ [ch]) chars
      else if ch = BS then split_go Quote_None True (current @ [ch]) chars
      else if ch = SQ then split_go Quote_Single escaped (current @ [ch]) chars
      else if ch = DQ then split_go Quote_Double escaped (current @ [ch]) chars
      else if ch = CHR '';'' \<or> ch = NL then
        push_segment current @ split_go Quote_None escaped [] chars
      else if ch = CHR ''|'' then
        push_segment current @
          split_go Quote_None escaped []
            (if first chars = Some (CHR ''|'') then tl chars else chars)
      else if ch = CHR ''&'' then
        (if first chars = Some (CHR ''&'')
         then push_segment current @ split_go Quote_None escaped [] (tl chars)
         else split_go Quote_None escaped (current @ [ch]) chars)
      else split_go Quote_None escaped (current @ [ch]) chars)"

definition split_unquoted_segments :: "string \<Rightarrow> string list" where
  "split_unquoted_segments command = split_go Quote_None False [] command"

fun single_amp_go :: "quote_state \<Rightarrow> bool \<Rightarrow> string \<Rightarrow> bool" where
  "single_amp_go quote escaped [] = False"
| "single_amp_go Quote_Single escaped (ch # chars) =
     single_amp_go (if ch = SQ then Quote_None else Quote_Single) escaped chars"
| "single_amp_go Quote_Double escaped (ch # chars) =
     (if escaped then single_amp_go Quote_Double False chars
      else if ch = BS then single_amp_go Quote_Double True chars
      else single_amp_go (if ch = DQ then Quote_None else Quote_Double) escaped chars)"
| "single_amp_go Quote_None escaped (ch # chars) =
     (if escaped then single_amp_go Quote_None False chars
      else if ch = BS then single_amp_go Quote_None True chars
      else if ch = SQ then single_amp_go Quote_Single escaped chars
      else if ch = DQ then single_amp_go Quote_Double escaped chars
      else if ch = CHR ''&'' then
        (if first chars = Some (CHR ''&'') then single_amp_go Quote_None escaped (tl chars)
         else True)
      else single_amp_go Quote_None escaped chars)"

definition contains_unquoted_single_ampersand :: "string \<Rightarrow> bool" where
  "contains_unquoted_single_ampersand command = single_amp_go Quote_None False command"

text \<open>
  The background search also carries \<open>prev\<close>, the last character read (after \<open>&&\<close> the first
  of the two); the source starts it, and reads a missing next character, as \<open>'\0'\<close>.
\<close>

fun background_amp_go :: "quote_state \<Rightarrow> bool \<Rightarrow> char \<Rightarrow> string \<Rightarrow> bool" where
  "background_amp_go quote escaped prev [] = False"
| "background_amp_go Quote_Single escaped prev (ch # chars) =
     background_amp_go (if ch = SQ then Quote_None else Quote_Single) escaped ch chars"
| "background_amp_go Quote_Double escaped prev (ch # chars) =
     (if escaped then background_amp_go Quote_Double False ch chars
      else if ch = BS then background_amp_go Quote_Double True ch chars
      else background_amp_go (if ch = DQ then Quote_None else Quote_Double) escaped ch chars)"
| "background_amp_go Quote_None escaped prev (ch # chars) =
     (if escaped then background_amp_go Quote_None False ch chars
      else if ch = BS then background_amp_go Quote_None True ch chars
      else if ch = SQ then background_amp_go Quote_Single escaped ch chars
      else if ch = DQ then background_amp_go Quote_Double escaped ch chars
      else if ch = CHR ''&'' then
        (if first chars = Some (CHR ''&'')
         then background_amp_go Quote_None escaped ch (tl chars)
         else
           (let next = (case first chars of None \<Rightarrow> CHR 0x00 | Some c \<Rightarrow> c) in
            if prev \<noteq> CHR ''>'' \<and> next \<noteq> CHR ''>'' then True
            else background_amp_go Quote_None escaped ch chars))
      else background_amp_go Quote_None escaped ch chars)"

definition contains_unquoted_background_ampersand :: "string \<Rightarrow> bool" where
  "contains_unquoted_background_ampersand command =
     background_amp_go Quote_None False (CHR 0x00) command"

fun unquoted_char_go :: "char \<Rightarrow> quote_state \<Rightarrow> bool \<Rightarrow> string \<Rightarrow> bool" where
  "unquoted_char_go target quote escaped [] = False"
| "unquoted_char_go target Quote_Single escaped (ch # chars) =
     unquoted_char_go target (if ch = SQ then Quote_None else Quote_Single) escaped chars"
| "unquoted_char_go target Quote_Double escaped (ch # chars) =
     (if escaped then unquoted_char_go target Quote_Double False chars
      else if ch = BS then unquoted_char_go target Quote_Double True chars
      else if ch = DQ then unquoted_char_go target Quote_None escaped chars
      else unquoted_char_go target Quote_Double escaped chars)"
| "unquoted_char_go target Quote_None escaped (ch # chars) =
     (if escaped then unquoted_char_go target Quote_None False chars
      else if ch = BS then unquoted_char_go target Quote_None True chars
      else if ch = SQ then unquoted_char_go target Quote_Single escaped chars
      else if ch = DQ then unquoted_char_go target Quote_Double escaped chars
      else if ch = target then True
      else unquoted_char_go target Quote_None escaped chars)"

definition contains_unquoted_char :: "string \<Rightarrow> char \<Rightarrow> bool" where
  "contains_unquoted_char command target = unquoted_char_go target Quote_None False command"

section \<open>The reference reading of a command line\<close>

text \<open>
  One step of the quote automaton the four loops share: the state after a byte, and
  whether the byte is live, that is outside quotes, unescaped, and neither a quote nor a
  backslash itself.
\<close>

type_synonym lex_state = "quote_state \<times> bool"

fun lex_next :: "lex_state \<Rightarrow> char \<Rightarrow> lex_state" where
  "lex_next (Quote_Single, e) c = (if c = SQ then Quote_None else Quote_Single, e)"
| "lex_next (Quote_Double, e) c =
     (if e then (Quote_Double, False)
      else if c = BS then (Quote_Double, True)
      else (if c = DQ then Quote_None else Quote_Double, e))"
| "lex_next (Quote_None, e) c =
     (if e then (Quote_None, False)
      else if c = BS then (Quote_None, True)
      else if c = SQ then (Quote_Single, e)
      else if c = DQ then (Quote_Double, e)
      else (Quote_None, e))"

definition live_at :: "lex_state \<Rightarrow> char \<Rightarrow> bool" where
  "live_at st c = (st = (Quote_None, False) \<and> c \<notin> {BS, SQ, DQ})"

text \<open>The state after a string.\<close>

fun lex_run :: "lex_state \<Rightarrow> string \<Rightarrow> lex_state" where
  "lex_run st [] = st"
| "lex_run st (c # cs) = lex_run (lex_next st c) cs"

lemma lex_run_append [simp]: "lex_run st (s @ t) = lex_run (lex_run st s) t"
  by (induction s arbitrary: st) auto

text \<open>The live bytes of a string, each with the byte that follows it.\<close>

fun live_from :: "lex_state \<Rightarrow> string \<Rightarrow> (char \<times> char option) list" where
  "live_from st [] = []"
| "live_from st (c # cs) =
     (if live_at st c then [(c, first cs)] else []) @ live_from (lex_next st c) cs"

definition lex_start :: lex_state where
  "lex_start = (Quote_None, False)"

definition live_chars :: "string \<Rightarrow> (char \<times> char option) list" where
  "live_chars s = live_from lex_start s"

lemma unquoted_char_go_live:
  assumes "target \<notin> {BS, SQ, DQ}"
  shows "unquoted_char_go target q e s \<longleftrightarrow> target \<in> fst ` set (live_from (q, e) s)"
  using assms
  by (induction target q e s rule: unquoted_char_go.induct) (auto simp: live_at_def)

lemma contains_unquoted_char_live:
  "target \<notin> {BS, SQ, DQ} \<Longrightarrow>
     contains_unquoted_char s target \<longleftrightarrow> target \<in> fst ` set (live_chars s)"
  by (simp add: contains_unquoted_char_def live_chars_def lex_start_def unquoted_char_go_live)

section \<open>Segments\<close>

text \<open>The places where the splitter cuts, and what it consumes there.\<close>

definition cuts :: "lex_state \<Rightarrow> char \<Rightarrow> string \<Rightarrow> bool" where
  "cuts st c cs = (live_at st c \<and>
     (c \<in> {CHR '';'', NL, CHR ''|''} \<or> (c = CHR ''&'' \<and> first cs = Some (CHR ''&''))))"

definition after_cut :: "char \<Rightarrow> string \<Rightarrow> string" where
  "after_cut c cs = (if c \<in> {CHR ''|'', CHR ''&''} \<and> first cs = Some c then tl cs else cs)"

lemma split_go_step:
  "split_go q e cur (c # cs) =
     (if cuts (q, e) c cs
      then push_segment cur @ split_go Quote_None False [] (after_cut c cs)
      else split_go (fst (lex_next (q, e) c)) (snd (lex_next (q, e) c)) (cur @ [c]) cs)"
  by (cases q; cases e) (simp_all add: cuts_def live_at_def after_cut_def)

lemma length_after_cut: "length (after_cut c cs) \<le> length cs"
  by (simp add: after_cut_def)

text \<open>A string that the splitter, started in state \<open>st\<close>, does not cut.\<close>

fun no_split :: "lex_state \<Rightarrow> string \<Rightarrow> bool" where
  "no_split st [] = True"
| "no_split st (c # cs) = (\<not> cuts st c cs \<and> no_split (lex_next st c) cs)"

lemma split_go_no_split:
  "no_split (q, e) s \<Longrightarrow> split_go q e cur s = push_segment (cur @ s)"
proof (induction s arbitrary: q e cur)
  case (Cons c cs)
  then show ?case by (cases "lex_next (q, e) c") (simp add: split_go_step del: split_go.simps)
qed simp

lemma cuts_append: "cuts st c cs \<Longrightarrow> cuts st c (cs @ t)"
  by (cases cs) (auto simp: cuts_def)

lemma no_split_prefix: "no_split st (s @ t) \<Longrightarrow> no_split st s"
  by (induction s arbitrary: st) (auto dest: cuts_append)

lemma lex_next_plain: "c \<notin> {BS, SQ, DQ} \<Longrightarrow> lex_next lex_start c = lex_start"
  by (simp add: lex_start_def)

lemma no_split_drop_plain:
  "\<forall>c \<in> set w. c \<notin> {BS, SQ, DQ} \<Longrightarrow> no_split lex_start (w @ r) \<Longrightarrow> no_split lex_start r"
  by (induction w) (auto simp: lex_next_plain)

lemma not_quote_ws: "is_ascii_ws c \<Longrightarrow> c \<notin> {BS, SQ, DQ}"
  by (auto simp: is_ascii_ws_def)

lemma not_quote_high: "128 \<le> byte c \<Longrightarrow> c \<notin> {BS, SQ, DQ}"
  by (auto simp: byte_def)

lemma ws_plain:
  assumes "0 < ws_len s" "c \<in> set (take (ws_len s) s)"
  shows "c \<notin> {BS, SQ, DQ}"
  using ws_len_bytes[OF assms(1)] assms(2) not_quote_ws not_quote_high by fastforce

lemma no_split_trim_start: "no_split lex_start s \<Longrightarrow> no_split lex_start (trim_start s)"
proof (induction s rule: trim_start.induct)
  case (1 s)
  show ?case
  proof (cases "ws_len s = 0")
    case False
    have "no_split lex_start (drop (ws_len s) s)"
    proof (rule no_split_drop_plain)
      show "\<forall>c \<in> set (take (ws_len s) s). c \<notin> {BS, SQ, DQ}"
        using ws_plain False by blast
      show "no_split lex_start (take (ws_len s) s @ drop (ws_len s) s)"
        using "1.prems" by simp
    qed
    with "1.IH" False show ?thesis by (simp add: trim_start.simps[of s])
  qed (use "1.prems" in simp)
qed

lemma no_split_trim: "no_split lex_start s \<Longrightarrow> no_split lex_start (trim s)"
proof -
  assume "no_split lex_start s"
  then have "no_split lex_start (trim_start s)" by (rule no_split_trim_start)
  moreover obtain w where "trim_start s = trim s @ w"
    using trim_end_prefix[of "trim_start s"] by (auto simp: prefix_def trim_def)
  ultimately show ?thesis by (metis no_split_prefix)
qed

text \<open>
  The invariant of the splitting loop: no position of \<open>current\<close>, read with the input that
  is left, is one where the splitter cuts, and \<open>current\<close> ends in the loop's state.
\<close>

fun uncut :: "lex_state \<Rightarrow> string \<Rightarrow> string \<Rightarrow> bool" where
  "uncut st [] rest = True"
| "uncut st (c # cs) rest = (\<not> cuts st c (cs @ rest) \<and> uncut (lex_next st c) cs rest)"

lemma uncut_no_split: "uncut st cur rest \<Longrightarrow> no_split st cur"
  by (induction cur arbitrary: st) (auto dest: cuts_append)

lemma uncut_snoc:
  "uncut st (cur @ [c]) cs \<longleftrightarrow> uncut st cur (c # cs) \<and> \<not> cuts (lex_run st cur) c cs"
  by (induction cur arbitrary: st) auto

lemma push_segment_ok:
  "no_split lex_start cur \<Longrightarrow> x \<in> set (push_segment cur) \<Longrightarrow>
     x \<noteq> [] \<and> trim x = x \<and> no_split lex_start x"
  by (auto simp: push_segment_def Let_def no_split_trim split: if_splits)

lemma split_go_segments:
  "uncut lex_start cur s \<Longrightarrow> lex_run lex_start cur = (q, e) \<Longrightarrow> x \<in> set (split_go q e cur s) \<Longrightarrow>
     x \<noteq> [] \<and> trim x = x \<and> no_split lex_start x"
proof (induction "length s" arbitrary: q e cur s rule: less_induct)
  case less
  have ns: "no_split lex_start cur" using less.prems(1) by (rule uncut_no_split)
  show ?case
  proof (cases s)
    case Nil
    with less.prems(3) ns show ?thesis by (auto dest: push_segment_ok)
  next
    case (Cons c cs)
    show ?thesis
    proof (cases "cuts (q, e) c cs")
      case True
      have "length (after_cut c cs) < length s" using length_after_cut[of c cs] Cons by simp
      from less.hyps[OF this, of "[]" Quote_None False] True less.prems(3) Cons ns
      show ?thesis by (auto simp: split_go_step lex_start_def simp del: split_go.simps dest: push_segment_ok[rotated])
    next
      case False
      obtain q' e' where n: "lex_next (q, e) c = (q', e')" by fastforce
      have "uncut lex_start (cur @ [c]) cs"
        using less.prems(1,2) Cons False by (simp add: uncut_snoc)
      moreover have "lex_run lex_start (cur @ [c]) = (q', e')" using less.prems(2) n by simp
      moreover have "x \<in> set (split_go q' e' (cur @ [c]) cs)"
        using less.prems(3) Cons False n by (simp add: split_go_step del: split_go.simps)
      moreover have "length cs < length s" using Cons by simp
      ultimately show ?thesis using less.hyps by blast
    qed
  qed
qed

lemma split_unquoted_segments_ok:
  "x \<in> set (split_unquoted_segments s) \<Longrightarrow> x \<noteq> [] \<and> trim x = x \<and> no_split lex_start x"
  unfolding split_unquoted_segments_def
  by (rule split_go_segments[where cur = "[]"]) (simp_all add: lex_start_def)

text \<open>Every segment is non-empty, trimmed, and is not cut again by the splitter.\<close>

lemma segment_atomic:
  assumes "x \<in> set (split_unquoted_segments s)"
  shows "split_unquoted_segments x = [x]"
  using split_unquoted_segments_ok[OF assms]
  by (simp add: split_unquoted_segments_def lex_start_def split_go_no_split push_segment_def Let_def)

text \<open>The segments, in order, are a subsequence of the command: nothing is made up.\<close>

lemma subseq_trim: "subseq (trim s) s"
  by (rule sublist_imp_subseq[OF trim_sublist])

lemma subseq_after_cut: "subseq (after_cut c cs) cs"
  by (auto simp: after_cut_def intro: subseq_order.order_trans[OF suffix_imp_subseq] suffix_tl)

lemma split_go_subseq: "subseq (concat (split_go q e cur s)) (cur @ s)"
proof (induction "length s" arbitrary: q e cur s rule: less_induct)
  case less
  have push: "subseq (concat (push_segment cur)) cur"
    by (simp add: push_segment_def Let_def subseq_trim)
  show ?case
  proof (cases s)
    case Nil
    with push show ?thesis by simp
  next
    case (Cons c cs)
    show ?thesis
    proof (cases "cuts (q, e) c cs")
      case True
      have "length (after_cut c cs) < length s" using length_after_cut[of c cs] Cons by simp
      from less.hyps[OF this, of Quote_None False "[]"]
      have "subseq (concat (split_go Quote_None False [] (after_cut c cs))) (c # cs)"
        using subseq_after_cut[of c cs] by (auto intro: subseq_order.order_trans)
      with push True Cons show ?thesis
        by (auto simp: split_go_step simp del: split_go.simps intro: list_emb_append_mono)
    next
      case False
      from less.hyps[of cs "fst (lex_next (q, e) c)" "snd (lex_next (q, e) c)" "cur @ [c]"]
      show ?thesis using Cons False by (simp add: split_go_step del: split_go.simps)
    qed
  qed
qed

lemma segments_subseq: "subseq (concat (split_unquoted_segments s)) s"
  using split_go_subseq[of Quote_None False "[]" s] by (simp add: split_unquoted_segments_def)

text \<open>A command without separators is a single segment.\<close>

lemma no_split_segments:
  "no_split lex_start s \<Longrightarrow> split_unquoted_segments s = push_segment s"
  by (simp add: split_unquoted_segments_def lex_start_def split_go_no_split)

section \<open>The two ampersand searches\<close>

lemma background_single: "background_amp_go q e prev s \<Longrightarrow> single_amp_go q e s"
  by (induction q e prev s rule: background_amp_go.induct) (auto simp: Let_def split: if_splits)

lemma single_background:
  "CHR ''>'' \<notin> set s \<Longrightarrow> prev \<noteq> CHR ''>'' \<Longrightarrow> single_amp_go q e s \<Longrightarrow> background_amp_go q e prev s"
proof (induction q e prev s rule: background_amp_go.induct)
  case (4 e prev c cs)
  then show ?case
    by (cases cs) (auto simp: Let_def split: if_splits)
qed (auto split: if_splits)

lemma background_imp_single:
  "contains_unquoted_background_ampersand s \<Longrightarrow> contains_unquoted_single_ampersand s"
  by (simp add: contains_unquoted_background_ampersand_def contains_unquoted_single_ampersand_def
      background_single)

lemma single_eq_background:
  "CHR ''>'' \<notin> set s \<Longrightarrow>
     contains_unquoted_single_ampersand s = contains_unquoted_background_ampersand s"
  using single_background background_imp_single
  by (auto simp: contains_unquoted_background_ampersand_def contains_unquoted_single_ampersand_def)

end
