(* ===== verification/Command_Class.thy ===== *)
theory Command_Class
  imports Shell_Lexer
begin

text \<open>
  Reading one segment of a command line (\<open>policy_command.rs\<close>): the leading environment
  assignments, the program name, and the fail-closed classification of the segment into a
  \<open>command_class\<close>.
\<close>

section \<open>Environment prefixes\<close>

definition DANGEROUS_ENV_PREFIXES :: "string list" where
  "DANGEROUS_ENV_PREFIXES =
     [''BASH_ENV'', ''BAT_PAGER'', ''BROWSER'', ''DYLD_FORCE_FLAT_NAMESPACE'',
      ''DYLD_INSERT_LIBRARIES'', ''DYLD_LIBRARY_PATH'', ''EDITOR'', ''ENV'', ''GIT_EDITOR'',
      ''GIT_EXTERNAL_DIFF'', ''GIT_EXTERNAL_FILTER'', ''GIT_PAGER'', ''GIT_SSH'',
      ''GIT_SSH_COMMAND'', ''IFS'', ''LD_AUDIT'', ''LD_LIBRARY_PATH'', ''LD_PRELOAD'',
      ''LESS'', ''LESSCLOSE'', ''LESSOPEN'', ''MANOPT'', ''MANPAGER'', ''PAGER'', ''PATH'',
      ''PROMPT_COMMAND'', ''PS1'', ''PS2'', ''PS3'', ''PS4'', ''PYTHONPATH'',
      ''PYTHONSTARTUP'', ''SHELL'', ''VISUAL'']"

definition env_start :: "char \<Rightarrow> bool" where
  "env_start c = (is_ascii_alphabetic c \<or> c = CHR ''_'')"

function dangerous_env_go :: "string \<Rightarrow> bool" where
  "dangerous_env_go rest =
     (case first (split_whitespace rest) of
        None \<Rightarrow> False
      | Some word \<Rightarrow>
          if CHR ''='' \<notin> set word then False
          else if \<not> is_some_and (first word) env_start then False
          else
            (let name = (case split_once (CHR ''='') word of Some (n, _) \<Rightarrow> n | None \<Rightarrow> word);
                 upper = to_ascii_uppercase name
             in if upper \<in> set DANGEROUS_ENV_PREFIXES then True
                else dangerous_env_go (trim_start (drop (length word) rest))))"
  by pat_completeness auto

lemma drop_word_shorter:
  assumes "first (split_whitespace s) = Some w"
  shows "length (trim_start (drop (length w) s)) < length s"
proof -
  have w: "w \<in> set (split_whitespace s)" using assms by (auto simp: first_Some)
  then have "w \<noteq> []" using split_whitespace_words by blast
  moreover have "s \<noteq> []" using w by auto
  ultimately have "length (drop (length w) s) < length s" by simp
  then show ?thesis using trim_start_le[of "drop (length w) s"] by linarith
qed

termination dangerous_env_go
  by (relation "measure length") (auto dest: drop_word_shorter)

declare dangerous_env_go.simps [simp del]

definition has_dangerous_env_prefix :: "string \<Rightarrow> bool" where
  "has_dangerous_env_prefix s = dangerous_env_go (trim_start s)"

definition has_leading_env_assignment :: "string \<Rightarrow> bool" where
  "has_leading_env_assignment s =
     (case first (split_whitespace s) of
        None \<Rightarrow> False
      | Some word \<Rightarrow>
          (case split_once (CHR ''='') word of
             None \<Rightarrow> False
           | Some (name, _) \<Rightarrow>
               (case name of
                  [] \<Rightarrow> False
                | c # chars \<Rightarrow>
                    env_start c \<and>
                    list_all (\<lambda>c. is_ascii_alphanumeric c \<or> c = CHR ''_'') chars)))"

text \<open>
  The slice \<open>rest[word.len()..]\<close> is taken at the start of \<open>rest\<close>; every caller passes a
  trimmed string, so that \<open>word\<close> is a prefix of it (\<open>first_word_prefix\<close>).
\<close>

function skip_env_assignments :: "string \<Rightarrow> string" where
  "skip_env_assignments rest =
     (case first (split_whitespace rest) of
        None \<Rightarrow> rest
      | Some word \<Rightarrow>
          if CHR ''='' \<in> set word \<and> is_some_and (first word) env_start
          then skip_env_assignments (trim_start (drop (length word) rest))
          else rest)"
  by pat_completeness auto
termination
  by (relation "measure length") (auto dest: drop_word_shorter)

declare skip_env_assignments.simps [simp del]

lemma first_word_prefix:
  "trim_start s = s \<Longrightarrow> first (split_whitespace s) = Some w \<Longrightarrow> prefix w s"
  by (auto simp: first_split_whitespace take_word_prefix split: if_splits)

section \<open>Program names\<close>

definition command_basename :: "string \<Rightarrow> string" where
  "command_basename command = last (split_on (\<lambda>ch. ch = CHR ''/'' \<or> ch = BS) command)"

definition normalized_command_name :: "string \<Rightarrow> string" where
  "normalized_command_name command =
     (let command' = to_ascii_lowercase (command_basename command)
      in case strip_suffix ''.exe'' command' of Some c \<Rightarrow> c | None \<Rightarrow> command')"

definition is_python_command :: "string \<Rightarrow> bool" where
  "is_python_command command =
     (let command' = normalized_command_name command in
      command' = ''python'' \<or> command' = ''pythonw'' \<or>
      is_some_and (Option.bind (strip_prefix ''pythonw'' command') first) is_ascii_digit \<or>
      is_some_and (Option.bind (strip_prefix ''python'' command') first) is_ascii_digit)"

definition command_executors :: "string list" where
  "command_executors =
     [''xargs'', ''awk'', ''gawk'', ''mawk'', ''nawk'', ''perl'', ''ruby'', ''bash'', ''sh'',
      ''dash'', ''zsh'', ''ksh'', ''fish'', ''env'', ''node'', ''nodejs'', ''deno'', ''bun'',
      ''iex'', ''invoke-expression'', ''cmd'', ''pwsh'', ''powershell'', ''wscript'',
      ''cscript'', ''mshta'', ''rundll32'', ''start-process'']"

definition is_command_executor :: "string \<Rightarrow> bool" where
  "is_command_executor command =
     (let command' = normalized_command_name command
      in is_python_command command' \<or> command' \<in> set command_executors)"

section \<open>Classification of a segment\<close>

definition READ_ONLY_BASES :: "string list" where
  "READ_ONLY_BASES =
     [''ls'', ''cat'', ''pwd'', ''echo'', ''wc'', ''head'', ''tail'', ''date'', ''grep'',
      ''egrep'', ''fgrep'', ''rg'', ''which'', ''whoami'', ''id'', ''hostname'', ''uname'',
      ''printenv'', ''stat'', ''file'', ''du'', ''df'', ''tree'', ''realpath'', ''readlink'',
      ''dirname'', ''basename'', ''cmp'', ''true'', ''false'', ''sleep'', ''seq'', ''tty'',
      ''groups'', ''locale'', ''ps'', ''top'', ''free'', ''uptime'', ''lsblk'', ''lscpu'',
      ''cut'', ''dir'', ''type'', ''where'', ''whereis'', ''get-childitem'', ''gci'',
      ''get-content'', ''gc'', ''get-location'', ''gl'', ''select-string'', ''sls'',
      ''measure-object'', ''get-item'', ''gi'', ''test-path'', ''resolve-path'',
      ''get-command'', ''gcm'', ''get-process'']"

definition NETWORK_BASES :: "string list" where
  "NETWORK_BASES =
     [''curl'', ''wget'', ''ssh'', ''scp'', ''sftp'', ''rsync'', ''nc'', ''ncat'', ''netcat'',
      ''telnet'', ''ftp'', ''tftp'', ''socat'', ''invoke-webrequest'', ''iwr'',
      ''invoke-restmethod'', ''irm'', ''start-bitstransfer'', ''bitsadmin'']"

definition DESTRUCTIVE_BASES :: "string list" where
  "DESTRUCTIVE_BASES =
     [''sudo'', ''su'', ''doas'', ''dd'', ''mkfs'', ''fdisk'', ''sfdisk'', ''parted'',
      ''wipefs'', ''shred'', ''shutdown'', ''reboot'', ''halt'', ''poweroff'', ''init'',
      ''telinit'', ''mount'', ''umount'', ''swapoff'', ''iptables'', ''ip6tables'', ''nft'',
      ''ufw'', ''firewall-cmd'', ''useradd'', ''userdel'', ''usermod'', ''groupadd'',
      ''groupdel'', ''passwd'', ''chpasswd'', ''visudo'', ''modprobe'', ''insmod'', ''rmmod'',
      ''format'', ''diskpart'', ''bcdedit'', ''takeown'', ''cipher'', ''vssadmin'', ''reg'',
      ''regedit'', ''runas'', ''sc'', ''net'', ''set-executionpolicy'', ''stop-computer'',
      ''restart-computer'', ''clear-disk'', ''format-volume'', ''remove-partition'',
      ''disable-computerrestore'']"

definition GIT_READ_VERBS :: "string list" where
  "GIT_READ_VERBS =
     [''status'', ''log'', ''diff'', ''show'', ''remote'', ''describe'', ''blame'',
      ''ls-files'', ''ls-tree'', ''rev-parse'', ''cat-file'', ''shortlog'', ''reflog'',
      ''rev-list'', ''name-rev'', ''var'', ''check-ignore'', ''check-attr'', ''verify-commit'',
      ''count-objects'', ''fsck'', ''whatchanged'', ''grep'', ''version'', ''help'']"

definition NODE_PKG_READ_VERBS :: "string list" where
  "NODE_PKG_READ_VERBS =
     [''ls'', ''list'', ''view'', ''info'', ''outdated'', ''ping'', ''whoami'', ''help'',
      ''why'', ''audit'', ''doctor'']"

definition CARGO_READ_VERBS :: "string list" where
  "CARGO_READ_VERBS =
     [''tree'', ''metadata'', ''search'', ''info'', ''version'', ''help'']"

definition is_pacman_install :: "string list \<Rightarrow> bool" where
  "is_pacman_install args =
     list_ex (\<lambda>a. is_some_and (strip_prefix ''-s'' a)
                  (\<lambda>modifiers. \<not> list_ex (\<lambda>c. c \<in> set ''silgp'') modifiers)) args"

definition is_install_command :: "string \<Rightarrow> string list \<Rightarrow> bool" where
  "is_install_command base args =
     (let has = (\<lambda>needle. needle \<in> set args);
          first_is = (\<lambda>verb. first args = Some verb)
      in if base \<in> set [''apt'', ''apt-get'', ''dnf'', ''yum'', ''zypper''] then has ''install''
         else if base = ''pacman'' then is_pacman_install args
         else if base = ''apk'' then has ''add''
         else if base \<in> set [''brew'', ''snap'', ''flatpak'', ''winget'', ''choco'', ''scoop'']
         then has ''install''
         else if base \<in> set [''pip'', ''pip3'', ''pipx'', ''gem'', ''go'', ''cargo'']
         then first_is ''install''
         else if base \<in> set [''npm'', ''pnpm'']
         then (has ''install'' \<or> has ''i'' \<or> has ''add'') \<and> (has ''-g'' \<or> has ''--global'')
         else if base = ''yarn'' then has ''global''
         else False)"

definition verb_class :: "string list \<Rightarrow> string list \<Rightarrow> command_class" where
  "verb_class args read_verbs =
     (case first args of
        Some verb \<Rightarrow> if verb \<in> set read_verbs then Class_Read else Class_Write
      | None \<Rightarrow> Class_Write)"

definition catastrophic_pattern :: "string \<Rightarrow> bool" where
  "catastrophic_pattern joined =
     (sublist ''rm -rf /'' joined \<or> sublist ''rm -fr /'' joined \<or>
      sublist '':(){:|:&};:'' joined)"

definition classify_segment :: "string \<Rightarrow> string list \<Rightarrow> string \<Rightarrow> command_class" where
  "classify_segment base args joined =
     (if catastrophic_pattern joined then Class_Destructive
      else if base \<in> set DESTRUCTIVE_BASES then Class_Destructive
      else if base \<in> set NETWORK_BASES then Class_Network
      else if is_install_command base args then Class_Install
      else if is_command_executor base then Class_Write
      else if base = ''find'' then
        (if list_ex (\<lambda>a. a \<in> set [''-exec'', ''-execdir'', ''-ok'', ''-okdir'', ''-delete'']) args
         then Class_Write else Class_Read)
      else if base = ''git'' then verb_class args GIT_READ_VERBS
      else if base \<in> set [''npm'', ''pnpm'', ''yarn''] then verb_class args NODE_PKG_READ_VERBS
      else if base = ''cargo'' then verb_class args CARGO_READ_VERBS
      else if base \<in> set READ_ONLY_BASES then Class_Read
      else Class_Write)"

text \<open>
  \<open>has_hidden_execution\<close>: constructs that run a command the classifier does not see.
\<close>

definition has_hidden_execution :: "string \<Rightarrow> bool" where
  "has_hidden_execution command =
     (CHR 0x60 \<in> set command \<or> sublist ''$('' command \<or> sublist ''<('' command \<or>
      sublist ''>('' command \<or> contains_unquoted_background_ampersand command)"

end
