(* ===== verification/Command_Checks.thy ===== *)
theory Command_Checks
  imports Command_Class
begin

text \<open>
  The command side of the security policy (\<open>command_checks.rs\<close>): risk level, class of a
  whole command line, the gate matrix, the check of a gated command, the allowlist and its
  argument rules, and the full validation of a command.  Every \<open>Err\<close> is a constructor of
  \<open>command_error\<close>, with its text in \<open>command_error_text\<close>.
\<close>

section \<open>Risk and class of a command line\<close>

definition high_risk_bases :: "string list" where
  "high_risk_bases =
     [''mkfs'', ''dd'', ''shutdown'', ''reboot'', ''halt'', ''poweroff'', ''sudo'', ''su'',
      ''mount'', ''umount'', ''iptables'', ''ufw'', ''firewall-cmd'', ''useradd'', ''userdel'',
      ''usermod'', ''passwd'']"

definition git_medium_verbs :: "string list" where
  "git_medium_verbs =
     [''commit'', ''push'', ''reset'', ''clean'', ''rebase'', ''merge'', ''cherry-pick'',
      ''revert'', ''branch'', ''checkout'', ''switch'', ''tag'']"

definition node_medium_verbs :: "string list" where
  "node_medium_verbs =
     [''install'', ''add'', ''remove'', ''uninstall'', ''update'', ''publish'']"

definition cargo_medium_verbs :: "string list" where
  "cargo_medium_verbs =
     [''add'', ''remove'', ''install'', ''clean'', ''publish'']"

definition medium_bases :: "string list" where
  "medium_bases =
     [''touch'', ''mkdir'', ''mv'', ''cp'', ''ln'', ''rm'', ''chmod'', ''chown'', ''curl'',
      ''wget'', ''nc'', ''ncat'', ''netcat'', ''scp'', ''ssh'', ''ftp'', ''telnet'']"

definition medium_risk :: "string \<Rightarrow> string list \<Rightarrow> bool" where
  "medium_risk base args =
     ((if base = ''git'' then is_some_and (first args) (\<lambda>verb. verb \<in> set git_medium_verbs)
       else if base \<in> set [''npm'', ''pnpm'', ''yarn'']
       then is_some_and (first args) (\<lambda>verb. verb \<in> set node_medium_verbs)
       else if base = ''cargo''
       then is_some_and (first args) (\<lambda>verb. verb \<in> set cargo_medium_verbs)
       else base \<in> set medium_bases) \<or> is_command_executor base)"

fun risk_go :: "bool \<Rightarrow> string list \<Rightarrow> risk_level" where
  "risk_go saw_medium [] = (if saw_medium then Risk_Medium else Risk_Low)"
| "risk_go saw_medium (segment # segments) =
     (let cmd_part = skip_env_assignments segment
      in case split_whitespace cmd_part of
           [] \<Rightarrow> risk_go saw_medium segments
         | base_raw # words \<Rightarrow>
             (let base = normalized_command_name base_raw;
                  args = map to_ascii_lowercase words;
                  joined_segment = to_ascii_lowercase cmd_part
              in if base \<in> set high_risk_bases then Risk_High
                 else if catastrophic_pattern joined_segment then Risk_High
                 else risk_go (saw_medium \<or> medium_risk base args) segments))"

definition command_risk_level :: "string \<Rightarrow> risk_level" where
  "command_risk_level command = risk_go False (split_unquoted_segments command)"

text \<open>The class of one segment, or \<open>None\<close> where the loop continues.\<close>

definition segment_class :: "string \<Rightarrow> command_class option" where
  "segment_class segment =
     (let cmd_part = skip_env_assignments segment
      in case split_whitespace cmd_part of
           [] \<Rightarrow> None
         | base_raw # words \<Rightarrow>
             Some (classify_segment (normalized_command_name base_raw)
                     (map to_ascii_lowercase words) (to_ascii_lowercase cmd_part)))"

definition class_step :: "command_class \<Rightarrow> string \<Rightarrow> command_class" where
  "class_step class segment =
     (case segment_class segment of None \<Rightarrow> class | Some c \<Rightarrow> max class c)"

definition mentions_tee :: "string \<Rightarrow> bool" where
  "mentions_tee command = list_ex (\<lambda>w. w = ''tee'' \<or> suffix ''/tee'' w) (split_whitespace command)"

definition classify_command :: "string \<Rightarrow> command_class" where
  "classify_command command =
     (let class = foldl class_step Class_Read (split_unquoted_segments command)
      in if contains_unquoted_char command (CHR ''>'') \<or> mentions_tee command
         then max class Class_Write else class)"

section \<open>The gate\<close>

fun gate_matrix :: "autonomy_level \<Rightarrow> command_class \<Rightarrow> gate_decision" where
  "gate_matrix ReadOnly class =
     (case class of Class_Read \<Rightarrow> Gate_Allow | _ \<Rightarrow> Gate_Block)"
| "gate_matrix Supervised class =
     (case class of Class_Read \<Rightarrow> Gate_Allow | _ \<Rightarrow> Gate_Prompt)"
| "gate_matrix Full class =
     (case class of Class_Read \<Rightarrow> Gate_Allow | Class_Write \<Rightarrow> Gate_Allow
      | Class_Network \<Rightarrow> Gate_Prompt | Class_Install \<Rightarrow> Gate_Prompt
      | Class_Destructive \<Rightarrow> Gate_Prompt)"

definition gate_decision_of :: "security_policy \<Rightarrow> command_class \<Rightarrow> gate_decision" where
  "gate_decision_of policy class = gate_matrix (autonomy policy) class"

datatype command_error =
    Err_ReadOnlyMode
  | Err_HiddenExecution
  | Err_NotAllowed string
  | Err_HighRiskBlocked
  | Err_HighRiskApproval
  | Err_MediumRiskApproval

definition check_gated_command :: "security_policy \<Rightarrow> string \<Rightarrow> command_error + command_class" where
  "check_gated_command policy command =
     (let class = classify_command command
      in if gate_decision_of policy class = Gate_Block then Inl Err_ReadOnlyMode
         else if autonomy policy \<noteq> Full \<and> has_hidden_execution command
         then Inl Err_HiddenExecution
         else Inr class)"

definition parse_declared_class :: "string \<Rightarrow> command_class option" where
  "parse_declared_class declared =
     (let d = to_ascii_lowercase (trim declared)
      in if d = ''read'' then Some Class_Read
         else if d = ''write'' then Some Class_Write
         else if d = ''network'' then Some Class_Network
         else if d = ''install'' then Some Class_Install
         else if d = ''destructive'' then Some Class_Destructive
         else None)"

section \<open>The allowlist\<close>

definition is_args_safe :: "string \<Rightarrow> string list \<Rightarrow> bool" where
  "is_args_safe base_arg args =
     (let base = to_ascii_lowercase base_arg
      in if is_command_executor base then False
         else if base = ''find'' then
           \<not> list_ex (\<lambda>arg. arg \<in> set [''-exec'', ''-ok'', ''-execdir'', ''-okdir'']) args
         else if base = ''git'' then
           \<not> list_ex (\<lambda>arg. arg = ''config'' \<or> prefix ''config.'' arg \<or> arg = ''alias'' \<or>
                        prefix ''alias.'' arg \<or> arg = ''-c'') args
         else if base = ''date'' then args = []
         else True)"

definition segment_allowed :: "security_policy \<Rightarrow> string \<Rightarrow> bool" where
  "segment_allowed policy segment =
     (if has_leading_env_assignment segment \<or> has_dangerous_env_prefix segment then False
      else
        (let words = split_whitespace (skip_env_assignments segment);
             base_raw = (case words of [] \<Rightarrow> [] | w # _ \<Rightarrow> w);
             base_cmd = command_basename base_raw
         in if base_cmd = [] then True
            else if base_cmd \<notin> set (allowed_commands policy) then False
            else is_args_safe base_cmd (map to_ascii_lowercase (tl words))))"

definition segment_has_cmd :: "string \<Rightarrow> bool" where
  "segment_has_cmd s =
     is_some_and (first (split_whitespace (skip_env_assignments (trim s)))) (\<lambda>w. w \<noteq> [])"

definition is_command_allowed :: "security_policy \<Rightarrow> string \<Rightarrow> bool" where
  "is_command_allowed policy command =
     (if autonomy policy = ReadOnly then False
      else if autonomy policy = Full then True
      else if CHR 0x60 \<in> set command \<or> sublist ''$('' command \<or> sublist ''${'' command \<or>
              sublist ''<('' command \<or> sublist ''>('' command then False
      else if contains_unquoted_char command (CHR ''>'') then False
      else if mentions_tee command then False
      else if contains_unquoted_single_ampersand command then False
      else
        (let segments = split_unquoted_segments command
         in list_all (segment_allowed policy) segments \<and> list_ex segment_has_cmd segments))"

definition validate_command_execution ::
  "security_policy \<Rightarrow> string \<Rightarrow> bool \<Rightarrow> command_error + risk_level" where
  "validate_command_execution policy command approved =
     (if \<not> is_command_allowed policy command
      then Inl (Err_NotAllowed (take (floor_char_boundary command 80) command))
      else
        (let risk = command_risk_level command
         in if risk = Risk_High \<and> block_high_risk_commands policy then Inl Err_HighRiskBlocked
            else if risk = Risk_High \<and> autonomy policy = Supervised \<and> \<not> approved
            then Inl Err_HighRiskApproval
            else if risk = Risk_Medium \<and> autonomy policy = Supervised \<and>
                    require_approval_for_medium_risk policy \<and> \<not> approved
            then Inl Err_MediumRiskApproval
            else Inr risk))"

section \<open>Error texts\<close>

fun command_error_text :: "command_error \<Rightarrow> string" where
  "command_error_text Err_ReadOnlyMode =
     POLICY_BLOCKED_MARKER @ '' Security policy: read-only mode '' @ em_dash @
     '' only read commands are permitted. Do not retry this command; use a read-only approach '' @
     ''or report that it cannot be done in this mode.''"
| "command_error_text Err_HiddenExecution =
     POLICY_BLOCKED_MARKER @ '' Command blocked: command/process substitution ($('' @ ellipsis @
     ''), <('' @ ellipsis @ '')), backticks, and background (&) are not allowed in this mode '' @
     em_dash @ '' they can run a hidden command the approval prompt wouldn'' @ [SQ] @
     ''t show. Plain redirects like '' @ [CHR 0x60] @ ''2>&1'' @ [CHR 0x60] @ '' are fine. Do not retry as-is; rewrite the command '' @
     ''without these constructs.''"
| "command_error_text (Err_NotAllowed truncated) =
     POLICY_BLOCKED_MARKER @ '' Command not allowed by security policy: '' @ truncated @
     ''. Do not retry this command; it is off the allowlist for this mode.''"
| "command_error_text Err_HighRiskBlocked =
     POLICY_BLOCKED_MARKER @ '' Command blocked: high-risk command is disallowed by policy. Do '' @
     ''not retry this command; choose a safer approach or report that it cannot be done.''"
| "command_error_text Err_HighRiskApproval =
     ''Command requires explicit approval (approved=true): high-risk operation''"
| "command_error_text Err_MediumRiskApproval =
     ''Command requires explicit approval (approved=true): medium-risk operation''"

end
