(* ===== verification/Enforcement.thy ===== *)
theory Enforcement
  imports Policy_Types
begin

text \<open>
  Autonomy and rate limit (\<open>src/openhuman/security/policy/enforcement.rs\<close>): whether a tool
  operation may run, what it costs of the hourly budget, and how the policy is built from
  the configuration.  The clock reads of an operation are arguments; the operations that
  change the tracker return the policy with its new state.
\<close>

section \<open>Enforcing a tool operation\<close>

definition can_act :: "security_policy \<Rightarrow> bool" where
  "can_act p = (autonomy p \<noteq> ReadOnly)"

definition record_action :: "instant \<Rightarrow> reads \<Rightarrow> security_policy \<Rightarrow> bool \<times> security_policy" where
  "record_action lo r p =
     (let (n, actions) = tracker_record lo r (tracker p)
      in (n \<le> unat (max_actions_per_hour p), p\<lparr>tracker := actions\<rparr>))"

definition is_rate_limited :: "instant \<Rightarrow> reads \<Rightarrow> security_policy \<Rightarrow> bool \<times> security_policy" where
  "is_rate_limited lo r p =
     (let (n, actions) = tracker_count lo r (tracker p)
      in (unat (max_actions_per_hour p) \<le> n, p\<lparr>tracker := actions\<rparr>))"

datatype policy_error = Read_Only_Mode string | Rate_Limit_Exceeded "32 word"

fun policy_error_text :: "policy_error \<Rightarrow> string" where
  "policy_error_text (Read_Only_Mode operation_name) =
     POLICY_BLOCKED_MARKER @ '' Security policy: read-only mode, cannot perform '' @ [CHR 0x27] @
     operation_name @ [CHR 0x27] @ ''. Do not retry; this tier blocks all write actions.''"
| "policy_error_text (Rate_Limit_Exceeded n) =
     ''Rate limit exceeded: action budget exhausted ('' @ dec_nat (unat n) @
     '' actions/hour). Increase the limit in Settings -> Advanced -> Agent autonomy or wait for the rolling one-hour window to refill.''"

text \<open>
  The last branch logs the current count at debug level, which prunes the tracker once more
  when that level is enabled: \<open>dbg\<close> holds the clock reads of that call, if it is made.
\<close>

fun log_count :: "instant \<Rightarrow> reads option \<Rightarrow> security_policy \<Rightarrow> security_policy" where
  "log_count lo None p = p"
| "log_count lo (Some r) p = p\<lparr>tracker := snd (tracker_count lo r (tracker p))\<rparr>"

fun enforce_tool_operation ::
    "instant \<Rightarrow> reads \<Rightarrow> reads option \<Rightarrow> tool_operation \<Rightarrow> string \<Rightarrow> security_policy \<Rightarrow>
     (policy_error + unit) \<times> security_policy" where
  "enforce_tool_operation lo r dbg Op_Read operation_name p = (Inr (), p)"
| "enforce_tool_operation lo r dbg Op_Act operation_name p =
     (if \<not> can_act p then (Inl (Read_Only_Mode operation_name), p)
      else let (allowed, p') = record_action lo r p
           in if \<not> allowed then (Inl (Rate_Limit_Exceeded (max_actions_per_hour p')), p')
              else (Inr (), log_count lo dbg p'))"

section \<open>Building the policy from the configuration\<close>

record autonomy_config =
  cfg_level :: autonomy_level
  cfg_workspace_only :: bool
  cfg_allowed_commands :: "string list"
  cfg_forbidden_paths :: "string list"
  cfg_max_actions_per_hour :: "32 word"
  cfg_max_cost_per_day_cents :: "32 word"
  cfg_require_approval_for_medium_risk :: bool
  cfg_block_high_risk_commands :: bool
  cfg_auto_approve :: "string list"
  cfg_trusted_roots :: "trusted_root list"
  cfg_allow_tool_install :: bool
  cfg_require_task_plan_approval :: bool

definition openhuman_scratch_dir :: string where
  "openhuman_scratch_dir = ''/tmp/openhuman''"

text \<open>
  What the file system answers while the scratch directory is prepared: whether
  \<open>create_dir_all\<close> succeeds, what \<open>symlink_metadata\<close> finds (\<open>None\<close> when it fails), and
  whether \<open>set_permissions\<close> succeeds.
\<close>

datatype file_kind = Kind_Directory | Kind_File | Kind_Symlink

record scratch_probe =
  created :: bool
  metadata :: "file_kind option"
  hardened :: bool

definition ensure_openhuman_scratch_dir :: "scratch_probe \<Rightarrow> string option" where
  "ensure_openhuman_scratch_dir fs =
     (if \<not> created fs then None
      else case metadata fs of
        None \<Rightarrow> None
      | Some kind \<Rightarrow>
          if kind = Kind_Symlink \<or> kind \<noteq> Kind_Directory then None
          else if \<not> hardened fs then None
          else Some openhuman_scratch_dir)"

definition grant_read_write :: "string \<Rightarrow> trusted_root list \<Rightarrow> trusted_root list" where
  "grant_read_write path roots =
     (if list_ex (\<lambda>r. tr_path r = path) roots then roots
      else roots @ [\<lparr>tr_path = path, tr_access = Access_ReadWrite\<rparr>])"

definition from_config ::
    "string \<Rightarrow> scratch_probe \<Rightarrow> autonomy_config \<Rightarrow> string \<Rightarrow> string \<Rightarrow> security_policy" where
  "from_config projects_dir fs cfg workspace action =
     (let roots = grant_read_write projects_dir (cfg_trusted_roots cfg);
          roots' = (case ensure_openhuman_scratch_dir fs of
                      Some scratch \<Rightarrow> grant_read_write scratch roots
                    | None \<Rightarrow> roots)
      in \<lparr>autonomy = cfg_level cfg, workspace_dir = workspace, action_dir = action,
          workspace_only = cfg_workspace_only cfg, allowed_commands = cfg_allowed_commands cfg,
          forbidden_paths = cfg_forbidden_paths cfg,
          max_actions_per_hour = cfg_max_actions_per_hour cfg,
          max_cost_per_day_cents = cfg_max_cost_per_day_cents cfg,
          require_approval_for_medium_risk = cfg_require_approval_for_medium_risk cfg,
          block_high_risk_commands = cfg_block_high_risk_commands cfg,
          trusted_roots = roots', allow_tool_install = cfg_allow_tool_install cfg,
          auto_approve = cfg_auto_approve cfg, tracker = []\<rparr>)"

section \<open>Sequences of calls on one policy\<close>

text \<open>
  The tracker's lock makes each of its operations atomic, so a run is a sequence of calls.
  \<open>accepted\<close> lists the entries of the calls that were let through, \<open>pushes\<close> those of all
  calls that reached the tracker.
\<close>

datatype policy_call =
  Call_Enforce tool_operation string reads "reads option"
| Call_Limited reads

fun run_call :: "instant \<Rightarrow> security_policy \<Rightarrow> policy_call \<Rightarrow> security_policy" where
  "run_call lo p (Call_Enforce op name r dbg) = snd (enforce_tool_operation lo r dbg op name p)"
| "run_call lo p (Call_Limited r) = snd (is_rate_limited lo r p)"

fun accepted_by :: "instant \<Rightarrow> security_policy \<Rightarrow> policy_call \<Rightarrow> instant list" where
  "accepted_by lo p (Call_Enforce Op_Act name r dbg) =
     (if fst (enforce_tool_operation lo r dbg Op_Act name p) = Inr () then [pushed_at r] else [])"
| "accepted_by lo p _ = []"

fun accepted :: "instant \<Rightarrow> security_policy \<Rightarrow> policy_call list \<Rightarrow> instant list" where
  "accepted lo p [] = []"
| "accepted lo p (c # cs) = accepted_by lo p c @ accepted lo (run_call lo p c) cs"

fun attempted_by :: "policy_call \<Rightarrow> instant list" where
  "attempted_by (Call_Enforce Op_Act name r dbg) = [pushed_at r]"
| "attempted_by _ = []"

fun list_reads :: "reads \<Rightarrow> instant list" where
  "list_reads (a, b, c) = [a, b, c]"

fun call_reads :: "policy_call \<Rightarrow> instant list" where
  "call_reads (Call_Enforce op name r None) = list_reads r"
| "call_reads (Call_Enforce op name r (Some r')) = list_reads r @ list_reads r'"
| "call_reads (Call_Limited r) = list_reads r"

definition all_reads :: "policy_call list \<Rightarrow> instant list" where
  "all_reads cs = concat (map call_reads cs)"

definition run_calls :: "instant \<Rightarrow> security_policy \<Rightarrow> policy_call list \<Rightarrow> security_policy" where
  "run_calls lo p cs = foldl (run_call lo) p cs"

lemma run_calls_simps [simp]:
  "run_calls lo p [] = p"
  "run_calls lo p (cs @ [c]) = run_call lo (run_calls lo p cs) c"
  by (simp_all add: run_calls_def)

lemma accepted_append [simp]:
  "accepted lo p (cs @ ds) = accepted lo p cs @ accepted lo (run_calls lo p cs) ds"
  by (induction cs arbitrary: p) (simp_all add: run_calls_def)

lemma all_reads_simps [simp]:
  "all_reads [] = []"
  "all_reads (cs @ ds) = all_reads cs @ all_reads ds"
  "all_reads (c # cs) = call_reads c @ all_reads cs"
  by (simp_all add: all_reads_def)

definition attempted :: "policy_call list \<Rightarrow> instant list" where
  "attempted cs = concat (map attempted_by cs)"

lemma attempted_simps [simp]:
  "attempted [] = []"
  "attempted (cs @ ds) = attempted cs @ attempted ds"
  "attempted (c # cs) = attempted_by c @ attempted cs"
  by (simp_all add: attempted_def)

lemma run_call_keeps [simp]:
  "autonomy (run_call lo p c) = autonomy p"
  "max_actions_per_hour (run_call lo p c) = max_actions_per_hour p"
  by (cases c; cases "case c of Call_Enforce op n r d \<Rightarrow> op | _ \<Rightarrow> Op_Read";
      cases "case c of Call_Enforce op n r d \<Rightarrow> d | _ \<Rightarrow> None";
      simp add: is_rate_limited_def record_action_def tracker_record_def tracker_count_def Let_def)+

lemma run_calls_keeps [simp]:
  "autonomy (run_calls lo p cs) = autonomy p"
  "max_actions_per_hour (run_calls lo p cs) = max_actions_per_hour p"
  by (induction cs rule: rev_induct) simp_all

section \<open>The window\<close>









lemma accepted_can_act: "\<not> can_act p \<Longrightarrow> accepted lo p cs = []"
proof (induction cs arbitrary: p)
  case (Cons c cs)
  have "\<not> can_act (run_call lo p c)" using Cons.prems by (simp add: can_act_def)
  moreover have "accepted_by lo p c = []"
    using Cons.prems by (cases "(lo, p, c)" rule: accepted_by.cases) auto
  ultimately show ?case using Cons.IH by simp
qed simp


lemma grant_read_write_appends:
  "\<exists>e. grant_read_write path roots = roots @ e \<and>
     (e = [] \<or> e = [\<lparr>tr_path = path, tr_access = Access_ReadWrite\<rparr>] \<and> path \<notin> tr_path ` set roots)"
  by (auto simp: grant_read_write_def list_ex_iff image_iff)

section \<open>Properties\<close>



text \<open>The probe and the recorder agree: on the same clock reads \<open>is_rate_limited\<close>
  answers true exactly when \<open>record_action\<close> would refuse; and a refused action is charged
  as well, it stays in the tracker and counts against later ones.\<close>

theorem rate_probe_agrees:
  "(fst (is_rate_limited lo r p) \<longleftrightarrow> \<not> fst (record_action lo r p)) \<and>
   tracker (snd (record_action lo r p)) = tracker (snd (is_rate_limited lo r p)) @ [pushed_at r]"
  by (auto simp: is_rate_limited_def record_action_def tracker_count_def tracker_record_def Let_def)

text \<open>The configuration grants nothing beyond the user's roots: the policy's trusted
  roots are the configured ones followed by at most the projects directory and the scratch
  directory; a path the user configured keeps the access the user gave it; and the scratch
  directory is only added when it was prepared as a real, hardened directory.\<close>

theorem from_config_grants:
  "\<exists>extra. trusted_roots (from_config pd fs cfg ws act) = cfg_trusted_roots cfg @ extra \<and>
     distinct (map tr_path extra) \<and>
     list_all (\<lambda>r. tr_access r = Access_ReadWrite \<and>
         tr_path r \<notin> tr_path ` set (cfg_trusted_roots cfg) \<and>
         (tr_path r = pd \<or>
          tr_path r = openhuman_scratch_dir \<and>
            created fs \<and> metadata fs = Some Kind_Directory \<and> hardened fs)) extra"
proof -
  let ?roots = "cfg_trusted_roots cfg"
  obtain e1 where e1: "grant_read_write pd ?roots = ?roots @ e1"
      "e1 = [] \<or> e1 = [\<lparr>tr_path = pd, tr_access = Access_ReadWrite\<rparr>] \<and> pd \<notin> tr_path ` set ?roots"
    using grant_read_write_appends by blast
  show ?thesis
  proof (cases "ensure_openhuman_scratch_dir fs")
    case None
    then show ?thesis using e1 by (auto simp: from_config_def Let_def intro!: exI[of _ e1])
  next
    case (Some d)
    then have d: "d = openhuman_scratch_dir" "created fs" "metadata fs = Some Kind_Directory" "hardened fs"
      by (auto simp: ensure_openhuman_scratch_dir_def split: if_splits option.splits file_kind.splits)
    obtain e2 where e2: "grant_read_write d (?roots @ e1) = ?roots @ e1 @ e2"
        "e2 = [] \<or> e2 = [\<lparr>tr_path = d, tr_access = Access_ReadWrite\<rparr>] \<and> d \<notin> tr_path ` set (?roots @ e1)"
      using grant_read_write_appends[of d "?roots @ e1"] by auto
    then show ?thesis using Some d e1
      by (auto simp: from_config_def Let_def intro!: exI[of _ "e1 @ e2"])
  qed
qed

section \<open>Behaviour worth knowing\<close>

text \<open>
  Where the platform's least instant is less than an hour before the present (a clock that
  counts from boot, on a machine booted less than an hour ago), the cutoff is the present
  itself: every earlier entry is dropped and the budget never refuses anybody.
\<close>

theorem young_clock_forgets:
  assumes "now - hour < lo" "sorted (list_reads (now, fb, t))" "\<forall>a \<in> set (tracker p). a \<le> now"
  shows "tracker (snd (record_action lo (now, fb, t) p)) = [t]"
  using assms
  by (auto simp: record_action_def tracker_record_def tracker_retain_def pushed_at_def Let_def
      intro!: filter_False)

end
