(* ===== verification/Queue_Types.thy ===== *)
theory Queue_Types
  imports Rust_Str "HOL-Library.Word"
begin

text \<open>
  The vocabulary of the memory job queue (\<open>src/openhuman/memory_queue/types.rs\<close>) and of the
  failures its jobs can have (\<open>src/openhuman/memory_tree/health/mod.rs\<close>): job kinds and
  statuses with their wire strings, payloads with their deduplication keys, and the
  classification of an embedding error into a retryable or a terminal cause.
\<close>

section \<open>Kinds and statuses\<close>

datatype job_kind =
  Kind_ExtractChunk | Kind_AppendBuffer | Kind_Seal | Kind_FlushStale
| Kind_ReembedBackfill | Kind_SealDocument

datatype job_status =
  Status_Ready | Status_Running | Status_Done | Status_Failed | Status_Cancelled

datatype queue_error =
  Retired_Kind string | Unknown_Kind string | Unknown_Status string
| Unique_Violation | Json_Error

fun kind_as_str :: "job_kind \<Rightarrow> string" where
  "kind_as_str Kind_ExtractChunk = ''extract_chunk''"
| "kind_as_str Kind_AppendBuffer = ''append_buffer''"
| "kind_as_str Kind_Seal = ''seal''"
| "kind_as_str Kind_FlushStale = ''flush_stale''"
| "kind_as_str Kind_ReembedBackfill = ''reembed_backfill''"
| "kind_as_str Kind_SealDocument = ''seal_document''"

definition parse_kind :: "string \<Rightarrow> queue_error + job_kind" where
  "parse_kind s =
     (if s = ''extract_chunk'' then Inr Kind_ExtractChunk
      else if s = ''append_buffer'' then Inr Kind_AppendBuffer
      else if s = ''seal'' then Inr Kind_Seal
      else if s = ''flush_stale'' then Inr Kind_FlushStale
      else if s = ''topic_route'' \<or> s = ''digest_daily'' then Inl (Retired_Kind s)
      else if s = ''reembed_backfill'' then Inr Kind_ReembedBackfill
      else if s = ''seal_document'' then Inr Kind_SealDocument
      else Inl (Unknown_Kind s))"

fun is_llm_bound :: "job_kind \<Rightarrow> bool" where
  "is_llm_bound Kind_ExtractChunk = True"
| "is_llm_bound Kind_Seal = True"
| "is_llm_bound Kind_ReembedBackfill = True"
| "is_llm_bound Kind_SealDocument = True"
| "is_llm_bound Kind_AppendBuffer = False"
| "is_llm_bound Kind_FlushStale = False"

fun status_as_str :: "job_status \<Rightarrow> string" where
  "status_as_str Status_Ready = ''ready''"
| "status_as_str Status_Running = ''running''"
| "status_as_str Status_Done = ''done''"
| "status_as_str Status_Failed = ''failed''"
| "status_as_str Status_Cancelled = ''cancelled''"

definition parse_status :: "string \<Rightarrow> queue_error + job_status" where
  "parse_status s =
     (if s = ''ready'' then Inr Status_Ready
      else if s = ''running'' then Inr Status_Running
      else if s = ''done'' then Inr Status_Done
      else if s = ''failed'' then Inr Status_Failed
      else if s = ''cancelled'' then Inr Status_Cancelled
      else Inl (Unknown_Status s))"

fun status_is_terminal :: "job_status \<Rightarrow> bool" where
  "status_is_terminal Status_Done = True"
| "status_is_terminal Status_Failed = True"
| "status_is_terminal Status_Cancelled = True"
| "status_is_terminal Status_Ready = False"
| "status_is_terminal Status_Running = False"

datatype job_outcome = Outcome_Done | Outcome_Defer int string

section \<open>Payloads\<close>

datatype node_ref = Node_Leaf string | Node_Summary string

fun dedupe_fragment :: "node_ref \<Rightarrow> string" where
  "dedupe_fragment (Node_Leaf chunk_id) = ''leaf:'' @ chunk_id"
| "dedupe_fragment (Node_Summary summary_id) = ''summary:'' @ summary_id"

datatype append_target = Target_Source string | Target_Topic string

text \<open>
  The six payload structs.  The date and the three-hour block of a flush are arguments of its
  constructor in the source and part of the value here.
\<close>

datatype payload =
  Extract_Chunk_Payload string
| Append_Buffer_Payload node_ref append_target
| Seal_Payload string "32 word" "int option"
| Flush_Stale_Payload "int option" string "32 word"
| Reembed_Backfill_Payload string
| Seal_Document_Payload string string "int option" "string list"

fun payload_dedupe_key :: "payload \<Rightarrow> string" where
  "payload_dedupe_key (Extract_Chunk_Payload chunk_id) = ''extract:'' @ chunk_id"
| "payload_dedupe_key (Append_Buffer_Payload node (Target_Source source_id)) =
     ''append:source:'' @ source_id @ '':'' @ dedupe_fragment node"
| "payload_dedupe_key (Append_Buffer_Payload node (Target_Topic tree_id)) =
     ''append:topic:'' @ tree_id @ '':'' @ dedupe_fragment node"
| "payload_dedupe_key (Seal_Payload tree_id level force_now_ms) =
     ''seal:'' @ tree_id @ '':'' @ dec_nat (unat level)"
| "payload_dedupe_key (Flush_Stale_Payload max_age_secs date_iso hour_block) =
     ''flush_stale:'' @ date_iso @ ''-h'' @ dec_nat (unat hour_block)"
| "payload_dedupe_key (Reembed_Backfill_Payload signature) = ''reembed_backfill:'' @ signature"
| "payload_dedupe_key (Seal_Document_Payload tree_scope doc_id (Some v) chunk_ids) =
     ''seal_doc:'' @ doc_id @ ''@'' @ dec_int v"
| "payload_dedupe_key (Seal_Document_Payload tree_scope doc_id None chunk_ids) =
     ''seal_doc:'' @ doc_id"

record new_job =
  nj_kind :: job_kind
  nj_payload_json :: string
  nj_dedupe_key :: "string option"
  nj_available_at_ms :: "int option"
  nj_max_attempts :: "32 word option"

fun payload_kind :: "payload \<Rightarrow> job_kind" where
  "payload_kind (Extract_Chunk_Payload _) = Kind_ExtractChunk"
| "payload_kind (Append_Buffer_Payload _ _) = Kind_AppendBuffer"
| "payload_kind (Seal_Payload _ _ _) = Kind_Seal"
| "payload_kind (Flush_Stale_Payload _ _ _) = Kind_FlushStale"
| "payload_kind (Reembed_Backfill_Payload _) = Kind_ReembedBackfill"
| "payload_kind (Seal_Document_Payload _ _ _ _) = Kind_SealDocument"

text \<open>
  The constructors of \<open>NewJob\<close>; \<open>to_json\<close> stands for \<open>serde_json::to_string\<close> on the payload,
  which may fail.
\<close>

definition new_job_of :: "(payload \<Rightarrow> string option) \<Rightarrow> payload \<Rightarrow> queue_error + new_job" where
  "new_job_of to_json p =
     (case to_json p of
        None \<Rightarrow> Inl Json_Error
      | Some json \<Rightarrow>
          Inr \<lparr>nj_kind = payload_kind p, nj_payload_json = json,
               nj_dedupe_key = Some (payload_dedupe_key p), nj_available_at_ms = None,
               nj_max_attempts = (case p of Reembed_Backfill_Payload _ \<Rightarrow> Some 3 | _ \<Rightarrow> None)\<rparr>)"

section \<open>Failure classes\<close>

datatype failure_class = Class_Transient | Class_Unrecoverable

fun failure_class_as_str :: "failure_class \<Rightarrow> string" where
  "failure_class_as_str Class_Transient = ''transient''"
| "failure_class_as_str Class_Unrecoverable = ''unrecoverable''"

datatype failure_code =
  Code_BudgetExhausted | Code_AuthMissing | Code_AuthInvalid | Code_EmbeddingsUnconfigured
| Code_EmbeddingDimMismatch | Code_LocalModelUnavailable | Code_ExtractionTimeout
| Code_SummarizerUnavailable | Code_EmptyInputRefused | Code_Transient

fun failure_code_as_str :: "failure_code \<Rightarrow> string" where
  "failure_code_as_str Code_BudgetExhausted = ''budget_exhausted''"
| "failure_code_as_str Code_AuthMissing = ''auth_missing''"
| "failure_code_as_str Code_AuthInvalid = ''auth_invalid''"
| "failure_code_as_str Code_EmbeddingsUnconfigured = ''embeddings_unconfigured''"
| "failure_code_as_str Code_EmbeddingDimMismatch = ''embedding_dim_mismatch''"
| "failure_code_as_str Code_LocalModelUnavailable = ''local_model_unavailable''"
| "failure_code_as_str Code_ExtractionTimeout = ''extraction_timeout''"
| "failure_code_as_str Code_SummarizerUnavailable = ''summarizer_unavailable''"
| "failure_code_as_str Code_EmptyInputRefused = ''empty_input_refused''"
| "failure_code_as_str Code_Transient = ''transient''"

definition failure_code_from_str :: "string \<Rightarrow> failure_code option" where
  "failure_code_from_str s =
     (if s = ''budget_exhausted'' then Some Code_BudgetExhausted
      else if s = ''auth_missing'' then Some Code_AuthMissing
      else if s = ''auth_invalid'' then Some Code_AuthInvalid
      else if s = ''embeddings_unconfigured'' then Some Code_EmbeddingsUnconfigured
      else if s = ''embedding_dim_mismatch'' then Some Code_EmbeddingDimMismatch
      else if s = ''local_model_unavailable'' then Some Code_LocalModelUnavailable
      else if s = ''extraction_timeout'' then Some Code_ExtractionTimeout
      else if s = ''summarizer_unavailable'' then Some Code_SummarizerUnavailable
      else if s = ''empty_input_refused'' then Some Code_EmptyInputRefused
      else if s = ''transient'' then Some Code_Transient
      else None)"

fun failure_code_class :: "failure_code \<Rightarrow> failure_class" where
  "failure_code_class Code_Transient = Class_Transient"
| "failure_code_class Code_ExtractionTimeout = Class_Transient"
| "failure_code_class _ = Class_Unrecoverable"

definition remediation_key :: "failure_code \<Rightarrow> string" where
  "remediation_key c = ''memory.health.remediation.'' @ failure_code_as_str c"

record pipeline_failure =
  pf_code :: failure_code
  pf_class :: failure_class
  pf_remediation_key :: string
  pf_detail :: "string option"

definition pipeline_failure_new :: "failure_code \<Rightarrow> pipeline_failure" where
  "pipeline_failure_new c =
     \<lparr>pf_code = c, pf_class = failure_code_class c, pf_remediation_key = remediation_key c,
      pf_detail = None\<rparr>"

definition is_unrecoverable :: "pipeline_failure \<Rightarrow> bool" where
  "is_unrecoverable f = (pf_class f = Class_Unrecoverable)"

text \<open>\<open>truncate_detail\<close>: at most 200 characters, and an ellipsis where something was cut.\<close>

definition truncate_detail :: "string \<Rightarrow> string" where
  "truncate_detail s = (if char_count s \<le> 200 then s else take_chars 200 s @ ellipsis)"

definition with_detail :: "pipeline_failure \<Rightarrow> string \<Rightarrow> pipeline_failure" where
  "with_detail f d = f\<lparr>pf_detail := Some d\<rparr>"

text \<open>
  \<open>parse_http_status\<close> keeps the digits after the first parenthesis when there are exactly
  three of them; three decimal digits always parse as a \<open>u16\<close>.
\<close>

definition digit_value :: "string \<Rightarrow> nat" where
  "digit_value ds = foldl (\<lambda>n c. 10 * n + (byte c - 48)) 0 ds"

definition parse_http_status :: "string \<Rightarrow> nat option" where
  "parse_http_status msg =
     (case split_once CHR ''('' msg of
        None \<Rightarrow> None
      | Some (_, rest) \<Rightarrow>
          let digits = takeWhile is_ascii_digit (trim_start rest)
          in if length digits = 3 then Some (digit_value digits) else None)"

definition classify_embed_error_str :: "string \<Rightarrow> pipeline_failure" where
  "classify_embed_error_str msg =
     (let lower = to_ascii_lowercase msg;
          failed = (\<lambda>c. with_detail (pipeline_failure_new c) (truncate_detail msg))
      in if sublist ''refusing empty/whitespace'' lower then failed Code_EmptyInputRefused
         else if sublist ''dims, expected'' lower \<or> sublist ''dimensions, expected'' lower
           then failed Code_EmbeddingDimMismatch
         else if sublist ''insufficient budget'' lower \<or> sublist ''budget'' lower \<or>
                 sublist ''quota'' lower \<or> sublist ''payment required'' lower
           then failed Code_BudgetExhausted
         else case parse_http_status msg of
             Some code \<Rightarrow>
               if code = 401 \<or> code = 403 then failed Code_AuthInvalid
               else if code = 402 then failed Code_BudgetExhausted
               else failed Code_Transient
           | None \<Rightarrow> failed Code_Transient)"

section \<open>Lemmas\<close>

lemma parse_kind_as_str [simp]: "parse_kind (kind_as_str k) = Inr k"
  by (cases k) (simp_all add: parse_kind_def)

lemma parse_kind_Inr: "parse_kind s = Inr k \<longleftrightarrow> s = kind_as_str k"
  by (cases k) (auto simp: parse_kind_def)

lemma parse_status_as_str [simp]: "parse_status (status_as_str k) = Inr k"
  by (cases k) (simp_all add: parse_status_def)

lemma parse_status_Inr: "parse_status s = Inr k \<longleftrightarrow> s = status_as_str k"
  by (cases k) (auto simp: parse_status_def)

lemma failure_code_from_str_iff: "failure_code_from_str s = Some c \<longleftrightarrow> s = failure_code_as_str c"
  by (cases c) (auto simp: failure_code_from_str_def)

lemma status_as_str_inj [simp]: "status_as_str a = status_as_str b \<longleftrightarrow> a = b"
  by (cases a; cases b) simp_all

lemma status_as_str_eq [simp]:
  "''ready'' = status_as_str s \<longleftrightarrow> s = Status_Ready"
  "''running'' = status_as_str s \<longleftrightarrow> s = Status_Running"
  by (cases s; simp)+

lemma payload_key_kind:
  "payload_dedupe_key p = payload_dedupe_key q \<Longrightarrow> payload_kind p = payload_kind q"
  by (cases p rule: payload_dedupe_key.cases; cases q rule: payload_dedupe_key.cases) simp_all

end
