(* ===== verification/Queue_Store.thy ===== *)
theory Queue_Store
  imports Prelude Queue_Types "HOL-Library.Product_Lexorder"
begin

text \<open>
  The job table (\<open>src/openhuman/memory_queue/store.rs\<close> and its schema in
  \<open>memory_store/chunks/store.rs\<close>): a list of rows in insertion order, and one definition
  per SQL statement of the store.  A statement that would break the primary key or the
  partial unique index on the deduplication keys of the active rows is aborted as a whole.
  Timestamps are 64-bit milliseconds, held as \<open>int\<close> with the saturating operations written
  out.
\<close>

section \<open>Rows\<close>

record job_row =
  row_id :: string
  row_kind :: string
  row_payload_json :: string
  row_dedupe_key :: "string option"
  row_status :: string
  row_attempts :: int
  row_max_attempts :: int
  row_available_at :: int
  row_locked_until :: "int option"
  row_last_error :: "string option"
  row_created_at :: int
  row_started_at :: "int option"
  row_completed_at :: "int option"
  row_failure_reason :: "string option"
  row_failure_class :: "string option"

type_synonym job_table = "job_row list"

record job =
  job_id :: string
  job_kind :: job_kind
  job_payload_json :: string
  job_dedupe_key :: "string option"
  job_status :: job_status
  job_attempts :: "32 word"
  job_max_attempts :: "32 word"
  job_available_at :: int
  job_locked_until :: "int option"
  job_last_error :: "string option"
  job_failure_reason :: "string option"
  job_failure_class :: "string option"
  job_created_at :: int
  job_started_at :: "int option"
  job_completed_at :: "int option"

definition row_to_job :: "job_row \<Rightarrow> queue_error + job" where
  "row_to_job r =
     (case parse_kind (row_kind r) of Inl e \<Rightarrow> Inl e
      | Inr kind \<Rightarrow>
          (case parse_status (row_status r) of Inl e \<Rightarrow> Inl e
           | Inr status \<Rightarrow>
               Inr \<lparr>job_id = row_id r, job_kind = kind, job_payload_json = row_payload_json r,
                    job_dedupe_key = row_dedupe_key r, job_status = status,
                    job_attempts = word_of_int (max (row_attempts r) 0),
                    job_max_attempts = word_of_int (max (row_max_attempts r) 0),
                    job_available_at = row_available_at r, job_locked_until = row_locked_until r,
                    job_last_error = row_last_error r, job_failure_reason = row_failure_reason r,
                    job_failure_class = row_failure_class r, job_created_at = row_created_at r,
                    job_started_at = row_started_at r, job_completed_at = row_completed_at r\<rparr>))"

text \<open>The rows the partial unique index covers, and the keys it holds.\<close>

definition row_active :: "job_row \<Rightarrow> bool" where
  "row_active r = (row_status r = ''ready'' \<or> row_status r = ''running'')"

definition active_keys :: "job_table \<Rightarrow> string list" where
  "active_keys db = map (\<lambda>r. the (row_dedupe_key r))
     (filter (\<lambda>r. row_dedupe_key r \<noteq> None \<and> row_active r) db)"

definition table_ok :: "job_table \<Rightarrow> bool" where
  "table_ok db = (distinct (map row_id db) \<and> distinct (active_keys db))"

text \<open>
  \<open>UPDATE \<dots> SET \<dots> WHERE \<dots>\<close> changes every row that satisfies the condition, and aborts,
  changing none, when an index would be broken.  Every statement of the store gives all the
  rows it changes one status, so checking the result once is checking it after each row.
\<close>

definition sql_update :: "(job_row \<Rightarrow> bool) \<Rightarrow> (job_row \<Rightarrow> job_row) \<Rightarrow> job_table \<Rightarrow>
    (queue_error + nat) \<times> job_table" where
  "sql_update cond change db =
     (let db' = map (\<lambda>r. if cond r then change r else r) db
      in if table_ok db' then (Inr (length (filter cond db)), db') else (Inl Unique_Violation, db))"

section \<open>Integers\<close>

definition i64_max :: int where "i64_max = 9223372036854775807"

definition i64_min :: int where "i64_min = - 9223372036854775808"

definition sat_i64 :: "int \<Rightarrow> int" where
  "sat_i64 i = max i64_min (min i64_max i)"

definition DEFAULT_LOCK_DURATION_MS :: int where
  "DEFAULT_LOCK_DURATION_MS = 5 * 60 * 1000"

definition RETRY_BASE_MS :: int where "RETRY_BASE_MS = 60 * 1000"

definition RETRY_CAP_MS :: int where "RETRY_CAP_MS = 60 * 60 * 1000"

definition DEFAULT_MAX_ATTEMPTS :: "32 word" where "DEFAULT_MAX_ATTEMPTS = 5"

text \<open>\<open>saturating_sub(1)\<close> on the unsigned counter, capped at 20 before it is a shift.\<close>

definition backoff_ms :: "32 word \<Rightarrow> int" where
  "backoff_ms attempts_so_far =
     (let ex = min (unat attempts_so_far - 1) 20;
          mult = 2 ^ ex;
          raw = sat_i64 (RETRY_BASE_MS * mult)
      in min raw RETRY_CAP_MS)"

section \<open>Producing and claiming\<close>

text \<open>
  \<open>INSERT OR IGNORE\<close>: nothing is inserted when the fresh identifier is taken or an active
  row holds the same key.  The identifier and the clock are arguments.
\<close>

definition new_row :: "string \<Rightarrow> int \<Rightarrow> new_job \<Rightarrow> job_row" where
  "new_row rid now j =
     \<lparr>row_id = rid, row_kind = kind_as_str (nj_kind j), row_payload_json = nj_payload_json j,
      row_dedupe_key = nj_dedupe_key j, row_status = ''ready'', row_attempts = 0,
      row_max_attempts =
        uint (case nj_max_attempts j of Some m \<Rightarrow> m | None \<Rightarrow> DEFAULT_MAX_ATTEMPTS),
      row_available_at = (case nj_available_at_ms j of Some t \<Rightarrow> t | None \<Rightarrow> now),
      row_locked_until = None, row_last_error = None, row_created_at = now,
      row_started_at = None, row_completed_at = None, row_failure_reason = None,
      row_failure_class = None\<rparr>"

definition enqueue :: "string \<Rightarrow> int \<Rightarrow> new_job \<Rightarrow> job_table \<Rightarrow> string option \<times> job_table" where
  "enqueue rid now j db =
     (let db' = db @ [new_row rid now j]
      in if table_ok db' then (Some rid, db') else (None, db))"

definition kind_rank :: "string \<Rightarrow> nat" where
  "kind_rank k =
     (if k = ''digest_daily'' then 0 else if k = ''seal'' then 1
      else if k = ''flush_stale'' then 2 else if k = ''topic_route'' then 3
      else if k = ''append_buffer'' then 4 else 5)"

definition row_due :: "int \<Rightarrow> job_row \<Rightarrow> bool" where
  "row_due now r = (row_status r = ''ready'' \<and> row_available_at r \<le> now)"

definition lease_row :: "int \<Rightarrow> int \<Rightarrow> job_row \<Rightarrow> job_row" where
  "lease_row now lock_until r =
     r\<lparr>row_status := ''running'', row_attempts := row_attempts r + 1,
       row_started_at := Some now, row_locked_until := Some lock_until, row_last_error := None\<rparr>"

text \<open>
  The order in which SQLite meets rows of equal rank and time is its own: the argument \<open>scan\<close>
  is the order in which it visits the table.  The returned row is parsed after the update, so
  a row of a retired kind is leased and then reported as an error.
\<close>

definition next_row :: "(job_table \<Rightarrow> job_table) \<Rightarrow> int \<Rightarrow> job_table \<Rightarrow> job_row option" where
  "next_row scan now db =
     first (sort_key (\<lambda>r. (kind_rank (row_kind r), row_available_at r))
       (filter (row_due now) (scan db)))"

definition claim_next ::
    "(job_table \<Rightarrow> job_table) \<Rightarrow> int \<Rightarrow> int \<Rightarrow> job_table \<Rightarrow>
     (queue_error + job option) \<times> job_table" where
  "claim_next scan now lock_duration db =
     (let lock_until = sat_i64 (now + lock_duration)
      in case next_row scan now db of
           None \<Rightarrow> (Inr None, db)
         | Some r \<Rightarrow>
             (case sql_update (\<lambda>x. row_id x = row_id r) (lease_row now lock_until) db of
                (Inl e, db') \<Rightarrow> (Inl e, db')
              | (Inr n, db') \<Rightarrow>
                  (map_sum id Some (row_to_job (lease_row now lock_until r)), db')))"

definition batch_ids :: "(job_table \<Rightarrow> job_table) \<Rightarrow> int \<Rightarrow> nat \<Rightarrow> job_table \<Rightarrow> string list" where
  "batch_ids scan now limit db =
     map row_id (take limit (sort_key row_available_at
       (filter (\<lambda>r. row_status r = ''ready'' \<and> row_kind r = ''extract_chunk'' \<and>
                     row_available_at r \<le> now) (scan db))))"

fun collect_results :: "('e + 'a) list \<Rightarrow> 'e + 'a list" where
  "collect_results [] = Inr []"
| "collect_results (Inl e # xs) = Inl e"
| "collect_results (Inr x # xs) = map_sum id (\<lambda>ys. x # ys) (collect_results xs)"

definition claim_ready_extract_batch ::
    "(job_table \<Rightarrow> job_table) \<Rightarrow> int \<Rightarrow> int \<Rightarrow> nat \<Rightarrow> job_table \<Rightarrow>
     (queue_error + job list) \<times> job_table" where
  "claim_ready_extract_batch scan now lock_duration limit db =
     (if limit = 0 then (Inr [], db)
      else let lock_until = sat_i64 (now + lock_duration);
               ids = batch_ids scan now limit db
           in case sql_update (\<lambda>x. row_id x \<in> set ids) (lease_row now lock_until) db of
                (Inl e, db') \<Rightarrow> (Inl e, db')
              | (Inr n, db') \<Rightarrow>
                  (collect_results (map row_to_job (filter (\<lambda>x. row_id x \<in> set ids) db')), db'))"

section \<open>Settling\<close>

text \<open>The claim token: the row still carries the attempt and the start of this lease.\<close>

definition holds_lease :: "job \<Rightarrow> job_row \<Rightarrow> bool" where
  "holds_lease j r =
     (row_id r = job_id j \<and> row_attempts r = uint (job_attempts j) \<and>
      row_started_at r = job_started_at j)"

definition done_row :: "int \<Rightarrow> job_row \<Rightarrow> job_row" where
  "done_row now r =
     r\<lparr>row_status := ''done'', row_completed_at := Some now, row_locked_until := None,
       row_last_error := None\<rparr>"

definition mark_done :: "int \<Rightarrow> job \<Rightarrow> job_table \<Rightarrow> (queue_error + unit) \<times> job_table" where
  "mark_done now j db =
     apfst (map_sum id (\<lambda>_. ()))
       (sql_update (holds_lease j) (done_row now) db)"

definition fail_row ::
    "int \<Rightarrow> string \<Rightarrow> string option \<Rightarrow> string option \<Rightarrow> job_row \<Rightarrow> job_row" where
  "fail_row now error reason cls r =
     r\<lparr>row_status := ''failed'', row_completed_at := Some now, row_locked_until := None,
       row_last_error := Some error, row_failure_reason := reason, row_failure_class := cls\<rparr>"

definition retry_row :: "int \<Rightarrow> string \<Rightarrow> job_row \<Rightarrow> job_row" where
  "retry_row next_at error r =
     r\<lparr>row_status := ''ready'', row_available_at := next_at, row_locked_until := None,
       row_last_error := Some error\<rparr>"

definition fails_terminally :: "job \<Rightarrow> pipeline_failure option \<Rightarrow> bool" where
  "fails_terminally j failure =
     (job_max_attempts j \<le> job_attempts j \<or> is_some_and failure is_unrecoverable)"

definition mark_failed_typed ::
    "int \<Rightarrow> job \<Rightarrow> string \<Rightarrow> pipeline_failure option \<Rightarrow> job_table \<Rightarrow>
     (queue_error + unit) \<times> job_table" where
  "mark_failed_typed now j error failure db =
     apfst (map_sum id (\<lambda>_. ()))
       (if fails_terminally j failure
        then sql_update (holds_lease j)
          (fail_row now error
             (map_option (\<lambda>f. failure_code_as_str (pf_code f)) failure)
             (map_option (\<lambda>f. failure_class_as_str (pf_class f)) failure)) db
        else sql_update (holds_lease j)
          (retry_row (sat_i64 (now + backoff_ms (job_attempts j))) error) db)"

definition mark_failed :: "int \<Rightarrow> job \<Rightarrow> string \<Rightarrow> job_table \<Rightarrow> (queue_error + unit) \<times> job_table" where
  "mark_failed now j error db = mark_failed_typed now j error None db"

definition defer_row :: "int \<Rightarrow> int \<Rightarrow> string \<Rightarrow> job_row \<Rightarrow> job_row" where
  "defer_row pre_claim_attempts until_ms reason r =
     r\<lparr>row_status := ''ready'', row_attempts := pre_claim_attempts,
       row_available_at := until_ms, row_locked_until := None, row_started_at := None,
       row_last_error := Some reason\<rparr>"

definition mark_deferred ::
    "job \<Rightarrow> int \<Rightarrow> string \<Rightarrow> job_table \<Rightarrow> (queue_error + unit) \<times> job_table" where
  "mark_deferred j until_ms reason db =
     apfst (map_sum id (\<lambda>_. ()))
       (sql_update (holds_lease j)
          (defer_row (sat_i64 (uint (job_attempts j) - 1)) until_ms reason) db)"

text \<open>
  \<open>settle_job\<close> of the worker: what a handler returned decides the settlement.  An error is its
  rendered cause chain together with the typed failure it carries, if any.
\<close>

fun settle_job ::
    "int \<Rightarrow> job \<Rightarrow> (string \<times> pipeline_failure option) + job_outcome \<Rightarrow> job_table \<Rightarrow>
     (queue_error + unit) \<times> job_table" where
  "settle_job now j (Inr Outcome_Done) db = mark_done now j db"
| "settle_job now j (Inr (Outcome_Defer until_ms reason)) db = mark_deferred j until_ms reason db"
| "settle_job now j (Inl (message, typed)) db = mark_failed_typed now j message typed db"

section \<open>Recovery and retries\<close>

definition lock_expired :: "int \<Rightarrow> job_row \<Rightarrow> bool" where
  "lock_expired now r =
     (row_status r = ''running'' \<and> is_some_and (row_locked_until r) (\<lambda>t. t < now))"

definition recover_row :: "job_row \<Rightarrow> job_row" where
  "recover_row r =
     r\<lparr>row_status := ''ready'',
       row_last_error := (case row_last_error r of
           None \<Rightarrow> Some ''recovered_from_stale_lock'' | Some e \<Rightarrow> Some e)\<rparr>"

definition recover_stale_locks :: "int \<Rightarrow> job_table \<Rightarrow> (queue_error + nat) \<times> job_table" where
  "recover_stale_locks now db =
     sql_update (lock_expired now) recover_row db"

definition release_row :: "job_row \<Rightarrow> job_row" where
  "release_row r = r\<lparr>row_status := ''ready'', row_locked_until := None\<rparr>"

definition release_running_locks :: "job_table \<Rightarrow> (queue_error + nat) \<times> job_table" where
  "release_running_locks db =
     sql_update (\<lambda>r. row_status r = ''running'') release_row db"

definition reset_row :: "int \<Rightarrow> job_row \<Rightarrow> job_row" where
  "reset_row now r =
     r\<lparr>row_status := ''ready'', row_attempts := 0, row_available_at := now,
       row_locked_until := None, row_started_at := None, row_completed_at := None,
       row_last_error := None\<rparr>"

definition requeue_row :: "int \<Rightarrow> job_row \<Rightarrow> job_row" where
  "requeue_row now r = (reset_row now r)\<lparr>row_failure_reason := None, row_failure_class := None\<rparr>"

definition requeue_failed :: "int \<Rightarrow> job_table \<Rightarrow> (queue_error + nat) \<times> job_table" where
  "requeue_failed now db = sql_update (\<lambda>r. row_status r = ''failed'') (requeue_row now) db"

definition transient_failed :: "job_row \<Rightarrow> bool" where
  "transient_failed r =
     (row_status r = ''failed'' \<and>
      (row_failure_class r = None \<or> row_failure_class r \<noteq> Some ''unrecoverable''))"

definition requeue_transient_failed :: "int \<Rightarrow> job_table \<Rightarrow> (queue_error + nat) \<times> job_table" where
  "requeue_transient_failed now db = sql_update transient_failed (requeue_row now) db"

definition retry_all_failed :: "int \<Rightarrow> job_table \<Rightarrow> (queue_error + nat) \<times> job_table" where
  "retry_all_failed now db = sql_update (\<lambda>r. row_status r = ''failed'') (reset_row now) db"

section \<open>Reading\<close>

definition count_by_status :: "job_status \<Rightarrow> job_table \<Rightarrow> nat" where
  "count_by_status s db = length (filter (\<lambda>r. row_status r = status_as_str s) db)"

definition count_failed_unrecoverable :: "job_table \<Rightarrow> nat" where
  "count_failed_unrecoverable db =
     length (filter (\<lambda>r. row_status r = ''failed'' \<and> row_failure_class r = Some ''unrecoverable'') db)"

definition count_total :: "job_table \<Rightarrow> nat" where
  "count_total db = length db"

definition get_row :: "string \<Rightarrow> job_table \<Rightarrow> job_row option" where
  "get_row rid db = find (\<lambda>r. row_id r = rid) db"

definition get_job :: "string \<Rightarrow> job_table \<Rightarrow> queue_error + job option" where
  "get_job rid db =
     (case get_row rid db of None \<Rightarrow> Inr None | Some r \<Rightarrow> map_sum id Some (row_to_job r))"

section \<open>The scheduler and the backfill trigger\<close>

text \<open>
  One tick of the three-hourly scheduler: transient failures are requeued, then a flush job is
  enqueued for the three-hour block of the clock.  Errors are logged and dropped.  The date and
  the hour are those of one reading of the clock; \<open>rid\<close> is the fresh identifier.
\<close>

definition enqueue_flush_stale ::
    "(payload \<Rightarrow> string option) \<Rightarrow> string \<Rightarrow> int \<Rightarrow> string \<Rightarrow> 32 word \<Rightarrow> job_table \<Rightarrow> job_table" where
  "enqueue_flush_stale to_json rid now today_iso hr db =
     (case new_job_of to_json (Flush_Stale_Payload None today_iso (hr div 3)) of
        Inl e \<Rightarrow> db
      | Inr j \<Rightarrow> snd (enqueue rid now j db))"

definition scheduler_tick ::
    "(payload \<Rightarrow> string option) \<Rightarrow> string \<Rightarrow> int \<Rightarrow> int \<Rightarrow> string \<Rightarrow> 32 word \<Rightarrow> job_table \<Rightarrow> job_table" where
  "scheduler_tick to_json rid now now' today_iso hr db =
     enqueue_flush_stale to_json rid now' today_iso hr (snd (requeue_transient_failed now db))"

text \<open>
  \<open>ensure_reembed_backfill\<close>: \<open>probe\<close> is the answer of the coverage query, \<open>None\<close> when it
  failed; the state is the table and the process-wide backfill flag.
\<close>

definition ensure_reembed_backfill ::
    "(payload \<Rightarrow> string option) \<Rightarrow> string \<Rightarrow> int \<Rightarrow> string \<Rightarrow> bool option \<Rightarrow>
     job_table \<times> bool \<Rightarrow> job_table \<times> bool" where
  "ensure_reembed_backfill to_json rid now sig probe st =
     (case probe of
        None \<Rightarrow> st
      | Some False \<Rightarrow> st
      | Some True \<Rightarrow>
          (case new_job_of to_json (Reembed_Backfill_Payload sig) of
             Inl e \<Rightarrow> st
           | Inr j \<Rightarrow> (snd (enqueue rid now j (fst st)), True)))"

end
