(* ===== verification/Queue_Facts.thy ===== *)
theory Queue_Facts
  imports Queue_Store "HOL-Library.Multiset"
begin

text \<open>
  What the job queue promises: claiming, settling under a lease, the retry budget, the
  deduplication of the active rows, and the requeueing of failures.  Runs of the queue are
  given by a labelled step relation in which any worker may settle, at any later time, any
  lease it was ever given.
\<close>

section \<open>Statements\<close>

lemma sql_update_result:
  "sql_update cond change db = (Inr n, db') \<Longrightarrow>
     db' = map (\<lambda>r. if cond r then change r else r) db \<and> table_ok db' \<and> n = length (filter cond db)"
  "sql_update cond change db = (Inl e, db') \<Longrightarrow> db' = db \<and> e = Unique_Violation"
  by (auto simp: sql_update_def Let_def split: if_splits)

lemma sql_update_table_ok [queue_simps]: "table_ok db \<Longrightarrow> table_ok (snd (sql_update cond change db))"
  by (simp add: sql_update_def Let_def)

lemma sql_update_none:
  "table_ok db \<Longrightarrow> \<forall>r \<in> set db. \<not> cond r \<Longrightarrow> sql_update cond change db = (Inr 0, db)"
  by (simp add: sql_update_def Let_def map_idI filter_False cong: map_cong)

lemma sql_update_all:
  "\<forall>r \<in> set db. P r \<Longrightarrow> (\<And>r. P r \<Longrightarrow> cond r \<Longrightarrow> P (change r)) \<Longrightarrow>
     \<forall>r \<in> set (snd (sql_update cond change db)). P r"
  by (auto simp: sql_update_def Let_def)

lemma sql_update_other:
  "(\<And>r. cond r \<Longrightarrow> row_id r \<noteq> rid) \<Longrightarrow> (\<And>r. row_id (change r) = row_id r) \<Longrightarrow>
     get_row rid (snd (sql_update cond change db)) = get_row rid db"
proof -
  assume other: "\<And>r. cond r \<Longrightarrow> row_id r \<noteq> rid" and keeps: "\<And>r. row_id (change r) = row_id r"
  have "find (\<lambda>r. row_id r = rid) (map (\<lambda>r. if cond r then change r else r) db) =
      find (\<lambda>r. row_id r = rid) db"
    by (induction db) (use other keeps in auto)
  then show ?thesis by (simp add: sql_update_def get_row_def Let_def)
qed

text \<open>Rows that leave the active states never break an index.\<close>

lemma active_keys_Cons:
  "active_keys (r # db) =
     (if row_dedupe_key r \<noteq> None \<and> row_active r then the (row_dedupe_key r) # active_keys db
      else active_keys db)"
  by (simp add: active_keys_def)

lemma active_keys_append [simp]: "active_keys (db @ db') = active_keys db @ active_keys db'"
  by (simp add: active_keys_def)

lemma active_keys_update_subseq:
  assumes "\<And>r. cond r \<Longrightarrow> row_dedupe_key (change r) = row_dedupe_key r"
    and "\<And>r. r \<in> set db \<Longrightarrow> cond r \<Longrightarrow> row_active (change r) \<Longrightarrow> row_active r"
  shows "subseq (active_keys (map (\<lambda>r. if cond r then change r else r) db)) (active_keys db)"
  using assms(2)
proof (induction db)
  case (Cons r db)
  then have "subseq (active_keys (map (\<lambda>r. if cond r then change r else r) db)) (active_keys db)"
    by simp
  then show ?case using assms(1)[of r] Cons.prems[of r]
    by (auto simp: active_keys_Cons)
qed (simp add: active_keys_def)

lemma subseq_distinct: "subseq xs ys \<Longrightarrow> distinct ys \<Longrightarrow> distinct xs"
  by (metis subseq_conv_nths distinct_nthsI)

lemma map_if_id:
  "(\<And>r. cond r \<Longrightarrow> row_id (change r) = row_id r) \<Longrightarrow>
     map row_id (map (\<lambda>r. if cond r then change r else r) db) = map row_id db"
  by (induction db) auto

lemma sql_update_never_aborts:
  assumes "table_ok db"
    and "\<And>r. cond r \<Longrightarrow> row_dedupe_key (change r) = row_dedupe_key r"
    and "\<And>r. cond r \<Longrightarrow> row_id (change r) = row_id r"
    and "\<And>r. r \<in> set db \<Longrightarrow> cond r \<Longrightarrow> row_active (change r) \<Longrightarrow> row_active r"
  shows "sql_update cond change db =
     (Inr (length (filter cond db)), map (\<lambda>r. if cond r then change r else r) db)"
proof -
  have "distinct (map row_id (map (\<lambda>r. if cond r then change r else r) db))"
    using assms(1) map_if_id[of cond change db] assms(3)
    by (simp add: table_ok_def del: map_map)
  moreover have "distinct (active_keys (map (\<lambda>r. if cond r then change r else r) db))"
    using subseq_distinct[OF active_keys_update_subseq[OF assms(2,4)]] assms(1)
    by (simp add: table_ok_def)
  ultimately show ?thesis by (simp add: sql_update_def table_ok_def Let_def)
qed

section \<open>Claiming\<close>

lemma row_id_unique:
  "table_ok db \<Longrightarrow> r \<in> set db \<Longrightarrow> r' \<in> set db \<Longrightarrow> row_id r = row_id r' \<Longrightarrow> r = r'"
  by (auto simp: table_ok_def distinct_map inj_on_def)

lemma first_sort_key:
  fixes f :: "'a \<Rightarrow> 'b::linorder"
  assumes "first (sort_key f xs) = Some x"
  shows "x \<in> set xs" and "y \<in> set xs \<Longrightarrow> f x \<le> f y"
proof -
  obtain ys where ys: "sort_key f xs = x # ys" using assms by (auto simp: first_Some)
  then have s: "set xs = insert x (set ys)" by (metis list.simps(15) set_sort)
  then show "x \<in> set xs" by simp
  have "sorted (map f (x # ys))" by (metis sorted_sort_key ys)
  then show "y \<in> set xs \<Longrightarrow> f x \<le> f y" using s by auto
qed

lemma sort_key_Nil: "sort_key f xs = [] \<longleftrightarrow> xs = []"
  by (metis length_0_conv length_sort)

lemma next_row_Some:
  assumes "next_row scan now db = Some r" and "set (scan db) = set db"
  shows "r \<in> set db" and "row_due now r"
    and "\<And>x. x \<in> set db \<Longrightarrow> row_due now x \<Longrightarrow>
      (kind_rank (row_kind r), row_available_at r) \<le> (kind_rank (row_kind x), row_available_at x)"
  using first_sort_key[OF assms(1)[unfolded next_row_def]] assms(2) by auto

lemma next_row_None:
  "set (scan db) = set db \<Longrightarrow> next_row scan now db = None \<longleftrightarrow> (\<forall>r \<in> set db. \<not> row_due now r)"
  by (simp add: next_row_def filter_empty_conv sort_key_Nil)

lemma lease_row_simps [simp]:
  "row_id (lease_row now l r) = row_id r"
  "row_dedupe_key (lease_row now l r) = row_dedupe_key r"
  "row_kind (lease_row now l r) = row_kind r"
  "row_status (lease_row now l r) = ''running''"
  "row_attempts (lease_row now l r) = row_attempts r + 1"
  "row_max_attempts (lease_row now l r) = row_max_attempts r"
  "row_started_at (lease_row now l r) = Some now"
  "row_locked_until (lease_row now l r) = Some l"
  by (simp_all add: lease_row_def)

lemma row_due_active: "row_due now r \<Longrightarrow> row_active r"
  by (simp add: row_due_def row_active_def)

lemma claim_next_cases:
  assumes "table_ok db" and "set (scan db) = set db"
  obtains (idle) "claim_next scan now dur db = (Inr None, db)" and "\<forall>r \<in> set db. \<not> row_due now r"
  | (leased) r where "next_row scan now db = Some r" and "r \<in> set db" and "row_due now r"
      and "claim_next scan now dur db =
        (map_sum id Some (row_to_job (lease_row now (sat_i64 (now + dur)) r)),
         map (\<lambda>x. if row_id x = row_id r then lease_row now (sat_i64 (now + dur)) x else x) db)"
proof (cases "next_row scan now db")
  case None
  then show ?thesis using idle next_row_None[of scan db now] assms(2) by (simp add: claim_next_def Let_def)
next
  case (Some r)
  note r = next_row_Some[OF Some assms(2)]
  let ?l = "sat_i64 (now + dur)"
  have "sql_update (\<lambda>x. row_id x = row_id r) (lease_row now ?l) db =
      (Inr (length (filter (\<lambda>x. row_id x = row_id r) db)),
       map (\<lambda>x. if row_id x = row_id r then lease_row now ?l x else x) db)"
  proof (rule sql_update_never_aborts[OF assms(1)])
    fix x assume "x \<in> set db" "row_id x = row_id r"
    then have "x = r" using row_id_unique[OF assms(1)] r(1) by blast
    then show "row_active x" using r(2) row_due_active by simp
  qed simp_all
  then show ?thesis using leased[OF Some r(1,2)] by (simp add: claim_next_def Some Let_def)
qed

text \<open>A claim that returns a job leased exactly one row, and the job is that row after the lease.\<close>

lemma row_to_job_Inr:
  "row_to_job r = Inr j \<Longrightarrow>
     job_id j = row_id r \<and> job_started_at j = row_started_at r \<and>
     job_attempts j = word_of_int (max (row_attempts r) 0) \<and>
     job_max_attempts j = word_of_int (max (row_max_attempts r) 0) \<and>
     row_kind r = kind_as_str (job_kind j) \<and> row_status r = status_as_str (job_status j)"
  by (auto simp: row_to_job_def parse_kind_Inr parse_status_Inr split: sum.splits)

lemma row_to_job_running:
  "row_to_job (lease_row now l r) = Inl e \<longleftrightarrow> parse_kind (row_kind r) = Inl e"
  by (auto simp: row_to_job_def parse_status_def split: sum.splits)

lemma claim_next_Some:
  assumes "table_ok db" "set (scan db) = set db" "claim_next scan now dur db = (Inr (Some j), db')"
  obtains r where "next_row scan now db = Some r" "r \<in> set db" "row_due now r"
    and "row_to_job (lease_row now (sat_i64 (now + dur)) r) = Inr j"
    and "db' = map (\<lambda>x. if row_id x = row_id r then lease_row now (sat_i64 (now + dur)) x else x) db"
  using claim_next_cases[of db scan now dur, OF assms(1,2)]
proof cases
  case (2 r)
  then show ?thesis using that[of r] assms(3)
    by (cases "row_to_job (lease_row now (sat_i64 (now + dur)) r)") auto
qed (use assms(3) in simp)

lemma table_ok_same:
  assumes "table_ok db" "map row_id db' = map row_id db" "active_keys db' = active_keys db"
  shows "table_ok db'"
  using assms by (simp add: table_ok_def)

lemma table_ok_filter_id:
  assumes "table_ok db" "r \<in> set db"
  shows "filter (\<lambda>x. row_id x = row_id r) db = [r]"
proof -
  have "distinct (map row_id db)" using assms(1) by (simp add: table_ok_def)
  then show ?thesis using assms(2)
    by (induction db) (auto simp: filter_empty_conv image_iff)
qed

lemma get_row_Some:
  "table_ok db \<Longrightarrow> r \<in> set db \<Longrightarrow> get_row (row_id r) db = Some r"
  unfolding get_row_def table_ok_def using distinct_map_inj_on_find[of row_id db r] by simp

lemma get_row_set: "get_row rid db = Some r \<Longrightarrow> r \<in> set db \<and> row_id r = rid"
  unfolding get_row_def by (auto dest: find_Some_set)

section \<open>Settling under a lease\<close>

text \<open>
  The contract every settlement keeps: it leaves the table alone when no row carries the
  claim token of the job, it touches no row of another identifier, and it keeps the indexes.
\<close>

locale lease_gated =
  fixes settle :: "'x \<Rightarrow> job \<Rightarrow> job_table \<Rightarrow> (queue_error + unit) \<times> job_table"
  assumes stale: "table_ok db \<Longrightarrow> \<forall>r \<in> set db. \<not> holds_lease j r \<Longrightarrow> settle x j db = (Inr (), db)"
    and frame: "rid \<noteq> job_id j \<Longrightarrow> get_row rid (snd (settle x j db)) = get_row rid db"
    and keeps: "table_ok db \<Longrightarrow> table_ok (snd (settle x j db))"
begin

definition settle_all :: "('x \<times> job) list \<Rightarrow> job_table \<Rightarrow> job_table" where
  "settle_all xs db = foldl (\<lambda>d (x, j). snd (settle x j d)) db xs"

lemma settle_all_stale:
  "table_ok db \<Longrightarrow> \<forall>(x, j) \<in> set xs. \<forall>r \<in> set db. \<not> holds_lease j r \<Longrightarrow> settle_all xs db = db"
  unfolding settle_all_def
  by (induction xs) (auto simp: stale)

lemma settle_all_frame:
  "\<forall>(x, j) \<in> set xs. rid \<noteq> job_id j \<Longrightarrow> get_row rid (settle_all xs db) = get_row rid db"
  unfolding settle_all_def
  by (induction xs arbitrary: db) (auto simp: frame)

lemma settle_all_keeps: "table_ok db \<Longrightarrow> table_ok (settle_all xs db)"
  unfolding settle_all_def
  by (induction xs arbitrary: db) (auto intro: keeps)

end

lemma holds_lease_id: "holds_lease j r \<Longrightarrow> row_id r = job_id j"
  by (simp add: holds_lease_def)

lemma changed_row_keys [simp]:
  "row_id (done_row now r) = row_id r" "row_dedupe_key (done_row now r) = row_dedupe_key r"
  "row_id (fail_row now e a b r) = row_id r" "row_dedupe_key (fail_row now e a b r) = row_dedupe_key r"
  "row_id (retry_row t e r) = row_id r" "row_dedupe_key (retry_row t e r) = row_dedupe_key r"
  "row_id (defer_row n t e r) = row_id r" "row_dedupe_key (defer_row n t e r) = row_dedupe_key r"
  "row_id (recover_row r) = row_id r" "row_dedupe_key (recover_row r) = row_dedupe_key r"
  "row_id (release_row r) = row_id r" "row_dedupe_key (release_row r) = row_dedupe_key r"
  "row_id (reset_row now r) = row_id r" "row_dedupe_key (reset_row now r) = row_dedupe_key r"
  "row_id (requeue_row now r) = row_id r" "row_dedupe_key (requeue_row now r) = row_dedupe_key r"
  by (simp_all add: done_row_def fail_row_def retry_row_def defer_row_def recover_row_def
      release_row_def reset_row_def requeue_row_def)

lemma changed_row_max [simp]:
  "row_max_attempts (done_row now r) = row_max_attempts r"
  "row_max_attempts (fail_row now e a b r) = row_max_attempts r"
  "row_max_attempts (retry_row t e r) = row_max_attempts r"
  "row_max_attempts (defer_row n t e r) = row_max_attempts r"
  "row_max_attempts (recover_row r) = row_max_attempts r"
  "row_max_attempts (release_row r) = row_max_attempts r"
  "row_max_attempts (reset_row now r) = row_max_attempts r"
  "row_max_attempts (requeue_row now r) = row_max_attempts r"
  by (simp_all add: done_row_def fail_row_def retry_row_def defer_row_def recover_row_def
      release_row_def reset_row_def requeue_row_def)

lemma settle_job_update:
  "\<exists>change. settle_job now j result db = apfst (map_sum id (\<lambda>_. ())) (sql_update (holds_lease j) change db) \<and>
     (\<forall>r. row_id (change r) = row_id r \<and> row_dedupe_key (change r) = row_dedupe_key r \<and>
          row_max_attempts (change r) = row_max_attempts r)"
  by (cases "(now, j, result, db)" rule: settle_job.cases)
     (auto simp: mark_done_def mark_deferred_def mark_failed_typed_def)

interpretation worker: lease_gated "\<lambda>(now, result) j. settle_job now j result"
proof (unfold_locales, goal_cases)
  case (1 db j x)
  obtain now result where x: "x = (now, result)" by force
  obtain change where "settle_job now j result db =
      apfst (map_sum id (\<lambda>_. ())) (sql_update (holds_lease j) change db)"
    using settle_job_update by blast
  then show ?case using x 1 sql_update_none[of db "holds_lease j" change] by simp
next
  case (2 rid j x db)
  obtain now result where x: "x = (now, result)" by force
  obtain change where c: "settle_job now j result db =
      apfst (map_sum id (\<lambda>_. ())) (sql_update (holds_lease j) change db)"
      "\<forall>r. row_id (change r) = row_id r"
    using settle_job_update by blast
  then show ?case using x 2 sql_update_other[of "holds_lease j" rid change db] holds_lease_id
    by fastforce
next
  case (3 db x j)
  obtain now result where x: "x = (now, result)" by force
  obtain change where "settle_job now j result db =
      apfst (map_sum id (\<lambda>_. ())) (sql_update (holds_lease j) change db)"
    using settle_job_update by blast
  then show ?case using x 3 sql_update_table_ok by simp
qed

section \<open>Runs of the queue\<close>

datatype queue_op =
  Do_Enqueue string int new_job
| Do_Claim int int
| Do_Claim_Batch int int nat
| Do_Settle int job "(string \<times> pipeline_failure option) + job_outcome"
| Do_Recover int
| Do_Release
| Do_Requeue int
| Do_Requeue_Transient int
| Do_Retry_All int

text \<open>The state is the table and every lease ever handed out.\<close>

record queue_state =
  q_jobs :: job_table
  q_leases :: "job list"

fun claimed_jobs :: "queue_error + job option \<Rightarrow> job list" where
  "claimed_jobs (Inr (Some j)) = [j]"
| "claimed_jobs _ = []"

fun batch_jobs :: "queue_error + job list \<Rightarrow> job list" where
  "batch_jobs (Inr js) = js"
| "batch_jobs (Inl e) = []"

inductive queue_step :: "(job_table \<Rightarrow> job_table) \<Rightarrow> queue_state \<Rightarrow> queue_op \<Rightarrow> queue_state \<Rightarrow> bool"
  for scan where
  step_enqueue:
    "queue_step scan s (Do_Enqueue rid now j) (s\<lparr>q_jobs := snd (enqueue rid now j (q_jobs s))\<rparr>)"
| step_claim:
    "claim_next scan now dur (q_jobs s) = (res, db) \<Longrightarrow>
     queue_step scan s (Do_Claim now dur) \<lparr>q_jobs = db, q_leases = claimed_jobs res @ q_leases s\<rparr>"
| step_batch:
    "claim_ready_extract_batch scan now dur limit (q_jobs s) = (res, db) \<Longrightarrow>
     queue_step scan s (Do_Claim_Batch now dur limit)
       \<lparr>q_jobs = db, q_leases = batch_jobs res @ q_leases s\<rparr>"
| step_settle:
    "j \<in> set (q_leases s) \<Longrightarrow>
     queue_step scan s (Do_Settle now j result) (s\<lparr>q_jobs := snd (settle_job now j result (q_jobs s))\<rparr>)"
| step_recover:
    "queue_step scan s (Do_Recover now) (s\<lparr>q_jobs := snd (recover_stale_locks now (q_jobs s))\<rparr>)"
| step_release:
    "queue_step scan s Do_Release (s\<lparr>q_jobs := snd (release_running_locks (q_jobs s))\<rparr>)"
| step_requeue:
    "queue_step scan s (Do_Requeue now) (s\<lparr>q_jobs := snd (requeue_failed now (q_jobs s))\<rparr>)"
| step_requeue_transient:
    "queue_step scan s (Do_Requeue_Transient now)
       (s\<lparr>q_jobs := snd (requeue_transient_failed now (q_jobs s))\<rparr>)"
| step_retry_all:
    "queue_step scan s (Do_Retry_All now) (s\<lparr>q_jobs := snd (retry_all_failed now (q_jobs s))\<rparr>)"

inductive_cases queue_step_elims:
  "queue_step scan s (Do_Enqueue rid now j) s'"
  "queue_step scan s (Do_Claim now dur) s'"
  "queue_step scan s (Do_Claim_Batch now dur limit) s'"
  "queue_step scan s (Do_Settle now j result) s'"

inductive queue_run :: "(job_table \<Rightarrow> job_table) \<Rightarrow> queue_op list \<Rightarrow> queue_state \<Rightarrow> bool"
  for scan where
  run_start: "queue_run scan [] \<lparr>q_jobs = [], q_leases = []\<rparr>"
| run_step: "queue_run scan ops s \<Longrightarrow> queue_step scan s op s' \<Longrightarrow> queue_run scan (ops @ [op]) s'"

lemma claim_next_table_ok:
  assumes "table_ok db" shows "table_ok (snd (claim_next scan now dur db))"
proof (cases "next_row scan now db")
  case (Some r)
  show ?thesis
    using sql_update_table_ok[OF assms, of "\<lambda>x. row_id x = row_id r" "lease_row now (sat_i64 (now + dur))"]
    by (auto simp: claim_next_def Some Let_def split: prod.splits sum.splits)
qed (use assms in \<open>simp add: claim_next_def Let_def\<close>)

lemma claim_batch_table_ok:
  assumes "table_ok db" shows "table_ok (snd (claim_ready_extract_batch scan now dur n db))"
  using sql_update_table_ok[OF assms, of "\<lambda>x. row_id x \<in> set (batch_ids scan now n db)"
      "lease_row now (sat_i64 (now + dur))"] assms
  by (auto simp: claim_ready_extract_batch_def Let_def split: prod.splits sum.splits)

lemma queue_step_table_ok: "queue_step scan s op s' \<Longrightarrow> table_ok (q_jobs s) \<Longrightarrow> table_ok (q_jobs s')"
proof (induction rule: queue_step.induct)
  case (step_claim now dur s res db)
  then show ?case using claim_next_table_ok[of "q_jobs s" scan now dur] by simp
next
  case (step_batch now dur limit s res db)
  then show ?case using claim_batch_table_ok[of "q_jobs s" scan now dur limit] by simp
next
  case (step_settle j s now result)
  then show ?case using worker.keeps[of "q_jobs s" "(now, result)" j] by simp
qed (auto simp: enqueue_def Let_def recover_stale_locks_def release_running_locks_def
      requeue_failed_def requeue_transient_failed_def retry_all_failed_def
      intro: sql_update_table_ok)

lemma queue_run_table_ok: "queue_run scan ops s \<Longrightarrow> table_ok (q_jobs s)"
  by (induction rule: queue_run.induct)
     (auto simp: table_ok_def active_keys_def dest: queue_step_table_ok)

text \<open>A running row is always under a lease that has a start and an end.\<close>

definition running_ok :: "job_row \<Rightarrow> bool" where
  "running_ok r = (row_status r = ''running'' \<longrightarrow> row_locked_until r \<noteq> None \<and> row_started_at r \<noteq> None)"

lemma claim_next_all:
  assumes "\<forall>r \<in> set db. P r" and "\<And>r l. P r \<Longrightarrow> row_status r = ''ready'' \<Longrightarrow> P (lease_row now l r)"
    and "table_ok db" and "set (scan db) = set db"
  shows "\<forall>r \<in> set (snd (claim_next scan now dur db)). P r"
  using claim_next_cases[of db scan now dur, OF assms(3,4)]
proof cases
  case (2 r)
  then have "\<forall>x \<in> set db. row_id x = row_id r \<longrightarrow> row_status x = ''ready''"
    using row_id_unique[OF assms(3)] unfolding row_due_def by metis
  then show ?thesis using 2(4) assms(1,2) by auto
qed (use assms(1) in simp)

lemma batch_row_ready:
  assumes "table_ok db" and "set (scan db) = set db" and "r \<in> set db"
    and "row_id r \<in> set (batch_ids scan now n db)"
  shows "row_status r = ''ready'' \<and> row_kind r = ''extract_chunk'' \<and> row_available_at r \<le> now"
proof -
  obtain x where "x \<in> set db" "row_id x = row_id r"
    "row_status x = ''ready''" "row_kind x = ''extract_chunk''" "row_available_at x \<le> now"
    using assms(2,4) by (fastforce simp: batch_ids_def dest: in_set_takeD)
  then show ?thesis using row_id_unique[OF assms(1,3), of x] by auto
qed

lemma claim_batch_all:
  assumes "\<forall>r \<in> set db. P r" and "\<And>r l. P r \<Longrightarrow> row_status r = ''ready'' \<Longrightarrow> P (lease_row now l r)"
    and "table_ok db" and "set (scan db) = set db"
  shows "\<forall>r \<in> set (snd (claim_ready_extract_batch scan now dur n db)). P r"
proof -
  let ?c = "\<lambda>x. row_id x \<in> set (batch_ids scan now n db)"
  have "\<forall>r \<in> set (snd (sql_update ?c (lease_row now (sat_i64 (now + dur))) db)). P r"
    using assms(1,2) batch_row_ready[of db scan _ now n, OF assms(3,4)]
    by (auto simp: sql_update_def Let_def)
  then show ?thesis using assms(1)
    by (auto simp: claim_ready_extract_batch_def Let_def split: prod.splits sum.splits)
qed

lemma settle_job_all:
  assumes "\<forall>r \<in> set db. P r"
    and "\<And>r. r \<in> set db \<Longrightarrow> holds_lease j r \<Longrightarrow> P (done_row now r)"
    and "\<And>r e a b. r \<in> set db \<Longrightarrow> holds_lease j r \<Longrightarrow> P (fail_row now e a b r)"
    and "\<And>r t e. r \<in> set db \<Longrightarrow> holds_lease j r \<Longrightarrow> \<not> job_max_attempts j \<le> job_attempts j \<Longrightarrow>
            P (retry_row t e r)"
    and "\<And>r u e. r \<in> set db \<Longrightarrow> holds_lease j r \<Longrightarrow>
            P (defer_row (sat_i64 (uint (job_attempts j) - 1)) u e r)"
  shows "\<forall>r \<in> set (snd (settle_job now j result db)). P r"
proof -
  have upd: "\<forall>r \<in> set (snd (sql_update (holds_lease j) change db)). P r"
    if "\<And>r. r \<in> set db \<Longrightarrow> holds_lease j r \<Longrightarrow> P (change r)" for change
    using that assms(1) by (auto simp: sql_update_def Let_def)
  show ?thesis
  proof (cases result)
    case (Inl err)
    obtain message typed where err: "err = (message, typed)" by force
    show ?thesis
    proof (cases "fails_terminally j typed")
      case True
      show ?thesis unfolding Inl err settle_job.simps mark_failed_typed_def snd_apfst if_P[OF True]
        by (rule upd) (rule assms(3))
    next
      case False
      then have "\<not> job_max_attempts j \<le> job_attempts j" by (simp add: fails_terminally_def)
      then show ?thesis
        unfolding Inl err settle_job.simps mark_failed_typed_def snd_apfst if_not_P[OF False]
        by (intro upd) (rule assms(4))
    qed
  next
    case (Inr outcome)
    show ?thesis
    proof (cases outcome)
      case Outcome_Done
      show ?thesis unfolding Inr Outcome_Done settle_job.simps mark_done_def snd_apfst
        by (rule upd) (rule assms(2))
    next
      case (Outcome_Defer u e)
      show ?thesis unfolding Inr Outcome_Defer settle_job.simps mark_deferred_def snd_apfst
        by (rule upd) (rule assms(5))
    qed
  qed
qed

text \<open>A property of rows that every change of a row keeps holds of every row after a step.\<close>

lemma queue_step_all:
  assumes "queue_step scan s op s'" and "\<forall>r \<in> set (q_jobs s). P r"
    and "table_ok (q_jobs s)" and "set (scan (q_jobs s)) = set (q_jobs s)"
    and new: "\<And>rid now j. P (new_row rid now j)"
    and lease: "\<And>r now l. P r \<Longrightarrow> row_status r = ''ready'' \<Longrightarrow> P (lease_row now l r)"
    and settle: "\<And>j r now a b e. j \<in> set (q_leases s) \<Longrightarrow> r \<in> set (q_jobs s) \<Longrightarrow> P r \<Longrightarrow>
        holds_lease j r \<Longrightarrow> P (done_row now r) \<and> P (fail_row now e a b r)"
    and retry: "\<And>j r t e. j \<in> set (q_leases s) \<Longrightarrow> P r \<Longrightarrow> holds_lease j r \<Longrightarrow> r \<in> set (q_jobs s) \<Longrightarrow>
        \<not> job_max_attempts j \<le> job_attempts j \<Longrightarrow> P (retry_row t e r)"
    and deferred: "\<And>j r t e. j \<in> set (q_leases s) \<Longrightarrow> P r \<Longrightarrow> holds_lease j r \<Longrightarrow> r \<in> set (q_jobs s) \<Longrightarrow>
        P (defer_row (sat_i64 (uint (job_attempts j) - 1)) t e r)"
    and recover: "\<And>r now. op = Do_Recover now \<Longrightarrow> P r \<Longrightarrow> lock_expired now r \<Longrightarrow> P (recover_row r)"
    and release: "\<And>r. op = Do_Release \<Longrightarrow> P r \<Longrightarrow> row_status r = ''running'' \<Longrightarrow> P (release_row r)"
    and reset: "\<And>r now. P r \<Longrightarrow> row_status r = ''failed'' \<Longrightarrow> P (reset_row now r) \<and> P (requeue_row now r)"
  shows "\<forall>r \<in> set (q_jobs s'). P r"
  using assms(1)
proof cases
  case (step_enqueue rid now j)
  then show ?thesis using assms(2) new by (auto simp: enqueue_def Let_def)
next
  case (step_claim now dur res db)
  have "\<forall>r \<in> set (snd (claim_next scan now dur (q_jobs s))). P r"
    by (rule claim_next_all) (use assms(2-4) lease in auto)
  then show ?thesis using step_claim by simp
next
  case (step_batch now dur limit res db)
  have "\<forall>r \<in> set (snd (claim_ready_extract_batch scan now dur limit (q_jobs s))). P r"
    by (rule claim_batch_all) (use assms(2-4) lease in auto)
  then show ?thesis using step_batch by simp
next
  case (step_settle j now result)
  have "\<forall>r \<in> set (snd (settle_job now j result (q_jobs s))). P r"
    using assms(2) settle[OF step_settle(3)] retry[OF step_settle(3)] deferred[OF step_settle(3)]
    by (intro settle_job_all) auto
  then show ?thesis using step_settle by simp
next
  case (step_recover now)
  then show ?thesis using assms(2) recover
    by (auto simp: recover_stale_locks_def sql_update_def Let_def)
next
  case step_release
  then show ?thesis using assms(2) release
    by (auto simp: release_running_locks_def sql_update_def Let_def)
next
  case (step_requeue now)
  then show ?thesis using assms(2) reset by (auto simp: requeue_failed_def sql_update_def Let_def)
next
  case (step_requeue_transient now)
  then show ?thesis using assms(2) reset
    by (auto simp: requeue_transient_failed_def transient_failed_def sql_update_def Let_def)
next
  case (step_retry_all now)
  then show ?thesis using assms(2) reset by (auto simp: retry_all_failed_def sql_update_def Let_def)
qed

lemma row_status_changed [simp]:
  "row_status (done_row now r) = ''done''" "row_status (fail_row now e a b r) = ''failed''"
  "row_status (retry_row t e r) = ''ready''" "row_status (defer_row n t e r) = ''ready''"
  "row_status (recover_row r) = ''ready''" "row_status (release_row r) = ''ready''"
  "row_status (reset_row now r) = ''ready''" "row_status (requeue_row now r) = ''ready''"
  "row_status (new_row rid now j) = ''ready''"
  by (simp_all add: done_row_def fail_row_def retry_row_def defer_row_def recover_row_def
      release_row_def reset_row_def requeue_row_def new_row_def)

lemma row_attempts_changed [simp]:
  "row_attempts (done_row now r) = row_attempts r" "row_attempts (fail_row now e a b r) = row_attempts r"
  "row_attempts (retry_row t e r) = row_attempts r" "row_attempts (defer_row n t e r) = n"
  "row_attempts (reset_row now r) = 0" "row_attempts (requeue_row now r) = 0"
  "row_attempts (new_row rid now j) = 0"
  by (simp_all add: done_row_def fail_row_def retry_row_def defer_row_def
      reset_row_def requeue_row_def new_row_def)

lemma queue_run_running_ok:
  assumes "queue_run scan ops s" and "\<And>q. set (scan q) = set q"
  shows "\<forall>r \<in> set (q_jobs s). running_ok r"
  using assms(1)
proof (induction rule: queue_run.induct)
  case (run_step ops s op s')
  show ?case
    by (rule queue_step_all[OF run_step(2) run_step(3) queue_run_table_ok[OF run_step(1)] assms(2)])
       (auto simp: running_ok_def)
qed simp

section \<open>The retry budget\<close>

text \<open>Apart from crash recovery, the attempts of a row stay within its budget.\<close>

definition row_budget :: "job_row \<Rightarrow> int" where
  "row_budget r = max 1 (row_max_attempts r)"

definition budget_ok :: "job_row \<Rightarrow> bool" where
  "budget_ok r =
     (0 \<le> row_attempts r \<and> row_attempts r \<le> row_budget r \<and>
      0 \<le> row_max_attempts r \<and> row_max_attempts r < 2 ^ 32 \<and>
      (row_status r = ''ready'' \<longrightarrow> row_attempts r < row_budget r))"

definition lease_ok :: "job_table \<Rightarrow> job \<Rightarrow> bool" where
  "lease_ok db j =
     (\<exists>r \<in> set db. row_id r = job_id j \<and> row_max_attempts r = uint (job_max_attempts j) \<and>
        1 \<le> uint (job_attempts j) \<and> uint (job_attempts j) \<le> row_budget r)"

definition no_crash :: "queue_op \<Rightarrow> bool" where
  "no_crash op = (case op of Do_Recover _ \<Rightarrow> False | Do_Release \<Rightarrow> False | _ \<Rightarrow> True)"

lemma uint_of_int_max:
  "0 \<le> i \<Longrightarrow> i < 2 ^ 32 \<Longrightarrow> uint (word_of_int (max i 0) :: 32 word) = i"
  by (simp add: uint_word_of_int max_def)

lemma leased_job_ok:
  assumes "budget_ok r" "row_status r = ''ready''" "row_to_job (lease_row now l r) = Inr j"
  shows "job_id j = row_id r" "uint (job_max_attempts j) = row_max_attempts r"
    and "1 \<le> uint (job_attempts j)" "uint (job_attempts j) \<le> row_budget r"
proof -
  have j: "job_id j = row_id r" "job_attempts j = word_of_int (max (row_attempts r + 1) 0)"
    "job_max_attempts j = word_of_int (max (row_max_attempts r) 0)"
    using row_to_job_Inr[OF assms(3)] by simp_all
  have "row_attempts r + 1 < 2 ^ 32"
    using assms(1,2) by (auto simp: budget_ok_def row_budget_def)
  then show "job_id j = row_id r" "uint (job_max_attempts j) = row_max_attempts r"
    "1 \<le> uint (job_attempts j)" "uint (job_attempts j) \<le> row_budget r"
    using assms(1,2) j uint_of_int_max[of "row_attempts r + 1"] uint_of_int_max[of "row_max_attempts r"]
    by (simp_all add: budget_ok_def)
qed

lemma lease_ok_holds:
  assumes "table_ok db" "lease_ok db j" "r \<in> set db" "holds_lease j r"
  shows "row_max_attempts r = uint (job_max_attempts j)" and "row_attempts r = uint (job_attempts j)"
    and "1 \<le> row_attempts r"
proof -
  obtain x where x: "x \<in> set db" "row_id x = job_id j" "row_max_attempts x = uint (job_max_attempts j)"
    "1 \<le> uint (job_attempts j)"
    using assms(2) by (auto simp: lease_ok_def)
  have "r = x" using row_id_unique[OF assms(1,3) x(1)] x(2) assms(4) by (simp add: holds_lease_def)
  then show "row_max_attempts r = uint (job_max_attempts j)" "row_attempts r = uint (job_attempts j)"
    "1 \<le> row_attempts r"
    using x assms(4) by (simp_all add: holds_lease_def)
qed

lemma budget_step:
  assumes "queue_step scan s op s'" and "no_crash op" and "\<forall>r \<in> set (q_jobs s). budget_ok r"
    and "\<forall>j \<in> set (q_leases s). lease_ok (q_jobs s) j"
    and ok: "table_ok (q_jobs s)" and scan: "set (scan (q_jobs s)) = set (q_jobs s)"
  shows "\<forall>r \<in> set (q_jobs s'). budget_ok r"
proof (rule queue_step_all[OF assms(1,3,5,6)], goal_cases)
  case (1 rid now j)
  have "uint (m :: 32 word) < 4294967296" for m using uint_lt2p[of m] by simp
  then show ?case
    by (simp add: budget_ok_def row_budget_def new_row_def max_def)
next
  case (2 r now l)
  then show ?case by (auto simp: budget_ok_def row_budget_def)
next
  case (3 j r now a b e)
  then show ?case by (auto simp: budget_ok_def row_budget_def)
next
  case (4 j r t e)
  then have "row_attempts r < row_max_attempts r"
    using lease_ok_holds[OF ok _ 4(4,3)] assms(4) by (auto simp: word_le_def)
  then show ?case using 4(2) by (auto simp: budget_ok_def row_budget_def)
next
  case (5 j r t e)
  note l = lease_ok_holds[OF ok _ 5(4,3)]
  have "sat_i64 (uint (job_attempts j) - 1) = row_attempts r - 1"
    using l(2,3) 5(1,2) assms(4) by (auto simp: sat_i64_def i64_min_def i64_max_def budget_ok_def row_budget_def)
  then show ?case using 5(1,2) l(3) assms(4) by (auto simp: budget_ok_def row_budget_def)
next
  case (8 r now)
  then show ?case by (auto simp: budget_ok_def row_budget_def)
qed (use assms(2) in \<open>auto simp: no_crash_def\<close>)

lemma sql_update_member:
  assumes "r \<in> set db"
  shows "r \<in> set (snd (sql_update cond change db)) \<or> change r \<in> set (snd (sql_update cond change db))"
proof -
  let ?f = "\<lambda>r. if cond r then change r else r"
  have "?f r \<in> set (map ?f db)" using assms by (simp only: set_map) (rule imageI)
  then show ?thesis using assms by (auto simp: sql_update_def Let_def split: if_splits)
qed

lemma queue_step_extends:
  assumes "queue_step scan s op s'" "r \<in> set (q_jobs s)"
  shows "\<exists>r' \<in> set (q_jobs s'). row_id r' = row_id r \<and> row_max_attempts r' = row_max_attempts r"
proof -
  have upd: "\<exists>r' \<in> set (snd (sql_update cond change (q_jobs s))).
      row_id r' = row_id r \<and> row_max_attempts r' = row_max_attempts r"
    if "\<And>x. row_id (change x) = row_id x \<and> row_max_attempts (change x) = row_max_attempts x"
    for cond change
    using sql_update_member[OF assms(2), of cond change] that by metis
  from assms(1) show ?thesis
  proof cases
    case (step_claim now dur res db)
    show ?thesis
    proof (cases "next_row scan now (q_jobs s)")
      case (Some x)
      with step_claim upd[of "lease_row now (sat_i64 (now + dur))" "\<lambda>y. row_id y = row_id x"]
      show ?thesis by (auto simp: claim_next_def Let_def split: prod.splits sum.splits)
    qed (use step_claim assms(2) in \<open>auto simp: claim_next_def Let_def\<close>)
  next
    case (step_batch now dur limit res db)
    with upd[of "lease_row now (sat_i64 (now + dur))" "\<lambda>x. row_id x \<in> set (batch_ids scan now limit (q_jobs s))"]
    show ?thesis using assms(2)
      by (auto simp: claim_ready_extract_batch_def Let_def split: prod.splits sum.splits if_splits)
  next
    case (step_settle j now result)
    obtain change where "settle_job now j result (q_jobs s) =
        apfst (map_sum id (\<lambda>_. ())) (sql_update (holds_lease j) change (q_jobs s))"
      "\<forall>r. row_id (change r) = row_id r \<and> row_max_attempts (change r) = row_max_attempts r"
      using settle_job_update by blast
    then show ?thesis using step_settle upd[of change "holds_lease j"] by simp
  qed (use assms(2) in \<open>auto simp: enqueue_def Let_def recover_stale_locks_def release_running_locks_def
      requeue_failed_def requeue_transient_failed_def retry_all_failed_def intro!: upd\<close>)
qed

lemma lease_ok_step:
  "queue_step scan s op s' \<Longrightarrow> lease_ok (q_jobs s) j \<Longrightarrow> lease_ok (q_jobs s') j"
  unfolding lease_ok_def row_budget_def using queue_step_extends by metis

lemma collect_results_Inr: "collect_results xs = Inr ys \<Longrightarrow> xs = map Inr ys"
proof (induction xs arbitrary: ys)
  case (Cons x xs)
  then show ?case by (cases x; cases "collect_results xs") auto
qed simp

lemma leased_job_lease_ok:
  assumes "budget_ok r" "row_status r = ''ready''" "row_to_job (lease_row now l r) = Inr j"
    and "lease_row now l r \<in> set db"
  shows "lease_ok db j"
  unfolding lease_ok_def using leased_job_ok[OF assms(1-3)] assms(4)
  by (intro bexI[of _ "lease_row now l r"]) (auto simp: row_budget_def)

lemma claim_next_lease_ok:
  assumes "\<forall>r \<in> set db. budget_ok r" "table_ok db" "set (scan db) = set db"
    and "claim_next scan now dur db = (res, db')" and "j \<in> set (claimed_jobs res)"
  shows "lease_ok db' j"
proof -
  let ?l = "sat_i64 (now + dur)"
  have "res = Inr (Some j)" using assms(5) by (cases res rule: claimed_jobs.cases) auto
  then have claim: "claim_next scan now dur db = (Inr (Some j), db')" using assms(4) by simp
  obtain r where "next_row scan now db = Some r" and r: "r \<in> set db" "row_due now r"
    "row_to_job (lease_row now ?l r) = Inr j"
    "db' = map (\<lambda>x. if row_id x = row_id r then lease_row now ?l x else x) db"
    by (rule claim_next_Some[of db scan now dur j db', OF assms(2,3) claim])
  have "lease_row now ?l r \<in> set db'" using r(1,4) by force
  moreover have "budget_ok r" "row_status r = ''ready''" using r(1,2) assms(1) by (auto simp: row_due_def)
  ultimately show ?thesis using r(3) by (intro leased_job_lease_ok)
qed

lemma claim_batch_jobs:
  assumes "claim_ready_extract_batch scan now dur n db = (Inr js, db')" and "j \<in> set js"
    and "table_ok db" and "set (scan db) = set db"
  obtains r where "r \<in> set db" "row_status r = ''ready''" "row_kind r = ''extract_chunk''"
    and "row_available_at r \<le> now"
    and "row_to_job (lease_row now (sat_i64 (now + dur)) r) = Inr j"
    and "lease_row now (sat_i64 (now + dur)) r \<in> set db'"
proof -
  let ?ids = "set (batch_ids scan now n db)" and ?lease = "lease_row now (sat_i64 (now + dur))"
  obtain m where upd: "sql_update (\<lambda>x. row_id x \<in> ?ids) ?lease db = (Inr m, db')"
    and coll: "collect_results (map row_to_job (filter (\<lambda>x. row_id x \<in> ?ids) db')) = Inr js"
    using assms(1,2)
    by (auto simp: claim_ready_extract_batch_def Let_def split: prod.splits sum.splits if_splits)
  obtain x where x: "x \<in> set db'" "row_id x \<in> ?ids" "row_to_job x = Inr j"
  proof -
    have "Inr j \<in> set (map row_to_job (filter (\<lambda>x. row_id x \<in> ?ids) db'))"
      unfolding collect_results_Inr[OF coll] using assms(2) by simp
    then show ?thesis using that by auto
  qed
  have db': "db' = map (\<lambda>r. if row_id r \<in> ?ids then ?lease r else r) db"
    using sql_update_result(1)[OF upd] by simp
  then obtain r where r: "r \<in> set db" "row_id r \<in> ?ids" "x = ?lease r"
    using x(1,2) by (auto split: if_splits)
  show ?thesis
    using that[OF r(1)] batch_row_ready[OF assms(3,4) r(1,2)] x r(3) by auto
qed

lemma queue_run_budget:
  assumes "queue_run scan ops s" and "list_all no_crash ops" and "\<And>q. set (scan q) = set q"
  shows "(\<forall>r \<in> set (q_jobs s). budget_ok r) \<and> (\<forall>j \<in> set (q_leases s). lease_ok (q_jobs s) j)"
  using assms(1,2)
proof (induction rule: queue_run.induct)
  case (run_step ops s op s')
  then have ih: "\<forall>r \<in> set (q_jobs s). budget_ok r" "\<forall>j \<in> set (q_leases s). lease_ok (q_jobs s) j"
    and nc: "no_crash op" by auto
  note ok = queue_run_table_ok[OF run_step(1)]
  have rows: "\<forall>r \<in> set (q_jobs s'). budget_ok r"
    by (rule budget_step[OF run_step(2) nc ih ok assms(3)])
  have old: "\<forall>j \<in> set (q_leases s). lease_ok (q_jobs s') j"
    using ih(2) lease_ok_step[OF run_step(2)] by blast
  from run_step(2) have "\<forall>j \<in> set (q_leases s'). lease_ok (q_jobs s') j"
  proof cases
    case (step_claim now dur res db)
    then show ?thesis using old claim_next_lease_ok[of "q_jobs s" scan now dur res db] ih(1) ok assms(3) by auto
  next
    case (step_batch now dur n res db)
    show ?thesis
    proof
      fix j assume j: "j \<in> set (q_leases s')"
      show "lease_ok (q_jobs s') j"
      proof (cases "j \<in> set (q_leases s)")
        case False
        then obtain js where js: "res = Inr js" "j \<in> set js" using j step_batch by (cases res) auto
        have "claim_ready_extract_batch scan now dur n (q_jobs s) = (Inr js, db)"
          using step_batch js(1) by simp
        from claim_batch_jobs[OF this js(2) ok assms(3)] obtain r where
          r: "r \<in> set (q_jobs s)" "row_status r = ''ready''"
            "row_to_job (lease_row now (sat_i64 (now + dur)) r) = Inr j"
            "lease_row now (sat_i64 (now + dur)) r \<in> set db" by metis
        have "budget_ok r" using r(1) ih(1) by blast
        then show ?thesis using leased_job_lease_ok[OF _ r(2,3,4)] step_batch by simp
      qed (use old in blast)
    qed
  qed (use old in auto)
  with rows show ?case by blast
qed simp

section \<open>Settling a live lease\<close>

text \<open>What a settlement by the lessee of a running row makes of that row.\<close>

fun settled_row ::
    "int \<Rightarrow> job \<Rightarrow> (string \<times> pipeline_failure option) + job_outcome \<Rightarrow> job_row \<Rightarrow> job_row" where
  "settled_row now j (Inr Outcome_Done) r = done_row now r"
| "settled_row now j (Inr (Outcome_Defer until_ms reason)) r =
     defer_row (sat_i64 (uint (job_attempts j) - 1)) until_ms reason r"
| "settled_row now j (Inl (message, typed)) r =
     (if fails_terminally j typed
      then fail_row now message (map_option (\<lambda>f. failure_code_as_str (pf_code f)) typed)
             (map_option (\<lambda>f. failure_class_as_str (pf_class f)) typed) r
      else retry_row (sat_i64 (now + backoff_ms (job_attempts j))) message r)"

lemma settle_job_settled_row:
  "settle_job now j result db =
     apfst (map_sum id (\<lambda>_. ())) (sql_update (holds_lease j) (settled_row now j result) db)"
proof -
  have "settled_row t j (Inr Outcome_Done) = done_row t"
    "settled_row t j (Inr (Outcome_Defer u e)) = defer_row (sat_i64 (uint (job_attempts j) - 1)) u e"
    for t j u e
    by (simp_all add: fun_eq_iff)
  moreover have "settled_row t j (Inl (m, f)) =
      (if fails_terminally j f
       then fail_row t m (map_option (\<lambda>f. failure_code_as_str (pf_code f)) f)
              (map_option (\<lambda>f. failure_class_as_str (pf_class f)) f)
       else retry_row (sat_i64 (t + backoff_ms (job_attempts j))) m)" for t j m f
    by (simp add: fun_eq_iff)
  ultimately show ?thesis
    by (cases "(now, j, result, db)" rule: settle_job.cases)
       (auto simp: mark_done_def mark_deferred_def mark_failed_typed_def)
qed

lemma settled_row_keys [simp]:
  "row_id (settled_row now j result r) = row_id r"
  "row_dedupe_key (settled_row now j result r) = row_dedupe_key r"
  by (cases "(now, j, result, r)" rule: settled_row.cases; simp)+

lemma get_row_update:
  assumes "table_ok db" "table_ok (map (\<lambda>x. if c x then f x else x) db)" "r \<in> set db" "c r"
    and "\<And>x. row_id (f x) = row_id x"
  shows "get_row (row_id r) (map (\<lambda>x. if c x then f x else x) db) = Some (f r)"
proof -
  have "f r \<in> set (map (\<lambda>x. if c x then f x else x) db)" using assms(3,4) by force
  from get_row_Some[OF assms(2) this] assms(5) show ?thesis by simp
qed

lemma settle_live:
  assumes "table_ok db" "r \<in> set db" "holds_lease j r" "row_status r = ''running''"
  shows "fst (settle_job now j result db) = Inr ()"
    and "get_row (row_id r) (snd (settle_job now j result db)) = Some (settled_row now j result r)"
    and "table_ok (snd (settle_job now j result db))"
proof -
  let ?f = "settled_row now j result"
  have only: "x = r" if "x \<in> set db" "holds_lease j x" for x
    using row_id_unique[OF assms(1) that(1) assms(2)] that(2) assms(3) by (simp add: holds_lease_def)
  have upd: "sql_update (holds_lease j) ?f db =
      (Inr (length (filter (holds_lease j) db)), map (\<lambda>r. if holds_lease j r then ?f r else r) db)"
    by (rule sql_update_never_aborts[OF assms(1)])
       (use only assms(4) in \<open>auto simp: row_active_def\<close>)
  then show "fst (settle_job now j result db) = Inr ()" by (simp add: settle_job_settled_row)
  show ok: "table_ok (snd (settle_job now j result db))"
    using worker.keeps[OF assms(1), of "(now, result)" j] by simp
  then show "get_row (row_id r) (snd (settle_job now j result db)) = Some (?f r)"
    using get_row_update[of db "holds_lease j" ?f r] assms(1-3) upd by (simp add: settle_job_settled_row)
qed

text \<open>A claimed job is the live lessee of the row it was made from.\<close>

lemma claimed_job_live:
  assumes "table_ok db" "set (scan db) = set db" "claim_next scan now dur db = (Inr (Some j), db')"
    and "get_row (job_id j) db = Some r"
    and "0 \<le> row_attempts r" "row_attempts r < 2 ^ 32 - 1"
  defines "r' \<equiv> lease_row now (sat_i64 (now + dur)) r"
  shows "table_ok db'" "r' \<in> set db'" "holds_lease j r'" "row_to_job r' = Inr j"
    and "uint (job_attempts j) = row_attempts r + 1"
proof -
  obtain x where "next_row scan now db = Some x" and x: "x \<in> set db" "row_due now x"
    "row_to_job (lease_row now (sat_i64 (now + dur)) x) = Inr j"
    "db' = map (\<lambda>y. if row_id y = row_id x then lease_row now (sat_i64 (now + dur)) y else y) db"
    by (rule claim_next_Some[of db scan now dur j db', OF assms(1-3)])
  note j = row_to_job_Inr[OF x(3)]
  have "x = r" using get_row_set[OF assms(4)] j row_id_unique[OF assms(1) x(1)] by simp
  then show mem: "r' \<in> set db'" and rj: "row_to_job r' = Inr j"
    using x by (force simp: r'_def)+
  show "table_ok db'" using claim_next_table_ok[OF assms(1), of scan now dur] assms(3) by simp
  have "row_attempts r + 1 < 2 ^ 32" using assms(6) by simp
  then show att: "uint (job_attempts j) = row_attempts r + 1"
    using uint_of_int_max[of "row_attempts r + 1"] assms(5) j \<open>x = r\<close> by simp
  then show "holds_lease j r'" using j \<open>x = r\<close> by (simp add: holds_lease_def r'_def)
qed

lemma transient_or_unrecoverable:
  "row_status r = ''failed'' \<longleftrightarrow>
     transient_failed r \<noteq> (row_status r = ''failed'' \<and> row_failure_class r = Some ''unrecoverable'') \<and>
     row_status r = ''failed''"
  by (auto simp: transient_failed_def)

lemma failed_split:
  "length (filter (\<lambda>r. row_status r = ''failed'') db) =
     length (filter transient_failed db) + count_failed_unrecoverable db"
  unfolding count_failed_unrecoverable_def
  by (induction db) (auto simp: transient_failed_def)

section \<open>Properties\<close>

text \<open>C35. Claiming is fair and exclusive.  On a table whose indexes hold, and whatever order
  SQLite scans it in: nothing is claimed only when no row is due; a claimed job was a due row
  of least rank, and of least due time in its rank; it becomes running under a fresh lease
  and no other row changes; and no row that is running is ever chosen.\<close>

theorem claim_next_is_fair:
  assumes "table_ok db" and "mset (scan db) = mset db"
  shows "claim_next scan now dur db = (Inr None, db) \<and> (\<forall>r \<in> set db. \<not> row_due now r) \<or>
    (\<exists>r \<in> set db. row_status r = ''ready'' \<and> row_available_at r \<le> now \<and>
       (\<forall>x \<in> set db. row_status x = ''ready'' \<and> row_available_at x \<le> now \<longrightarrow>
          kind_rank (row_kind r) < kind_rank (row_kind x) \<or>
          kind_rank (row_kind r) = kind_rank (row_kind x) \<and> row_available_at r \<le> row_available_at x) \<and>
       fst (claim_next scan now dur db) =
         map_sum id Some (row_to_job (lease_row now (sat_i64 (now + dur)) r)) \<and>
       get_row (row_id r) (snd (claim_next scan now dur db)) =
         Some (lease_row now (sat_i64 (now + dur)) r) \<and>
       (\<forall>x \<in> set db. x \<noteq> r \<longrightarrow> get_row (row_id x) (snd (claim_next scan now dur db)) = Some x))"
proof -
  have scan: "set (scan db) = set db" using assms(2) by (rule mset_eq_setD)
  show ?thesis using claim_next_cases[of db scan now dur, OF assms(1) scan]
  proof cases
    case 1
    then show ?thesis by simp
  next
    case (2 r)
    let ?l = "lease_row now (sat_i64 (now + dur))"
    let ?db = "map (\<lambda>x. if row_id x = row_id r then ?l x else x) db"
    have ok: "table_ok ?db" using claim_next_table_ok[OF assms(1), of scan now dur] 2(4) by simp
    have "?l r \<in> set ?db" using 2(2) by force
    with get_row_Some[OF ok, of "?l r"] have r: "get_row (row_id r) ?db = Some (?l r)" by simp
    have others: "\<forall>x \<in> set db. x \<noteq> r \<longrightarrow> get_row (row_id x) ?db = Some x"
    proof (intro ballI impI)
      fix x assume x: "x \<in> set db" "x \<noteq> r"
      then have "row_id x \<noteq> row_id r" using row_id_unique[OF assms(1) x(1) 2(2)] by blast
      then have "x \<in> set ?db" using x(1) by force
      then show "get_row (row_id x) ?db = Some x" by (rule get_row_Some[OF ok])
    qed
    have least: "kind_rank (row_kind r) < kind_rank (row_kind x) \<or>
        kind_rank (row_kind r) = kind_rank (row_kind x) \<and> row_available_at r \<le> row_available_at x"
      if "x \<in> set db" "row_status x = ''ready''" "row_available_at x \<le> now" for x
      using next_row_Some(3)[OF 2(1) scan that(1)] that(2,3) by (auto simp: row_due_def)
    show ?thesis using 2 r others least by (intro disjI2 bexI[of _ r]) (auto simp: row_due_def)
  qed
qed

lemma sat_i64_id: "i64_min \<le> i \<Longrightarrow> i \<le> i64_max \<Longrightarrow> sat_i64 i = i"
  by (simp add: sat_i64_def)

text \<open>The backoff formula: the shift cap and the saturating multiplication never show, the
  delay before a retry is the least of one hour and one minute doubled per earlier attempt.\<close>

theorem backoff_ms_formula:
  "backoff_ms attempts = min 3600000 (60000 * 2 ^ (unat attempts - 1))"
proof (cases "unat attempts - 1 \<le> 20")
  case True
  then have "(2::int) ^ (unat attempts - 1) \<le> 2 ^ 20" by (rule power_increasing) simp
  then have "60000 * 2 ^ (unat attempts - 1) \<le> (60000 * 2 ^ 20 :: int)" by (rule mult_left_mono) simp
  moreover have "(0::int) \<le> 60000 * 2 ^ (unat attempts - 1)" by simp
  ultimately have "sat_i64 (60000 * 2 ^ (unat attempts - 1)) = 60000 * 2 ^ (unat attempts - 1)"
    by (intro sat_i64_id) (auto simp: i64_min_def i64_max_def intro: order_trans[of _ 0] order_trans[of _ "60000 * 2 ^ 20"])
  then show ?thesis using True
    by (simp add: backoff_ms_def RETRY_BASE_MS_def RETRY_CAP_MS_def Let_def min.commute)
next
  case False
  then have "(2::int) ^ 20 \<le> 2 ^ (unat attempts - 1)" by (intro power_increasing) simp_all
  then show ?thesis using False
    by (simp add: backoff_ms_def RETRY_BASE_MS_def RETRY_CAP_MS_def Let_def sat_i64_def
        i64_max_def i64_min_def)
qed

text \<open>Deduplication.  With its indexes holding, \<open>enqueue\<close> suppresses a job exactly when the
  identifier is taken or an active row carries the same key; otherwise the job is appended
  as a ready row with no attempts.  So at most one active row carries a key, while a key
  whose rows have all finished can be used again.\<close>

theorem enqueue_suppresses_duplicates:
  assumes "table_ok db"
  shows "(fst (enqueue rid now j db) = None \<longleftrightarrow>
      rid \<in> row_id ` set db \<or>
      (\<exists>r \<in> set db. row_active r \<and> nj_dedupe_key j \<noteq> None \<and> row_dedupe_key r = nj_dedupe_key j)) \<and>
    (fst (enqueue rid now j db) = Some rid \<longleftrightarrow> snd (enqueue rid now j db) = db @ [new_row rid now j]) \<and>
    table_ok (snd (enqueue rid now j db))"
proof (intro conjI)
  have keys: "active_keys [new_row rid now j] = (case nj_dedupe_key j of None \<Rightarrow> [] | Some k \<Rightarrow> [k])"
    by (auto simp: active_keys_def new_row_def row_active_def split: option.splits)
  have mem: "k \<in> set (active_keys db) \<longleftrightarrow> (\<exists>r \<in> set db. row_active r \<and> row_dedupe_key r = Some k)" for k
    by (force simp: active_keys_def image_iff)
  have ok: "table_ok (db @ [new_row rid now j]) \<longleftrightarrow>
      rid \<notin> row_id ` set db \<and> (\<forall>k. nj_dedupe_key j = Some k \<longrightarrow> k \<notin> set (active_keys db))"
    using assms keys by (auto simp: table_ok_def new_row_def split: option.splits)
  show "fst (enqueue rid now j db) = None \<longleftrightarrow>
      rid \<in> row_id ` set db \<or>
      (\<exists>r \<in> set db. row_active r \<and> nj_dedupe_key j \<noteq> None \<and> row_dedupe_key r = nj_dedupe_key j)"
    unfolding enqueue_def Let_def using ok mem by auto
  show "fst (enqueue rid now j db) = Some rid \<longleftrightarrow> snd (enqueue rid now j db) = db @ [new_row rid now j]"
    and "table_ok (snd (enqueue rid now j db))"
    using assms by (auto simp: enqueue_def Let_def)
qed

definition seal_job :: "string \<Rightarrow> new_job" where
  "seal_job key = \<lparr>nj_kind = Kind_Seal, nj_payload_json = ''{}'', nj_dedupe_key = Some key,
     nj_available_at_ms = None, nj_max_attempts = None\<rparr>"

definition sample_table :: job_table where
  "sample_table = [new_row ''a'' 5 (seal_job ''k1''), new_row ''b'' 3 (seal_job ''k2'')]"

lemma sample_table_ok: "table_ok sample_table"
  by code_simp

theorem enqueue_suppresses_duplicates_witness:
  "fst (enqueue ''c'' 9 (seal_job ''k2'') sample_table) = None \<and>
   fst (enqueue ''c'' 9 (seal_job ''k3'') sample_table) \<noteq> None"
proof -
  have a: "\<exists>r \<in> set sample_table. row_active r \<and> nj_dedupe_key (seal_job ''k2'') \<noteq> None \<and>
      row_dedupe_key r = nj_dedupe_key (seal_job ''k2'')" by code_simp
  have b: "\<not> (''c'' \<in> row_id ` set sample_table \<or>
      (\<exists>r \<in> set sample_table. row_active r \<and> nj_dedupe_key (seal_job ''k3'') \<noteq> None \<and>
        row_dedupe_key r = nj_dedupe_key (seal_job ''k3'')))" by code_simp
  show ?thesis using enqueue_suppresses_duplicates[OF sample_table_ok] a b by blast
qed

theorem claim_next_is_fair_witness:
  "\<exists>r \<in> set sample_table. row_status r = ''ready'' \<and>
     get_row (row_id r) (snd (claim_next id 10 5 sample_table)) = Some (lease_row 10 15 r)"
proof -
  have "mset (id sample_table) = mset sample_table" by simp
  moreover have "\<not> (\<forall>r \<in> set sample_table. \<not> row_due 10 r)" by code_simp
  moreover have "sat_i64 (10 + 5) = 15" by code_simp
  ultimately show ?thesis using claim_next_is_fair[OF sample_table_ok, of id 10 5] by metis
qed

text \<open>C37. Every run of the queue, with settlements arriving late, twice or after a crash
  recovery: identifiers stay unique, no two active rows share a deduplication key, and a
  running row always has a lease with a start and an end.\<close>

theorem queue_runs_are_sound:
  assumes "queue_run scan ops s" and "\<And>q. mset (scan q) = mset q"
  shows "distinct (map row_id (q_jobs s)) \<and>
    distinct (map row_dedupe_key
      (filter (\<lambda>r. row_dedupe_key r \<noteq> None \<and> (row_status r = ''ready'' \<or> row_status r = ''running''))
        (q_jobs s))) \<and>
    (\<forall>r \<in> set (q_jobs s). row_status r = ''running'' \<longrightarrow>
       row_locked_until r \<noteq> None \<and> row_started_at r \<noteq> None)"
proof -
  have scan: "set (scan q) = set q" for q using assms(2) by (rule mset_eq_setD)
  have the: "distinct (map (\<lambda>x. the (f x)) xs) \<longleftrightarrow> distinct (map f xs)"
    if "\<forall>x \<in> set xs. f x \<noteq> None" for f :: "job_row \<Rightarrow> string option" and xs
  proof -
    have "the (f x) = the (f y) \<longleftrightarrow> f x = f y" if "x \<in> set xs" "y \<in> set xs" for x y
      using that \<open>\<forall>x \<in> set xs. f x \<noteq> None\<close> by (metis option.expand)
    then show ?thesis by (simp add: distinct_map inj_on_def)
  qed
  have "distinct (map row_dedupe_key (filter (\<lambda>r. row_dedupe_key r \<noteq> None \<and> row_active r) (q_jobs s)))"
    using queue_run_table_ok[OF assms(1)]
      the[of "filter (\<lambda>r. row_dedupe_key r \<noteq> None \<and> row_active r) (q_jobs s)" row_dedupe_key]
    by (simp add: table_ok_def active_keys_def)
  then show ?thesis
    using queue_run_table_ok[OF assms(1)] queue_run_running_ok[OF assms(1) scan]
    by (auto simp: table_ok_def row_active_def running_ok_def)
qed

text \<open>The retry budget: in a run without crash recovery or shutdown, no row is ever tried
  more often than its \<open>max_attempts\<close> (once, if that is zero).\<close>

theorem attempts_within_budget:
  assumes "queue_run scan ops s" and "list_all no_crash ops" and "\<And>q. mset (scan q) = mset q"
    and "r \<in> set (q_jobs s)"
  shows "row_attempts r \<le> max 1 (row_max_attempts r)"
proof -
  have "set (scan q) = set q" for q using assms(3) by (rule mset_eq_setD)
  from queue_run_budget[OF assms(1,2) this] assms(4) show ?thesis
    by (auto simp: budget_ok_def row_budget_def)
qed

text \<open>A concrete run: a job is enqueued, leased, and fails once with a transient error.\<close>

definition sample_job :: job where
  "sample_job = \<lparr>job_id = ''a'', job_kind = Kind_Seal, job_payload_json = ''{}'',
     job_dedupe_key = Some ''k'', job_status = Status_Running, job_attempts = 1,
     job_max_attempts = 5, job_available_at = 5, job_locked_until = Some 310,
     job_last_error = None, job_failure_reason = None, job_failure_class = None,
     job_created_at = 5, job_started_at = Some 10, job_completed_at = None\<rparr>"

definition sample_ops :: "queue_op list" where
  "sample_ops = [Do_Enqueue ''a'' 5 (seal_job ''k''), Do_Claim 10 300,
     Do_Settle 20 sample_job (Inl (''timeout'', None))]"

definition sample_state :: queue_state where
  "sample_state = \<lparr>q_jobs = snd (settle_job 20 sample_job (Inl (''timeout'', None))
     (snd (claim_next id 10 300 [new_row ''a'' 5 (seal_job ''k'')]))), q_leases = [sample_job]\<rparr>"

lemma sample_run: "queue_run id sample_ops sample_state"
proof -
  let ?s0 = "\<lparr>q_jobs = [], q_leases = []\<rparr>"
  let ?s1 = "?s0\<lparr>q_jobs := snd (enqueue ''a'' 5 (seal_job ''k'') [])\<rparr>"
  let ?db = "snd (claim_next id 10 300 (q_jobs ?s1))"
  have e: "snd (enqueue ''a'' 5 (seal_job ''k'') []) = [new_row ''a'' 5 (seal_job ''k'')]" by code_simp
  have c: "fst (claim_next id 10 300 (q_jobs ?s1)) = Inr (Some sample_job)" by code_simp
  have "queue_run id ([] @ [Do_Enqueue ''a'' 5 (seal_job ''k'')]) ?s1"
    by (rule run_step[OF run_start]) (use step_enqueue[of id ?s0 "''a''" 5 "seal_job ''k''"] in simp)
  moreover have "queue_step id ?s1 (Do_Claim 10 300)
      \<lparr>q_jobs = ?db, q_leases = claimed_jobs (Inr (Some sample_job)) @ q_leases ?s1\<rparr>"
    by (rule step_claim) (use c in \<open>simp add: prod_eq_iff\<close>)
  ultimately have "queue_run id (([] @ [Do_Enqueue ''a'' 5 (seal_job ''k'')]) @ [Do_Claim 10 300])
      \<lparr>q_jobs = ?db, q_leases = [sample_job]\<rparr>"
    by (auto dest: run_step)
  moreover have "queue_step id \<lparr>q_jobs = ?db, q_leases = [sample_job]\<rparr>
      (Do_Settle 20 sample_job (Inl (''timeout'', None)))
      (\<lparr>q_jobs = ?db, q_leases = [sample_job]\<rparr>
         \<lparr>q_jobs := snd (settle_job 20 sample_job (Inl (''timeout'', None)) ?db)\<rparr>)"
    using step_settle[of sample_job "\<lparr>q_jobs = ?db, q_leases = [sample_job]\<rparr>" id 20
        "Inl (''timeout'', None)"] by simp
  ultimately show ?thesis using run_step e by (fastforce simp: sample_ops_def sample_state_def)
qed

theorem queue_runs_are_sound_witness:
  "distinct (map row_id (q_jobs sample_state)) \<and> length (q_jobs sample_state) = 1"
proof -
  have "length (q_jobs sample_state) = 1" by code_simp
  then show ?thesis using queue_runs_are_sound[OF sample_run] by simp
qed

theorem attempts_within_budget_witness:
  "\<exists>r \<in> set (q_jobs sample_state). row_attempts r = 1 \<and> row_attempts r \<le> max 1 (row_max_attempts r)"
proof -
  have "\<exists>r \<in> set (q_jobs sample_state). row_attempts r = 1" and nc: "list_all no_crash sample_ops"
    by code_simp+
  then obtain r where r: "r \<in> set (q_jobs sample_state)" "row_attempts r = 1" by blast
  show ?thesis using attempts_within_budget[OF sample_run nc _ r(1)] r by auto
qed

text \<open>C23. A stale lease is powerless.  Once a job has been claimed at some instant, whatever
  settlements are attempted under earlier leases of the same row (their start is another
  instant), however many, in any order and with any outcome, the table stays as it is.\<close>

theorem stale_settlements_are_noops:
  assumes "table_ok db" and "mset (scan db) = mset db"
    and "claim_next scan now dur db = (Inr (Some j), db')"
    and "\<forall>(_, old) \<in> set late. job_id old = job_id j \<and> job_started_at old \<noteq> Some now"
  shows "foldl (\<lambda>d ((t, result), old). snd (settle_job t old result d)) db' late = db'"
proof -
  have scan: "set (scan db) = set db" using assms(2) by (rule mset_eq_setD)
  obtain r where "next_row scan now db = Some r" and r: "r \<in> set db" "row_due now r"
    "row_to_job (lease_row now (sat_i64 (now + dur)) r) = Inr j"
    "db' = map (\<lambda>x. if row_id x = row_id r then lease_row now (sat_i64 (now + dur)) x else x) db"
    by (rule claim_next_Some[of db scan now dur j db', OF assms(1) scan assms(3)])
  have ok: "table_ok db'" using claim_next_table_ok[OF assms(1), of scan now dur] assms(3) by simp
  have "\<forall>x \<in> set db'. row_id x = job_id j \<longrightarrow> row_started_at x = Some now"
    using r(4) row_to_job_Inr[OF r(3)] by auto
  then have "\<forall>(x, old) \<in> set late. \<forall>y \<in> set db'. \<not> holds_lease old y"
    using assms(4) by (fastforce simp: holds_lease_def)
  from worker.settle_all_stale[OF ok this] show ?thesis
    unfolding worker.settle_all_def by (simp add: case_prod_unfold)
qed

theorem stale_settlements_are_noops_witness:
  "let db = [new_row ''a'' 5 (seal_job ''k'')];
       db' = snd (claim_next id 700 300 db);
       old = sample_job\<lparr>job_started_at := Some 10\<rparr>
   in foldl (\<lambda>d ((t, result), old). snd (settle_job t old result d)) db'
        [((800, Inr Outcome_Done), old), ((801, Inl (''late'', None)), old)] = db'"
proof -
  let ?db = "[new_row ''a'' 5 (seal_job ''k'')]"
  have ok: "table_ok ?db" by code_simp
  obtain j where j: "fst (claim_next id 700 300 ?db) = Inr (Some j)" "job_id j = ''a''"
  proof -
    have "fst (claim_next id 700 300 ?db) = Inr (Some (sample_job\<lparr>job_started_at := Some 700,
        job_locked_until := Some 1000\<rparr>))" by code_simp
    then show ?thesis by (rule that) (simp add: sample_job_def)
  qed
  have "claim_next id 700 300 ?db = (Inr (Some j), snd (claim_next id 700 300 ?db))"
    using j(1) by (simp add: prod_eq_iff)
  from stale_settlements_are_noops[OF ok _ this,
      of "[((800, Inr Outcome_Done), sample_job\<lparr>job_started_at := Some 10\<rparr>),
           ((801, Inl (''late'', None)), sample_job\<lparr>job_started_at := Some 10\<rparr>)]"]
  show ?thesis using j(2) by (simp add: Let_def sample_job_def)
qed

text \<open>The lessee's settlement lands.  After a job has been claimed from a row, its
  settlement succeeds and changes that row: a deferral gives it back unburnt, ready at the
  wake-up time with the attempts it had before the claim; success finishes it; a failure that
  is unrecoverable, or that used up the budget, is terminal; and any other failure makes it
  ready again after the backoff of its attempt.\<close>

theorem claimed_job_settles:
  assumes "table_ok db" and "mset (scan db) = mset db"
    and "claim_next scan now dur db = (Inr (Some j), db')"
    and "get_row (job_id j) db = Some r"
    and "0 \<le> row_attempts r" and "row_attempts r < 2 ^ 32 - 1"
  shows "fst (settle_job t j result db') = Inr () \<and>
    (\<exists>r'. get_row (job_id j) (snd (settle_job t j result db')) = Some r' \<and>
      (case result of
         Inr Outcome_Done \<Rightarrow> row_status r' = ''done'' \<and> row_locked_until r' = None
       | Inr (Outcome_Defer until_ms reason) \<Rightarrow>
           row_status r' = ''ready'' \<and> row_attempts r' = row_attempts r \<and>
           row_available_at r' = until_ms \<and> row_locked_until r' = None \<and>
           row_last_error r' = Some reason
       | Inl (message, typed) \<Rightarrow>
           row_attempts r' = row_attempts r + 1 \<and> row_last_error r' = Some message \<and>
           (if job_max_attempts j \<le> job_attempts j \<or> is_some_and typed is_unrecoverable
            then row_status r' = ''failed'' \<and>
              row_failure_class r' = map_option (\<lambda>f. failure_class_as_str (pf_class f)) typed
            else row_status r' = ''ready'' \<and>
              row_available_at r' = sat_i64 (t + backoff_ms (job_attempts j)))))"
proof -
  have scan: "set (scan db) = set db" using assms(2) by (rule mset_eq_setD)
  note live = claimed_job_live[of db scan now dur j db' r, OF assms(1) scan assms(3-6)]
  let ?r = "lease_row now (sat_i64 (now + dur)) r"
  have run: "row_status ?r = ''running''" by simp
  have id: "job_id j = row_id ?r" using live(3) by (simp add: holds_lease_def)
  have sat: "sat_i64 (uint (job_attempts j) - 1) = row_attempts r"
    using live(5) assms(5,6) by (simp add: sat_i64_id i64_min_def i64_max_def)
  show ?thesis
    unfolding id using settle_live[OF live(1-3) run, of t result] sat
    by (cases "(t, j, result, ?r)" rule: settled_row.cases)
       (auto simp: done_row_def defer_row_def fail_row_def retry_row_def fails_terminally_def)
qed

theorem claimed_job_settles_witness:
  "\<exists>r'. get_row ''a'' (snd (settle_job 20 sample_job (Inr (Outcome_Defer 99 ''later''))
      (snd (claim_next id 10 300 [new_row ''a'' 5 (seal_job ''k'')])))) = Some r' \<and>
     row_status r' = ''ready'' \<and> row_attempts r' = 0 \<and> row_available_at r' = 99"
proof -
  let ?db = "[new_row ''a'' 5 (seal_job ''k'')]"
  have ok: "table_ok ?db" by code_simp
  have c: "claim_next id 10 300 ?db = (Inr (Some sample_job), snd (claim_next id 10 300 ?db))"
  proof -
    have "fst (claim_next id 10 300 ?db) = Inr (Some sample_job)" by code_simp
    then show ?thesis by (simp add: prod_eq_iff)
  qed
  have g: "get_row (job_id sample_job) ?db = Some (new_row ''a'' 5 (seal_job ''k''))" by code_simp
  show ?thesis
    using claimed_job_settles[OF ok _ c g, of 20 "Inr (Outcome_Defer 99 ''later'')"]
    by (auto simp: sample_job_def new_row_def)
qed

text \<open>Failures that no retry can cure stay parked: the automatic requeue takes up exactly
  the failed rows that are not marked unrecoverable, and those it leaves are exactly the ones
  that \<open>count_failed_unrecoverable\<close> reports.\<close>

theorem transient_requeue_complement:
  assumes "requeue_transient_failed now db = (Inr n, db')"
  shows "count_by_status Status_Failed db = n + count_failed_unrecoverable db \<and>
    count_by_status Status_Failed db' = count_failed_unrecoverable db' \<and>
    count_failed_unrecoverable db' = count_failed_unrecoverable db"
proof (intro conjI)
  note res = sql_update_result(1)[OF assms[unfolded requeue_transient_failed_def]]
  show "count_by_status Status_Failed db = n + count_failed_unrecoverable db"
    using res failed_split[of db] by (simp add: count_by_status_def)
  have "filter (\<lambda>r. row_status r = ''failed'') db' =
      filter (\<lambda>r. row_status r = ''failed'' \<and> row_failure_class r = Some ''unrecoverable'') db" (is "?l = ?r")
  proof -
    have "filter (\<lambda>r. row_status r = ''failed'') (map (\<lambda>r. if transient_failed r then requeue_row now r else r) db)
      = ?r"
      by (induction db) (auto simp: transient_failed_def)
    then show ?thesis using res by simp
  qed
  then have f: "\<And>q. length (filter q ?l) = length (filter q ?r)" by simp
  show "count_failed_unrecoverable db' = count_failed_unrecoverable db"
    using f[of "\<lambda>r. row_failure_class r = Some ''unrecoverable''"]
    by (simp add: count_failed_unrecoverable_def conj_commute conj_left_commute)
  then show "count_by_status Status_Failed db' = count_failed_unrecoverable db'"
    using f[of "\<lambda>_. True"] by (simp add: count_by_status_def count_failed_unrecoverable_def)
qed

definition failed_row :: "string \<Rightarrow> failure_code option \<Rightarrow> job_row" where
  "failed_row rid c = fail_row 50 ''boom'' (map_option failure_code_as_str c)
     (map_option (\<lambda>c. failure_class_as_str (failure_code_class c)) c) (new_row rid 5 (seal_job rid))"

theorem transient_requeue_complement_witness:
  "let db = [failed_row ''a'' (Some Code_AuthInvalid), failed_row ''b'' (Some Code_ExtractionTimeout),
             failed_row ''c'' None]
   in count_by_status Status_Failed db = 2 + count_failed_unrecoverable db"
proof -
  let ?db = "[failed_row ''a'' (Some Code_AuthInvalid), failed_row ''b'' (Some Code_ExtractionTimeout),
             failed_row ''c'' None]"
  have "fst (requeue_transient_failed 90 ?db) = Inr 2" by code_simp
  then have "requeue_transient_failed 90 ?db = (Inr 2, snd (requeue_transient_failed 90 ?db))"
    by (simp add: prod_eq_iff)
  from transient_requeue_complement[OF this] show ?thesis by (simp add: Let_def)
qed

text \<open>Wire strings: parsing what a kind, a status or a failure code writes gives it back,
  and nothing else parses to it.\<close>

theorem wire_strings_roundtrip:
  "parse_kind (kind_as_str k) = Inr k \<and> (parse_kind s = Inr k \<longleftrightarrow> s = kind_as_str k) \<and>
   parse_status (status_as_str st) = Inr st \<and> (parse_status s = Inr st \<longleftrightarrow> s = status_as_str st) \<and>
   failure_code_from_str (failure_code_as_str c) = Some c \<and>
   (failure_code_from_str s = Some c \<longleftrightarrow> s = failure_code_as_str c)"
  by (simp add: parse_kind_Inr parse_status_Inr failure_code_from_str_iff)

lemma last_split:
  "c \<notin> set b \<Longrightarrow> c \<notin> set b' \<Longrightarrow> a @ c # b = a' @ c # b' \<longleftrightarrow> a = a' \<and> b = b'"
proof
  assume b: "c \<notin> set b" "c \<notin> set b'" and eq: "a @ c # b = a' @ c # b'"
  have split: "takeWhile (\<lambda>x. x \<noteq> c) (rev (x @ c # y)) = rev y \<and>
      dropWhile (\<lambda>x. x \<noteq> c) (rev (x @ c # y)) = c # rev x" if "c \<notin> set y" for x y
    using that by (simp add: takeWhile_append dropWhile_append)
  show "a = a' \<and> b = b'" using split[OF b(1), of a] split[OF b(2), of a'] eq by simp
qed simp

text \<open>Deduplication never confuses two kinds of work: payloads with equal keys are of the
  same kind, and two seals with equal keys are of the same tree and level.\<close>

theorem dedupe_keys_separate_work:
  assumes "payload_dedupe_key p = payload_dedupe_key q"
  shows "payload_kind p = payload_kind q \<and>
    (\<forall>t l f t' l' f'. p = Seal_Payload t l f \<and> q = Seal_Payload t' l' f' \<longrightarrow> t = t' \<and> l = l')"
proof (intro conjI[of _ "\<forall>t. _ t"] allI impI)
  show "payload_kind p = payload_kind q" using assms by (rule payload_key_kind)
  fix t l f t' l' f' assume pq: "p = Seal_Payload t l f \<and> q = Seal_Payload t' l' f'"
  have colon: "CHR '':'' \<notin> set (dec_nat n)" for n
    using dec_nat_digits[of "CHR '':''" n] by (auto simp: is_ascii_digit_def byte_def)
  have "t @ CHR '':'' # dec_nat (unat l) = t' @ CHR '':'' # dec_nat (unat l')"
    using assms pq by simp
  then show "t = t' \<and> l = l'" using last_split[OF colon colon] dec_nat_inj
    by (auto intro: word_unat_eq_iff[THEN iffD2])
qed

theorem dedupe_keys_separate_work_witness:
  "payload_dedupe_key (Seal_Payload ''a:1'' 2 None) = payload_dedupe_key (Seal_Payload ''a:1'' 2 (Some 7)) \<and>
   payload_kind (Seal_Payload ''a:1'' 2 None) = payload_kind (Seal_Payload ''a:1'' 2 (Some 7))"
proof -
  have k: "payload_dedupe_key (Seal_Payload ''a:1'' 2 None) = payload_dedupe_key (Seal_Payload ''a:1'' 2 (Some 7))"
    by simp
  from k dedupe_keys_separate_work[OF k] show ?thesis by blast
qed

section \<open>Behaviour worth knowing\<close>

text \<open>A crash is only recovered when the lease has expired by the time of the restart:
  \<open>recover_stale_locks\<close> runs once, at startup, and a row whose lease is still open then stays
  running, is never claimed, and keeps its key blocked.\<close>

theorem early_restart_strands_job:
  assumes "table_ok db" "r \<in> set db" "row_status r = ''running''" "row_locked_until r = Some t" "now \<le> t"
    and "\<And>q. mset (scan q) = mset q"
  shows "r \<in> set (snd (recover_stale_locks now db))"
    and "r \<in> set (snd (claim_next scan later dur (snd (recover_stale_locks now db))))"
proof -
  have "\<not> lock_expired now r" using assms by (simp add: lock_expired_def)
  then show in_db: "r \<in> set (snd (recover_stale_locks now db))"
    using assms(2) by (force simp: recover_stale_locks_def sql_update_def Let_def)
  let ?db = "snd (recover_stale_locks now db)"
  have ok: "table_ok ?db" using sql_update_table_ok[OF assms(1)] by (simp add: recover_stale_locks_def)
  have scan: "set (scan ?db) = set ?db" using assms(6) by (rule mset_eq_setD)
  from claim_next_cases[of ?db scan later dur, OF ok scan]
  show "r \<in> set (snd (claim_next scan later dur ?db))"
  proof cases
    case (2 x)
    have "row_id x \<noteq> row_id r"
      using row_id_unique[OF ok in_db 2(2)] 2(3) assms(3) by (auto simp: row_due_def)
    then show ?thesis using in_db 2(4) by force
  qed (use in_db in simp)
qed

text \<open>One failed row whose key is in use again makes every requeue abort as a whole.\<close>

theorem requeue_aborts_on_busy_key:
  "requeue_failed 90 [failed_row ''a'' None, new_row ''b'' 60 (seal_job ''a''), failed_row ''c'' None] =
     (Inl Unique_Violation,
      [failed_row ''a'' None, new_row ''b'' 60 (seal_job ''a''), failed_row ''c'' None])"
  by code_simp

text \<open>Crash recovery keeps the attempts a claim added, so a job that kills the process is tried
  beyond its budget.\<close>

theorem recovery_exceeds_budget:
  "let j = (seal_job ''k'')\<lparr>nj_max_attempts := Some 1\<rparr>;
       db1 = snd (claim_next id 10 300 [new_row ''a'' 5 j]);
       db2 = snd (claim_next id 1000 300 (snd (recover_stale_locks 900 db1)))
   in map row_attempts db2 = [2] \<and> map row_max_attempts db2 = [1]"
  by code_simp

text \<open>A leftover row of a retired kind is leased, then reported as an error.\<close>

theorem retired_kind_is_leased:
  "let db = [(new_row ''a'' 5 (seal_job ''k''))\<lparr>row_kind := ''digest_daily''\<rparr>]
   in fst (claim_next id 10 300 db) = Inl (Retired_Kind ''digest_daily'') \<and>
      map row_status (snd (claim_next id 10 300 db)) = [''running'']"
  by code_simp

text \<open>\<open>retry_all_failed\<close> leaves the typed failure of an earlier run on the rows it resets.\<close>

theorem retry_all_keeps_failure_class:
  "map (\<lambda>r. (row_status r, row_failure_class r)) (snd (retry_all_failed 90 [failed_row ''a'' (Some Code_AuthInvalid)])) =
     [(''ready'', Some ''unrecoverable'')]"
  by code_simp

text \<open>A rate-limited embedding is classified as transient.\<close>

theorem rate_limited_is_transient:
  "pf_code (classify_embed_error_str ''Embedding API error (429 Too Many Requests): slow down'') =
     Code_Transient"
  by code_simp

end
