(* ===== verification/Approval_Store.thy ===== *)
theory Approval_Store
  imports Prelude Rust_Str
begin

text \<open>
  The durable half of the approval gate (\<open>src/openhuman/approval/store.rs\<close>, \<open>types.rs\<close>): the
  table of pending and decided requests, its two migrations, and one definition per
  operation of the store.  Timestamps are instants held as \<open>int\<close> nanoseconds; SQLite's
  \<open>strftime('%s', _)\<close>, which compares expiry times, is the argument \<open>secs\<close>, and the order in
  which SQLite meets rows of equal sort key is the argument \<open>scan\<close>.  The redacted arguments of
  a request are carried as their JSON text.
\<close>

section \<open>Types\<close>

datatype approval_decision = Approve_Once | Approve_Always_For_Tool | Decision_Deny

fun decision_as_str :: "approval_decision \<Rightarrow> string" where
  "decision_as_str Approve_Once = ''approve_once''"
| "decision_as_str Approve_Always_For_Tool = ''approve_always_for_tool''"
| "decision_as_str Decision_Deny = ''deny''"

definition decision_from_str :: "string \<Rightarrow> approval_decision option" where
  "decision_from_str s =
     (if s = ''approve_once'' then Some Approve_Once
      else if s = ''approve_always_for_tool'' then Some Approve_Always_For_Tool
      else if s = ''deny'' then Some Decision_Deny
      else None)"

fun is_approve :: "approval_decision \<Rightarrow> bool" where
  "is_approve Approve_Once = True"
| "is_approve Approve_Always_For_Tool = True"
| "is_approve Decision_Deny = False"

datatype execution_outcome = Exec_Success | Exec_Failure | Exec_Aborted

fun execution_as_str :: "execution_outcome \<Rightarrow> string" where
  "execution_as_str Exec_Success = ''success''"
| "execution_as_str Exec_Failure = ''failure''"
| "execution_as_str Exec_Aborted = ''aborted''"

definition execution_from_str :: "string \<Rightarrow> execution_outcome option" where
  "execution_from_str s =
     (if s = ''success'' then Some Exec_Success
      else if s = ''failure'' then Some Exec_Failure
      else if s = ''aborted'' then Some Exec_Aborted
      else None)"

type_synonym time = int

record pending_approval =
  pa_request_id :: string
  pa_tool_name :: string
  pa_action_summary :: string
  pa_args_redacted :: string
  pa_created_at :: time
  pa_expires_at :: "time option"

record audit_entry = pending_approval +
  ae_decided_at :: time
  ae_decision :: approval_decision

record approval_row =
  ar_request_id :: string
  ar_tool_name :: string
  ar_action_summary :: string
  ar_args_redacted :: string
  ar_session_id :: string
  ar_created_at :: time
  ar_expires_at :: "time option"
  ar_decided_at :: "time option"
  ar_decision :: "string option"
  ar_executed_at :: "time option"
  ar_execution_outcome :: "string option"
  ar_execution_error :: "string option"

text \<open>The database: the rows, the columns the table has, and \<open>PRAGMA user_version\<close>.\<close>

record approval_db =
  db_rows :: "approval_row list"
  db_columns :: "string list"
  db_user_version :: int

datatype store_error = Duplicate_Request | Bad_Decision string | Store_Unavailable

section \<open>Migrations\<close>

definition migrate_columns :: "approval_db \<Rightarrow> approval_db" where
  "migrate_columns db =
     db\<lparr>db_columns := db_columns db @
        filter (\<lambda>c. c \<notin> set (db_columns db))
          [''executed_at'', ''execution_outcome'', ''execution_error'']\<rparr>"

definition PRE_MIGRATION_SESSION_ID :: string where
  "PRE_MIGRATION_SESSION_ID = ''pre-migration-redacted''"

definition migrate_session_id_scrub :: "approval_db \<Rightarrow> approval_db" where
  "migrate_session_id_scrub db =
     (if db_user_version db < 1
      then db\<lparr>db_rows := map (\<lambda>r. if ar_session_id r \<noteq> PRE_MIGRATION_SESSION_ID
                                  then r\<lparr>ar_session_id := PRE_MIGRATION_SESSION_ID\<rparr> else r) (db_rows db),
              db_user_version := 1\<rparr>
      else db)"

text \<open>\<open>with_connection\<close> runs both migrations before the operation proper.\<close>

definition open_db :: "approval_db \<Rightarrow> approval_db" where
  "open_db db = migrate_session_id_scrub (migrate_columns db)"

section \<open>Rows out of the table\<close>

definition row_to_pending :: "approval_row \<Rightarrow> pending_approval" where
  "row_to_pending r =
     \<lparr>pa_request_id = ar_request_id r, pa_tool_name = ar_tool_name r,
      pa_action_summary = ar_action_summary r, pa_args_redacted = ar_args_redacted r,
      pa_created_at = ar_created_at r, pa_expires_at = ar_expires_at r\<rparr>"

text \<open>Only rows with a decision and its time are read as audit entries.\<close>

definition row_to_audit_entry :: "approval_row \<Rightarrow> store_error + audit_entry" where
  "row_to_audit_entry r =
     (case decision_from_str (the (ar_decision r)) of
        None \<Rightarrow> Inl (Bad_Decision (the (ar_decision r)))
      | Some d \<Rightarrow>
          Inr \<lparr>pa_request_id = ar_request_id r, pa_tool_name = ar_tool_name r,
               pa_action_summary = ar_action_summary r, pa_args_redacted = ar_args_redacted r,
               pa_created_at = ar_created_at r, pa_expires_at = ar_expires_at r,
               ae_decided_at = the (ar_decided_at r), ae_decision = d\<rparr>)"

section \<open>Operations\<close>

definition undecided :: "approval_row \<Rightarrow> bool" where
  "undecided r = (ar_decided_at r = None)"

definition decide_row :: "time \<Rightarrow> approval_decision \<Rightarrow> approval_row \<Rightarrow> approval_row" where
  "decide_row now d r = r\<lparr>ar_decided_at := Some now, ar_decision := Some (decision_as_str d)\<rparr>"

definition update_rows :: "(approval_row \<Rightarrow> bool) \<Rightarrow> (approval_row \<Rightarrow> approval_row) \<Rightarrow>
    approval_db \<Rightarrow> approval_db" where
  "update_rows c f db = db\<lparr>db_rows := map (\<lambda>r. if c r then f r else r) (db_rows db)\<rparr>"

definition stale :: "(time \<Rightarrow> int) \<Rightarrow> time \<Rightarrow> approval_row \<Rightarrow> bool" where
  "stale secs now r = (undecided r \<and> is_some_and (ar_expires_at r) (\<lambda>t. secs t \<le> secs now))"

definition expire_stale_with_now :: "(time \<Rightarrow> int) \<Rightarrow> time \<Rightarrow> approval_db \<Rightarrow> nat \<times> approval_db" where
  "expire_stale_with_now secs now db =
     (length (filter (stale secs now) (db_rows db)),
      update_rows (stale secs now) (decide_row now Decision_Deny) db)"

definition insert_pending ::
    "pending_approval \<Rightarrow> string \<Rightarrow> approval_db \<Rightarrow> (store_error + unit) \<times> approval_db" where
  "insert_pending p session_id db0 =
     (let db = open_db db0
      in if pa_request_id p \<in> ar_request_id ` set (db_rows db) then (Inl Duplicate_Request, db)
         else (Inr (), db\<lparr>db_rows := db_rows db @
           [\<lparr>ar_request_id = pa_request_id p, ar_tool_name = pa_tool_name p,
             ar_action_summary = pa_action_summary p, ar_args_redacted = pa_args_redacted p,
             ar_session_id = session_id, ar_created_at = pa_created_at p,
             ar_expires_at = pa_expires_at p, ar_decided_at = None, ar_decision = None,
             ar_executed_at = None, ar_execution_outcome = None, ar_execution_error = None\<rparr>]\<rparr>))"

definition expire_stale :: "(time \<Rightarrow> int) \<Rightarrow> time \<Rightarrow> approval_db \<Rightarrow> nat \<times> approval_db" where
  "expire_stale secs now db = expire_stale_with_now secs now (open_db db)"

definition list_pending ::
    "(time \<Rightarrow> int) \<Rightarrow> (approval_row list \<Rightarrow> approval_row list) \<Rightarrow> time \<Rightarrow> approval_db \<Rightarrow>
     pending_approval list \<times> approval_db" where
  "list_pending secs scan now db0 =
     (let db = snd (expire_stale_with_now secs now (open_db db0))
      in (map row_to_pending (sort_key ar_created_at (filter undecided (scan (db_rows db)))), db))"

definition find_row :: "string \<Rightarrow> approval_db \<Rightarrow> approval_row option" where
  "find_row rid db = find (\<lambda>r. ar_request_id r = rid) (db_rows db)"

definition get_decision :: "string \<Rightarrow> approval_db \<Rightarrow> approval_decision option" where
  "get_decision rid db0 =
     (case find_row rid (open_db db0) of
        None \<Rightarrow> None
      | Some r \<Rightarrow> if undecided r then None
                  else case ar_decision r of None \<Rightarrow> None | Some s \<Rightarrow> decision_from_str s)"

text \<open>\<open>decide\<close> reads the clock for the expiry sweep and again for the decision time.\<close>

definition decide ::
    "(time \<Rightarrow> int) \<Rightarrow> time \<Rightarrow> time \<Rightarrow> string \<Rightarrow> approval_decision \<Rightarrow> approval_db \<Rightarrow>
     pending_approval option \<times> approval_db" where
  "decide secs now now' rid d db0 =
     (let db = snd (expire_stale_with_now secs now (open_db db0));
          hit = (\<lambda>r. ar_request_id r = rid \<and> undecided r)
      in if list_ex hit (db_rows db)
         then let db' = update_rows hit (decide_row now' d) db
              in (map_option row_to_pending (find_row rid db'), db')
         else (None, db))"

text \<open>
  \<open>record_execution\<close>: \<open>sanitize\<close> stands for \<open>sanitize_text\<close>, whose redaction patterns are
  regular expressions; the stored error is capped at 512 characters, the ellipsis included.
\<close>

definition cap_error :: "string \<Rightarrow> string" where
  "cap_error s = (if 512 < char_count s then take_chars 511 s @ ellipsis else s)"

definition record_execution ::
    "(string \<Rightarrow> string) \<Rightarrow> time \<Rightarrow> string \<Rightarrow> execution_outcome \<Rightarrow> string option \<Rightarrow> approval_db \<Rightarrow>
     bool \<times> approval_db" where
  "record_execution sanitize now rid outcome error db0 =
     (let db = open_db db0;
          hit = (\<lambda>r. ar_request_id r = rid \<and> \<not> undecided r \<and> ar_executed_at r = None)
      in (list_ex hit (db_rows db),
          update_rows hit (\<lambda>r. r\<lparr>ar_executed_at := Some now,
              ar_execution_outcome := Some (execution_as_str outcome),
              ar_execution_error := map_option (\<lambda>e. cap_error (sanitize e)) error\<rparr>) db))"

fun collect_entries :: "(store_error + 'a) list \<Rightarrow> store_error + 'a list" where
  "collect_entries [] = Inr []"
| "collect_entries (Inl e # xs) = Inl e"
| "collect_entries (Inr x # xs) = map_sum id (\<lambda>ys. x # ys) (collect_entries xs)"

definition list_recent_decisions ::
    "(approval_row list \<Rightarrow> approval_row list) \<Rightarrow> nat \<Rightarrow> approval_db \<Rightarrow>
     (store_error + audit_entry list) \<times> approval_db" where
  "list_recent_decisions scan limit db0 =
     (let db = open_db db0
      in (collect_entries (map row_to_audit_entry (take (max 1 (min 500 limit))
            (sort_key (\<lambda>r. - the (ar_decided_at r))
              (filter (\<lambda>r. \<not> undecided r \<and> ar_decision r \<noteq> None) (scan (db_rows db)))))), db))"

definition purge_session :: "string \<Rightarrow> approval_db \<Rightarrow> nat \<times> approval_db" where
  "purge_session session_id db0 =
     (let db = open_db db0; gone = (\<lambda>r. ar_session_id r = session_id \<and> undecided r)
      in (length (filter gone (db_rows db)),
          db\<lparr>db_rows := filter (\<lambda>r. \<not> gone r) (db_rows db)\<rparr>))"

section \<open>Lemmas\<close>

lemma decision_roundtrip [simp]: "decision_from_str (decision_as_str d) = Some d"
  by (cases d) (simp_all add: decision_from_str_def)

lemma decision_from_str_Some: "decision_from_str s = Some d \<longleftrightarrow> s = decision_as_str d"
  by (cases d) (auto simp: decision_from_str_def)

lemma open_db_version [simp]: "1 \<le> db_user_version (open_db db)"
  by (simp add: open_db_def migrate_session_id_scrub_def)

lemma open_db_idem [simp]: "open_db (open_db db) = open_db db"
proof -
  have "migrate_columns (open_db db) = open_db db"
    by (cases db) (auto simp: open_db_def migrate_columns_def migrate_session_id_scrub_def filter_empty_conv)
  moreover have "migrate_session_id_scrub d = d" if "1 \<le> db_user_version d" for d
    using that by (simp add: migrate_session_id_scrub_def)
  ultimately show ?thesis by (metis open_db_def open_db_version)
qed

lemma open_db_id:
  "1 \<le> db_user_version db \<Longrightarrow>
     {''executed_at'', ''execution_outcome'', ''execution_error''} \<subseteq> set (db_columns db) \<Longrightarrow> open_db db = db"
  by (simp add: open_db_def migrate_columns_def migrate_session_id_scrub_def)

lemma open_db_columns:
  "{''executed_at'', ''execution_outcome'', ''execution_error''} \<subseteq> set (db_columns (open_db db))"
  by (auto simp: open_db_def migrate_columns_def migrate_session_id_scrub_def)

lemma open_db_update [simp]: "open_db (update_rows c f (open_db db)) = update_rows c f (open_db db)"
  using open_db_columns[of db] by (intro open_db_id) (simp_all add: update_rows_def)

text \<open>Opening changes at most session identifiers of rows.\<close>

definition scrub_row :: "bool \<Rightarrow> approval_row \<Rightarrow> approval_row" where
  "scrub_row b r = (if b then r\<lparr>ar_session_id := PRE_MIGRATION_SESSION_ID\<rparr> else r)"

lemma open_db_rows: "db_rows (open_db db) = map (scrub_row (db_user_version db < 1)) (db_rows db)"
  by (auto simp: open_db_def migrate_columns_def migrate_session_id_scrub_def scrub_row_def
      intro!: map_idI[symmetric])

lemma scrub_row_simps [simp]:
  "ar_request_id (scrub_row b r) = ar_request_id r" "ar_decided_at (scrub_row b r) = ar_decided_at r"
  "ar_decision (scrub_row b r) = ar_decision r" "ar_executed_at (scrub_row b r) = ar_executed_at r"
  "undecided (scrub_row b r) = undecided r" "ar_tool_name (scrub_row b r) = ar_tool_name r"
  "ar_execution_outcome (scrub_row b r) = ar_execution_outcome r"
  "ar_execution_error (scrub_row b r) = ar_execution_error r"
  by (simp_all add: scrub_row_def undecided_def)

lemma find_map_same:
  "(\<And>r. ar_request_id (f r) = ar_request_id r) \<Longrightarrow>
     find (\<lambda>r. ar_request_id r = rid) (map f rs) = map_option f (find (\<lambda>r. ar_request_id r = rid) rs)"
  by (induction rs) auto

lemma find_row_open: "find_row rid (open_db db) = map_option (scrub_row (db_user_version db < 1)) (find_row rid db)"
  by (simp add: find_row_def open_db_rows find_map_same)

lemma find_row_update:
  assumes "\<And>r. ar_request_id (f r) = ar_request_id r"
  shows "find_row rid (update_rows c f db) = map_option (\<lambda>r. if c r then f r else r) (find_row rid db)"
  unfolding find_row_def update_rows_def using find_map_same[of "\<lambda>r. if c r then f r else r"] assms by simp

lemma decide_row_simps [simp]:
  "ar_request_id (decide_row now d r) = ar_request_id r"
  "ar_decided_at (decide_row now d r) = Some now"
  "ar_decision (decide_row now d r) = Some (decision_as_str d)"
  "ar_executed_at (decide_row now d r) = ar_executed_at r"
  "undecided (decide_row now d r) = False"
  by (simp_all add: decide_row_def undecided_def)

end
