(* ===== verification/Approval_Gate.thy ===== *)
theory Approval_Gate
  imports Approval_Store Policy_Types
begin

text \<open>
  The approval gate (\<open>src/openhuman/approval/gate.rs\<close>, with the turn origins of
  \<open>agent/turn_origin.rs\<close>): what it does with a call before any prompt, and the life of a parked
  call as a step relation.  Every step is one atomic action of the code: a lock taken and
  released, one store call, one send; the steps of different calls and of the deciding side
  interleave freely.
\<close>

section \<open>Replies, origins and outcomes\<close>

definition parse_approval_reply :: "string \<Rightarrow> approval_decision option" where
  "parse_approval_reply message =
     (let m = to_ascii_lowercase (trim message)
      in if m \<in> {''yes'', ''y'', ''ok'', ''okay'', ''approve'', ''approved'', ''allow''} then Some Approve_Once
         else if m \<in> {''no'', ''n'', ''deny'', ''denied''} then Some Decision_Deny
         else None)"

datatype automation_source = Source_Cron | Source_Subconscious | Source_Subconscious_Tainted

datatype turn_origin =
  Origin_Web_Chat string string
| Origin_External_Channel string "string option" string string
| Origin_Trusted_Automation string automation_source
| Origin_Cli
| Origin_Unknown

datatype deny_reason =
  Deny_Tainted string | Deny_No_Origin string | Deny_Not_Persisted string
| Deny_By_User string | Deny_Channel_Closed string | Deny_Timed_Out string nat

datatype gate_outcome = Outcome_Allow | Outcome_Deny deny_reason

text \<open>The texts the agent sees; the argument of \<open>Deny_Not_Persisted\<close> is the store's error.\<close>

definition quoted :: "string \<Rightarrow> string" where
  "quoted s = [CHR 0x27] @ s @ [CHR 0x27]"

fun deny_text :: "deny_reason \<Rightarrow> string" where
  "deny_text (Deny_Tainted tool) = POLICY_DENIED_MARKER @ '' Tool '' @ quoted tool @
     '' rejected: subconscious turn whose memory context includes external-sync chunks may not run external_effect tools.''"
| "deny_text (Deny_No_Origin tool) = POLICY_DENIED_MARKER @ '' Tool '' @ quoted tool @
     '' rejected: agent turn has no origin label. Refusing external_effect tool from unlabelled call site.''"
| "deny_text (Deny_Not_Persisted err) = POLICY_DENIED_MARKER @
     '' Approval gate could not persist the request '' @ em_dash @ '' denying for safety: '' @ err"
| "deny_text (Deny_By_User tool) = POLICY_DENIED_MARKER @ '' User denied '' @ quoted tool @
     '' execution. Do not re-request the same call this turn; take a different approach or stop.''"
| "deny_text (Deny_Channel_Closed tool) = POLICY_DENIED_MARKER @ '' Approval channel for '' @ quoted tool @
     '' closed before a decision was made.''"
| "deny_text (Deny_Timed_Out tool ttl) = POLICY_DENIED_MARKER @ '' Approval for '' @ quoted tool @
     '' timed out after '' @ dec_nat ttl @
     ''s. Do not re-request the same call this turn; take a different approach or stop.''"

section \<open>Before the prompt\<close>

text \<open>
  \<open>tool_is_auto_approved\<close>: the live policy when one is installed, the configuration of the
  boot otherwise.
\<close>

definition tool_is_auto_approved :: "security_policy option \<Rightarrow> string list \<Rightarrow> string \<Rightarrow> bool" where
  "tool_is_auto_approved live boot_list tool =
     (case live of Some p \<Rightarrow> tool \<in> set (auto_approve p) | None \<Rightarrow> tool \<in> set boot_list)"

text \<open>The outcome of a call that does not park, \<open>None\<close> for one that does.\<close>

definition pre_park :: "bool \<Rightarrow> turn_origin option \<Rightarrow> string \<Rightarrow> gate_outcome option" where
  "pre_park auto_approved origin tool =
     (if auto_approved then Some Outcome_Allow
      else case (case origin of None \<Rightarrow> Origin_Unknown | Some label \<Rightarrow> label) of
        Origin_Web_Chat _ _ \<Rightarrow> None
      | Origin_External_Channel _ _ _ _ \<Rightarrow> None
      | Origin_Trusted_Automation _ Source_Cron \<Rightarrow> Some Outcome_Allow
      | Origin_Trusted_Automation _ Source_Subconscious \<Rightarrow> Some Outcome_Allow
      | Origin_Trusted_Automation _ Source_Subconscious_Tainted \<Rightarrow> Some (Outcome_Deny (Deny_Tainted tool))
      | Origin_Cli \<Rightarrow> Some Outcome_Allow
      | Origin_Unknown \<Rightarrow> Some (Outcome_Deny (Deny_No_Origin tool)))"

definition DEFAULT_APPROVAL_TTL :: nat where "DEFAULT_APPROVAL_TTL = 60 * 10"

definition IN_CALL_APPROVAL_TTL :: nat where "IN_CALL_APPROVAL_TTL = 120"

text \<open>
  \<open>effective_ttl\<close> in seconds: in a debug build a parsable environment variable overrides the
  gate's own value.
\<close>

definition effective_ttl :: "bool \<Rightarrow> nat option \<Rightarrow> nat \<Rightarrow> nat" where
  "effective_ttl debug_build env_ttl ttl =
     (if debug_build then (case env_ttl of Some t \<Rightarrow> t | None \<Rightarrow> ttl) else ttl)"

definition park_ttl :: "bool \<Rightarrow> nat \<Rightarrow> nat" where
  "park_ttl in_call ttl = (if in_call then min IN_CALL_APPROVAL_TTL ttl else ttl)"

section \<open>The gate's state\<close>

text \<open>
  A parked call with its phase: registered and not yet persisted, waiting on its channel with
  what the channel holds, timed out, with its waiter evicted, or about to read the persisted
  decision again.
\<close>

datatype phase =
  Phase_Registered
| Phase_Parked "approval_decision option"
| Phase_Timed_Out
| Phase_Evicted
| Phase_Reread

record parked_call =
  pc_pending :: pending_approval
  pc_thread :: "string option"
  pc_meeting :: "string option"
  pc_ttl :: nat
  pc_phase :: phase

text \<open>
  \<open>g_committed\<close> holds the decisions that \<open>decide\<close> has written and not sent yet; \<open>g_finished\<close> is
  the history of what parked calls returned.
\<close>

record gate_state =
  g_db :: approval_db
  g_waiters :: "string set"
  g_threads :: "string \<rightharpoonup> string"
  g_meetings :: "string \<rightharpoonup> string"
  g_parked :: "string \<rightharpoonup> parked_call"
  g_committed :: "(string \<times> approval_decision) set"
  g_finished :: "(string \<times> gate_outcome) list"

definition pending_for_thread :: "gate_state \<Rightarrow> string \<Rightarrow> string option" where
  "pending_for_thread g thread = g_threads g thread"

definition pending_for_meeting :: "gate_state \<Rightarrow> string \<Rightarrow> string option" where
  "pending_for_meeting g meeting = g_meetings g meeting"

definition evict_waiter :: "string \<Rightarrow> gate_state \<Rightarrow> gate_state" where
  "evict_waiter rid g = g\<lparr>g_waiters := g_waiters g - {rid}\<rparr>"

definition map_clear :: "('k \<rightharpoonup> 'v) \<Rightarrow> 'k option \<Rightarrow> ('k \<rightharpoonup> 'v)" where
  "map_clear m k = (case k of None \<Rightarrow> m | Some k \<Rightarrow> m(k := None))"

definition map_set :: "('k \<rightharpoonup> 'v) \<Rightarrow> 'k option \<Rightarrow> 'v \<Rightarrow> ('k \<rightharpoonup> 'v)" where
  "map_set m k v = (case k of None \<Rightarrow> m | Some k \<Rightarrow> m(k \<mapsto> v))"

definition clear_thread :: "string option \<Rightarrow> gate_state \<Rightarrow> gate_state" where
  "clear_thread t g = g\<lparr>g_threads := map_clear (g_threads g) t\<rparr>"

definition clear_meeting :: "string option \<Rightarrow> gate_state \<Rightarrow> gate_state" where
  "clear_meeting m g = g\<lparr>g_meetings := map_clear (g_meetings g) m\<rparr>"

definition set_phase :: "string \<Rightarrow> phase \<Rightarrow> gate_state \<Rightarrow> gate_state" where
  "set_phase rid ph g =
     g\<lparr>g_parked := (case g_parked g rid of None \<Rightarrow> g_parked g
                    | Some c \<Rightarrow> (g_parked g)(rid \<mapsto> c\<lparr>pc_phase := ph\<rparr>))\<rparr>"

text \<open>The call leaves the gate; \<open>release\<close> also drops the two routing entries.\<close>

definition finish :: "string \<Rightarrow> gate_outcome \<Rightarrow> gate_state \<Rightarrow> gate_state" where
  "finish rid out g = g\<lparr>g_parked := (g_parked g)(rid := None), g_finished := (rid, out) # g_finished g\<rparr>"

definition release :: "parked_call \<Rightarrow> gate_outcome \<Rightarrow> gate_state \<Rightarrow> gate_state" where
  "release c out g =
     finish (pa_request_id (pc_pending c)) out (clear_meeting (pc_meeting c) (clear_thread (pc_thread c) g))"

section \<open>The actions\<close>

text \<open>Registering the waiter and the routing entries, before the row is written.\<close>

definition do_register :: "parked_call \<Rightarrow> gate_state \<Rightarrow> gate_state" where
  "do_register c g =
     (let rid = pa_request_id (pc_pending c)
      in g\<lparr>g_waiters := insert rid (g_waiters g),
           g_threads := map_set (g_threads g) (pc_thread c) rid,
           g_meetings := map_set (g_meetings g) (pc_meeting c) rid,
           g_parked := (g_parked g)(rid \<mapsto> c\<lparr>pc_phase := Phase_Registered\<rparr>)\<rparr>)"

text \<open>
  Writing the row.  When it fails, for a duplicate or because the store is unavailable (\<open>up\<close> is
  false), the waiter and the thread entry are dropped, the meeting entry is not.
\<close>

definition do_persist :: "bool \<Rightarrow> string \<Rightarrow> string \<Rightarrow> parked_call \<Rightarrow> gate_state \<Rightarrow> gate_state" where
  "do_persist up session_id err c g =
     (let rid = pa_request_id (pc_pending c);
          (res, db) = (if up then insert_pending (pc_pending c) session_id (g_db g)
                       else (Inl Store_Unavailable, g_db g))
      in case res of
           Inr _ \<Rightarrow> set_phase rid (Phase_Parked None) (g\<lparr>g_db := db\<rparr>)
         | Inl _ \<Rightarrow> finish rid (Outcome_Deny (Deny_Not_Persisted err))
                     (clear_thread (pc_thread c) (evict_waiter rid (g\<lparr>g_db := db\<rparr>))))"

text \<open>\<open>ApprovalGate::decide\<close>: the store commit, then the send to the waiter.\<close>

definition do_decide_commit ::
    "(time \<Rightarrow> int) \<Rightarrow> time \<Rightarrow> time \<Rightarrow> string \<Rightarrow> approval_decision \<Rightarrow> gate_state \<Rightarrow> gate_state" where
  "do_decide_commit secs now now' rid d g =
     (let (row, db) = decide secs now now' rid d (g_db g)
      in g\<lparr>g_db := db,
           g_committed := (if row = None then g_committed g else insert (rid, d) (g_committed g))\<rparr>)"

definition do_decide_send :: "string \<Rightarrow> approval_decision \<Rightarrow> gate_state \<Rightarrow> gate_state" where
  "do_decide_send rid d g =
     (let g1 = g\<lparr>g_committed := g_committed g - {(rid, d)}\<rparr>
      in if rid \<in> g_waiters g1
         then let g2 = evict_waiter rid g1
              in case g_parked g2 rid of
                   Some c \<Rightarrow> (case pc_phase c of
                       Phase_Parked None \<Rightarrow> set_phase rid (Phase_Parked (Some d)) g2
                     | _ \<Rightarrow> g2)
                 | None \<Rightarrow> g2
         else g1)"

text \<open>A received decision is translated.\<close>

definition resume_outcome :: "parked_call \<Rightarrow> approval_decision \<Rightarrow> gate_outcome" where
  "resume_outcome c d =
     (if is_approve d then Outcome_Allow
      else Outcome_Deny (Deny_By_User (pa_tool_name (pc_pending c))))"

text \<open>
  The timeout path: the waiter is evicted, the store is asked to deny, and when the row was
  decided already its decision is read back and honoured.
\<close>

definition timeout_outcome :: "parked_call \<Rightarrow> approval_decision option \<Rightarrow> gate_outcome" where
  "timeout_outcome c persisted =
     (if is_some_and persisted is_approve then Outcome_Allow
      else Outcome_Deny (Deny_Timed_Out (pa_tool_name (pc_pending c)) (pc_ttl c)))"

definition do_timeout_deny ::
    "(time \<Rightarrow> int) \<Rightarrow> bool \<Rightarrow> time \<Rightarrow> time \<Rightarrow> parked_call \<Rightarrow> gate_state \<Rightarrow> gate_state" where
  "do_timeout_deny secs up now now' c g =
     (let rid = pa_request_id (pc_pending c)
      in if \<not> up then release c (timeout_outcome c None) g
         else let (row, db) = decide secs now now' rid Decision_Deny (g_db g); g' = g\<lparr>g_db := db\<rparr>
              in case row of
                   Some _ \<Rightarrow> release c (timeout_outcome c (Some Decision_Deny)) g'
                 | None \<Rightarrow> set_phase rid Phase_Reread g')"

definition do_timeout_reread :: "bool \<Rightarrow> parked_call \<Rightarrow> gate_state \<Rightarrow> gate_state" where
  "do_timeout_reread up c g =
     (let rid = pa_request_id (pc_pending c)
      in release c (timeout_outcome c (if up then get_decision rid (g_db g) else None)) g)"

text \<open>The sender is gone without a decision: the store is asked to deny, the call is denied.\<close>

definition do_channel_closed ::
    "(time \<Rightarrow> int) \<Rightarrow> bool \<Rightarrow> time \<Rightarrow> time \<Rightarrow> parked_call \<Rightarrow> gate_state \<Rightarrow> gate_state" where
  "do_channel_closed secs up now now' c g =
     (let rid = pa_request_id (pc_pending c);
          db = (if up then snd (decide secs now now' rid Decision_Deny (g_db g)) else g_db g)
      in release c (Outcome_Deny (Deny_Channel_Closed (pa_tool_name (pc_pending c)))) (g\<lparr>g_db := db\<rparr>))"

section \<open>Steps\<close>

text \<open>
  \<open>fault\<close> tells whether the step may see the store fail.  A fresh identifier is one that
  neither the table nor the gate has seen: it is a random UUID.
\<close>

definition fresh_request :: "string \<Rightarrow> gate_state \<Rightarrow> bool" where
  "fresh_request rid g =
     (rid \<notin> ar_request_id ` set (db_rows (g_db g)) \<and> rid \<notin> g_waiters g \<and> g_parked g rid = None \<and>
      rid \<notin> fst ` g_committed g \<and> rid \<notin> fst ` set (g_finished g))"

inductive gate_step :: "(time \<Rightarrow> int) \<Rightarrow> bool \<Rightarrow> gate_state \<Rightarrow> gate_state \<Rightarrow> bool" for secs fault where
  step_register:
    "fresh_request (pa_request_id (pc_pending c)) g \<Longrightarrow> gate_step secs fault g (do_register c g)"
| step_persist:
    "g_parked g rid = Some c \<Longrightarrow> pc_phase c = Phase_Registered \<Longrightarrow> \<not> up \<longrightarrow> fault \<Longrightarrow>
     gate_step secs fault g (do_persist up session_id err c g)"
| step_decide_commit:
    "gate_step secs fault g (do_decide_commit secs now now' rid d g)"
| step_decide_send:
    "(rid, d) \<in> g_committed g \<Longrightarrow> gate_step secs fault g (do_decide_send rid d g)"
| step_resume:
    "g_parked g rid = Some c \<Longrightarrow> pc_phase c = Phase_Parked (Some d) \<Longrightarrow>
     gate_step secs fault g (release c (resume_outcome c d) g)"
| step_closed:
    "g_parked g rid = Some c \<Longrightarrow> pc_phase c = Phase_Parked None \<Longrightarrow> rid \<notin> g_waiters g \<Longrightarrow> \<not> up \<longrightarrow> fault \<Longrightarrow>
     gate_step secs fault g (do_channel_closed secs up now now' c g)"
| step_timeout:
    "g_parked g rid = Some c \<Longrightarrow> pc_phase c = Phase_Parked None \<Longrightarrow>
     gate_step secs fault g (set_phase rid Phase_Timed_Out g)"
| step_evict:
    "g_parked g rid = Some c \<Longrightarrow> pc_phase c = Phase_Timed_Out \<Longrightarrow>
     gate_step secs fault g (set_phase rid Phase_Evicted (evict_waiter rid g))"
| step_timeout_deny:
    "g_parked g rid = Some c \<Longrightarrow> pc_phase c = Phase_Evicted \<Longrightarrow> \<not> up \<longrightarrow> fault \<Longrightarrow>
     gate_step secs fault g (do_timeout_deny secs up now now' c g)"
| step_timeout_reread:
    "g_parked g rid = Some c \<Longrightarrow> pc_phase c = Phase_Reread \<Longrightarrow> \<not> up \<longrightarrow> fault \<Longrightarrow>
     gate_step secs fault g (do_timeout_reread up c g)"
| step_cancel:
    "gate_step secs fault g (g\<lparr>g_parked := (g_parked g)(rid := None)\<rparr>)"
| step_sweep:
    "gate_step secs fault g (g\<lparr>g_db := snd (expire_stale secs now (g_db g))\<rparr>)"
| step_record_execution:
    "gate_step secs fault g (g\<lparr>g_db := snd (record_execution sanitize now rid out error (g_db g))\<rparr>)"
| step_purge:
    "gate_step secs fault g (g\<lparr>g_db := snd (purge_session session_id (g_db g))\<rparr>)"

text \<open>A launch starts on whatever the table holds, with nothing parked.\<close>

definition launch :: "approval_db \<Rightarrow> gate_state" where
  "launch db = \<lparr>g_db = db, g_waiters = {}, g_threads = (\<lambda>_. None), g_meetings = (\<lambda>_. None),
     g_parked = (\<lambda>_. None), g_committed = {}, g_finished = []\<rparr>"

inductive gate_reachable :: "(time \<Rightarrow> int) \<Rightarrow> bool \<Rightarrow> approval_db \<Rightarrow> gate_state \<Rightarrow> bool"
  for secs fault db where
  reach_launch: "gate_reachable secs fault db (launch db)"
| reach_step: "gate_reachable secs fault db g \<Longrightarrow> gate_step secs fault g g' \<Longrightarrow> gate_reachable secs fault db g'"

end
