(* ===== verification/Approval_Facts.thy ===== *)
theory Approval_Facts
  imports Approval_Gate
begin

text \<open>
  What the approval gate promises: a decision once written never changes, a parked call is
  only let through on a persisted approval, and without store failures what a call returns
  agrees with its durable row, whatever the order of replies, timeouts and sweeps.
\<close>

section \<open>Evolution of the table\<close>

definition rows_ok :: "approval_db \<Rightarrow> bool" where
  "rows_ok db = distinct (map ar_request_id (db_rows db))"

definition request_ids :: "approval_db \<Rightarrow> string set" where
  "request_ids db = ar_request_id ` set (db_rows db)"

text \<open>
  From \<open>db\<close> to \<open>db'\<close> every decided row keeps its decision and no identifier outside \<open>new\<close>
  appears.
\<close>

definition evolves :: "string set \<Rightarrow> approval_db \<Rightarrow> approval_db \<Rightarrow> bool" where
  "evolves new db db' =
     (rows_ok db' \<and> request_ids db' \<subseteq> request_ids db \<union> new \<and>
      (\<forall>r \<in> set (db_rows db). \<not> undecided r \<longrightarrow>
         (\<exists>r' \<in> set (db_rows db'). ar_request_id r' = ar_request_id r \<and> \<not> undecided r' \<and>
            ar_decision r' = ar_decision r)))"

lemma evolves_trans:
  "evolves new db db' \<Longrightarrow> evolves new' db' db'' \<Longrightarrow> evolves (new \<union> new') db db''"
proof -
  assume 1: "evolves new db db'" and 2: "evolves new' db' db''"
  have "\<exists>r'' \<in> set (db_rows db''). ar_request_id r'' = ar_request_id r \<and> \<not> undecided r'' \<and>
      ar_decision r'' = ar_decision r" if r: "r \<in> set (db_rows db)" "\<not> undecided r" for r
  proof -
    obtain r' where "r' \<in> set (db_rows db')" "ar_request_id r' = ar_request_id r" "\<not> undecided r'"
      "ar_decision r' = ar_decision r" using 1 r by (auto simp: evolves_def)
    then show ?thesis using 2 unfolding evolves_def by metis
  qed
  then show ?thesis using 1 2 unfolding evolves_def by blast
qed

lemma evolves_map:
  assumes "rows_ok db" and "db_rows db' = map f (db_rows db)"
    and "\<And>r. ar_request_id (f r) = ar_request_id r"
    and "\<And>r. \<not> undecided r \<Longrightarrow> \<not> undecided (f r) \<and> ar_decision (f r) = ar_decision r"
  shows "evolves {} db db'"
  using assms by (auto simp: evolves_def rows_ok_def request_ids_def image_image comp_def)

lemma open_db_evolves: "rows_ok db \<Longrightarrow> evolves {} db (open_db db)"
  by (rule evolves_map[OF _ open_db_rows]) auto

lemma update_rows_evolves:
  "rows_ok db \<Longrightarrow> (\<And>r. ar_request_id (f r) = ar_request_id r) \<Longrightarrow>
     (\<And>r. c r \<Longrightarrow> \<not> undecided r \<Longrightarrow> \<not> undecided (f r) \<and> ar_decision (f r) = ar_decision r) \<Longrightarrow>
     evolves {} db (update_rows c f db)"
  by (rule evolves_map[where f = "\<lambda>r. if c r then f r else r"]) (auto simp: update_rows_def)

lemma rows_ok_open [simp]: "rows_ok (open_db db) = rows_ok db"
  by (simp add: rows_ok_def open_db_rows comp_def)

lemma rows_ok_update [simp]:
  "(\<And>r. ar_request_id (f r) = ar_request_id r) \<Longrightarrow> rows_ok (update_rows c f db) = rows_ok db"
proof -
  assume "\<And>r. ar_request_id (f r) = ar_request_id r"
  then have "map ar_request_id (map (\<lambda>r. if c r then f r else r) rs) = map ar_request_id rs" for rs
    by (induction rs) auto
  then show ?thesis by (simp add: rows_ok_def update_rows_def del: map_map)
qed

lemma expire_evolves:
  "rows_ok db \<Longrightarrow> evolves {} db (snd (expire_stale_with_now secs now db))"
  unfolding expire_stale_with_now_def snd_conv
  by (rule update_rows_evolves) (auto simp: stale_def)

lemma sweep_evolves: "rows_ok db \<Longrightarrow> evolves {} db (snd (expire_stale secs now db))"
  unfolding expire_stale_def
  using evolves_trans[OF open_db_evolves expire_evolves, of db secs now] by simp

lemma decide_cases:
  fixes secs now now' rid d db0
  defines "db \<equiv> snd (expire_stale_with_now secs now (open_db db0))"
    and "hit \<equiv> \<lambda>r. ar_request_id r = rid \<and> undecided r"
  obtains (miss) "decide secs now now' rid d db0 = (None, db)" and "\<forall>r \<in> set (db_rows db). \<not> hit r"
  | (hits) r0 r where "r0 \<in> set (db_rows db)" and "hit r0"
      and "find_row rid (update_rows hit (decide_row now' d) db) = Some r"
      and "decide secs now now' rid d db0 = (Some (row_to_pending r), update_rows hit (decide_row now' d) db)"
proof (cases "list_ex hit (db_rows db)")
  case True
  then obtain r0 where r0: "r0 \<in> set (db_rows db)" "hit r0" by (auto simp: list_ex_iff)
  then have "find_row rid db \<noteq> None" by (auto simp: find_row_def find_None_iff hit_def)
  then obtain r where "find_row rid (update_rows hit (decide_row now' d) db) = Some r"
    by (auto simp: find_row_update)
  then show ?thesis using hits[OF r0] True
    by (simp add: decide_def Let_def db_def[symmetric] hit_def[symmetric])
next
  case False
  then show ?thesis using miss
    by (simp add: decide_def Let_def db_def[symmetric] hit_def[symmetric] list_ex_iff)
qed

lemma decide_evolves:
  assumes "rows_ok db"
  shows "evolves {} db (snd (decide secs now now' rid d db))"
proof -
  let ?db = "snd (expire_stale_with_now secs now (open_db db))"
  have e: "evolves {} db ?db"
    using evolves_trans[OF open_db_evolves expire_evolves, of db secs now] assms by simp
  then have "rows_ok ?db" by (simp add: evolves_def)
  then have u: "evolves {} ?db (update_rows (\<lambda>r. ar_request_id r = rid \<and> undecided r) (decide_row now' d) ?db)"
    by (rule update_rows_evolves) auto
  show ?thesis
    by (cases rule: decide_cases[where secs = secs and now = now and now' = now' and rid = rid and d = d and ?db0.0 = db])
       (use e evolves_trans[OF e u] in auto)
qed

lemma record_execution_evolves:
  assumes "rows_ok db"
  shows "evolves {} db (snd (record_execution sanitize now rid out error db))"
proof -
  have "evolves {} (open_db db) (snd (record_execution sanitize now rid out error db))"
    unfolding record_execution_def Let_def snd_conv
    by (rule update_rows_evolves) (use assms in \<open>auto simp: undecided_def\<close>)
  then show ?thesis using evolves_trans[OF open_db_evolves[OF assms]] by fastforce
qed

lemma purge_evolves:
  assumes "rows_ok db"
  shows "evolves {} db (snd (purge_session session_id db))"
proof -
  have "rows_ok (open_db db)" using assms by simp
  then have "evolves {} (open_db db) (snd (purge_session session_id db))"
    by (auto simp: evolves_def purge_session_def Let_def rows_ok_def request_ids_def
        intro: distinct_map_filter)
  then show ?thesis using evolves_trans[OF open_db_evolves[OF assms]] by fastforce
qed

lemma insert_evolves:
  assumes "rows_ok db"
  shows "evolves {pa_request_id p} db (snd (insert_pending p session_id db))"
proof -
  have "rows_ok (open_db db)" using assms by simp
  then have "evolves {pa_request_id p} (open_db db) (snd (insert_pending p session_id db))"
    by (auto simp: evolves_def insert_pending_def Let_def rows_ok_def request_ids_def)
  then show ?thesis using evolves_trans[OF open_db_evolves[OF assms]] by fastforce
qed

lemma insert_pending_ok:
  "fst (insert_pending p session_id db) = Inr () \<longleftrightarrow> pa_request_id p \<notin> request_ids db"
  by (auto simp: insert_pending_def Let_def request_ids_def open_db_rows image_image)

section \<open>The persisted decision\<close>

lemma get_decision_iff:
  assumes "rows_ok db"
  shows "get_decision rid db = Some d \<longleftrightarrow>
    (\<exists>r \<in> set (db_rows db). ar_request_id r = rid \<and> \<not> undecided r \<and> ar_decision r = Some (decision_as_str d))"
proof -
  have find: "find_row rid db = Some r \<longleftrightarrow> r \<in> set (db_rows db) \<and> ar_request_id r = rid" for r
    using assms distinct_map_inj_on_find[of ar_request_id "db_rows db" r]
    unfolding find_row_def rows_ok_def by (auto dest: find_Some_set)
  have "get_decision rid db = Some d \<longleftrightarrow> (\<exists>r. find_row rid db = Some r \<and> \<not> undecided r \<and>
      ar_decision r = Some (decision_as_str d))"
    by (auto simp: get_decision_def find_row_open decision_from_str_Some split: option.splits if_splits)
  then show ?thesis using find by auto
qed

text \<open>The call can no longer be approved: any row it has is decided, and not for it.\<close>

definition not_approvable :: "approval_db \<Rightarrow> string \<Rightarrow> bool" where
  "not_approvable db rid =
     (\<forall>r \<in> set (db_rows db). ar_request_id r = rid \<longrightarrow> \<not> undecided r \<and>
        (\<forall>d. is_approve d \<longrightarrow> ar_decision r \<noteq> Some (decision_as_str d)))"

lemma evolves_get_decision:
  "rows_ok db \<Longrightarrow> evolves new db db' \<Longrightarrow> get_decision rid db = Some d \<Longrightarrow> get_decision rid db' = Some d"
  by (simp add: get_decision_iff evolves_def) metis

lemma evolves_not_approvable:
  assumes "rows_ok db" "evolves new db db'" "rid \<notin> new" "not_approvable db rid"
  shows "not_approvable db' rid"
  unfolding not_approvable_def
proof (intro ballI impI)
  fix r' assume r': "r' \<in> set (db_rows db')" "ar_request_id r' = rid"
  then have "rid \<in> request_ids db" using assms(2,3) by (auto simp: evolves_def request_ids_def)
  then obtain r where r: "r \<in> set (db_rows db)" "ar_request_id r = rid" by (auto simp: request_ids_def)
  then have na: "\<not> undecided r" "\<forall>d. is_approve d \<longrightarrow> ar_decision r \<noteq> Some (decision_as_str d)"
    using assms(4) by (auto simp: not_approvable_def)
  then obtain r'' where r'': "r'' \<in> set (db_rows db')" "ar_request_id r'' = rid" "\<not> undecided r''"
    "ar_decision r'' = ar_decision r"
    using assms(2) r by (auto simp: evolves_def)
  moreover have "r'' = r'"
    using assms(2) r' r'' by (auto simp: evolves_def rows_ok_def distinct_map inj_on_def)
  ultimately show "\<not> undecided r' \<and> (\<forall>d. is_approve d \<longrightarrow> ar_decision r' \<noteq> Some (decision_as_str d))"
    using na by simp
qed

lemma not_approvable_get:
  "rows_ok db \<Longrightarrow> not_approvable db rid \<Longrightarrow> get_decision rid db = Some d \<Longrightarrow> \<not> is_approve d"
  by (auto simp: get_decision_iff not_approvable_def)

lemma deny_not_approvable:
  assumes "rows_ok db" "get_decision rid db = Some d" "\<not> is_approve d"
  shows "not_approvable db rid"
  unfolding not_approvable_def
proof (intro ballI impI)
  fix r assume r: "r \<in> set (db_rows db)" "ar_request_id r = rid"
  obtain x where x: "x \<in> set (db_rows db)" "ar_request_id x = rid" "\<not> undecided x"
    "ar_decision x = Some (decision_as_str d)"
    using assms(1,2) by (auto simp: get_decision_iff)
  have "x = r" using assms(1) r x by (auto simp: rows_ok_def distinct_map inj_on_def)
  moreover have "decision_as_str d \<noteq> decision_as_str e" if "is_approve e" for e
    using that assms(3) by (metis decision_roundtrip option.inject)
  ultimately show "\<not> undecided r \<and> (\<forall>d. is_approve d \<longrightarrow> ar_decision r \<noteq> Some (decision_as_str d))"
    using x by auto
qed

lemma decide_Some_get:
  assumes "rows_ok db" "decide secs now now' rid d db = (Some row, db')"
  shows "get_decision rid db' = Some d" and "rows_ok db'"
proof -
  let ?db = "snd (expire_stale_with_now secs now (open_db db))"
  have "rows_ok ?db" using assms(1) by (simp add: expire_stale_with_now_def)
  then show ok: "rows_ok db'"
    using decide_evolves[OF assms(1), of secs now now' rid d] assms(2) by (simp add: evolves_def)
  show "get_decision rid db' = Some d"
  proof (cases rule: decide_cases[where secs = secs and now = now and now' = now' and rid = rid and d = d and ?db0.0 = db])
    case (hits r0 r)
    have "decide_row now' d r0 \<in> set (db_rows db')"
      using hits(1,2,4) assms(2) by (force simp: update_rows_def)
    then show ?thesis using hits(2) ok by (auto simp: get_decision_iff intro!: bexI[of _ "decide_row now' d r0"])
  qed (use assms(2) in simp)
qed

lemma decide_None_decided:
  assumes "decide secs now now' rid d db = (None, db')"
  shows "\<forall>r \<in> set (db_rows db'). ar_request_id r = rid \<longrightarrow> \<not> undecided r"
  by (cases rule: decide_cases[where secs = secs and now = now and now' = now' and rid = rid and d = d and ?db0.0 = db]) (use assms in auto)

section \<open>The invariant of the gate\<close>

text \<open>
  A call that waits has its waiter; a call not yet persisted has no row; what a channel holds,
  and what is about to be sent, is the persisted decision; a call about to read its decision
  again has no undecided row; and what was returned is settled in the table, the denials only
  if the store never failed.
\<close>

definition waiting :: "phase \<Rightarrow> bool" where
  "waiting ph = (ph = Phase_Registered \<or> ph = Phase_Parked None)"

definition call_ok :: "gate_state \<Rightarrow> string \<Rightarrow> parked_call \<Rightarrow> bool" where
  "call_ok g rid c =
     (pa_request_id (pc_pending c) = rid \<and> rid \<notin> fst ` set (g_finished g) \<and>
      (waiting (pc_phase c) \<longrightarrow> rid \<in> g_waiters g) \<and>
      (pc_phase c = Phase_Registered \<longrightarrow> rid \<notin> request_ids (g_db g)) \<and>
      (\<forall>d. pc_phase c = Phase_Parked (Some d) \<longrightarrow> get_decision rid (g_db g) = Some d) \<and>
      (pc_phase c = Phase_Reread \<longrightarrow>
         (\<forall>r \<in> set (db_rows (g_db g)). ar_request_id r = rid \<longrightarrow> \<not> undecided r)))"

definition result_ok :: "bool \<Rightarrow> approval_db \<Rightarrow> string \<Rightarrow> gate_outcome \<Rightarrow> bool" where
  "result_ok fault db rid out =
     (case out of
        Outcome_Allow \<Rightarrow> \<exists>d. get_decision rid db = Some d \<and> is_approve d
      | Outcome_Deny _ \<Rightarrow> \<not> fault \<longrightarrow> not_approvable db rid)"

definition gate_inv :: "bool \<Rightarrow> gate_state \<Rightarrow> bool" where
  "gate_inv fault g =
     (rows_ok (g_db g) \<and>
      (\<forall>rid c. g_parked g rid = Some c \<longrightarrow> call_ok g rid c) \<and>
      (\<forall>rid d. (rid, d) \<in> g_committed g \<longrightarrow> get_decision rid (g_db g) = Some d) \<and>
      (\<forall>rid out. (rid, out) \<in> set (g_finished g) \<longrightarrow> result_ok fault (g_db g) rid out))"

lemma gate_invI:
  assumes "rows_ok (g_db g)"
    and "\<And>rid c. g_parked g rid = Some c \<Longrightarrow> call_ok g rid c"
    and "\<And>rid d. (rid, d) \<in> g_committed g \<Longrightarrow> get_decision rid (g_db g) = Some d"
    and "\<And>rid out. (rid, out) \<in> set (g_finished g) \<Longrightarrow> result_ok fault (g_db g) rid out"
  shows "gate_inv fault g"
  using assms unfolding gate_inv_def by blast

lemma gate_invD:
  assumes "gate_inv fault g"
  shows "rows_ok (g_db g)"
    and "\<And>rid c. g_parked g rid = Some c \<Longrightarrow> call_ok g rid c"
    and "\<And>rid d. (rid, d) \<in> g_committed g \<Longrightarrow> get_decision rid (g_db g) = Some d"
    and "\<And>rid out. (rid, out) \<in> set (g_finished g) \<Longrightarrow> result_ok fault (g_db g) rid out"
  using assms unfolding gate_inv_def by blast+

text \<open>Changes of the table alone.\<close>

lemma evolves_reread:
  assumes "rows_ok db" "evolves new db db'" "rid \<notin> new"
    and "\<forall>r \<in> set (db_rows db). ar_request_id r = rid \<longrightarrow> \<not> undecided r"
  shows "\<forall>r \<in> set (db_rows db'). ar_request_id r = rid \<longrightarrow> \<not> undecided r"
proof (intro ballI impI)
  fix r' assume r': "r' \<in> set (db_rows db')" "ar_request_id r' = rid"
  then obtain r where r: "r \<in> set (db_rows db)" "ar_request_id r = rid"
    using assms(2,3) by (auto simp: evolves_def request_ids_def)
  then obtain r'' where "r'' \<in> set (db_rows db')" "ar_request_id r'' = rid" "\<not> undecided r''"
    using assms(2,4) by (auto simp: evolves_def)
  moreover from this have "r'' = r'"
    using assms(2) r' by (auto simp: evolves_def rows_ok_def distinct_map inj_on_def)
  ultimately show "\<not> undecided r'" by simp
qed

lemma call_ok_db:
  assumes "rows_ok (g_db g)" "evolves new (g_db g) db" "rid \<notin> new" "call_ok g rid c"
  shows "call_ok (g\<lparr>g_db := db\<rparr>) rid c"
proof -
  have "rid \<notin> request_ids db" if "pc_phase c = Phase_Registered"
    using assms(2-4) that by (auto simp: evolves_def call_ok_def)
  moreover have "get_decision rid db = Some d" if "pc_phase c = Phase_Parked (Some d)" for d
    using evolves_get_decision[OF assms(1,2)] assms(4) that by (simp add: call_ok_def)
  moreover have "\<forall>r \<in> set (db_rows db). ar_request_id r = rid \<longrightarrow> \<not> undecided r"
    if "pc_phase c = Phase_Reread"
    using evolves_reread[OF assms(1-3)] assms(4) that by (simp add: call_ok_def)
  ultimately show ?thesis using assms(4) by (simp add: call_ok_def)
qed

lemma result_ok_db:
  assumes "rows_ok (g_db g)" "evolves new (g_db g) db" "rid \<notin> new" "result_ok fault (g_db g) rid out"
  shows "result_ok fault db rid out"
  using assms(4) evolves_get_decision[OF assms(1,2)] evolves_not_approvable[OF assms(1-3)]
  by (auto simp: result_ok_def split: gate_outcome.splits)

lemma gate_inv_db:
  assumes "gate_inv fault g" "evolves {} (g_db g) db"
  shows "gate_inv fault (g\<lparr>g_db := db\<rparr>)"
proof (rule gate_invI)
  note I = gate_invD[OF assms(1)]
  show "rows_ok (g_db (g\<lparr>g_db := db\<rparr>))" using assms(2) by (simp add: evolves_def)
  show "call_ok (g\<lparr>g_db := db\<rparr>) rid c" if "g_parked (g\<lparr>g_db := db\<rparr>) rid = Some c" for rid c
    using call_ok_db[OF I(1) assms(2)] I(2) that by simp
  show "get_decision rid (g_db (g\<lparr>g_db := db\<rparr>)) = Some d" if "(rid, d) \<in> g_committed (g\<lparr>g_db := db\<rparr>)" for rid d
    using evolves_get_decision[OF I(1) assms(2)] I(3) that by simp
  show "result_ok fault (g_db (g\<lparr>g_db := db\<rparr>)) rid out" if "(rid, out) \<in> set (g_finished (g\<lparr>g_db := db\<rparr>))" for rid out
    using result_ok_db[OF I(1) assms(2)] I(4) that by simp
qed

text \<open>A call leaves the gate with a result that is settled.\<close>

lemma gate_inv_release:
  assumes "gate_inv fault g" "pa_request_id (pc_pending c) = rid" "result_ok fault (g_db g) rid out"
  shows "gate_inv fault (release c out g)"
proof (rule gate_invI)
  note I = gate_invD[OF assms(1)]
  let ?g = "release c out g"
  have g: "g_db ?g = g_db g" "g_committed ?g = g_committed g" "g_waiters ?g = g_waiters g"
    "g_parked ?g = (g_parked g)(rid := None)" "g_finished ?g = (rid, out) # g_finished g"
    using assms(2) by (simp_all add: release_def finish_def clear_thread_def clear_meeting_def)
  show "rows_ok (g_db ?g)" using I(1) g by simp
  show "call_ok ?g r x" if "g_parked ?g r = Some x" for r x
    using I(2)[of r x] that g by (auto simp: call_ok_def split: if_splits)
  show "get_decision r (g_db ?g) = Some d" if "(r, d) \<in> g_committed ?g" for r d
    using I(3) that g by simp
  show "result_ok fault (g_db ?g) r o'" if "(r, o') \<in> set (g_finished ?g)" for r o'
    using I(4)[of r o'] assms(3) that g by auto
qed

text \<open>A call moves to another phase that suits it.\<close>

lemma gate_inv_phase:
  assumes "gate_inv fault g" "g_parked g rid = Some c"
    and "call_ok g rid (c\<lparr>pc_phase := ph\<rparr>)"
  shows "gate_inv fault (set_phase rid ph g)"
proof (rule gate_invI)
  note I = gate_invD[OF assms(1)]
  let ?g = "set_phase rid ph g"
  have g: "g_db ?g = g_db g" "g_committed ?g = g_committed g" "g_waiters ?g = g_waiters g"
    "g_parked ?g = (g_parked g)(rid \<mapsto> c\<lparr>pc_phase := ph\<rparr>)" "g_finished ?g = g_finished g"
    using assms(2) by (simp_all add: set_phase_def)
  show "rows_ok (g_db ?g)" using I(1) g by simp
  show "call_ok ?g r x" if "g_parked ?g r = Some x" for r x
    using I(2)[of r x] assms(3) that g by (auto simp: call_ok_def split: if_splits)
  show "get_decision r (g_db ?g) = Some d" if "(r, d) \<in> g_committed ?g" for r d
    using I(3) that g by simp
  show "result_ok fault (g_db ?g) r o'" if "(r, o') \<in> set (g_finished ?g)" for r o'
    using I(4)[of r o'] that g by auto
qed

text \<open>Dropping a waiter that no waiting call needs.\<close>

lemma gate_inv_evict:
  assumes "gate_inv fault g" "\<And>c. g_parked g rid = Some c \<Longrightarrow> \<not> waiting (pc_phase c)"
  shows "gate_inv fault (evict_waiter rid g)"
  using assms unfolding gate_inv_def evict_waiter_def call_ok_def by auto

lemma waiting_simps [simp]:
  "waiting Phase_Registered" "waiting (Phase_Parked None)" "\<not> waiting (Phase_Parked (Some d))"
  "\<not> waiting Phase_Timed_Out" "\<not> waiting Phase_Evicted" "\<not> waiting Phase_Reread"
  by (simp_all add: waiting_def)

lemma gate_inv_move:
  assumes "gate_inv fault g" "g_parked g rid = Some c" "evolves {rid} (g_db g) db"
    and "call_ok (g\<lparr>g_db := db\<rparr>) rid (c\<lparr>pc_phase := ph\<rparr>)"
  shows "gate_inv fault (set_phase rid ph (g\<lparr>g_db := db\<rparr>))"
proof -
  note I = gate_invD[OF assms(1)]
  define g' where "g' = set_phase rid ph (g\<lparr>g_db := db\<rparr>)"
  have g: "g_db g' = db" "g_committed g' = g_committed g" "g_waiters g' = g_waiters g"
    "g_parked g' = (g_parked g)(rid \<mapsto> c\<lparr>pc_phase := ph\<rparr>)" "g_finished g' = g_finished g"
    using assms(2) by (simp_all add: set_phase_def g'_def)
  have "gate_inv fault g'"
  proof (rule gate_invI)
  show "rows_ok (g_db g')" using assms(3) g by (simp add: evolves_def)
  show "call_ok g' r x" if "g_parked g' r = Some x" for r x
  proof (cases "r = rid")
    case True
    then have "x = c\<lparr>pc_phase := ph\<rparr>" using that g by simp
    then show ?thesis using True assms(4) g by (simp add: call_ok_def)
  next
    case False
    then show ?thesis using call_ok_db[OF I(1) assms(3), of r x] I(2)[of r x] that g by (simp add: call_ok_def)
  qed
  show "get_decision r (g_db g') = Some d" if "(r, d) \<in> g_committed g'" for r d
    using evolves_get_decision[OF I(1) assms(3)] I(3) that g by simp
  show "result_ok fault (g_db g') r out" if "(r, out) \<in> set (g_finished g')" for r out
  proof -
    have "(r, out) \<in> set (g_finished g)" using that g by simp
    then have "r \<noteq> rid" using I(2)[OF assms(2)] by (force simp: call_ok_def)
    then show ?thesis using result_ok_db[OF I(1) assms(3), of r fault out] I(4)[of r out] that g by simp
  qed
qed
  then show ?thesis by (simp add: g'_def)
qed

lemma gate_inv_finish:
  assumes "gate_inv fault g" "result_ok fault (g_db g) rid out"
  shows "gate_inv fault (finish rid out g)"
proof -
  define c :: parked_call where
    "c = \<lparr>pc_pending = \<lparr>pa_request_id = rid, pa_tool_name = [], pa_action_summary = [],
            pa_args_redacted = [], pa_created_at = 0, pa_expires_at = None\<rparr>,
          pc_thread = None, pc_meeting = None, pc_ttl = 0, pc_phase = Phase_Evicted\<rparr>"
  have "release c out g = finish rid out g"
    by (simp add: release_def c_def clear_thread_def clear_meeting_def map_clear_def)
  moreover have "gate_inv fault (release c out g)"
    by (rule gate_inv_release[OF assms(1) _ assms(2)]) (simp add: c_def)
  ultimately show ?thesis by simp
qed

lemma gate_inv_routes [simp]:
  "gate_inv fault (clear_thread t g) = gate_inv fault g"
  "gate_inv fault (clear_meeting m g) = gate_inv fault g"
  by (simp_all add: gate_inv_def clear_thread_def clear_meeting_def call_ok_def)

lemma finish_evict:
  "finish rid out (clear_thread t (evict_waiter rid g)) = evict_waiter rid (finish rid out (clear_thread t g))"
  by (simp add: finish_def clear_thread_def evict_waiter_def)

lemma register_inv:
  assumes "gate_inv fault g" "fresh_request (pa_request_id (pc_pending c)) g"
  shows "gate_inv fault (do_register c g)"
proof (rule gate_invI)
  note I = gate_invD[OF assms(1)]
  let ?g = "do_register c g"
  show "rows_ok (g_db ?g)" using I(1) by (simp add: do_register_def Let_def)
  show "call_ok ?g r x" if "g_parked ?g r = Some x" for r x
    using I(2)[of r x] assms(2) that
    by (auto simp: do_register_def Let_def call_ok_def fresh_request_def request_ids_def split: if_splits)
  show "get_decision r (g_db ?g) = Some d" if "(r, d) \<in> g_committed ?g" for r d
    using I(3) that by (simp add: do_register_def Let_def)
  show "result_ok fault (g_db ?g) r out" if "(r, out) \<in> set (g_finished ?g)" for r out
    using I(4) that by (simp add: do_register_def Let_def)
qed

lemma persist_inv:
  assumes "gate_inv fault g" "g_parked g rid = Some c" "pc_phase c = Phase_Registered" "\<not> up \<longrightarrow> fault"
  shows "gate_inv fault (do_persist up session_id err c g)"
proof -
  note I = gate_invD[OF assms(1)]
  have c: "pa_request_id (pc_pending c) = rid" "rid \<in> g_waiters g" "rid \<notin> request_ids (g_db g)"
    "rid \<notin> fst ` set (g_finished g)"
    using I(2)[OF assms(2)] assms(3) by (auto simp: call_ok_def)
  show ?thesis
  proof (cases up)
    case True
    obtain db where ok: "insert_pending (pc_pending c) session_id (g_db g) = (Inr (), db)"
      using insert_pending_ok[of "pc_pending c" session_id "g_db g"] c(1,3)
      by (cases "insert_pending (pc_pending c) session_id (g_db g)") auto
    have ev: "evolves {rid} (g_db g) db"
      using insert_evolves[OF I(1), of "pc_pending c" session_id] c(1) ok by simp
    have "gate_inv fault (set_phase rid (Phase_Parked None) (g\<lparr>g_db := db\<rparr>))"
      by (rule gate_inv_move[OF assms(1,2) ev]) (use c in \<open>simp add: call_ok_def\<close>)
    moreover have "do_persist up session_id err c g = set_phase rid (Phase_Parked None) (g\<lparr>g_db := db\<rparr>)"
      using ok c(1) True by (simp add: do_persist_def Let_def)
    ultimately show ?thesis by simp
  next
    case False
    have "result_ok fault (g_db g) rid (Outcome_Deny (Deny_Not_Persisted err))"
      using False assms(4) by (simp add: result_ok_def)
    then have "gate_inv fault (finish rid (Outcome_Deny (Deny_Not_Persisted err)) (clear_thread (pc_thread c) g))"
      by (intro gate_inv_finish) (simp_all add: assms(1), simp add: clear_thread_def)
    then have "gate_inv fault (evict_waiter rid
        (finish rid (Outcome_Deny (Deny_Not_Persisted err)) (clear_thread (pc_thread c) g)))"
      by (rule gate_inv_evict) (simp add: finish_def)
    then show ?thesis using False c(1)
      by (simp add: do_persist_def finish_evict[symmetric] Let_def)
  qed
qed

lemma decide_commit_inv:
  assumes "gate_inv fault g"
  shows "gate_inv fault (do_decide_commit secs now now' rid d g)"
proof -
  note I = gate_invD[OF assms]
  obtain row db where dec: "decide secs now now' rid d (g_db g) = (row, db)" by force
  have "gate_inv fault (g\<lparr>g_db := db\<rparr>)"
    using gate_inv_db[OF assms decide_evolves[OF I(1)]] dec by (metis snd_conv)
  moreover have "get_decision rid db = Some d" if "row \<noteq> None"
    using decide_Some_get(1)[OF I(1)] dec that by auto
  ultimately show ?thesis
    using dec by (auto simp: do_decide_commit_def gate_inv_def call_ok_def)
qed

lemma decide_send_inv:
  assumes "gate_inv fault g" "(rid, d) \<in> g_committed g"
  shows "gate_inv fault (do_decide_send rid d g)"
proof -
  note I = gate_invD[OF assms(1)]
  let ?g1 = "g\<lparr>g_committed := g_committed g - {(rid, d)}\<rparr>"
  have g1: "gate_inv fault ?g1" using assms(1) by (simp add: gate_inv_def call_ok_def)
  have dec: "get_decision rid (g_db g) = Some d" using I(3) assms(2) by simp
  then have row: "rid \<in> request_ids (g_db g)" using I(1) by (auto simp: get_decision_iff request_ids_def)
  show ?thesis
  proof (cases "rid \<in> g_waiters g \<and> (\<exists>c. g_parked g rid = Some c \<and> pc_phase c = Phase_Parked None)")
    case True
    then obtain c where c: "g_parked g rid = Some c" "pc_phase c = Phase_Parked None" by blast
    have "gate_inv fault (set_phase rid (Phase_Parked (Some d)) ?g1)"
      by (rule gate_inv_phase[OF g1, of rid c]) (use c I(2)[OF c(1)] dec in \<open>auto simp: call_ok_def\<close>)
    then have "gate_inv fault (evict_waiter rid (set_phase rid (Phase_Parked (Some d)) ?g1))"
      by (rule gate_inv_evict) (use c in \<open>auto simp: set_phase_def\<close>)
    moreover have "do_decide_send rid d g = evict_waiter rid (set_phase rid (Phase_Parked (Some d)) ?g1)"
      using c True by (simp add: do_decide_send_def set_phase_def evict_waiter_def Let_def)
    ultimately show ?thesis by simp
  next
    case False
    have nw: "\<not> waiting (pc_phase c)" if "g_parked g rid = Some c" for c
      using I(2)[OF that] False row that by (auto simp: call_ok_def waiting_def)
    have "do_decide_send rid d g = ?g1 \<or> do_decide_send rid d g = evict_waiter rid ?g1"
      using False by (auto simp: do_decide_send_def evict_waiter_def Let_def
          split: option.splits phase.splits)
    moreover have "gate_inv fault (evict_waiter rid ?g1)"
      by (rule gate_inv_evict[OF g1]) (use nw in simp)
    ultimately show ?thesis using g1 by auto
  qed
qed

lemma timeout_deny_inv:
  assumes "gate_inv fault g" "g_parked g rid = Some c" "pc_phase c = Phase_Evicted" "\<not> up \<longrightarrow> fault"
  shows "gate_inv fault (do_timeout_deny secs up now now' c g)"
proof -
  note I = gate_invD[OF assms(1)]
  have c: "pa_request_id (pc_pending c) = rid" "rid \<notin> fst ` set (g_finished g)"
    using I(2)[OF assms(2)] by (auto simp: call_ok_def)
  show ?thesis
  proof (cases up)
    case False
    have "result_ok fault (g_db g) rid (timeout_outcome c None)"
      using False assms(4) by (simp add: timeout_outcome_def result_ok_def)
    then show ?thesis using gate_inv_release[OF assms(1) c(1)] False
      by (simp add: do_timeout_deny_def)
  next
    case True
    obtain row db where dec: "decide secs now now' rid Decision_Deny (g_db g) = (row, db)" by force
    have ev: "evolves {} (g_db g) db"
      using decide_evolves[OF I(1), of secs now now' rid Decision_Deny] dec by simp
    note db = gate_inv_db[OF assms(1) ev]
    show ?thesis
    proof (cases row)
      case None
      have "\<forall>r \<in> set (db_rows db). ar_request_id r = rid \<longrightarrow> \<not> undecided r"
        using decide_None_decided dec None by blast
      then have "gate_inv fault (set_phase rid Phase_Reread (g\<lparr>g_db := db\<rparr>))"
        using c by (intro gate_inv_phase[OF db, of rid c]) (auto simp: call_ok_def assms(2))
      then show ?thesis using dec None True c(1) by (simp add: do_timeout_deny_def Let_def)
    next
      case (Some p)
      have "get_decision rid db = Some Decision_Deny" "rows_ok db"
        using decide_Some_get[OF I(1)] dec Some by auto
      then have "result_ok fault db rid (timeout_outcome c (Some Decision_Deny))"
        using deny_not_approvable by (simp add: timeout_outcome_def result_ok_def)
      then have "gate_inv fault (release c (timeout_outcome c (Some Decision_Deny)) (g\<lparr>g_db := db\<rparr>))"
        using gate_inv_release[OF db c(1)] by simp
      then show ?thesis using dec Some True c(1) by (simp add: do_timeout_deny_def Let_def)
    qed
  qed
qed

lemma timeout_reread_inv:
  assumes "gate_inv fault g" "g_parked g rid = Some c" "pc_phase c = Phase_Reread" "\<not> up \<longrightarrow> fault"
  shows "gate_inv fault (do_timeout_reread up c g)"
proof -
  note I = gate_invD[OF assms(1)]
  have c: "pa_request_id (pc_pending c) = rid"
    "\<forall>r \<in> set (db_rows (g_db g)). ar_request_id r = rid \<longrightarrow> \<not> undecided r"
    using I(2)[OF assms(2)] assms(3) by (auto simp: call_ok_def)
  let ?p = "if up then get_decision rid (g_db g) else None"
  have "result_ok fault (g_db g) rid (timeout_outcome c ?p)"
  proof (cases "is_some_and ?p is_approve")
    case True
    then show ?thesis by (auto simp: timeout_outcome_def result_ok_def is_some_and_iff split: if_splits)
  next
    case False
    have "not_approvable (g_db g) rid" if "\<not> fault"
      unfolding not_approvable_def
    proof (intro ballI impI conjI allI notI)
      fix r assume r: "r \<in> set (db_rows (g_db g))" "ar_request_id r = rid"
      show False if "undecided r" using c(2) r that by blast
      fix d assume d: "is_approve d" "ar_decision r = Some (decision_as_str d)"
      have "get_decision rid (g_db g) = Some d"
        using r d c(2) by (auto simp: get_decision_iff[OF I(1)])
      then show False using False that assms(4) d(1) by simp
    qed
    with False show ?thesis by (simp add: timeout_outcome_def result_ok_def)
  qed
  then show ?thesis using gate_inv_release[OF assms(1) c(1)] c(1) by (simp add: do_timeout_reread_def)
qed

lemma resume_inv:
  assumes "gate_inv fault g" "g_parked g rid = Some c" "pc_phase c = Phase_Parked (Some d)"
  shows "gate_inv fault (release c (resume_outcome c d) g)"
proof -
  note I = gate_invD[OF assms(1)]
  have c: "pa_request_id (pc_pending c) = rid" "get_decision rid (g_db g) = Some d"
    using I(2)[OF assms(2)] assms(3) by (auto simp: call_ok_def)
  have "result_ok fault (g_db g) rid (resume_outcome c d)"
    using c(2) deny_not_approvable[OF I(1) c(2)] by (simp add: resume_outcome_def result_ok_def)
  then show ?thesis by (rule gate_inv_release[OF assms(1) c(1)])
qed

lemma gate_step_inv:
  assumes "gate_step secs fault g g'" and "gate_inv fault g"
  shows "gate_inv fault g'"
  using assms
proof (induction rule: gate_step.induct)
  case (step_closed g rid c up now now')
  then have "rid \<in> g_waiters g" using gate_invD(2)[OF step_closed(5,1)] by (simp add: call_ok_def)
  then show ?case using step_closed by simp
next
  case (step_timeout g rid c)
  then show ?case using gate_invD(2)[OF step_timeout(3,1)]
    by (intro gate_inv_phase) (auto simp: call_ok_def)
next
  case (step_evict g rid c)
  have "gate_inv fault (evict_waiter rid g)"
    by (rule gate_inv_evict) (use step_evict in auto)
  moreover have "call_ok (evict_waiter rid g) rid c"
    using gate_invD(2)[OF calculation, of rid c] step_evict by (simp add: evict_waiter_def)
  ultimately show ?case using step_evict(1)
    by (intro gate_inv_phase) (auto simp: call_ok_def evict_waiter_def)
next
  case (step_cancel g rid)
  then show ?case by (auto simp: gate_inv_def call_ok_def)
next
  case (step_sweep g now)
  then show ?case by (intro gate_inv_db sweep_evolves gate_invD(1))
next
  case (step_record_execution g sanitize now rid out error)
  then show ?case by (intro gate_inv_db record_execution_evolves gate_invD(1))
next
  case (step_purge g session_id)
  then show ?case by (intro gate_inv_db purge_evolves gate_invD(1))
qed (auto intro: register_inv persist_inv decide_commit_inv decide_send_inv resume_inv
      timeout_deny_inv timeout_reread_inv)

lemma launch_inv: "rows_ok db \<Longrightarrow> gate_inv fault (launch db)"
  by (simp add: gate_inv_def launch_def)

lemma gate_reachable_inv: "gate_reachable secs fault db g \<Longrightarrow> rows_ok db \<Longrightarrow> gate_inv fault g"
  by (induction rule: gate_reachable.induct) (auto intro: launch_inv gate_step_inv)

section \<open>The store as an interface\<close>

text \<open>
  What the gate relies on: a commit that wins makes its decision the persisted one, and a
  persisted decision survives every commit.  Then reading back after a commit that lost
  tells the truth, and of any number of commits the first that wins decides.
\<close>

locale decision_store =
  fixes good :: "'s \<Rightarrow> bool"
    and decided :: "'s \<Rightarrow> string \<Rightarrow> approval_decision option"
    and commit :: "string \<Rightarrow> approval_decision \<Rightarrow> 's \<Rightarrow> bool \<times> 's"
  assumes commit_good: "good s \<Longrightarrow> good (snd (commit k d s))"
    and commit_final: "good s \<Longrightarrow> decided s k = Some e \<Longrightarrow> decided (snd (commit k' d s)) k = Some e"
    and commit_won: "good s \<Longrightarrow> fst (commit k d s) \<Longrightarrow> decided (snd (commit k d s)) k = Some d"
begin

definition resolve_once :: "string \<Rightarrow> approval_decision \<Rightarrow> 's \<Rightarrow> approval_decision option \<times> 's" where
  "resolve_once k d s =
     (let (won, s') = commit k d s in (if won then Some d else decided s' k, s'))"

lemma resolve_once_agrees: "good s \<Longrightarrow> resolve_once k d s = (r, s') \<Longrightarrow> r = decided s' k"
  using commit_won[of s k d] by (auto simp: resolve_once_def split: prod.splits if_splits)

definition commit_all :: "(string \<times> approval_decision) list \<Rightarrow> 's \<Rightarrow> 's" where
  "commit_all cs s = foldl (\<lambda>s (k, d). snd (commit k d s)) s cs"

lemma commit_all_final:
  "good s \<Longrightarrow> decided s k = Some e \<Longrightarrow> decided (commit_all cs s) k = Some e"
  unfolding commit_all_def
  by (induction cs arbitrary: s) (auto simp: commit_good commit_final)

lemma first_winner_decides:
  "good s \<Longrightarrow> fst (commit k d s) \<Longrightarrow> decided (commit_all cs (snd (commit k d s))) k = Some d"
  by (intro commit_all_final commit_good commit_won)

end

interpretation sqlite: decision_store rows_ok "\<lambda>db rid. get_decision rid db"
  "\<lambda>rid d db. (fst (decide secs now now' rid d db) \<noteq> None, snd (decide secs now now' rid d db))"
  for secs now now'
proof (unfold_locales, goal_cases)
  case (1 s k d)
  then show ?case using decide_evolves[of s secs now now' k d] by (simp add: evolves_def)
next
  case (2 s k e k' d)
  then show ?case using evolves_get_decision[OF 2(1) decide_evolves[OF 2(1)]] by simp
next
  case (3 s k d)
  then obtain row where "decide secs now now' k d s = (Some row, snd (decide secs now now' k d s))"
    by (cases "decide secs now now' k d s") auto
  then show ?case using decide_Some_get(1)[OF 3(1)] by simp
qed

section \<open>Properties\<close>

text \<open>Before any prompt the gate fails closed: a call goes through unprompted exactly when
  its tool is on the always-allow list or its turn is labelled as cron, as an untainted
  subconscious tick or as command line; a turn without a label, or whose memory is tainted,
  is denied; and only web chats and external channels park.\<close>

theorem unprompted_calls_are_trusted:
  "(pre_park auto origin tool = Some Outcome_Allow \<longleftrightarrow>
     auto \<or> (\<exists>job. origin = Some (Origin_Trusted_Automation job Source_Cron)) \<or>
     (\<exists>job. origin = Some (Origin_Trusted_Automation job Source_Subconscious)) \<or>
     origin = Some Origin_Cli) \<and>
   pre_park False None tool = Some (Outcome_Deny (Deny_No_Origin tool)) \<and>
   pre_park False (Some (Origin_Trusted_Automation job Source_Subconscious_Tainted)) tool =
     Some (Outcome_Deny (Deny_Tainted tool)) \<and>
   (pre_park auto origin tool = None \<longleftrightarrow>
     \<not> auto \<and> ((\<exists>t c. origin = Some (Origin_Web_Chat t c)) \<or>
               (\<exists>c s r m. origin = Some (Origin_External_Channel c s r m))))"
  by (auto simp: pre_park_def split: option.splits turn_origin.splits automation_source.splits)

text \<open>C22. Nothing is let through without consent: in every reachable state of the gate,
  whatever the interleaving of replies, timeouts, cancellations, sweeps and store failures, a
  parked call that returned \<open>Allow\<close> has a durable row whose decision is an approval.\<close>

theorem allowed_calls_are_approved:
  assumes "gate_reachable secs fault db g" and "distinct (map ar_request_id (db_rows db))"
    and "(rid, Outcome_Allow) \<in> set (g_finished g)"
  shows "\<exists>r \<in> set (db_rows (g_db g)). ar_request_id r = rid \<and> ar_decided_at r \<noteq> None \<and>
    (ar_decision r = Some ''approve_once'' \<or> ar_decision r = Some ''approve_always_for_tool'')"
proof -
  have inv: "gate_inv fault g" using gate_reachable_inv[OF assms(1)] assms(2) by (simp add: rows_ok_def)
  then obtain d where "get_decision rid (g_db g) = Some d" "is_approve d"
    using gate_invD(4)[OF inv assms(3)] by (auto simp: result_ok_def)
  then show ?thesis using gate_invD(1)[OF inv]
    by (cases d) (auto simp: get_decision_iff undecided_def)
qed

text \<open>C36. As long as the store does not fail, the result and the record agree: a parked call
  returned \<open>Allow\<close> exactly when its durable decision is an approval, also when a reply and the
  timeout race.\<close>

theorem result_agrees_with_record:
  assumes "gate_reachable secs False db g" and "distinct (map ar_request_id (db_rows db))"
    and "(rid, out) \<in> set (g_finished g)"
  shows "out = Outcome_Allow \<longleftrightarrow> (\<exists>d. get_decision rid (g_db g) = Some d \<and> is_approve d)"
proof -
  have inv: "gate_inv False g" using gate_reachable_inv[OF assms(1)] assms(2) by (simp add: rows_ok_def)
  show ?thesis
    using gate_invD(4)[OF inv assms(3)] not_approvable_get[OF gate_invD(1)[OF inv]]
    by (cases out) (auto simp: result_ok_def)
qed

text \<open>A waiting call is never stranded: while it is parked without a decision its waiter is
  registered, so the channel is never found closed, and the next decision reaches it.\<close>

theorem waiting_calls_have_waiters:
  assumes "gate_reachable secs fault db g" and "distinct (map ar_request_id (db_rows db))"
    and "g_parked g rid = Some c" and "pc_phase c = Phase_Parked None"
  shows "rid \<in> g_waiters g \<and>
    g_parked (do_decide_send rid d g) rid = Some (c\<lparr>pc_phase := Phase_Parked (Some d)\<rparr>)"
proof (intro conjI)
  have "gate_inv fault g" using gate_reachable_inv[OF assms(1)] assms(2) by (simp add: rows_ok_def)
  then show w: "rid \<in> g_waiters g"
    using gate_invD(2)[OF _ assms(3)] assms(4) by (simp add: call_ok_def)
  then show "g_parked (do_decide_send rid d g) rid = Some (c\<lparr>pc_phase := Phase_Parked (Some d)\<rparr>)"
    using assms(3,4) by (simp add: do_decide_send_def set_phase_def evict_waiter_def Let_def)
qed

text \<open>Decisions are final: after one decision on a request has been accepted, no later
  decision on it or on any other request changes it.\<close>

theorem first_decision_is_final:
  assumes "distinct (map ar_request_id (db_rows db))"
    and "decide secs now now' rid d db = (Some row, db')"
  shows "get_decision rid (foldl (\<lambda>s (k, e). snd (decide secs now now' k e s)) db' later) = Some d"
proof -
  have "rows_ok db" using assms(1) by (simp add: rows_ok_def)
  from sqlite.first_winner_decides[OF this, of secs now now' rid d later]
  show ?thesis using assms(2) unfolding sqlite.commit_all_def by simp
qed

text \<open>An approval that comes too late is refused: once a pending request has expired,
  \<open>decide\<close> accepts nothing for it and its durable decision is a denial.\<close>

theorem late_approval_is_refused:
  assumes "distinct (map ar_request_id (db_rows db))" and "r \<in> set (db_rows db)"
    and "ar_decided_at r = None" and "ar_expires_at r = Some t" and "secs t \<le> secs now"
  shows "fst (decide secs now now' (ar_request_id r) d db) = None \<and>
    get_decision (ar_request_id r) (snd (decide secs now now' (ar_request_id r) d db)) = Some Decision_Deny"
proof (intro conjI)
  let ?rid = "ar_request_id r" and ?s = "scrub_row (db_user_version db < 1) r"
  let ?db = "snd (expire_stale_with_now secs now (open_db db))"
  let ?e = "decide_row now Decision_Deny ?s"
  have ok: "rows_ok db" using assms(1) by (simp add: rows_ok_def)
  then have ok': "rows_ok ?db" by (simp add: expire_stale_with_now_def)
  have "ar_expires_at ?s = Some t" using assms(4) by (simp add: scrub_row_def)
  then have "stale secs now ?s" using assms(3,5) by (simp add: stale_def undecided_def)
  then have e: "?e \<in> set (db_rows ?db)"
    using assms(2) by (force simp: expire_stale_with_now_def update_rows_def open_db_rows)
  then have dec: "get_decision ?rid ?db = Some Decision_Deny"
    using ok' by (auto simp: get_decision_iff intro!: bexI[of _ ?e])
  have all: "\<forall>x \<in> set (db_rows ?db). \<not> (ar_request_id x = ?rid \<and> undecided x)"
  proof (intro ballI notI)
    fix x assume x: "x \<in> set (db_rows ?db)" "ar_request_id x = ?rid \<and> undecided x"
    then have "x = ?e" using e ok' by (auto simp: rows_ok_def distinct_map inj_on_def)
    then show False using x(2) by simp
  qed
  show "fst (decide secs now now' ?rid d db) = None"
    and "get_decision ?rid (snd (decide secs now now' ?rid d db)) = Some Decision_Deny"
    using all dec
    by (cases rule: decide_cases[where secs = secs and now = now and now' = now' and rid = ?rid and d = d and ?db0.0 = db];
        auto)+
qed

lemma update_rows_member:
  "r \<in> set (db_rows (update_rows c f db)) \<Longrightarrow> \<exists>r0 \<in> set (db_rows db). r = (if c r0 then f r0 else r0)"
  by (auto simp: update_rows_def)

text \<open>The audit trail is written once: an execution is recorded only on a decided row, the
  first record wins, and a second one finds nothing to update and changes no row.\<close>

theorem execution_recorded_once:
  assumes "record_execution sanitize now rid out error db = (hit, db')"
  shows "(hit \<longleftrightarrow> (\<exists>r \<in> set (db_rows db). ar_request_id r = rid \<and> ar_decided_at r \<noteq> None \<and> ar_executed_at r = None)) \<and>
    record_execution sanitize now' rid out' error' db' = (False, db')"
proof (intro conjI)
  let ?hit = "\<lambda>r. ar_request_id r = rid \<and> \<not> undecided r \<and> ar_executed_at r = None"
  show "hit \<longleftrightarrow> (\<exists>r \<in> set (db_rows db). ar_request_id r = rid \<and> ar_decided_at r \<noteq> None \<and> ar_executed_at r = None)"
    using assms by (auto simp: record_execution_def Let_def list_ex_iff open_db_rows undecided_def)
  have db': "db' = update_rows ?hit (\<lambda>r. r\<lparr>ar_executed_at := Some now,
      ar_execution_outcome := Some (execution_as_str out),
      ar_execution_error := map_option (\<lambda>e. cap_error (sanitize e)) error\<rparr>) (open_db db)"
    using assms by (simp add: record_execution_def Let_def)
  have "open_db db' = db'" by (simp add: db')
  moreover have none: "\<not> ?hit r" if "r \<in> set (db_rows db')" for r
  proof -
    from that have "\<exists>r0 \<in> set (db_rows (open_db db)). r = (if ?hit r0 then r0\<lparr>ar_executed_at := Some now,
        ar_execution_outcome := Some (execution_as_str out),
        ar_execution_error := map_option (\<lambda>e. cap_error (sanitize e)) error\<rparr> else r0)"
      unfolding db' by (rule update_rows_member)
    then obtain r0 where "r = (if ?hit r0 then r0\<lparr>ar_executed_at := Some now,
        ar_execution_outcome := Some (execution_as_str out),
        ar_execution_error := map_option (\<lambda>e. cap_error (sanitize e)) error\<rparr> else r0)" by blast
    then show ?thesis by (cases "?hit r0") auto
  qed
  moreover have "update_rows ?hit f db' = db'" for f
  proof -
    have "map (\<lambda>r. if ?hit r then f r else r) (db_rows db') = db_rows db'"
      by (rule map_idI) (use none in \<open>simp only: if_False\<close>)
    then show ?thesis by (simp add: update_rows_def)
  qed
  ultimately show "record_execution sanitize now' rid out' error' db' = (False, db')"
    by (simp add: record_execution_def Let_def list_ex_iff)
qed

section \<open>A concrete run\<close>

definition empty_db :: approval_db where
  "empty_db = \<lparr>db_rows = [], db_columns = [''executed_at'', ''execution_outcome'', ''execution_error''],
     db_user_version = 1\<rparr>"

definition call_of :: "string \<Rightarrow> string option \<Rightarrow> string option \<Rightarrow> parked_call" where
  "call_of rid thread meeting =
     \<lparr>pc_pending = \<lparr>pa_request_id = rid, pa_tool_name = ''send_email'', pa_action_summary = ''send'',
         pa_args_redacted = ''{}'', pa_created_at = 0, pa_expires_at = Some 600\<rparr>,
      pc_thread = thread, pc_meeting = meeting, pc_ttl = 600, pc_phase = Phase_Registered\<rparr>"

definition run_parked :: gate_state where
  "run_parked = do_persist True ''session-1'' [] (call_of ''r1'' (Some ''t'') None)
     (do_register (call_of ''r1'' (Some ''t'') None) (launch empty_db))"

definition run_approved :: gate_state where
  "run_approved = do_decide_send ''r1'' Approve_Once (do_decide_commit id 5 6 ''r1'' Approve_Once run_parked)"

definition run_allowed :: gate_state where
  "run_allowed = (let c = (call_of ''r1'' (Some ''t'') None)\<lparr>pc_phase := Phase_Parked (Some Approve_Once)\<rparr>
     in release c (resume_outcome c Approve_Once) run_approved)"

lemma run_parked_reachable: "gate_reachable id False empty_db run_parked"
proof -
  let ?c = "call_of ''r1'' (Some ''t'') None"
  have "fresh_request (pa_request_id (pc_pending ?c)) (launch empty_db)" by code_simp
  from reach_step[OF reach_launch step_register[OF this]]
  have r: "gate_reachable id False empty_db (do_register ?c (launch empty_db))" .
  have "g_parked (do_register ?c (launch empty_db)) ''r1'' = Some ?c" "pc_phase ?c = Phase_Registered"
    by (simp_all add: do_register_def call_of_def Let_def)
  from reach_step[OF r step_persist[OF this]] show ?thesis by (simp add: run_parked_def)
qed

lemma run_allowed_reachable: "gate_reachable id False empty_db run_allowed"
proof -
  let ?c = "(call_of ''r1'' (Some ''t'') None)\<lparr>pc_phase := Phase_Parked (Some Approve_Once)\<rparr>"
  note c = reach_step[OF run_parked_reachable step_decide_commit[of id False run_parked 5 6 "''r1''" Approve_Once]]
  have "(''r1'', Approve_Once) \<in> g_committed (do_decide_commit id 5 6 ''r1'' Approve_Once run_parked)" by code_simp
  from reach_step[OF c step_decide_send[OF this]]
  have a: "gate_reachable id False empty_db run_approved" by (simp add: run_approved_def)
  have "g_parked run_approved ''r1'' = Some ?c" "pc_phase ?c = Phase_Parked (Some Approve_Once)" by code_simp+
  from reach_step[OF a step_resume[OF this]] show ?thesis by (simp add: run_allowed_def Let_def)
qed

lemma empty_db_distinct: "distinct (map ar_request_id (db_rows empty_db))"
  by (simp add: empty_db_def)

theorem allowed_calls_are_approved_witness:
  "\<exists>r \<in> set (db_rows (g_db run_allowed)). ar_request_id r = ''r1'' \<and> ar_decided_at r \<noteq> None"
proof -
  have "(''r1'', Outcome_Allow) \<in> set (g_finished run_allowed)" by code_simp
  from allowed_calls_are_approved[OF run_allowed_reachable empty_db_distinct this] show ?thesis by blast
qed

theorem result_agrees_with_record_witness:
  "\<exists>d. get_decision ''r1'' (g_db run_allowed) = Some d \<and> is_approve d"
proof -
  have "(''r1'', Outcome_Allow) \<in> set (g_finished run_allowed)" by code_simp
  from result_agrees_with_record[OF run_allowed_reachable empty_db_distinct this] show ?thesis by simp
qed

theorem waiting_calls_have_waiters_witness: "''r1'' \<in> g_waiters run_parked"
proof -
  have "g_parked run_parked ''r1'' = Some ((call_of ''r1'' (Some ''t'') None)\<lparr>pc_phase := Phase_Parked None\<rparr>)"
    by code_simp
  from waiting_calls_have_waiters[OF run_parked_reachable empty_db_distinct this] show ?thesis
    by (simp add: call_of_def)
qed

theorem first_decision_is_final_witness:
  "let (row, db) = decide id 5 6 ''r1'' Approve_Once (g_db run_parked)
   in row \<noteq> None \<and> get_decision ''r1'' (snd (decide id 5 6 ''r1'' Decision_Deny db)) = Some Approve_Once"
proof -
  let ?d = "decide id 5 6 ''r1'' Approve_Once (g_db run_parked)"
  have ok: "distinct (map ar_request_id (db_rows (g_db run_parked)))" and won: "fst ?d \<noteq> None" by code_simp+
  then obtain row where "?d = (Some row, snd ?d)" by (cases ?d) auto
  from first_decision_is_final[OF ok this, of "[(''r1'', Decision_Deny)]"] won
  show ?thesis by (simp add: Let_def case_prod_beta)
qed

theorem late_approval_is_refused_witness:
  "fst (decide id 600 601 ''r1'' Approve_Once (g_db run_parked)) = None"
proof -
  have ok: "distinct (map ar_request_id (db_rows (g_db run_parked)))" by code_simp
  let ?r = "hd (db_rows (g_db run_parked))"
  have "?r \<in> set (db_rows (g_db run_parked))" "ar_decided_at ?r = None" "ar_expires_at ?r = Some 600"
    "id 600 \<le> id (600 :: int)" "ar_request_id ?r = ''r1''"
    by code_simp+
  then show ?thesis using late_approval_is_refused[OF ok, of ?r 600 id 600] by simp
qed

theorem execution_recorded_once_witness:
  "let db' = snd (record_execution id 9 ''r1'' Exec_Success None (g_db run_allowed))
   in record_execution id 10 ''r1'' Exec_Failure (Some ''late'') db' = (False, db')"
proof -
  obtain hit db' where r: "record_execution id 9 ''r1'' Exec_Success None (g_db run_allowed) = (hit, db')"
    by force
  then show ?thesis
    using execution_recorded_once[OF r, where now' = 10 and out' = Exec_Failure and error' = "Some ''late''"]
    by (simp add: Let_def)
qed

section \<open>Behaviour worth knowing\<close>

text \<open>When the row cannot be written, the meeting keeps pointing at the request that never was.\<close>

theorem failed_persist_keeps_meeting:
  "let c = call_of ''r1'' None (Some ''m'');
       g = do_persist False ''session-1'' [] c (do_register c (launch empty_db))
   in pending_for_meeting g ''m'' = Some ''r1'' \<and> g_parked g ''r1'' = None \<and> ''r1'' \<notin> g_waiters g"
  by code_simp

text \<open>Two calls parked on one thread: when the older one ends, the routing entry of the newer
  one is dropped with it, and a chat reply no longer reaches it.\<close>

theorem older_call_drops_newer_route:
  "let c2 = call_of ''r2'' (Some ''t'') None;
       g = do_persist True ''session-1'' [] c2 (do_register c2 run_parked);
       c1 = (call_of ''r1'' (Some ''t'') None)\<lparr>pc_phase := Phase_Parked (Some Decision_Deny)\<rparr>;
       g' = release c1 (resume_outcome c1 Decision_Deny)
              (do_decide_send ''r1'' Decision_Deny (do_decide_commit id 5 6 ''r1'' Decision_Deny g))
   in pending_for_thread g ''t'' = Some ''r2'' \<and> pending_for_thread g' ''t'' = None \<and>
      map_option pc_phase (g_parked g' ''r2'') = Some (Phase_Parked None)"
  by code_simp

text \<open>A store failure on the timeout path can deny a call whose row says approved.\<close>

theorem failed_reread_denies_approved:
  "let c = (call_of ''r1'' (Some ''t'') None)\<lparr>pc_phase := Phase_Evicted\<rparr>;
       g = do_timeout_deny id False 7 8 c (do_decide_commit id 5 6 ''r1'' Approve_Once run_parked)
   in g_finished g = [(''r1'', Outcome_Deny (Deny_Timed_Out ''send_email'' 600))] \<and>
      get_decision ''r1'' (g_db g) = Some Approve_Once"
  by code_simp

end
