(* ===== verification/Task_Board.thy ===== *)
theory Task_Board
  imports Prelude Rust_Str "HOL-Library.Word"
begin

text \<open>
  The task boards (\<open>src/openhuman/todos/ops.rs\<close> over \<open>src/openhuman/agent/task_board.rs\<close>):
  cards and their statuses, the normalisation every write goes through, the per-thread and
  the scratch store, and the operations of the todo surface.  Each operation loads the
  cards, computes new ones and saves them; the computing parts are definitions of their own,
  so that loads and saves of different callers can be interleaved.
\<close>

section \<open>Cards\<close>

datatype task_status =
  Todo | Awaiting_Approval | Ready | In_Progress | Blocked | Done | Rejected

fun task_status_as_str :: "task_status \<Rightarrow> string" where
  "task_status_as_str Todo = ''todo''"
| "task_status_as_str Awaiting_Approval = ''awaiting_approval''"
| "task_status_as_str Ready = ''ready''"
| "task_status_as_str In_Progress = ''in_progress''"
| "task_status_as_str Blocked = ''blocked''"
| "task_status_as_str Done = ''done''"
| "task_status_as_str Rejected = ''rejected''"

datatype approval_mode = Mode_Required | Mode_Not_Required

fun approval_mode_as_str :: "approval_mode \<Rightarrow> string" where
  "approval_mode_as_str Mode_Required = ''required''"
| "approval_mode_as_str Mode_Not_Required = ''not_required''"

text \<open>The metadata of a task source is arbitrary JSON, carried as its text.\<close>

record task_card =
  tc_id :: string
  tc_title :: string
  tc_status :: task_status
  tc_objective :: "string option"
  tc_plan :: "string list"
  tc_assigned_agent :: "string option"
  tc_allowed_tools :: "string list"
  tc_approval_mode :: "approval_mode option"
  tc_acceptance_criteria :: "string list"
  tc_evidence :: "string list"
  tc_notes :: "string option"
  tc_blocker :: "string option"
  tc_session_thread_id :: "string option"
  tc_source_metadata :: "string option"
  tc_order :: "32 word"
  tc_updated_at :: string

record task_board =
  tb_thread_id :: string
  tb_cards :: "task_card list"
  tb_updated_at :: string

datatype todo_error =
  Invalid_Status string | Empty_Content | Not_Found string | Too_Many_In_Progress nat
| Not_Awaiting string task_status | Claim_Not_Found string
| Claim_Rejected string task_status "task_status list" | Invalid_Thread_Id | Io_Error string

definition parse_task_status :: "string \<Rightarrow> todo_error + task_status" where
  "parse_task_status raw =
     (let s = to_ascii_lowercase (trim raw)
      in if s \<in> {''todo'', ''pending''} then Inr Todo
         else if s \<in> {''awaiting_approval'', ''awaiting-approval''} then Inr Awaiting_Approval
         else if s \<in> {''ready'', ''approved''} then Inr Ready
         else if s \<in> {''in_progress'', ''in-progress'', ''inprogress'', ''started''} then Inr In_Progress
         else if s = ''blocked'' then Inr Blocked
         else if s \<in> {''done'', ''completed'', ''complete''} then Inr Done
         else if s \<in> {''rejected'', ''denied''} then Inr Rejected
         else Inl (Invalid_Status s))"

section \<open>Normalisation\<close>

definition non_empty :: "string \<Rightarrow> string option" where
  "non_empty s = (if trim s = [] then None else Some (trim s))"

definition trim_opt :: "string option \<Rightarrow> string option" where
  "trim_opt s = (case s of None \<Rightarrow> None | Some x \<Rightarrow> non_empty x)"

definition trim_string_vec :: "string list \<Rightarrow> string list" where
  "trim_string_vec vs = filter (\<lambda>v. v \<noteq> []) (map trim vs)"

text \<open>
  One card of \<open>normalise_board\<close>: \<open>gen\<close> is the identifier generated for it should it have none,
  a fresh UUID behind the prefix \<open>task-\<close>.
\<close>

definition normalise_card :: "string \<Rightarrow> task_card \<Rightarrow> task_card" where
  "normalise_card gen c =
     (let notes = trim_opt (tc_notes c);
          blocker = trim_opt (tc_blocker c)
      in c\<lparr>tc_title := trim (tc_title c),
           tc_id := (if trim (tc_id c) = [] then ''task-'' @ gen else trim (tc_id c)),
           tc_notes := notes,
           tc_objective := trim_opt (tc_objective c),
           tc_assigned_agent := trim_opt (tc_assigned_agent c),
           tc_plan := trim_string_vec (tc_plan c),
           tc_allowed_tools := trim_string_vec (tc_allowed_tools c),
           tc_acceptance_criteria := trim_string_vec (tc_acceptance_criteria c),
           tc_evidence := trim_string_vec (tc_evidence c),
           tc_session_thread_id := trim_opt (tc_session_thread_id c),
           tc_blocker := (if tc_status c = Blocked \<and> blocker = None then notes else blocker)\<rparr>)"

fun number_cards :: "string \<Rightarrow> nat \<Rightarrow> task_card list \<Rightarrow> task_card list" where
  "number_cards now i [] = []"
| "number_cards now i (c # cs) =
     c\<lparr>tc_order := word_of_nat i, tc_updated_at := now\<rparr> # number_cards now (Suc i) cs"

definition normalise_cards :: "string \<Rightarrow> (nat \<Rightarrow> string) \<Rightarrow> task_card list \<Rightarrow> task_card list" where
  "normalise_cards now gen cards =
     number_cards now 0
       (filter (\<lambda>c. tc_title c \<noteq> [])
         (map (\<lambda>(i, c). normalise_card (gen i) c) (zip [0..<length cards] cards)))"

definition normalise_board :: "string \<Rightarrow> (nat \<Rightarrow> string) \<Rightarrow> task_board \<Rightarrow> task_board" where
  "normalise_board now gen b =
     b\<lparr>tb_thread_id := trim (tb_thread_id b), tb_updated_at := now,
       tb_cards := normalise_cards now gen (tb_cards b)\<rparr>"

section \<open>The stores\<close>

text \<open>
  The environment of one operation: the clock, rendered, a source of fresh UUIDs, whether
  reading or writing a board file fails, and whether the operation runs under a turn whose
  progress channel takes another message.  Board files are addressed by the workspace and the
  hexadecimal form of the trimmed thread identifier, which is one to one, so a store is a map
  from the two strings to boards.
\<close>

record todo_env =
  te_now :: string
  te_fresh :: "nat \<Rightarrow> string"
  te_read_error :: "string option"
  te_write_error :: "string option"
  te_channel :: bool

record todo_world =
  tw_boards :: "string \<times> string \<rightharpoonup> task_board"
  tw_scratch :: "task_card list"
  tw_progress :: "task_board list"

datatype board_location = Thread_Board string string | Scratch

definition validate_thread_id :: "string \<Rightarrow> todo_error + string" where
  "validate_thread_id t = (if trim t = [] then Inl Invalid_Thread_Id else Inr (trim t))"

definition board_get :: "todo_env \<Rightarrow> string \<Rightarrow> string \<Rightarrow> todo_world \<Rightarrow> todo_error + task_board option" where
  "board_get env dir thread w =
     (case validate_thread_id thread of
        Inl e \<Rightarrow> Inl e
      | Inr t \<Rightarrow>
          (case tw_boards w (dir, t) of
             None \<Rightarrow> Inr None
           | Some b \<Rightarrow> (case te_read_error env of Some e \<Rightarrow> Inl (Io_Error e) | None \<Rightarrow> Inr (Some b))))"

definition board_put :: "todo_env \<Rightarrow> string \<Rightarrow> task_board \<Rightarrow> todo_world \<Rightarrow>
    (todo_error + task_board) \<times> todo_world" where
  "board_put env dir b w =
     (let b' = normalise_board (te_now env) (te_fresh env) b
      in case validate_thread_id (tb_thread_id b') of
           Inl e \<Rightarrow> (Inl e, w)
         | Inr t \<Rightarrow>
             (case te_write_error env of
                Some e \<Rightarrow> (Inl (Io_Error e), w)
              | None \<Rightarrow>
                  (let b'' = b'\<lparr>tb_thread_id := t\<rparr>
                   in (Inr b'', w\<lparr>tw_boards := (tw_boards w)((dir, t) \<mapsto> b'')\<rparr>))))"

definition board_delete :: "todo_env \<Rightarrow> string \<Rightarrow> string \<Rightarrow> todo_world \<Rightarrow> (todo_error + bool) \<times> todo_world" where
  "board_delete env dir thread w =
     (case validate_thread_id thread of
        Inl e \<Rightarrow> (Inl e, w)
      | Inr t \<Rightarrow>
          (if tw_boards w (dir, t) = None then (Inr False, w)
           else case te_write_error env of
                  Some e \<Rightarrow> (Inl (Io_Error e), w)
                | None \<Rightarrow> (Inr True, w\<lparr>tw_boards := (tw_boards w)((dir, t) := None)\<rparr>)))"

definition board_for_thread :: "todo_env \<Rightarrow> string \<Rightarrow> string \<Rightarrow> todo_world \<Rightarrow> todo_error + task_board" where
  "board_for_thread env dir thread w =
     (case validate_thread_id thread of
        Inl e \<Rightarrow> Inl e
      | Inr t \<Rightarrow>
          map_sum id (\<lambda>b. case b of
                            None \<Rightarrow> \<lparr>tb_thread_id = t, tb_cards = [], tb_updated_at = te_now env\<rparr>
                          | Some b \<Rightarrow> b)
            (board_get env dir t w))"

definition load_cards :: "todo_env \<Rightarrow> board_location \<Rightarrow> todo_world \<Rightarrow> todo_error + task_card list" where
  "load_cards env loc w =
     (case loc of
        Scratch \<Rightarrow> Inr (tw_scratch w)
      | Thread_Board dir thread \<Rightarrow>
          map_sum id (\<lambda>b. case b of None \<Rightarrow> [] | Some b \<Rightarrow> tb_cards b) (board_get env dir thread w))"

definition save_cards :: "todo_env \<Rightarrow> board_location \<Rightarrow> task_card list \<Rightarrow> todo_world \<Rightarrow>
    (todo_error + task_card list) \<times> todo_world" where
  "save_cards env loc cards w =
     (case loc of
        Scratch \<Rightarrow>
          (let cs = normalise_cards (te_now env) (te_fresh env) cards
           in (Inr cs, w\<lparr>tw_scratch := cs\<rparr>))
      | Thread_Board dir thread \<Rightarrow>
          apfst (map_sum id tb_cards)
            (board_put env dir
              (normalise_board (te_now env) (te_fresh env)
                \<lparr>tb_thread_id = thread, tb_cards = cards, tb_updated_at = te_now env\<rparr>) w))"

section \<open>What the operations compute\<close>

record card_patch =
  cp_content :: "string option"
  cp_status :: "task_status option"
  cp_objective :: "string option"
  cp_plan :: "string list option"
  cp_assigned_agent :: "string option"
  cp_allowed_tools :: "string list option"
  cp_approval_mode :: "approval_mode option option"
  cp_acceptance_criteria :: "string list option"
  cp_evidence :: "string list option"
  cp_notes :: "string option"
  cp_blocker :: "string option"
  cp_source_metadata :: "string option"

definition empty_patch :: card_patch where
  "empty_patch = \<lparr>cp_content = None, cp_status = None, cp_objective = None, cp_plan = None,
     cp_assigned_agent = None, cp_allowed_tools = None, cp_approval_mode = None,
     cp_acceptance_criteria = None, cp_evidence = None, cp_notes = None, cp_blocker = None,
     cp_source_metadata = None\<rparr>"

definition or_else :: "'a option \<Rightarrow> 'a \<Rightarrow> 'a" where
  "or_else x d = (case x of None \<Rightarrow> d | Some v \<Rightarrow> v)"

definition in_progress_count :: "task_card list \<Rightarrow> nat" where
  "in_progress_count cards = length (filter (\<lambda>c. tc_status c = In_Progress) cards)"

definition enforce_single_in_progress :: "task_card list \<Rightarrow> todo_error + unit" where
  "enforce_single_in_progress cards =
     (if 1 < in_progress_count cards then Inl (Too_Many_In_Progress (in_progress_count cards)) else Inr ())"

definition checked :: "task_card list \<Rightarrow> todo_error + task_card list" where
  "checked cards = map_sum id (\<lambda>_. cards) (enforce_single_in_progress cards)"

definition new_card :: "todo_env \<Rightarrow> string \<Rightarrow> string \<Rightarrow> card_patch \<Rightarrow> nat \<Rightarrow> task_card" where
  "new_card env uuid content p n =
     \<lparr>tc_id = ''task-'' @ uuid, tc_title = content, tc_status = or_else (cp_status p) Todo,
      tc_objective = trim_opt (cp_objective p), tc_plan = or_else (cp_plan p) [],
      tc_assigned_agent = trim_opt (cp_assigned_agent p),
      tc_allowed_tools = or_else (cp_allowed_tools p) [],
      tc_approval_mode = or_else (cp_approval_mode p) None,
      tc_acceptance_criteria = or_else (cp_acceptance_criteria p) [],
      tc_evidence = or_else (cp_evidence p) [], tc_notes = trim_opt (cp_notes p),
      tc_blocker = trim_opt (cp_blocker p), tc_session_thread_id = None,
      tc_source_metadata = cp_source_metadata p, tc_order = word_of_nat n,
      tc_updated_at = te_now env\<rparr>"

definition patch_card :: "todo_env \<Rightarrow> card_patch \<Rightarrow> task_card \<Rightarrow> task_card" where
  "patch_card env p c =
     c\<lparr>tc_title := (case cp_content p of None \<Rightarrow> tc_title c | Some s \<Rightarrow> trim s),
       tc_status := or_else (cp_status p) (tc_status c),
       tc_objective := (case cp_objective p of None \<Rightarrow> tc_objective c | Some s \<Rightarrow> non_empty s),
       tc_plan := or_else (cp_plan p) (tc_plan c),
       tc_assigned_agent := (case cp_assigned_agent p of None \<Rightarrow> tc_assigned_agent c | Some s \<Rightarrow> non_empty s),
       tc_allowed_tools := or_else (cp_allowed_tools p) (tc_allowed_tools c),
       tc_approval_mode := or_else (cp_approval_mode p) (tc_approval_mode c),
       tc_acceptance_criteria := or_else (cp_acceptance_criteria p) (tc_acceptance_criteria c),
       tc_evidence := or_else (cp_evidence p) (tc_evidence c),
       tc_notes := (case cp_notes p of None \<Rightarrow> tc_notes c | Some s \<Rightarrow> non_empty s),
       tc_blocker := (case cp_blocker p of None \<Rightarrow> tc_blocker c | Some s \<Rightarrow> non_empty s),
       tc_source_metadata := (case cp_source_metadata p of None \<Rightarrow> tc_source_metadata c | Some m \<Rightarrow> Some m),
       tc_updated_at := te_now env\<rparr>"

definition find_card :: "string \<Rightarrow> task_card list \<Rightarrow> task_card option" where
  "find_card cid cards = find (\<lambda>c. tc_id c = cid) cards"

definition update_card :: "string \<Rightarrow> (task_card \<Rightarrow> task_card) \<Rightarrow> task_card list \<Rightarrow> task_card list" where
  "update_card cid f cards = update_first (\<lambda>c. tc_id c = cid) f cards"

definition add_cards :: "todo_env \<Rightarrow> string \<Rightarrow> string \<Rightarrow> card_patch \<Rightarrow> task_card list \<Rightarrow>
    todo_error + task_card list" where
  "add_cards env uuid content p cards = checked (cards @ [new_card env uuid content p (length cards)])"

definition edit_cards :: "todo_env \<Rightarrow> string \<Rightarrow> card_patch \<Rightarrow> task_card list \<Rightarrow> todo_error + task_card list" where
  "edit_cards env cid p cards =
     (case find_card cid cards of
        None \<Rightarrow> Inl (Not_Found cid)
      | Some c \<Rightarrow>
          if is_some_and (cp_content p) (\<lambda>s. trim s = []) then Inl Empty_Content
          else checked (update_card cid (patch_card env p) cards))"

definition session_cards :: "todo_env \<Rightarrow> string \<Rightarrow> string option \<Rightarrow> task_card list \<Rightarrow>
    todo_error + task_card list" where
  "session_cards env cid thread cards =
     (case find_card cid cards of
        None \<Rightarrow> Inl (Not_Found cid)
      | Some c \<Rightarrow> Inr (update_card cid (\<lambda>c. c\<lparr>tc_session_thread_id := trim_opt thread,
                                             tc_updated_at := te_now env\<rparr>) cards))"

definition remove_cards :: "string \<Rightarrow> task_card list \<Rightarrow> todo_error + task_card list" where
  "remove_cards cid cards =
     (let rest = filter (\<lambda>c. tc_id c \<noteq> cid) cards
      in if length rest = length cards then Inl (Not_Found cid) else Inr rest)"

definition claimed :: "todo_env \<Rightarrow> task_status \<Rightarrow> task_card \<Rightarrow> task_card" where
  "claimed env target c = c\<lparr>tc_status := target, tc_updated_at := te_now env\<rparr>"

definition claim_cards :: "todo_env \<Rightarrow> string \<Rightarrow> task_status list \<Rightarrow> task_status \<Rightarrow> task_card list \<Rightarrow>
    todo_error + (task_card \<times> task_card list)" where
  "claim_cards env cid expected target cards =
     (case find_card cid cards of
        None \<Rightarrow> Inl (Claim_Not_Found cid)
      | Some c \<Rightarrow>
          if tc_status c \<notin> set expected then Inl (Claim_Rejected cid (tc_status c) expected)
          else map_sum id (Pair (claimed env target c))
                 (checked (update_card cid (claimed env target) cards)))"

definition decide_check :: "string \<Rightarrow> task_card list \<Rightarrow> todo_error + unit" where
  "decide_check cid cards =
     (case find_card cid cards of
        None \<Rightarrow> Inl (Not_Found cid)
      | Some c \<Rightarrow> if tc_status c \<noteq> Awaiting_Approval then Inl (Not_Awaiting cid (tc_status c)) else Inr ())"

text \<open>The message of an error, as the callers see it.\<close>

fun todo_error_text :: "todo_error \<Rightarrow> string" where
  "todo_error_text (Invalid_Status s) = ''invalid status '' @ [CHR 0x27] @ s @ [CHR 0x27] @
     '' (expected todo|awaiting_approval|ready|in_progress|blocked|done|rejected)''"
| "todo_error_text Empty_Content = ''todo content must not be empty''"
| "todo_error_text (Not_Found cid) = ''todo id '' @ [CHR 0x27] @ cid @ [CHR 0x27] @ '' not found''"
| "todo_error_text (Too_Many_In_Progress n) =
     ''only one todo may be `in_progress` at a time (got '' @ dec_nat n @ '')''"
| "todo_error_text (Not_Awaiting cid st) = ''card '' @ [CHR 0x27] @ cid @ [CHR 0x27] @
     '' is not awaiting approval (status: '' @ task_status_as_str st @ '')''"
| "todo_error_text (Claim_Not_Found cid) = ''[todos][ops] claim_card: card '' @ [CHR 0x27] @ cid @
     [CHR 0x27] @ '' not found on board''"
| "todo_error_text (Claim_Rejected cid st expected) = ''[todos][ops] claim_card: card '' @
     [CHR 0x27] @ cid @ [CHR 0x27] @ '' status is '' @ [CHR 0x27] @ task_status_as_str st @
     [CHR 0x27] @ '', expected one of ['' @ join_with '', '' (map task_status_as_str expected) @
     '']; claim rejected''"
| "todo_error_text Invalid_Thread_Id = ''invalid task board thread_id: empty or whitespace''"
| "todo_error_text (Io_Error e) = e"

section \<open>Rendering\<close>

fun status_marker :: "task_status \<Rightarrow> string" where
  "status_marker Todo = ''[ ]''"
| "status_marker Ready = ''[ ]''"
| "status_marker Awaiting_Approval = ''[?]''"
| "status_marker In_Progress = ''[~]''"
| "status_marker Blocked = ''[!]''"
| "status_marker Done = ''[x]''"
| "status_marker Rejected = ''[-]''"

definition field_line :: "string \<Rightarrow> string option \<Rightarrow> string" where
  "field_line label x = (case x of None \<Rightarrow> [] | Some v \<Rightarrow> ''  - '' @ label @ v @ [CHR 0x0A])"

definition list_lines :: "string \<Rightarrow> string list \<Rightarrow> string" where
  "list_lines label vs =
     (if vs = [] then []
      else ''  - '' @ label @ '':'' @ [CHR 0x0A]
           @ concat (map (\<lambda>v. ''    - '' @ v @ [CHR 0x0A]) vs))"

definition render_card :: "task_card \<Rightarrow> string" where
  "render_card c =
     ''- '' @ status_marker (tc_status c) @ '' '' @ tc_title c @ ''  `('' @ tc_id c @ '')`'' @ [CHR 0x0A]
     @ field_line ''objective: '' (tc_objective c)
     @ field_line ''agent: '' (tc_assigned_agent c)
     @ (if tc_allowed_tools c = [] then []
        else ''  - tools: '' @ join_with '', '' (tc_allowed_tools c) @ [CHR 0x0A])
     @ field_line ''approval: '' (map_option approval_mode_as_str (tc_approval_mode c))
     @ list_lines ''plan'' (tc_plan c)
     @ list_lines ''acceptance criteria'' (tc_acceptance_criteria c)
     @ list_lines ''evidence'' (tc_evidence c)
     @ (if tc_status c = Blocked
        then field_line ''_blocked:_ '' (case tc_blocker c of None \<Rightarrow> tc_notes c | Some b \<Rightarrow> Some b)
        else field_line [] (tc_notes c))"

definition render_markdown :: "task_card list \<Rightarrow> string" where
  "render_markdown cards =
     (if cards = [] then ''_No todos yet._'' else trim_end (concat (map render_card cards)))"

section \<open>The operations\<close>

record todos_snapshot =
  ts_thread_id :: "string option"
  ts_cards :: "task_card list"
  ts_markdown :: string

definition into_snapshot :: "board_location \<Rightarrow> task_card list \<Rightarrow> todos_snapshot" where
  "into_snapshot loc cards =
     \<lparr>ts_thread_id = (case loc of Thread_Board dir t \<Rightarrow> Some t | Scratch \<Rightarrow> None),
      ts_cards = cards, ts_markdown = render_markdown cards\<rparr>"

definition emit_progress :: "todo_env \<Rightarrow> board_location \<Rightarrow> task_card list \<Rightarrow> todo_world \<Rightarrow> todo_world" where
  "emit_progress env loc cards w =
     (case loc of
        Scratch \<Rightarrow> w
      | Thread_Board dir t \<Rightarrow>
          (if te_channel env
           then w\<lparr>tw_progress := tw_progress w @
                  [\<lparr>tb_thread_id = t, tb_cards = cards, tb_updated_at = te_now env\<rparr>]\<rparr>
           else w))"

text \<open>The second half of every writing operation: save, announce, return.\<close>

definition commit :: "todo_env \<Rightarrow> board_location \<Rightarrow> todo_error + task_card list \<Rightarrow> todo_world \<Rightarrow>
    (todo_error + task_card list) \<times> todo_world" where
  "commit env loc r w =
     (case r of
        Inl e \<Rightarrow> (Inl e, w)
      | Inr cards \<Rightarrow>
          (case save_cards env loc cards w of
             (Inl e, w') \<Rightarrow> (Inl e, w')
           | (Inr saved, w') \<Rightarrow> (Inr saved, emit_progress env loc saved w')))"

definition bind_cards :: "todo_error + task_card list \<Rightarrow> (task_card list \<Rightarrow> todo_error + task_card list) \<Rightarrow>
    todo_error + task_card list" where
  "bind_cards r f = (case r of Inl e \<Rightarrow> Inl e | Inr cards \<Rightarrow> f cards)"

definition mutate :: "todo_env \<Rightarrow> board_location \<Rightarrow> (task_card list \<Rightarrow> todo_error + task_card list) \<Rightarrow>
    todo_world \<Rightarrow> (todo_error + task_card list) \<times> todo_world" where
  "mutate env loc f w = commit env loc (bind_cards (load_cards env loc w) f) w"

definition snapshot :: "board_location \<Rightarrow> (todo_error + task_card list) \<times> todo_world \<Rightarrow>
    (todo_error + todos_snapshot) \<times> todo_world" where
  "snapshot loc r = apfst (map_sum id (into_snapshot loc)) r"

definition add :: "todo_env \<Rightarrow> board_location \<Rightarrow> string \<Rightarrow> string \<Rightarrow> card_patch \<Rightarrow> todo_world \<Rightarrow>
    (todo_error + todos_snapshot) \<times> todo_world" where
  "add env loc uuid content p w =
     (if trim content = [] then (Inl Empty_Content, w)
      else snapshot loc (mutate env loc (add_cards env uuid (trim content) p) w))"

definition edit :: "todo_env \<Rightarrow> board_location \<Rightarrow> string \<Rightarrow> card_patch \<Rightarrow> todo_world \<Rightarrow>
    (todo_error + todos_snapshot) \<times> todo_world" where
  "edit env loc cid p w = snapshot loc (mutate env loc (edit_cards env cid p) w)"

definition set_session_thread :: "todo_env \<Rightarrow> board_location \<Rightarrow> string \<Rightarrow> string option \<Rightarrow> todo_world \<Rightarrow>
    (todo_error + todos_snapshot) \<times> todo_world" where
  "set_session_thread env loc cid thread w = snapshot loc (mutate env loc (session_cards env cid thread) w)"

definition update_status :: "todo_env \<Rightarrow> board_location \<Rightarrow> string \<Rightarrow> task_status \<Rightarrow> todo_world \<Rightarrow>
    (todo_error + todos_snapshot) \<times> todo_world" where
  "update_status env loc cid st w = edit env loc cid (empty_patch\<lparr>cp_status := Some st\<rparr>) w"

text \<open>
  \<open>decide_plan\<close> loads and checks first, then starts an edit that loads again; the two halves
  are kept apart, as another operation may run between them.
\<close>

definition decide_first :: "todo_env \<Rightarrow> board_location \<Rightarrow> string \<Rightarrow> todo_world \<Rightarrow> todo_error + unit" where
  "decide_first env loc cid w =
     (case load_cards env loc w of Inl e \<Rightarrow> Inl e | Inr cards \<Rightarrow> decide_check cid cards)"

definition decide_plan :: "todo_env \<Rightarrow> board_location \<Rightarrow> string \<Rightarrow> bool \<Rightarrow> todo_world \<Rightarrow>
    (todo_error + todos_snapshot) \<times> todo_world" where
  "decide_plan env loc cid approve w =
     (case decide_first env loc cid w of
        Inl e \<Rightarrow> (Inl e, w)
      | Inr u \<Rightarrow> update_status env loc cid (if approve then Ready else Rejected) w)"

definition remove :: "todo_env \<Rightarrow> board_location \<Rightarrow> string \<Rightarrow> todo_world \<Rightarrow>
    (todo_error + todos_snapshot) \<times> todo_world" where
  "remove env loc cid w = snapshot loc (mutate env loc (remove_cards cid) w)"

definition replace_all :: "todo_env \<Rightarrow> board_location \<Rightarrow> task_card list \<Rightarrow> todo_world \<Rightarrow>
    (todo_error + todos_snapshot) \<times> todo_world" where
  "replace_all env loc cards w = snapshot loc (commit env loc (checked cards) w)"

definition clear :: "todo_env \<Rightarrow> board_location \<Rightarrow> todo_world \<Rightarrow>
    (todo_error + todos_snapshot) \<times> todo_world" where
  "clear env loc w = snapshot loc (commit env loc (Inr []) w)"

definition list_todos :: "todo_env \<Rightarrow> board_location \<Rightarrow> todo_world \<Rightarrow> todo_error + todos_snapshot" where
  "list_todos env loc w = map_sum id (into_snapshot loc) (load_cards env loc w)"

text \<open>
  \<open>claim_card\<close> returns the card as it was before the board was normalised again; \<open>claim_rest\<close>
  is what it does after the load.
\<close>

definition claim_rest :: "todo_env \<Rightarrow> board_location \<Rightarrow> string \<Rightarrow> task_status list \<Rightarrow> task_status \<Rightarrow>
    todo_error + task_card list \<Rightarrow> todo_world \<Rightarrow> (todo_error + task_card) \<times> todo_world" where
  "claim_rest env loc cid expected target loaded w =
     (case loaded of
        Inl e \<Rightarrow> (Inl e, w)
      | Inr cards \<Rightarrow>
          (case claim_cards env cid expected target cards of
             Inl e \<Rightarrow> (Inl e, w)
           | Inr (c, cards') \<Rightarrow> apfst (map_sum id (\<lambda>_. c)) (commit env loc (Inr cards') w)))"

definition claim_card :: "todo_env \<Rightarrow> board_location \<Rightarrow> string \<Rightarrow> task_status list \<Rightarrow> task_status \<Rightarrow>
    todo_world \<Rightarrow> (todo_error + task_card) \<times> todo_world" where
  "claim_card env loc cid expected target w =
     claim_rest env loc cid expected target (load_cards env loc w) w"

end
