(* ===== verification/Task_Facts.thy ===== *)
theory Task_Facts
  imports Task_Board
begin

text \<open>
  What the task boards promise: every stored board is normalised and has at most one card in
  progress, a failed operation changes nothing, a successful one is what the next listing
  shows, and of any number of claims on one card a single one wins.  The last section shows
  where that promise stops: a writer of a thread board that does not take the claim lock.
\<close>

section \<open>Normalised cards\<close>

definition plain_char :: "char \<Rightarrow> bool" where
  "plain_char c \<longleftrightarrow> byte c < 128 \<and> \<not> is_ascii_ws c"

text \<open>A UUID is rendered with hexadecimal digits and dashes.\<close>

definition env_ok :: "todo_env \<Rightarrow> bool" where
  "env_ok env \<longleftrightarrow> (\<forall>i. \<forall>c \<in> set (te_fresh env i). plain_char c)"

definition text_ok :: "string \<Rightarrow> bool" where
  "text_ok s \<longleftrightarrow> s \<noteq> [] \<and> trim s = s"

definition card_ok :: "task_card \<Rightarrow> bool" where
  "card_ok c \<longleftrightarrow> text_ok (tc_title c) \<and> text_ok (tc_id c)
     \<and> (\<forall>s \<in> set_option (tc_notes c) \<union> set_option (tc_objective c) \<union> set_option (tc_assigned_agent c)
             \<union> set_option (tc_session_thread_id c) \<union> set_option (tc_blocker c). text_ok s)
     \<and> (\<forall>s \<in> set (tc_plan c) \<union> set (tc_allowed_tools c) \<union> set (tc_acceptance_criteria c)
             \<union> set (tc_evidence c). text_ok s)
     \<and> (tc_status c = Blocked \<and> tc_blocker c = None \<longrightarrow> tc_notes c = None)"

definition numbered :: "task_card list \<Rightarrow> bool" where
  "numbered cards \<longleftrightarrow> (\<forall>i < length cards. tc_order (cards ! i) = word_of_nat i)"

definition board_ok :: "task_card list \<Rightarrow> bool" where
  "board_ok cards \<longleftrightarrow> (\<forall>c \<in> set cards. card_ok c) \<and> numbered cards \<and> in_progress_count cards \<le> 1"

lemma ws_len_plain [simp]: "plain_char c \<Longrightarrow> ws_len (c # s) = 0"
  by (auto simp: ws_len_def plain_char_def byte_def)

lemma trim_end_plain: "\<forall>c \<in> set s. plain_char c \<Longrightarrow> trim_end s = s"
  by (induction s) auto

lemma trim_plain: "\<forall>c \<in> set s. plain_char c \<Longrightarrow> trim s = s"
  by (cases s) (auto simp: trim_def trim_end_plain)

lemma text_ok_trim [simp]: "text_ok (trim s) \<longleftrightarrow> trim s \<noteq> []"
  by (simp add: text_ok_def del: trim_Nil_iff)

lemma text_ok_fresh: "\<forall>c \<in> set u. plain_char c \<Longrightarrow> text_ok (''task-'' @ u)"
proof -
  assume u: "\<forall>c \<in> set u. plain_char c"
  have "\<forall>c \<in> set ''task-''. plain_char c"
    by (simp add: plain_char_def byte_def is_ascii_ws_def)
  with u have "\<forall>c \<in> set (''task-'' @ u). plain_char c" by (simp only: set_append ball_Un)
  then show ?thesis unfolding text_ok_def using trim_plain by simp
qed

lemma trim_opt_ok: "s \<in> set_option (trim_opt x) \<Longrightarrow> text_ok s"
  by (auto simp: trim_opt_def non_empty_def split: option.splits if_splits simp del: trim_Nil_iff)

lemma trim_vec_ok: "s \<in> set (trim_string_vec vs) \<Longrightarrow> text_ok s"
  by (auto simp: trim_string_vec_def simp del: trim_Nil_iff)

lemma trim_opt_id: "\<forall>s \<in> set_option x. text_ok s \<Longrightarrow> trim_opt x = x"
  by (cases x) (auto simp: trim_opt_def non_empty_def text_ok_def simp del: trim_Nil_iff)

lemma trim_vec_id: "\<forall>s \<in> set vs. text_ok s \<Longrightarrow> trim_string_vec vs = vs"
  by (induction vs) (auto simp: trim_string_vec_def text_ok_def simp del: trim_Nil_iff)

lemma normalise_card_sel [simp]:
  "tc_title (normalise_card g c) = trim (tc_title c)"
  "tc_status (normalise_card g c) = tc_status c"
  "tc_id (normalise_card g c) = (if trim (tc_id c) = [] then ''task-'' @ g else trim (tc_id c))"
  by (simp_all add: normalise_card_def Let_def del: trim_Nil_iff)

lemma normalise_card_ok:
  assumes "\<forall>c \<in> set g. plain_char c" and "tc_title (normalise_card g c) \<noteq> []"
  shows "card_ok (normalise_card g c)"
  using assms text_ok_fresh[of g]
  by (auto simp: card_ok_def normalise_card_def Let_def trim_opt_ok trim_vec_ok
      simp del: trim_Nil_iff)

lemma normalise_card_id: "card_ok c \<Longrightarrow> normalise_card g c = c"
  by (auto simp: card_ok_def normalise_card_def Let_def trim_opt_id trim_vec_id text_ok_def)

section \<open>Normalised boards\<close>

lemma length_number_cards [simp]: "length (number_cards now i cs) = length cs"
  by (induction now i cs rule: number_cards.induct) auto

lemma map_number_cards:
  assumes "\<And>c i now. g (c\<lparr>tc_order := i, tc_updated_at := now\<rparr>) = g c"
  shows "map g (number_cards now i cs) = map g cs"
  by (induction now i cs rule: number_cards.induct) (simp_all add: assms)

lemma set_number_cards:
  assumes "\<And>c i now. P (c\<lparr>tc_order := i, tc_updated_at := now\<rparr>) = P c"
  shows "(\<forall>c \<in> set (number_cards now i cs). P c) \<longleftrightarrow> (\<forall>c \<in> set cs. P c)"
  by (induction now i cs rule: number_cards.induct) (simp_all add: assms)

lemma card_ok_stamp [simp]: "card_ok (c\<lparr>tc_order := i, tc_updated_at := now\<rparr>) = card_ok c"
  by (simp add: card_ok_def)

lemma nth_number_cards:
  "k < length cs \<Longrightarrow> number_cards now i cs ! k = (cs ! k)\<lparr>tc_order := word_of_nat (i + k), tc_updated_at := now\<rparr>"
  by (induction now i cs arbitrary: k rule: number_cards.induct) (auto simp: nth_Cons' less_Suc_eq_0_disj)

lemma number_cards_idem: "number_cards now i (number_cards now i cs) = number_cards now i cs"
  by (induction now i cs rule: number_cards.induct) auto

lemma numbered_number_cards [simp]: "numbered (number_cards now 0 cs)"
  by (simp add: numbered_def nth_number_cards)

lemma normalise_cards_ok:
  assumes "\<And>i. \<forall>c \<in> set (gen i). plain_char c"
  shows "\<forall>c \<in> set (normalise_cards now gen cs). card_ok c"
  unfolding normalise_cards_def
  by (subst set_number_cards) (auto intro!: normalise_card_ok assms simp del: normalise_card_sel(1))

lemma map_zip_fixed:
  assumes "\<forall>c \<in> set cs. \<forall>g. h g c = c" and "length is = length cs"
  shows "map (\<lambda>(i, c). h (gen i) c) (zip is cs) = cs"
  using assms by (induction cs arbitrary: "is") (auto simp: length_Suc_conv)

lemma normalise_cards_fixed:
  assumes "\<forall>c \<in> set cs. card_ok c"
  shows "normalise_cards now gen cs = number_cards now 0 cs"
proof -
  have "map (\<lambda>(i, c). normalise_card (gen i) c) (zip [0..<length cs] cs) = cs"
    using assms by (intro map_zip_fixed) (auto simp: normalise_card_id)
  moreover have "filter (\<lambda>c. tc_title c \<noteq> []) cs = cs"
    using assms by (auto simp: filter_id_conv card_ok_def text_ok_def)
  ultimately show ?thesis by (simp add: normalise_cards_def)
qed

lemma normalise_cards_twice:
  assumes "\<And>i. \<forall>c \<in> set (gen i). plain_char c"
  shows "normalise_cards now gen (normalise_cards now gen cs) = normalise_cards now gen cs"
proof -
  let ?n = "normalise_cards now gen cs"
  have "normalise_cards now gen ?n = number_cards now 0 ?n"
    by (rule normalise_cards_fixed) (rule normalise_cards_ok[OF assms])
  also have "\<dots> = ?n" by (simp add: normalise_cards_def number_cards_idem)
  finally show ?thesis .
qed

section \<open>Identifiers and statuses\<close>

definition card_key :: "task_card \<Rightarrow> string \<times> task_status" where
  "card_key c = (tc_id c, tc_status c)"

definition status_of :: "task_card list \<Rightarrow> string \<Rightarrow> task_status option" where
  "status_of cards = map_of (map card_key cards)"

definition keyed :: "task_card \<Rightarrow> bool" where
  "keyed c \<longleftrightarrow> text_ok (tc_title c) \<and> text_ok (tc_id c)"

lemma in_progress_count_keys:
  "in_progress_count cs = length (filter (\<lambda>k. snd k = In_Progress) (map card_key cs))"
  by (simp add: in_progress_count_def card_key_def filter_map o_def)

lemma map_zip_keys:
  assumes "\<forall>c \<in> set cs. keyed c" and "length is = length cs"
  shows "map card_key (filter (\<lambda>c. tc_title c \<noteq> [])
           (map (\<lambda>(i, c). normalise_card (gen i) c) (zip is cs))) = map card_key cs"
  using assms
  by (induction cs arbitrary: "is") (auto simp: length_Suc_conv card_key_def keyed_def text_ok_def)

lemma normalise_keys:
  assumes "\<forall>c \<in> set cs. keyed c"
  shows "map card_key (normalise_cards now gen cs) = map card_key cs"
proof -
  have "map card_key (number_cards now 0 xs) = map card_key xs" for xs
    by (rule map_number_cards) (simp add: card_key_def)
  then show ?thesis
    unfolding normalise_cards_def using map_zip_keys[OF assms, of "[0..<length cs]" gen] by simp
qed

lemma filter_zip_count:
  "length is = length cs \<Longrightarrow>
   length (filter (\<lambda>c. tc_status c = s)
     (filter (\<lambda>c. tc_title c \<noteq> []) (map (\<lambda>(i, c). normalise_card (gen i) c) (zip is cs))))
   \<le> length (filter (\<lambda>c. tc_status c = s) cs)"
proof (induction cs arbitrary: "is")
  case (Cons c cs)
  then obtain i js where "is = i # js" and "length js = length cs" by (auto simp: length_Suc_conv)
  with Cons.IH[of js] show ?case by auto
qed simp

lemma normalise_count: "in_progress_count (normalise_cards now gen cs) \<le> in_progress_count cs"
proof -
  have "in_progress_count (normalise_cards now gen cs)
      = in_progress_count (filter (\<lambda>c. tc_title c \<noteq> [])
         (map (\<lambda>(i, c). normalise_card (gen i) c) (zip [0..<length cs] cs)))"
    unfolding in_progress_count_keys normalise_cards_def
    by (subst map_number_cards) (simp_all add: card_key_def)
  also have "\<dots> \<le> in_progress_count cs"
    unfolding in_progress_count_def by (rule filter_zip_count) simp
  finally show ?thesis .
qed

lemma status_of_find: "status_of cs k = map_option tc_status (find_card k cs)"
  by (induction cs) (auto simp: status_of_def find_card_def card_key_def)

lemma find_card_update:
  assumes "find_card cid cs = Some c" and "\<And>x. tc_id (f x) = tc_id x"
  shows "find_card k (update_card cid f cs) = (if k = cid then Some (f c) else find_card k cs)"
  using assms by (induction cs) (auto simp: find_card_def update_card_def split: if_splits)

lemma status_of_update:
  assumes "find_card cid cs = Some c" and "\<And>x. tc_id (f x) = tc_id x"
  shows "status_of (update_card cid f cs) = (status_of cs)(cid \<mapsto> tc_status (f c))"
  by (rule ext) (simp add: status_of_find find_card_update[OF assms])

lemma set_update_card: "c \<in> set (update_card cid f cs) \<Longrightarrow> c \<in> set cs \<or> (\<exists>d \<in> set cs. c = f d)"
  by (induction cs) (auto simp: update_card_def split: if_splits)

section \<open>A store of cards\<close>

text \<open>
  What the operations need of a store, whichever of the two it is: a failed commit changes
  nothing, a successful one stores the normal form of the cards and returns what it stored.
  From it follow, once for every operation, that errors are free of effects and that a
  property of the normal form is an invariant.
\<close>

locale card_store =
  fixes peek :: "'w \<Rightarrow> 'c list"
    and commit :: "'e + 'c list \<Rightarrow> 'w \<Rightarrow> ('e + 'c list) \<times> 'w"
    and norm :: "'c list \<Rightarrow> 'c list"
  assumes commit_err: "commit (Inl e) w = (Inl e, w)"
    and commit_fail: "commit r w = (Inl e, w') \<Longrightarrow> w' = w"
    and commit_ok: "commit (Inr cs) w = (Inr cs', w') \<Longrightarrow> cs' = norm cs \<and> peek w' = cs'"
begin

lemma commit_Inr: "commit r w = (Inr cs', w') \<Longrightarrow> \<exists>cs. r = Inr cs \<and> cs' = norm cs \<and> peek w' = norm cs"
  using commit_err commit_ok by (cases r) fastforce+

lemma commit_inv:
  assumes "Q (peek w)" and "\<And>cs. r = Inr cs \<Longrightarrow> Q (norm cs)"
  shows "Q (peek (snd (commit r w)))"
proof (cases "commit r w")
  case (Pair res w')
  then show ?thesis
    using assms commit_fail[of r w] commit_Inr[of r w] by (cases res) fastforce+
qed

end

definition peek_cards :: "board_location \<Rightarrow> todo_world \<Rightarrow> task_card list" where
  "peek_cards loc w =
     (case loc of
        Scratch \<Rightarrow> tw_scratch w
      | Thread_Board dir t \<Rightarrow> (case tw_boards w (dir, trim t) of None \<Rightarrow> [] | Some b \<Rightarrow> tb_cards b))"

definition stored_cards :: "todo_env \<Rightarrow> board_location \<Rightarrow> task_card list \<Rightarrow> task_card list" where
  "stored_cards env loc cards =
     (let n = normalise_cards (te_now env) (te_fresh env)
      in case loc of Scratch \<Rightarrow> n cards | Thread_Board dir t \<Rightarrow> n (n cards))"

definition board_key :: "board_location \<Rightarrow> (string \<times> string) option" where
  "board_key loc = (case loc of Scratch \<Rightarrow> None | Thread_Board dir t \<Rightarrow> Some (dir, trim t))"

lemma peek_emit [simp]: "peek_cards loc (emit_progress env loc' cs w) = peek_cards loc w"
  by (simp add: peek_cards_def emit_progress_def split: board_location.splits)

lemmas save_defs = save_cards_def board_put_def normalise_board_def validate_thread_id_def Let_def

lemma save_err: "save_cards env loc cs w = (Inl e, w') \<Longrightarrow> w' = w"
  by (auto simp: save_defs apfst_def map_prod_def split: board_location.splits if_splits option.splits)

lemma save_ok:
  "save_cards env loc cs w = (Inr cs', w') \<Longrightarrow> cs' = stored_cards env loc cs \<and> peek_cards loc w' = cs'"
  by (auto simp: save_defs stored_cards_def peek_cards_def split: board_location.splits if_splits option.splits)

lemma save_frame:
  "save_cards env loc cs w = (r, w') \<Longrightarrow> board_key loc' \<noteq> board_key loc \<Longrightarrow>
   peek_cards loc' w' = peek_cards loc' w"
  by (auto simp: save_defs peek_cards_def board_key_def split: board_location.splits if_splits option.splits)

interpretation board: card_store "peek_cards loc" "commit env loc" "stored_cards env loc"
  for env loc
proof
  show "commit env loc (Inl e) w = (Inl e, w)" for e w by (simp add: commit_def)
  show "commit env loc r w = (Inl e, w') \<Longrightarrow> w' = w" for r w e w'
    by (auto simp: commit_def dest: save_err split: sum.splits prod.splits)
  show "commit env loc (Inr cs) w = (Inr cs', w') \<Longrightarrow>
      cs' = stored_cards env loc cs \<and> peek_cards loc w' = cs'" for cs w cs' w'
    by (auto simp: commit_def dest: save_ok split: sum.splits prod.splits)
qed

lemma commit_frame:
  assumes "board_key loc' \<noteq> board_key loc"
    and "commit env loc r w = (res, w')"
  shows "peek_cards loc' w' = peek_cards loc' w"
  using save_frame[OF _ assms(1)] assms(2)
  by (auto simp: commit_def split: sum.splits prod.splits)

lemma peek_key: "board_key loc = board_key loc' \<Longrightarrow> peek_cards loc w = peek_cards loc' w"
  by (auto simp: board_key_def peek_cards_def split: board_location.splits)

lemma load_peek: "load_cards env loc w = Inr cs \<Longrightarrow> cs = peek_cards loc w"
  by (auto simp: load_cards_def board_get_def validate_thread_id_def peek_cards_def
      split: board_location.splits if_splits option.splits)

lemma stored_cards_ok: "env_ok env \<Longrightarrow> \<forall>c \<in> set (stored_cards env loc cs). card_ok c"
  by (auto simp: stored_cards_def Let_def env_ok_def intro!: normalise_cards_ok split: board_location.splits)

lemma stored_cards_once:
  "env_ok env \<Longrightarrow> stored_cards env loc cs = normalise_cards (te_now env) (te_fresh env) cs"
  by (auto simp: stored_cards_def Let_def env_ok_def normalise_cards_twice split: board_location.splits)

lemma stored_numbered: "numbered (stored_cards env loc cs)"
  by (auto simp: stored_cards_def Let_def normalise_cards_def split: board_location.splits)

lemma stored_count: "in_progress_count (stored_cards env loc cs) \<le> in_progress_count cs"
  using le_trans[OF normalise_count normalise_count]
  by (auto simp: stored_cards_def Let_def normalise_count split: board_location.splits)

lemma stored_board_ok:
  "env_ok env \<Longrightarrow> in_progress_count cs \<le> 1 \<Longrightarrow> board_ok (stored_cards env loc cs)"
  using stored_count[of env loc cs] by (auto simp: board_ok_def stored_cards_ok stored_numbered)

section \<open>The operations as one\<close>

datatype todo_op =
  Op_Add string string card_patch | Op_Edit string card_patch | Op_Session string "string option"
| Op_Status string task_status | Op_Decide string bool | Op_Remove string
| Op_Replace "task_card list" | Op_Clear | Op_Claim string "task_status list" task_status

text \<open>The writing operations, with the snapshot they return; \<open>claim_card\<close> returns a card instead.\<close>

definition run_op :: "todo_env \<Rightarrow> board_location \<Rightarrow> todo_op \<Rightarrow> todo_world \<Rightarrow>
    (todo_error + todos_snapshot option) \<times> todo_world" where
  "run_op env loc op w =
     (case op of
        Op_Claim cid expected target \<Rightarrow>
          apfst (map_sum id (\<lambda>_. None)) (claim_card env loc cid expected target w)
      | Op_Add uuid content p \<Rightarrow> apfst (map_sum id Some) (add env loc uuid content p w)
      | Op_Edit cid p \<Rightarrow> apfst (map_sum id Some) (edit env loc cid p w)
      | Op_Session cid t \<Rightarrow> apfst (map_sum id Some) (set_session_thread env loc cid t w)
      | Op_Status cid st \<Rightarrow> apfst (map_sum id Some) (update_status env loc cid st w)
      | Op_Decide cid b \<Rightarrow> apfst (map_sum id Some) (decide_plan env loc cid b w)
      | Op_Remove cid \<Rightarrow> apfst (map_sum id Some) (remove env loc cid w)
      | Op_Replace cards \<Rightarrow> apfst (map_sum id Some) (replace_all env loc cards w)
      | Op_Clear \<Rightarrow> apfst (map_sum id Some) (clear env loc w))"

text \<open>What an operation computes from the cards it loads, as one pure function.\<close>

definition op_result :: "todo_env \<Rightarrow> todo_op \<Rightarrow> task_card list \<Rightarrow> todo_error + task_card list" where
  "op_result env op cards =
     (case op of
        Op_Add uuid content p \<Rightarrow> add_cards env uuid (trim content) p cards
      | Op_Edit cid p \<Rightarrow> edit_cards env cid p cards
      | Op_Session cid t \<Rightarrow> session_cards env cid t cards
      | Op_Status cid st \<Rightarrow> edit_cards env cid (empty_patch\<lparr>cp_status := Some st\<rparr>) cards
      | Op_Decide cid b \<Rightarrow>
          (case decide_check cid cards of
             Inl e \<Rightarrow> Inl e
           | Inr u \<Rightarrow> edit_cards env cid
               (empty_patch\<lparr>cp_status := Some (if b then Ready else Rejected)\<rparr>) cards)
      | Op_Remove cid \<Rightarrow> remove_cards cid cards
      | Op_Replace cs \<Rightarrow> checked cs
      | Op_Clear \<Rightarrow> Inr []
      | Op_Claim cid expected target \<Rightarrow> map_sum id snd (claim_cards env cid expected target cards))"

definition op_snapshot :: "board_location \<Rightarrow> todo_op \<Rightarrow> task_card list \<Rightarrow> todos_snapshot option" where
  "op_snapshot loc op cards =
     (case op of Op_Claim cid expected target \<Rightarrow> None | _ \<Rightarrow> Some (into_snapshot loc cards))"

lemma commit_cases:
  "(\<exists>e. commit env loc r w = (Inl e, w)) \<or>
   (\<exists>cs w'. r = Inr cs \<and> commit env loc r w = (Inr (stored_cards env loc cs), w')
      \<and> peek_cards loc w' = stored_cards env loc cs)"
proof (cases "commit env loc r w")
  case (Pair res w')
  then show ?thesis
    using board.commit_fail[of env loc r w] board.commit_Inr[of env loc r w] by (cases res) fastforce+
qed

lemma mutate_cases:
  "(\<exists>e. mutate env loc f w = (Inl e, w)) \<or>
   (\<exists>cs w'. f (peek_cards loc w) = Inr cs \<and> mutate env loc f w = (Inr (stored_cards env loc cs), w')
      \<and> commit env loc (Inr cs) w = (Inr (stored_cards env loc cs), w')
        \<and> peek_cards loc w' = stored_cards env loc cs)"
proof (cases "load_cards env loc w")
  case (Inl e)
  then show ?thesis by (simp add: mutate_def bind_cards_def board.commit_err)
next
  case (Inr cs)
  then have "cs = peek_cards loc w" by (rule load_peek)
  with Inr show ?thesis
    using commit_cases[of env loc "f cs" w] by (auto simp: mutate_def bind_cards_def)
qed

lemmas op_defs [board_simps] = run_op_def op_result_def op_snapshot_def snapshot_def add_def edit_def
  set_session_thread_def update_status_def remove_def replace_all_def clear_def

definition stored_as :: "todo_env \<Rightarrow> board_location \<Rightarrow> todo_op \<Rightarrow> todo_world \<Rightarrow> bool" where
  "stored_as env loc op w \<longleftrightarrow>
     (\<exists>e. run_op env loc op w = (Inl e, w)) \<or>
     (\<exists>cs w'. op_result env op (peek_cards loc w) = Inr cs
        \<and> run_op env loc op w = (Inr (op_snapshot loc op (stored_cards env loc cs)), w')
        \<and> commit env loc (Inr cs) w = (Inr (stored_cards env loc cs), w')
        \<and> peek_cards loc w' = stored_cards env loc cs)"

lemma stored_as_commit:
  assumes "run_op env loc op w = apfst (map_sum id Some) (snapshot loc (commit env loc r w))"
    and "\<And>cs. r = Inr cs \<Longrightarrow> op_result env op (peek_cards loc w) = Inr cs"
    and "\<And>cs. op_snapshot loc op cs = Some (into_snapshot loc cs)"
  shows "stored_as env loc op w"
  using commit_cases[of env loc r w] assms by (auto simp: stored_as_def snapshot_def)

lemma stored_as_mutate:
  assumes "run_op env loc op w = apfst (map_sum id Some) (snapshot loc (mutate env loc f w))"
    and "\<And>cs. f (peek_cards loc w) = Inr cs \<Longrightarrow> op_result env op (peek_cards loc w) = Inr cs"
    and "\<And>cs. op_snapshot loc op cs = Some (into_snapshot loc cs)"
  shows "stored_as env loc op w"
  using mutate_cases[of env loc f w] assms by (auto simp: stored_as_def snapshot_def)

lemma claim_cases:
  "(\<exists>e. claim_card env loc cid ex target w = (Inl e, w)) \<or>
   (\<exists>c cs w'. claim_cards env cid ex target (peek_cards loc w) = Inr (c, cs)
      \<and> claim_card env loc cid ex target w = (Inr c, w')
      \<and> commit env loc (Inr cs) w = (Inr (stored_cards env loc cs), w')
        \<and> peek_cards loc w' = stored_cards env loc cs)"
proof (cases "load_cards env loc w")
  case (Inl e)
  then show ?thesis by (simp add: claim_card_def claim_rest_def)
next
  case (Inr cards)
  then have p: "cards = peek_cards loc w" by (rule load_peek)
  show ?thesis
  proof (cases "claim_cards env cid ex target cards")
    case (Inl e)
    then show ?thesis using Inr by (simp add: claim_card_def claim_rest_def)
  next
    case r: (Inr q)
    obtain c cs where q: "q = (c, cs)" by (cases q)
    show ?thesis
      using Inr r p commit_cases[of env loc "Inr cs" w]
      by (auto simp: q claim_card_def claim_rest_def)
  qed
qed

lemma run_op_stored: "stored_as env loc op w"
proof (cases op)
  case (Op_Add u content p)
  show ?thesis
  proof (cases "trim content = []")
    case True
    then show ?thesis by (simp add: stored_as_def Op_Add run_op_def add_def)
  next
    case False
    then show ?thesis by (intro stored_as_mutate) (simp_all add: Op_Add board_simps)
  qed
next
  case (Op_Decide cid b)
  show ?thesis
  proof (cases "decide_first env loc cid w")
    case (Inl e)
    then show ?thesis by (simp add: stored_as_def Op_Decide run_op_def decide_plan_def)
  next
    case (Inr u)
    then have "decide_check cid (peek_cards loc w) = Inr u"
      using load_peek by (auto simp: decide_first_def split: sum.splits)
    with Inr show ?thesis
      by (intro stored_as_mutate) (simp_all add: Op_Decide decide_plan_def board_simps)
  qed
next
  case (Op_Claim cid ex target)
  then show ?thesis
    using claim_cases[of env loc cid ex target w] by (auto simp: stored_as_def board_simps)
next
  case (Op_Replace cs)
  then show ?thesis by (intro stored_as_commit) (simp_all add: board_simps)
next
  case Op_Clear
  then show ?thesis by (intro stored_as_commit[where r = "Inr []"]) (auto simp: board_simps)
qed (intro stored_as_mutate; simp add: board_simps)+

section \<open>At most one card in progress\<close>

lemma checked_Inr: "checked cs = Inr cs' \<longleftrightarrow> cs' = cs \<and> in_progress_count cs \<le> 1"
  by (auto simp: checked_def enforce_single_in_progress_def)

lemma count_filter: "in_progress_count (filter p cs) \<le> in_progress_count cs"
  by (induction cs) (auto simp: in_progress_count_def)

lemma count_update_same:
  "(\<And>c. tc_status (f c) = tc_status c) \<Longrightarrow> in_progress_count (update_card cid f cs) = in_progress_count cs"
  by (induction cs) (auto simp: in_progress_count_def update_card_def)

lemma op_result_count:
  assumes "op_result env op cs = Inr cs'" and "in_progress_count cs \<le> 1"
  shows "in_progress_count cs' \<le> 1"
proof (cases op)
  case (Op_Session cid t)
  with assms show ?thesis
    by (auto simp: op_result_def session_cards_def count_update_same split: option.splits)
next
  case (Op_Remove cid)
  with assms show ?thesis
    using count_filter[of "\<lambda>c. tc_id c \<noteq> cid" cs]
    by (auto simp: op_result_def remove_cards_def Let_def split: if_splits)
next
  case (Op_Claim cid ex target)
  with assms show ?thesis
    by (auto simp: op_result_def claim_cards_def checked_Inr map_sum_def split: option.splits if_splits sum.splits)
next
  case Op_Clear
  with assms show ?thesis by (simp add: op_result_def in_progress_count_def)
qed (use assms in \<open>auto simp: op_result_def add_cards_def edit_cards_def checked_Inr
       split: option.splits if_splits sum.splits\<close>)

section \<open>Properties: every operation\<close>

definition boards_ok :: "todo_world \<Rightarrow> bool" where
  "boards_ok w \<longleftrightarrow> (\<forall>loc. board_ok (peek_cards loc w))"


definition empty_world :: todo_world where
  "empty_world = \<lparr>tw_boards = Map.empty, tw_scratch = [], tw_progress = []\<rparr>"

definition plain_env :: todo_env where
  "plain_env = \<lparr>te_now = ''2026-01-01'', te_fresh = (\<lambda>_. ''abc-123''), te_read_error = None,
     te_write_error = None, te_channel = True\<rparr>"

lemma env_ok_plain [simp]: "env_ok plain_env"
  by (simp add: env_ok_def plain_env_def plain_char_def byte_def is_ascii_ws_def)

lemma board_ok_Nil [simp]: "board_ok []"
  by (simp add: board_ok_def numbered_def in_progress_count_def)

lemma boards_ok_empty [simp]: "boards_ok empty_world"
  by (simp add: boards_ok_def empty_world_def peek_cards_def split: board_location.splits)

lemma op_frame:
  assumes "board_key loc' \<noteq> board_key loc"
  shows "peek_cards loc' (snd (run_op env loc op w)) = peek_cards loc' w"
  using run_op_stored[of env loc op w] commit_frame[OF assms]
  by (auto simp: stored_as_def)

lemma op_board_ok:
  assumes "env_ok env" and "board_ok (peek_cards loc w)"
  shows "board_ok (peek_cards loc (snd (run_op env loc op w)))"
  using run_op_stored[of env loc op w] assms op_result_count[of env op "peek_cards loc w"]
  by (auto simp: stored_as_def board_ok_def[of "peek_cards loc w"] intro!: stored_board_ok)

lemma run_op_boards_ok: "env_ok env \<Longrightarrow> boards_ok w \<Longrightarrow> boards_ok (snd (run_op env loc op w))"
  unfolding boards_ok_def using op_frame op_board_ok peek_key by metis


definition demo_card :: "string \<Rightarrow> task_status \<Rightarrow> task_card" where
  "demo_card cid st = \<lparr>tc_id = cid, tc_title = ''write it down'', tc_status = st, tc_objective = None,
     tc_plan = [], tc_assigned_agent = None, tc_allowed_tools = [], tc_approval_mode = None,
     tc_acceptance_criteria = [], tc_evidence = [], tc_notes = None, tc_blocker = None,
     tc_session_thread_id = None, tc_source_metadata = None, tc_order = 0, tc_updated_at = []\<rparr>"




lemma save_load:
  "save_cards env loc cs w = (Inr cs', w') \<Longrightarrow> te_read_error env' = None \<Longrightarrow>
   load_cards env' loc w' = Inr cs'"
  by (auto simp: save_defs load_cards_def board_get_def simp del: trim_Nil_iff
      split: board_location.splits if_splits option.splits)

lemma load_emit [simp]: "load_cards env' loc' (emit_progress env loc cs w) = load_cards env' loc' w"
  by (cases "te_channel env"; cases loc; cases loc')
     (simp_all add: load_cards_def board_get_def emit_progress_def cong: sum.case_cong option.case_cong)

lemma commit_load:
  "commit env loc r w = (Inr cs, w') \<Longrightarrow> te_read_error env' = None \<Longrightarrow>
   load_cards env' loc w' = Inr cs"
  by (auto simp: commit_def save_load split: sum.splits prod.splits)

lemma op_answer:
  "run_op env loc op w = (Inr s, w') \<Longrightarrow> s = op_snapshot loc op (peek_cards loc w')"
  using run_op_stored[of env loc op w] by (auto simp: stored_as_def)

lemma op_load:
  assumes "run_op env loc op w = (Inr s, w')" and "te_read_error env' = None"
  shows "load_cards env' loc w' = Inr (peek_cards loc w')"
proof -
  obtain cs' where "commit env loc (Inr cs') w = (Inr (stored_cards env loc cs'), w')"
    using run_op_stored[of env loc op w] assms(1) by (auto simp: stored_as_def)
  then have "load_cards env' loc w' = Inr (stored_cards env loc cs')"
    using assms(2) by (rule commit_load)
  then show ?thesis using load_peek by metis
qed

text \<open>What a writing operation answers is what the next listing of that board shows, cards
  and rendering alike, as long as the file can be read.
\<close>

theorem list_shows_last_write:
  assumes "run_op env loc op w = (Inr (Some snap), w')" and "te_read_error env' = None"
  shows "list_todos env' loc w' = Inr snap"
proof -
  have "load_cards env' loc w' = Inr (peek_cards loc w')" by (rule op_load[OF assms])
  moreover have "snap = into_snapshot loc (peek_cards loc w')"
    using op_answer[OF assms(1)] by (simp add: op_snapshot_def split: todo_op.splits)
  ultimately show ?thesis by (simp add: list_todos_def)
qed

theorem list_shows_last_write_witness:
  "\<exists>snap w'. run_op plain_env Scratch (Op_Add ''u1'' '' ship '' empty_patch) empty_world = (Inr (Some snap), w')
     \<and> list_todos plain_env Scratch w' = Inr snap"
proof -
  obtain r w' where run: "run_op plain_env Scratch (Op_Add ''u1'' '' ship '' empty_patch) empty_world = (r, w')"
    by (meson surj_pair)
  moreover have "case fst (run_op plain_env Scratch (Op_Add ''u1'' '' ship '' empty_patch) empty_world)
      of Inr (Some s) \<Rightarrow> True | _ \<Rightarrow> False"
    by code_simp
  ultimately obtain snap where "r = Inr (Some snap)" by (auto split: sum.splits option.splits)
  with run show ?thesis
    using list_shows_last_write[of plain_env Scratch _ empty_world snap w' plain_env]
    by (auto simp: plain_env_def)
qed

section \<open>Properties: claims and decisions\<close>

lemma board_ok_keyed: "board_ok cs \<Longrightarrow> c \<in> set cs \<Longrightarrow> keyed c"
  by (auto simp: board_ok_def card_ok_def keyed_def)

lemma board_ok_count: "board_ok cs \<Longrightarrow> in_progress_count cs \<le> 1"
  by (simp add: board_ok_def)

lemma status_of_keys: "map card_key cs = map card_key ds \<Longrightarrow> status_of cs = status_of ds"
  by (simp add: status_of_def)

lemma stored_keys:
  assumes "env_ok env" and "\<forall>c \<in> set cs. keyed c"
  shows "map card_key (stored_cards env loc cs) = map card_key cs"
  by (simp add: stored_cards_once[OF assms(1)] normalise_keys[OF assms(2)])

lemma claim_cards_Inr:
  assumes "claim_cards env cid ex target cs = Inr (c, cs')"
  shows "\<exists>c0. find_card cid cs = Some c0 \<and> tc_status c0 \<in> set ex \<and> c = claimed env target c0
     \<and> cs' = update_card cid (claimed env target) cs"
  using assms by (auto simp: claim_cards_def checked_def enforce_single_in_progress_def split: option.splits if_splits)

lemma keyed_claimed [simp]: "keyed (claimed env target c) = keyed c"
  by (simp add: keyed_def claimed_def)

lemma claim_effect:
  assumes "env_ok env" and "boards_ok w" and "claim_card env loc cid ex target w = (Inr c, w')"
  shows "\<exists>s \<in> set ex. status_of (peek_cards loc w) cid = Some s"
    and "tc_id c = cid" and "tc_status c = target"
    and "status_of (peek_cards loc w') = (status_of (peek_cards loc w))(cid \<mapsto> target)"
proof -
  let ?cs = "peek_cards loc w"
  obtain cs' where r: "claim_cards env cid ex target ?cs = Inr (c, cs')"
    and p: "peek_cards loc w' = stored_cards env loc cs'"
    using claim_cases[of env loc cid ex target w] assms(3) by auto
  from claim_cards_Inr[OF r] obtain c0 where f: "find_card cid ?cs = Some c0"
    and s: "tc_status c0 \<in> set ex" and c: "c = claimed env target c0"
    and cs': "cs' = update_card cid (claimed env target) ?cs" by blast
  have id0: "tc_id c0 = cid" using find_Some_set f unfolding find_card_def by fast
  show "\<exists>s \<in> set ex. status_of ?cs cid = Some s" using f s by (simp add: status_of_find)
  show "tc_id c = cid" "tc_status c = target" using id0 c by (simp_all add: claimed_def)
  have "\<forall>c \<in> set cs'. keyed c"
    using assms(2) board_ok_keyed unfolding cs' boards_ok_def by (fastforce dest!: set_update_card)
  then have "status_of (peek_cards loc w') = status_of cs'"
    unfolding p by (intro status_of_keys stored_keys assms(1))
  also have "\<dots> = (status_of ?cs)(cid \<mapsto> target)"
    using status_of_update[OF f] unfolding cs' by (simp add: claimed_def)
  finally show "status_of (peek_cards loc w') = (status_of ?cs)(cid \<mapsto> target)" .
qed

lemma claim_fails:
  assumes "status_of (peek_cards loc w) cid = Some s" and "s \<notin> set ex"
  shows "\<exists>e. claim_card env loc cid ex target w = (Inl e, w)"
  using claim_cases[of env loc cid ex target w] assms claim_cards_Inr
  by (fastforce simp: status_of_find)

text \<open>\<open>claim_card\<close> is a compare-and-set.  If it succeeds the card had one of the expected
  statuses, the card returned carries the target status, and on the board nothing but that
  card's status has moved; if it fails nothing has.
\<close>

theorem claim_card_cas:
  assumes "env_ok env" and "boards_ok w" and "claim_card env loc cid ex target w = (r, w')"
  shows "case r of
           Inl e \<Rightarrow> w' = w
         | Inr c \<Rightarrow> (\<exists>s \<in> set ex. status_of (peek_cards loc w) cid = Some s)
             \<and> tc_id c = cid \<and> tc_status c = target
             \<and> status_of (peek_cards loc w') = (status_of (peek_cards loc w))(cid \<mapsto> target)"
proof (cases r)
  case (Inl e)
  then show ?thesis using claim_cases[of env loc cid ex target w] assms(3) by auto
next
  case (Inr c)
  then show ?thesis using claim_effect[OF assms(1,2)] assms(3) by auto
qed

text \<open>Several claimants of one card, one after the other under the board lock.\<close>

fun race_claims :: "todo_env list \<Rightarrow> board_location \<Rightarrow> string \<Rightarrow> task_status list \<Rightarrow> task_status \<Rightarrow>
    todo_world \<Rightarrow> (todo_error + task_card) list" where
  "race_claims [] loc cid ex target w = []"
| "race_claims (env # envs) loc cid ex target w =
     (let (r, w') = claim_card env loc cid ex target w
      in r # race_claims envs loc cid ex target w')"

lemma race_lost:
  assumes "status_of (peek_cards loc w) cid = Some s" and "s \<notin> set ex"
  shows "filter (\<lambda>r. \<not> isl r) (race_claims envs loc cid ex target w) = []"
proof (induction envs)
  case (Cons env envs)
  obtain e where "claim_card env loc cid ex target w = (Inl e, w)"
    using claim_fails[OF assms] by blast
  with Cons show ?case by simp
qed simp

text \<open>C40. Of any number of claims that take a card out of the expected statuses, whatever their
  clocks and file errors, at most one succeeds.
\<close>

theorem claim_single_winner:
  assumes "\<forall>env \<in> set envs. env_ok env" and "boards_ok w" and "target \<notin> set ex"
  shows "length (filter (\<lambda>r. \<not> isl r) (race_claims envs loc cid ex target w)) \<le> 1"
  using assms(1,2)
proof (induction envs arbitrary: w)
  case (Cons env envs)
  show ?case
  proof (cases "claim_card env loc cid ex target w")
    case (Pair r w')
    show ?thesis
    proof (cases r)
      case (Inl e)
      then have "w' = w" using claim_cases[of env loc cid ex target w] Pair by auto
      with Cons Pair Inl show ?thesis by simp
    next
      case (Inr c)
      then have "status_of (peek_cards loc w') cid = Some target"
        using claim_effect(4)[OF _ Cons.prems(2)] Cons.prems(1) Pair by auto
      with assms(3) Pair Inr show ?thesis by (simp add: race_lost)
    qed
  qed
qed simp

theorem claim_card_cas_witness:
  "let w = snd (run_op plain_env Scratch (Op_Replace [demo_card ''a'' Ready]) empty_world);
       (r, w') = claim_card plain_env Scratch ''a'' [Todo, Ready] In_Progress w
   in case r of
        Inl e \<Rightarrow> w' = w
      | Inr c \<Rightarrow> (\<exists>s \<in> set [Todo, Ready]. status_of (peek_cards Scratch w) ''a'' = Some s)
          \<and> tc_id c = ''a'' \<and> tc_status c = In_Progress
          \<and> status_of (peek_cards Scratch w') = (status_of (peek_cards Scratch w))(''a'' \<mapsto> In_Progress)"
proof -
  let ?w = "snd (run_op plain_env Scratch (Op_Replace [demo_card ''a'' Ready]) empty_world)"
  have ok: "boards_ok ?w" by (intro run_op_boards_ok) simp_all
  show ?thesis
    unfolding Let_def by (rule prod.split[THEN iffD2]) (use claim_card_cas[OF env_ok_plain ok] in blast)
qed

theorem claim_single_winner_witness:
  "length (filter (\<lambda>r. \<not> isl r) (race_claims [plain_env, plain_env] Scratch ''a'' [Todo, Ready] In_Progress
     (snd (run_op plain_env Scratch (Op_Replace [demo_card ''a'' Ready]) empty_world)))) \<le> 1"
  by (intro claim_single_winner run_op_boards_ok) simp_all

lemma edit_status_Inr:
  assumes "edit_cards env cid (empty_patch\<lparr>cp_status := Some st\<rparr>) cs = Inr cs'"
  obtains c0 f where "find_card cid cs = Some c0" and "cs' = update_card cid f cs"
    and "\<And>c. tc_id (f c) = tc_id c" and "\<And>c. tc_status (f c) = st"
    and "\<And>c. tc_title (f c) = tc_title c"
proof -
  let ?f = "patch_card env (empty_patch\<lparr>cp_status := Some st\<rparr>)"
  have "\<exists>c0. find_card cid cs = Some c0 \<and> cs' = update_card cid ?f cs"
    using assms by (auto simp: edit_cards_def checked_Inr empty_patch_def split: option.splits)
  moreover have "tc_id (?f c) = tc_id c" "tc_status (?f c) = st" "tc_title (?f c) = tc_title c" for c
    by (simp_all add: patch_card_def empty_patch_def or_else_def)
  ultimately show ?thesis using that by blast
qed

lemma decide_effect:
  assumes "env_ok env" and "boards_ok w" and "decide_plan env loc cid b w = (Inr s, w')"
  shows "status_of (peek_cards loc w) cid = Some Awaiting_Approval"
    and "status_of (peek_cards loc w')
           = (status_of (peek_cards loc w))(cid \<mapsto> (if b then Ready else Rejected))"
proof -
  let ?cs = "peek_cards loc w"
  let ?st = "if b then Ready else Rejected"
  have "run_op env loc (Op_Decide cid b) w = (Inr (Some s), w')"
    using assms(3) by (simp add: run_op_def)
  then obtain cs' where r: "op_result env (Op_Decide cid b) ?cs = Inr cs'"
    and p: "peek_cards loc w' = stored_cards env loc cs'"
    using run_op_stored[of env loc "Op_Decide cid b" w] by (auto simp: stored_as_def)
  then have chk: "\<exists>u. decide_check cid ?cs = Inr u"
    and e: "edit_cards env cid (empty_patch\<lparr>cp_status := Some ?st\<rparr>) ?cs = Inr cs'"
    by (auto simp: op_result_def split: sum.splits)
  from chk show "status_of ?cs cid = Some Awaiting_Approval"
    by (auto simp: decide_check_def status_of_find split: option.splits if_splits)
  from e obtain c0 f where f: "find_card cid ?cs = Some c0" and cs': "cs' = update_card cid f ?cs"
    and fid: "\<And>c. tc_id (f c) = tc_id c" and fst: "\<And>c. tc_status (f c) = ?st"
    and ftitle: "\<And>c. tc_title (f c) = tc_title c"
    using edit_status_Inr[of env cid ?st ?cs cs' thesis] by blast
  have "\<forall>c \<in> set cs'. keyed c"
    using assms(2) board_ok_keyed unfolding cs' boards_ok_def
    by (fastforce dest!: set_update_card simp: keyed_def fid ftitle)
  then have "status_of (peek_cards loc w') = status_of cs'"
    unfolding p by (intro status_of_keys stored_keys assms(1))
  then show "status_of (peek_cards loc w') = (status_of ?cs)(cid \<mapsto> ?st)"
    using status_of_update[OF f fid] unfolding cs' by (simp add: fst)
qed

lemma decide_fails:
  assumes "status_of (peek_cards loc w) cid = Some s" and "s \<noteq> Awaiting_Approval"
  shows "\<exists>e. decide_plan env loc cid b w = (Inl e, w)"
proof -
  have "\<exists>e. decide_first env loc cid w = Inl e"
    using assms load_peek[of env loc w]
    by (cases "load_cards env loc w") (auto simp: decide_first_def decide_check_def status_of_find)
  then show ?thesis by (auto simp: decide_plan_def)
qed

text \<open>A plan decision lands only on a card that awaits approval, moves it to ready or
  rejected and no other card, and is final: every later decision on that card fails and
  changes nothing.
\<close>

theorem decide_plan_once:
  assumes "env_ok env" and "boards_ok w" and "decide_plan env loc cid b w = (Inr s, w')"
  shows "status_of (peek_cards loc w) cid = Some Awaiting_Approval
    \<and> status_of (peek_cards loc w')
        = (status_of (peek_cards loc w))(cid \<mapsto> (if b then Ready else Rejected))
    \<and> (\<forall>env' b'. \<exists>e. decide_plan env' loc cid b' w' = (Inl e, w'))"
  using decide_effect[OF assms] decide_fails[of loc w' cid "if b then Ready else Rejected"]
  by simp

theorem decide_plan_once_witness:
  "\<exists>s w'. decide_plan plain_env Scratch ''a'' True
      (snd (run_op plain_env Scratch (Op_Replace [demo_card ''a'' Awaiting_Approval]) empty_world)) = (Inr s, w')
   \<and> status_of (peek_cards Scratch w') ''a'' = Some Ready
   \<and> (\<exists>e. decide_plan plain_env Scratch ''a'' False w' = (Inl e, w'))"
proof -
  let ?w = "snd (run_op plain_env Scratch (Op_Replace [demo_card ''a'' Awaiting_Approval]) empty_world)"
  have ok: "boards_ok ?w" by (intro run_op_boards_ok) simp_all
  obtain r w' where run: "decide_plan plain_env Scratch ''a'' True ?w = (r, w')" by (meson surj_pair)
  moreover have "\<not> isl (fst (decide_plan plain_env Scratch ''a'' True ?w))" by code_simp
  ultimately obtain s where "r = Inr s" by (cases r) auto
  with run show ?thesis using decide_plan_once[OF env_ok_plain ok, of Scratch "''a''" True s w'] by auto
qed

section \<open>Where the claim lock stops\<close>

text \<open>
  \<open>maybe_scratch_lock\<close> locks nothing for a thread board, and only \<open>claim_card\<close> takes the board
  lock.  An edit may therefore have loaded the cards before a claim and save them after it.
\<close>

lemma keys_update_claimed:
  "map card_key (update_card cid (claimed env target) cs)
     = update_first (\<lambda>k. fst k = cid) (\<lambda>k. (fst k, target)) (map card_key cs)"
  by (induction cs) (auto simp: update_card_def card_key_def claimed_def)

lemma claim_cards_keys:
  assumes "claim_cards env cid ex target cs = Inr x" and keys: "map card_key ds = map card_key cs"
  shows "\<exists>y. claim_cards env' cid ex target ds = Inr y"
proof -
  obtain c0 where f: "find_card cid cs = Some c0" "tc_status c0 \<in> set ex"
    and count: "in_progress_count (update_card cid (claimed env target) cs) \<le> 1"
    using assms(1)
    by (auto simp: claim_cards_def checked_def enforce_single_in_progress_def
        split: option.splits if_splits)
  have "status_of ds cid = status_of cs cid" using status_of_keys[OF keys] by simp
  then obtain d0 where d: "find_card cid ds = Some d0" "tc_status d0 \<in> set ex"
    using f by (auto simp: status_of_find)
  have "in_progress_count (update_card cid (claimed env' target) ds) \<le> 1"
    using count unfolding in_progress_count_keys keys_update_claimed keys .
  with d show ?thesis by (simp add: claim_cards_def checked_def enforce_single_in_progress_def)
qed

lemma keys_update_card:
  "(\<And>c. card_key (f c) = card_key c) \<Longrightarrow> map card_key (update_card k f cs) = map card_key cs"
  unfolding update_card_def by (rule map_update_first)

lemma edit_keeps_keys:
  assumes "edit_cards env k p cs = Inr cs'" and "cp_status p = None" and "\<forall>c \<in> set cs. keyed c"
  shows "map card_key cs' = map card_key cs \<and> (\<forall>c \<in> set cs'. keyed c)"
proof -
  have cs': "cs' = update_card k (patch_card env p) cs"
    and ne: "\<not> is_some_and (cp_content p) (\<lambda>s. trim s = [])"
    using assms(1) by (auto simp: edit_cards_def checked_Inr split: option.splits if_splits)
  have "card_key (patch_card env p c) = card_key c" for c
    using assms(2) by (simp add: card_key_def patch_card_def or_else_def)
  moreover have "keyed c \<Longrightarrow> keyed (patch_card env p c)" for c
    using ne by (auto simp: keyed_def patch_card_def split: option.splits)
  ultimately show ?thesis
    using assms(3) keys_update_card unfolding cs' by (blast dest: set_update_card)
qed

lemma commit_writes:
  assumes "commit env loc r w = (Inr cs, w')" and "te_write_error env' = None"
  shows "\<exists>ds v. commit env' loc (Inr es) u = (Inr ds, v)"
  using assms
  by (auto simp: commit_def save_defs simp del: trim_Nil_iff
      split: board_location.splits sum.splits prod.splits if_splits option.splits)

text \<open>On a thread board an edit that changes no status, whose load came before a claim and
  whose save comes after it, writes the old status back: the same claim then succeeds a second
  time, so the promise that a card is won once holds between claims only.
\<close>

theorem stale_edit_undoes_claim:
  assumes envs: "env_ok envA" "boards_ok w"
    and edit: "load_cards envA loc w = Inr loaded" "edit_cards envA k p loaded = Inr edited"
      "cp_status p = None"
    and first_claim: "claim_card envB loc cid ex target w = (Inr c, w1)"
    and save: "commit envA loc (Inr edited) w1 = (Inr saved, w2)"
    and files: "te_read_error envC = None" "te_write_error envC = None"
  shows "\<exists>c' w3. claim_card envC loc cid ex target w2 = (Inr c', w3)"
proof -
  have loaded: "loaded = peek_cards loc w" using edit(1) by (rule load_peek)
  have "\<forall>c \<in> set loaded. keyed c"
    using envs(2) board_ok_keyed unfolding loaded boards_ok_def by blast
  from edit_keeps_keys[OF edit(2,3) this] have keys: "map card_key edited = map card_key loaded"
    and keyed: "\<forall>c \<in> set edited. keyed c" by auto
  have saved: "saved = stored_cards envA loc edited" using board.commit_ok[OF save] by simp
  have "map card_key saved = map card_key loaded"
    unfolding saved using stored_keys[OF envs(1) keyed] keys by simp
  moreover obtain x where "claim_cards envB cid ex target loaded = Inr x"
    using claim_cases[of envB loc cid ex target w] first_claim loaded by auto
  ultimately obtain y where y: "claim_cards envC cid ex target saved = Inr y"
    using claim_cards_keys by blast
  obtain d es where d: "y = (d, es)" by (cases y)
  have "load_cards envC loc w2 = Inr saved" using save files(1) by (rule commit_load)
  with y d show ?thesis
    using commit_writes[OF save files(2), of es w2] by (auto simp: claim_card_def claim_rest_def)
qed

definition race_world :: todo_world where
  "race_world = snd (run_op plain_env (Thread_Board ''w'' ''t'') (Op_Replace [demo_card ''a'' Todo]) empty_world)"

definition race_edit :: "task_card list" where
  "race_edit = (case bind_cards (load_cards plain_env (Thread_Board ''w'' ''t'') race_world)
                   (edit_cards plain_env ''a'' (empty_patch\<lparr>cp_notes := Some ''soon''\<rparr>)) of
                Inl e \<Rightarrow> [] | Inr cs \<Rightarrow> cs)"

theorem stale_edit_undoes_claim_witness:
  "let loc = Thread_Board ''w'' ''t'';
       w1 = snd (claim_card plain_env loc ''a'' [Todo, Ready] In_Progress race_world);
       w2 = snd (commit plain_env loc (Inr race_edit) w1)
   in \<not> isl (fst (claim_card plain_env loc ''a'' [Todo, Ready] In_Progress race_world))
      \<and> (\<exists>c' w3. claim_card plain_env loc ''a'' [Todo, Ready] In_Progress w2 = (Inr c', w3))"
proof -
  let ?loc = "Thread_Board ''w'' ''t''"
  let ?c = "claim_card plain_env ?loc ''a'' [Todo, Ready] In_Progress race_world"
  let ?p = "empty_patch\<lparr>cp_notes := Some ''soon''\<rparr>"
  have ok: "boards_ok race_world" unfolding race_world_def by (intro run_op_boards_ok) simp_all
  have won: "\<not> isl (fst ?c)" by code_simp
  have e: "\<not> isl (bind_cards (load_cards plain_env ?loc race_world) (edit_cards plain_env ''a'' ?p))"
    by code_simp
  have sv: "\<not> isl (fst (commit plain_env ?loc (Inr race_edit) (snd ?c)))" by code_simp
  obtain c w1 where c: "?c = (Inr c, w1)" using won by (metis isl_def old.sum.exhaust prod.collapse)
  obtain saved w2 where s: "commit plain_env ?loc (Inr race_edit) w1 = (Inr saved, w2)"
    using sv c by (metis isl_def old.sum.exhaust prod.collapse snd_conv)
  obtain loaded where l: "load_cards plain_env ?loc race_world = Inr loaded"
    using e by (cases "load_cards plain_env ?loc race_world") (auto simp: bind_cards_def)
  have ed: "edit_cards plain_env ''a'' ?p loaded = Inr race_edit"
    using e l by (cases "edit_cards plain_env ''a'' ?p loaded") (auto simp: race_edit_def bind_cards_def)
  have "\<exists>c' w3. claim_card plain_env ?loc ''a'' [Todo, Ready] In_Progress w2 = (Inr c', w3)"
    by (rule stale_edit_undoes_claim[OF env_ok_plain ok l ed _ c s])
       (simp_all add: plain_env_def empty_patch_def)
  with won c s show ?thesis by (simp add: Let_def)
qed

end
