(* ===== verification/Loop_Guards.thy ===== *)
theory Loop_Guards
  imports Prelude Rust_Str Policy_Types "HOL-Library.Word"
begin

text \<open>
  The circuit breakers of the agent loop (\<open>src/openhuman/agent/harness/tool_loop.rs\<close>): the
  repeated-failure guard and the repeated-output guard, with the texts they halt with.  Their
  counters are 32-bit; the second half of the theory relates them to the history of calls.
\<close>

section \<open>The guards\<close>

definition DEFAULT_MAX_TOOL_ITERATIONS :: nat where
  "DEFAULT_MAX_TOOL_ITERATIONS = 10"

definition EXTENDED_MAX_TOOL_ITERATIONS :: nat where
  "EXTENDED_MAX_TOOL_ITERATIONS = 50"

definition REPEAT_FAILURE_THRESHOLD :: "32 word" where
  "REPEAT_FAILURE_THRESHOLD = 3"

definition NO_PROGRESS_FAILURE_THRESHOLD :: "32 word" where
  "NO_PROGRESS_FAILURE_THRESHOLD = 6"

definition HARD_REJECT_REPEAT_THRESHOLD :: "32 word" where
  "HARD_REJECT_REPEAT_THRESHOLD = 2"

definition REPEAT_OUTPUT_THRESHOLD :: "32 word" where
  "REPEAT_OUTPUT_THRESHOLD = 4"

definition max_iterations :: "nat \<Rightarrow> nat" where
  "max_iterations n = (if n = 0 then DEFAULT_MAX_TOOL_ITERATIONS else n)"

datatype hard_reject = Reject_Blocked | Reject_Denied

definition hard_reject_kind :: "string \<Rightarrow> hard_reject option" where
  "hard_reject_kind result =
     (if sublist POLICY_BLOCKED_MARKER result then Some Reject_Blocked
      else if sublist POLICY_DENIED_MARKER result then Some Reject_Denied
      else None)"

definition truncate_for_halt :: "string \<Rightarrow> string" where
  "truncate_for_halt s =
     (if char_count s \<le> 600 then s
      else take_chars 600 s @ [CHR 0x0A] @ ellipsis @ '' [truncated]'')"

record failure_guard =
  sig_counts :: "string \<rightharpoonup> 32 word"
  fg_consecutive :: "32 word"

definition failure_guard_new :: failure_guard where
  "failure_guard_new = \<lparr>sig_counts = Map.empty, fg_consecutive = 0\<rparr>"

definition call_sig :: "string \<Rightarrow> string \<Rightarrow> string" where
  "call_sig tool args_sig = tool @ ''|'' @ args_sig"

text \<open>The three texts of a repeated call and the text of a run of failures.\<close>

definition repeat_text :: "hard_reject option \<Rightarrow> string \<Rightarrow> 32 word \<Rightarrow> string \<Rightarrow> string" where
  "repeat_text hard tool count result =
     (case hard of
        Some Reject_Blocked \<Rightarrow>
          ''Stopping: the `'' @ tool @ ''` call is blocked by the security policy and was '' @
          ''re-issued with identical arguments '' @ em_dash @ '' it can never succeed this way. '' @
          ''Reason:'' @ [CHR 0x0A] @ truncate_for_halt result @ [CHR 0x0A, CHR 0x0A] @
          ''Do not repeat this call; use an allowed alternative or report that it can'' @ [CHR 0x27] @
          ''t be done here.''
      | Some Reject_Denied \<Rightarrow>
          ''Stopping: the `'' @ tool @ ''` call was denied and re-issued unchanged '' @ em_dash @
          '' re-asking will not change the answer. Reason:'' @ [CHR 0x0A] @ truncate_for_halt result @
          [CHR 0x0A, CHR 0x0A] @
          ''Do not repeat this call; take a different approach or report that it can'' @ [CHR 0x27] @
          ''t be done here.''
      | None \<Rightarrow>
          ''Stopping: the `'' @ tool @ ''` call was retried '' @ dec_nat (unat count) @
          '' times with identical arguments and kept failing '' @ em_dash @
          '' repeating it will not help. Last error:'' @ [CHR 0x0A] @ truncate_for_halt result @
          [CHR 0x0A, CHR 0x0A] @
          ''This looks unrecoverable in the current environment (e.g. a missing '' @
          ''tool/dependency that cannot be installed here). Report this back instead of retrying.'')"

definition no_progress_text :: "32 word \<Rightarrow> string \<Rightarrow> string \<Rightarrow> string" where
  "no_progress_text n tool result =
     ''Stopping: '' @ dec_nat (unat n) @ '' tool calls in a row failed with no progress. Last error (from `'' @
     tool @ ''`):'' @ [CHR 0x0A] @ truncate_for_halt result @ [CHR 0x0A, CHR 0x0A] @
     ''Different commands are all failing '' @ em_dash @ '' the goal looks unreachable in this '' @
     ''environment. Report this back instead of retrying.''"

definition record_failure :: "string \<Rightarrow> string \<Rightarrow> bool \<Rightarrow> string \<Rightarrow> failure_guard \<Rightarrow>
    string option \<times> failure_guard" where
  "record_failure tool args_sig success result g =
     (if success then (None, g\<lparr>fg_consecutive := 0\<rparr>)
      else
        (let consecutive = fg_consecutive g + 1;
             key = call_sig tool args_sig;
             count = (case sig_counts g key of None \<Rightarrow> 0 | Some c \<Rightarrow> c) + 1;
             g' = g\<lparr>fg_consecutive := consecutive, sig_counts := (sig_counts g)(key \<mapsto> count)\<rparr>;
             hard = hard_reject_kind result;
             repeat_threshold = (if hard \<noteq> None then HARD_REJECT_REPEAT_THRESHOLD
                                 else REPEAT_FAILURE_THRESHOLD)
         in if repeat_threshold \<le> count then (Some (repeat_text hard tool count result), g')
            else if NO_PROGRESS_FAILURE_THRESHOLD \<le> consecutive
            then (Some (no_progress_text consecutive tool result), g')
            else (None, g')))"

text \<open>The hash of the standard library is a parameter.\<close>

record output_guard =
  last_hash :: "64 word option"
  og_consecutive :: "32 word"

definition output_guard_new :: output_guard where
  "output_guard_new = \<lparr>last_hash = None, og_consecutive = 0\<rparr>"

definition output_text :: "32 word \<Rightarrow> string" where
  "output_text n =
     ''Stopping: the last '' @ dec_nat (unat n) @
     '' iterations produced the IDENTICAL response and tool call with no change '' @ em_dash @
     '' the run is stuck repeating the same step without making progress. Re-issuing it will not '' @
     ''help. Summarise what (if anything) was actually accomplished and report that the task could '' @
     ''not progress, or take a genuinely different approach.''"

definition record_output :: "(string \<Rightarrow> 64 word) \<Rightarrow> string \<Rightarrow> output_guard \<Rightarrow> string option \<times> output_guard" where
  "record_output hash signature g =
     (let h = hash signature;
          g' = (if last_hash g = Some h then g\<lparr>og_consecutive := og_consecutive g + 1\<rparr>
                else g\<lparr>last_hash := Some h, og_consecutive := 1\<rparr>)
      in if REPEAT_OUTPUT_THRESHOLD \<le> og_consecutive g' then (Some (output_text (og_consecutive g')), g')
         else (None, g'))"

section \<open>The history of calls\<close>

record tool_outcome =
  to_tool :: string
  to_args :: string
  to_success :: bool
  to_result :: string

definition record_outcome :: "tool_outcome \<Rightarrow> failure_guard \<Rightarrow> string option \<times> failure_guard" where
  "record_outcome e g = record_failure (to_tool e) (to_args e) (to_success e) (to_result e) g"

definition guard_after :: "tool_outcome list \<Rightarrow> failure_guard" where
  "guard_after h = foldl (\<lambda>g e. snd (record_outcome e g)) failure_guard_new h"

definition outcome_sig :: "tool_outcome \<Rightarrow> string" where
  "outcome_sig e = call_sig (to_tool e) (to_args e)"

text \<open>How often a call has failed so far, and how many calls have failed in a row.\<close>

definition failures_of :: "string \<Rightarrow> tool_outcome list \<Rightarrow> nat" where
  "failures_of k h = length (filter (\<lambda>e. \<not> to_success e \<and> outcome_sig e = k) h)"

definition failing_run :: "tool_outcome list \<Rightarrow> nat" where
  "failing_run h = length (takeWhile (\<lambda>e. \<not> to_success e) (rev h))"

lemma failures_of_snoc [simp]:
  "failures_of k (h @ [e]) = failures_of k h + (if \<not> to_success e \<and> outcome_sig e = k then 1 else 0)"
  by (simp add: failures_of_def)

lemma failing_run_snoc [simp]:
  "failing_run (h @ [e]) = (if to_success e then 0 else Suc (failing_run h))"
  by (simp add: failing_run_def)

lemma failures_of_Nil [simp]: "failures_of k [] = 0"
  by (simp add: failures_of_def)

lemma failing_run_Nil [simp]: "failing_run [] = 0"
  by (simp add: failing_run_def)

lemma failures_of_le: "failures_of k h \<le> length h"
  by (simp add: failures_of_def)

lemma failing_run_le: "failing_run h \<le> length h"
  unfolding failing_run_def by (metis length_rev length_takeWhile_le)

lemma guard_after_snoc [simp]: "guard_after (h @ [e]) = snd (record_outcome e (guard_after h))"
  by (simp add: guard_after_def)

definition count_of :: "failure_guard \<Rightarrow> string \<Rightarrow> 32 word" where
  "count_of g k = (case sig_counts g k of None \<Rightarrow> 0 | Some c \<Rightarrow> c)"

lemma record_failure_state:
  "snd (record_failure tool args ok r g) =
     (if ok then g\<lparr>fg_consecutive := 0\<rparr>
      else g\<lparr>fg_consecutive := fg_consecutive g + 1,
             sig_counts := (sig_counts g)(call_sig tool args \<mapsto> count_of g (call_sig tool args) + 1)\<rparr>)"
  by (simp add: record_failure_def count_of_def Let_def)

lemma guard_counts:
  "count_of (guard_after h) k = word_of_nat (failures_of k h)"
  "fg_consecutive (guard_after h) = word_of_nat (failing_run h)"
proof (induction h rule: rev_induct)
  case Nil
  { case 1 then show ?case by (simp add: guard_after_def failure_guard_new_def count_of_def) }
  { case 2 then show ?case by (simp add: guard_after_def failure_guard_new_def) }
next
  case (snoc e h)
  { case 1 then show ?case
      using snoc by (auto simp: record_outcome_def record_failure_state count_of_def outcome_sig_def
          split: option.splits) }
  { case 2 then show ?case
      using snoc by (simp add: record_outcome_def record_failure_state) }
qed

definition repeat_limit :: "tool_outcome \<Rightarrow> nat" where
  "repeat_limit e = (if hard_reject_kind (to_result e) \<noteq> None then 2 else 3)"

lemma record_trips:
  "fst (record_outcome e g) \<noteq> None \<longleftrightarrow>
     \<not> to_success e \<and>
     ((if hard_reject_kind (to_result e) \<noteq> None then 2 else 3) \<le> count_of g (outcome_sig e) + 1
      \<or> 6 \<le> fg_consecutive g + 1)"
  by (simp add: record_outcome_def record_failure_def Let_def count_of_def outcome_sig_def
      HARD_REJECT_REPEAT_THRESHOLD_def REPEAT_FAILURE_THRESHOLD_def NO_PROGRESS_FAILURE_THRESHOLD_def)

lemma le_of_nat32:
  assumes "n + 1 < 2 ^ 32"
  shows "(2 \<le> (word_of_nat n :: 32 word) + 1) = (2 \<le> n + 1)"
    and "(3 \<le> (word_of_nat n :: 32 word) + 1) = (3 \<le> n + 1)"
    and "(4 \<le> (word_of_nat n :: 32 word) + 1) = (4 \<le> n + 1)"
    and "(6 \<le> (word_of_nat n :: 32 word) + 1) = (6 \<le> n + 1)"
proof -
  have "(word_of_nat n :: 32 word) + 1 = word_of_nat (n + 1)" by simp
  moreover have "unat (word_of_nat (n + 1) :: 32 word) = n + 1"
    using assms by (simp only: unat_of_nat) (simp add: take_bit_nat_eq_self)
  ultimately have u: "unat ((word_of_nat n :: 32 word) + 1) = n + 1" by (simp only:)
  show "(2 \<le> (word_of_nat n :: 32 word) + 1) = (2 \<le> n + 1)"
    "(3 \<le> (word_of_nat n :: 32 word) + 1) = (3 \<le> n + 1)"
    "(4 \<le> (word_of_nat n :: 32 word) + 1) = (4 \<le> n + 1)"
    "(6 \<le> (word_of_nat n :: 32 word) + 1) = (6 \<le> n + 1)"
    by (simp_all only: word_le_nat_alt u) simp_all
qed

lemma le_word_of_nat32:
  "n < 2 ^ 32 \<Longrightarrow> (4 \<le> (word_of_nat n :: 32 word)) = (4 \<le> n)"
  by (simp add: word_le_nat_alt unat_of_nat take_bit_nat_eq_self)

lemma trips_rule:
  assumes "length h + 1 < 2 ^ 32"
  shows "fst (record_outcome e (guard_after h)) \<noteq> None \<longleftrightarrow>
    \<not> to_success e \<and>
    (repeat_limit e \<le> failures_of (outcome_sig e) h + 1 \<or> 6 \<le> failing_run h + 1)"
proof -
  have b: "failures_of (outcome_sig e) h + 1 < 2 ^ 32" "failing_run h + 1 < 2 ^ 32"
    using assms failures_of_le[of "outcome_sig e" h] failing_run_le[of h] by simp_all
  show ?thesis
    unfolding record_trips guard_counts repeat_limit_def
    by (simp only: le_of_nat32[OF b(1)] le_of_nat32[OF b(2)] split: if_split) auto
qed

text \<open>The failure guard implements its rule over the history of the turn, for turns of fewer
  than \<open>2 ^ 32\<close> calls: a call trips it exactly when it fails and either the same call has
  failed twice before (once, if this result is a policy rejection) or the five calls before it
  failed as well.  Successes in between do not reset the first count.
\<close>

theorem failure_guard_rule:
  assumes "length h + 1 < 2 ^ 32"
  shows "fst (record_outcome e (guard_after h)) \<noteq> None \<longleftrightarrow>
    \<not> to_success e \<and>
    (repeat_limit e \<le> failures_of (outcome_sig e) h + 1 \<or> 6 \<le> failing_run h + 1)"
  using assms by (rule trips_rule)

definition demo_outcome :: "bool \<Rightarrow> string \<Rightarrow> tool_outcome" where
  "demo_outcome ok r = \<lparr>to_tool = ''shell'', to_args = ''pip install x'', to_success = ok, to_result = r\<rparr>"

theorem failure_guard_rule_witness:
  "let e = demo_outcome False ''not found''; h = [e, demo_outcome True [], e]
   in fst (record_outcome e (guard_after h)) \<noteq> None \<longleftrightarrow>
      \<not> to_success e \<and> (repeat_limit e \<le> failures_of (outcome_sig e) h + 1 \<or> 6 \<le> failing_run h + 1)"
  unfolding Let_def by (rule failure_guard_rule) simp

text \<open>A turn that the guard has not stopped.\<close>

fun untripped :: "failure_guard \<Rightarrow> tool_outcome list \<Rightarrow> bool" where
  "untripped g [] = True"
| "untripped g (e # es) = (fst (record_outcome e g) = None \<and> untripped (snd (record_outcome e g)) es)"

lemma untripped_append:
  "untripped g (xs @ ys) \<longleftrightarrow> untripped g xs \<and> untripped (foldl (\<lambda>g e. snd (record_outcome e g)) g xs) ys"
  by (induction xs arbitrary: g) auto

lemma untripped_snoc:
  "untripped failure_guard_new (h @ [e]) \<longleftrightarrow>
     untripped failure_guard_new h \<and> fst (record_outcome e (guard_after h)) = None"
  by (simp add: untripped_append guard_after_def)

lemma untripped_bounds:
  assumes "untripped failure_guard_new h" and "length h < 2 ^ 32"
  shows "failures_of k h \<le> 2 \<and> failing_run h \<le> 5"
  using assms
proof (induction h rule: rev_induct)
  case (snoc e h)
  then have none: "fst (record_outcome e (guard_after h)) = None"
    and IH: "failures_of k h \<le> 2 \<and> failing_run h \<le> 5" by (simp_all add: untripped_snoc)
  have "length h + 1 < 2 ^ 32" using snoc.prems by simp
  from trips_rule[OF this, of e] none
  have "to_success e \<or> failures_of (outcome_sig e) h + 1 < repeat_limit e \<and> failing_run h + 1 < 6" by auto
  moreover have "repeat_limit e \<le> 3" by (simp add: repeat_limit_def)
  ultimately show ?case using IH by auto
qed simp

text \<open>A turn the guard lets continue is bounded: no call has failed more than twice, and at
  most five calls in a row have failed.
\<close>

theorem guard_bounds_failures:
  assumes "untripped failure_guard_new h" and "length h < 2 ^ 32"
  shows "failures_of k h \<le> 2 \<and> failing_run h \<le> 5"
  using assms by (rule untripped_bounds)

theorem guard_bounds_failures_witness:
  "let h = [demo_outcome False ''not found'', demo_outcome True [], demo_outcome False ''not found'']
   in failures_of ''shell|pip install x'' h \<le> 2 \<and> failing_run h \<le> 5"
  unfolding Let_def by (rule guard_bounds_failures, code_simp, simp)

section \<open>Policy rejections\<close>

lemma hard_reject_iff:
  "hard_reject_kind r \<noteq> None \<longleftrightarrow> sublist POLICY_BLOCKED_MARKER r \<or> sublist POLICY_DENIED_MARKER r"
  by (simp add: hard_reject_kind_def)

lemma marked_is_hard:
  "hard_reject_kind (p @ POLICY_BLOCKED_MARKER @ q) \<noteq> None"
  "hard_reject_kind (p @ POLICY_DENIED_MARKER @ q) \<noteq> None"
  unfolding hard_reject_iff using sublist_appendI by blast+

lemma hard_reject_trips:
  assumes "length h + 1 < 2 ^ 32" and "\<not> to_success e" and "hard_reject_kind (to_result e) \<noteq> None"
    and "0 < failures_of (outcome_sig e) h"
  shows "fst (record_outcome e (guard_after h)) \<noteq> None"
  using trips_rule[OF assms(1), of e] assms by (simp add: repeat_limit_def)

section \<open>The text of a halt\<close>

lemma char_count_append [simp]: "char_count (s @ t) = char_count s + char_count t"
  by (simp add: char_count_def)

lemma char_count_take: "char_count (take_chars n s) \<le> n"
proof (induction n s rule: take_chars.induct)
  case (2 n c cs)
  then show ?case by (auto simp: char_count_def split: nat.splits)
qed (simp add: char_count_def)

lemma truncate_for_halt_bound: "char_count (truncate_for_halt s) \<le> 614"
  using char_count_take[of 600 s]
  by (auto simp: truncate_for_halt_def ellipsis_def) (simp add: char_count_def is_continuation_def byte_def)?

section \<open>Repeated output\<close>

definition output_after :: "(string \<Rightarrow> 64 word) \<Rightarrow> string list \<Rightarrow> output_guard" where
  "output_after hash h = foldl (\<lambda>g s. snd (record_output hash s g)) output_guard_new h"

definition same_run :: "(string \<Rightarrow> 64 word) \<Rightarrow> string list \<Rightarrow> nat" where
  "same_run hash h = length (takeWhile (\<lambda>s. hash s = hash (last h)) (rev h))"

lemma length_takeWhile_ge:
  "n \<le> length (takeWhile p xs) \<longleftrightarrow> n \<le> length xs \<and> (\<forall>x \<in> set (take n xs). p x)"
proof (induction xs arbitrary: n)
  case (Cons x xs)
  then show ?case by (cases n) auto
qed simp

lemma same_run_snoc:
  "same_run hash (h @ [s]) = (if h \<noteq> [] \<and> hash (last h) = hash s then Suc (same_run hash h) else 1)"
  by (cases h rule: rev_cases) (auto simp: same_run_def)

lemma output_after_snoc: "output_after hash (h @ [s]) = snd (record_output hash s (output_after hash h))"
  by (simp add: output_after_def)

lemma output_state:
  "last_hash (output_after hash h) = (if h = [] then None else Some (hash (last h)))
   \<and> og_consecutive (output_after hash h) = word_of_nat (same_run hash h)"
proof (induction h rule: rev_induct)
  case Nil
  show ?case by (simp add: output_after_def output_guard_new_def same_run_def)
next
  case (snoc s h)
  then show ?case
    by (auto simp: output_after_snoc record_output_def Let_def same_run_snoc)
qed

text \<open>The output guard halts exactly when the last four outputs of a turn of fewer than
  \<open>2 ^ 32\<close> iterations have one hash.
\<close>

theorem output_guard_rule:
  assumes "length h + 1 < 2 ^ 32"
  shows "fst (record_output hash s (output_after hash h)) \<noteq> None \<longleftrightarrow>
    3 \<le> length h \<and> (\<forall>t \<in> set (drop (length h - 3) h). hash t = hash s)"
proof -
  let ?n = "same_run hash (h @ [s])"
  have n: "?n \<le> length h + 1"
    unfolding same_run_def by (metis length_append_singleton length_rev length_takeWhile_le Suc_eq_plus1)
  have "fst (record_output hash s (output_after hash h)) \<noteq> None \<longleftrightarrow> 4 \<le> og_consecutive (output_after hash (h @ [s]))"
    by (simp add: output_after_snoc record_output_def Let_def REPEAT_OUTPUT_THRESHOLD_def)
  also have "\<dots> \<longleftrightarrow> 4 \<le> ?n"
    using output_state[of hash "h @ [s]"] n assms by (simp add: le_word_of_nat32 del: of_nat_Suc)
  also have "\<dots> \<longleftrightarrow> 3 \<le> length (takeWhile (\<lambda>t. hash t = hash s) (rev h))"
    by (simp add: same_run_def)
  also have "\<dots> \<longleftrightarrow> 3 \<le> length h \<and> (\<forall>t \<in> set (take 3 (rev h)). hash t = hash s)"
    by (simp add: length_takeWhile_ge)
  also have "take 3 (rev h) = rev (drop (length h - 3) h)" by (simp add: take_rev)
  finally show ?thesis by simp
qed

theorem output_guard_rule_witness:
  "fst (record_output (\<lambda>s. word_of_nat (length s)) ''again''
       (output_after (\<lambda>s. word_of_nat (length s)) [''again'', ''again'', ''again''])) \<noteq> None \<longleftrightarrow>
    3 \<le> length [''again'', ''again'', ''again''] \<and>
    (\<forall>t \<in> set (drop (length [''again'', ''again'', ''again''] - 3) [''again'', ''again'', ''again'']).
       (word_of_nat (length t) :: 64 word) = word_of_nat (length ''again''))"
  by (rule output_guard_rule) simp

end
