(* ===== verification/Rust_Path.thy ===== *)
theory Rust_Path
  imports Prelude Rust_Str
begin

text \<open>
  The parts of \<open>std::path\<close> on Unix that the path checks use.  A path is its bytes; all
  comparisons go through its components, in which repeated separators and the component \<open>.\<close>
  (except at the start of a relative path) do not appear.
\<close>

section \<open>Components\<close>

datatype path_component = Root_Dir | Cur_Dir | Parent_Dir | Normal string

definition is_sep :: "char \<Rightarrow> bool" where
  "is_sep c = (c = CHR ''/'')"

definition component_of :: "string \<Rightarrow> path_component list" where
  "component_of part =
     (if part = [] \<or> part = ''.'' then [] else if part = ''..'' then [Parent_Dir] else [Normal part])"

definition is_absolute :: "string \<Rightarrow> bool" where
  "is_absolute s = prefix ''/'' s"

definition path_components :: "string \<Rightarrow> path_component list" where
  "path_components s =
     (let parts = split_on is_sep s
      in (if is_absolute s then [Root_Dir]
          else if hd parts = ''.'' then [Cur_Dir] else component_of (hd parts))
         @ concat (map component_of (tl parts)))"

text \<open>\<open>Path::starts_with\<close>, \<open>file_name\<close>, \<open>join\<close> and \<open>parent\<close>.\<close>

definition starts_with :: "string \<Rightarrow> string \<Rightarrow> bool" where
  "starts_with s base = prefix (path_components base) (path_components s)"

definition file_name :: "string \<Rightarrow> string option" where
  "file_name s =
     (if path_components s = [] then None
      else case last (path_components s) of Normal n \<Rightarrow> Some n | _ \<Rightarrow> None)"

definition path_join :: "string \<Rightarrow> string \<Rightarrow> string" where
  "path_join base s =
     (if is_absolute s then s
      else if base = [] \<or> is_sep (last base) then base @ s
      else base @ ''/'' @ s)"

text \<open>
  A parent is the shortest prefix of the bytes with all components but the last, which is the
  slice \<open>as_path\<close> returns: trailing separators and dots are trimmed.
\<close>

definition parent_path :: "string \<Rightarrow> string option" where
  "parent_path s =
     (if path_components s = [] \<or> last (path_components s) = Root_Dir then None
      else find (\<lambda>q. path_components q = butlast (path_components s)) (prefixes s))"

text \<open>\<open>strip_prefix\<close>: the bytes after the components of the base, trimmed at both ends.\<close>

definition strip_path_prefix :: "string \<Rightarrow> string \<Rightarrow> string option" where
  "strip_path_prefix s base =
     (if starts_with s base
      then (let rest = drop (length (path_components base)) (path_components s)
            in case find (\<lambda>q. path_components q = rest) (suffixes s) of
                 None \<Rightarrow> None
               | Some q \<Rightarrow> find (\<lambda>r. path_components r = rest) (prefixes q))
      else None)"

section \<open>Facts\<close>

lemma starts_with_refl [simp]: "starts_with s s"
  by (simp add: starts_with_def)

lemma starts_with_trans: "starts_with a b \<Longrightarrow> starts_with b c \<Longrightarrow> starts_with a c"
  by (auto simp: starts_with_def intro: prefix_order.trans)

lemma parent_path_shorter:
  assumes "parent_path s = Some q" shows "length q < length s"
proof -
  from assms have ne: "path_components s \<noteq> []" and q: "q \<in> set (prefixes s)"
    and c: "path_components q = butlast (path_components s)"
    by (auto simp: parent_path_def dest: find_Some_set split: if_splits)
  from ne c have "q \<noteq> s" by (metis append_butlast_last_id append_self_conv list.discI)
  with q show ?thesis by (metis in_set_prefixes prefix_length_less prefix_order.le_imp_less_or_eq)
qed

lemma parent_path_components:
  "parent_path s = Some q \<Longrightarrow> path_components s = path_components q @ [last (path_components s)]"
  by (auto simp: parent_path_def dest!: find_Some_set split: if_splits)

lemma starts_with_parent: "parent_path s = Some q \<Longrightarrow> starts_with s q"
  using parent_path_components[of s q] by (metis prefixI starts_with_def)

lemma split_on_append_sep:
  "p c \<Longrightarrow> split_on p (s @ c # t) = split_on p s @ split_on p t"
proof (induction s)
  case (Cons a s)
  then show ?case using split_on_not_Nil[of p s] by (cases "split_on p s") auto
qed simp

lemma component_of_Nil [simp]: "component_of [] = []"
  by (simp add: component_of_def)

lemma split_on_Nil_sep [simp]: "split_on p [] = [[]]"
  by simp

lemma abs_hd: "is_absolute s \<Longrightarrow> hd (split_on is_sep s) = []"
  by (auto simp: is_absolute_def is_sep_def prefix_def)

text \<open>The components of a path that does not start with a dot, in one equation.\<close>

definition plain_components :: "string \<Rightarrow> path_component list" where
  "plain_components s = concat (map component_of (split_on is_sep s))"

lemma path_components_plain:
  "is_absolute s \<Longrightarrow> path_components s = Root_Dir # plain_components s"
  "\<not> is_absolute s \<Longrightarrow> hd (split_on is_sep s) \<noteq> ''.'' \<Longrightarrow> path_components s = plain_components s"
  using split_on_not_Nil[of is_sep s]
  by (cases "split_on is_sep s"; auto simp: path_components_def plain_components_def Let_def dest: abs_hd)+

lemma path_components_dot:
  "\<not> is_absolute s \<Longrightarrow> hd (split_on is_sep s) = ''.'' \<Longrightarrow>
   path_components s = Cur_Dir # plain_components s"
  using split_on_not_Nil[of is_sep s]
  by (cases "split_on is_sep s") (auto simp: path_components_def plain_components_def component_of_def)

lemma path_components_cases:
  "path_components s = plain_components s \<or> path_components s = Root_Dir # plain_components s
   \<or> path_components s = Cur_Dir # plain_components s"
  using path_components_plain path_components_dot by blast

lemma plain_components_sep:
  "is_sep c \<Longrightarrow> plain_components (s @ c # t) = plain_components s @ plain_components t"
  by (simp add: plain_components_def split_on_append_sep)

lemma component_of_normal: "c \<in> set (component_of p) \<Longrightarrow> c = Parent_Dir \<or> (\<exists>n. c = Normal n)"
  by (auto simp: component_of_def split: if_splits)

lemma plain_no_root: "Root_Dir \<notin> set (plain_components s)" "Cur_Dir \<notin> set (plain_components s)"
  by (auto simp: plain_components_def dest!: component_of_normal)

lemma plain_components_last_sep: "is_sep c \<Longrightarrow> plain_components (s @ [c]) = plain_components s"
  using plain_components_sep[of c s "[]"] by (simp add: plain_components_def)

lemma is_absolute_append: "is_absolute s \<Longrightarrow> is_absolute (s @ t)"
  by (simp add: is_absolute_def prefix_prefix)

lemma absolute_root: "is_absolute s \<longleftrightarrow> Root_Dir \<in> set (path_components s)"
  using path_components_plain path_components_dot plain_no_root[of s] by (cases "is_absolute s") fastforce+

lemma path_components_join:
  assumes "is_absolute base" and "\<not> is_absolute s"
  shows "path_components (path_join base s) = path_components base @ plain_components s"
proof -
  have ne: "base \<noteq> []" using assms(1) by (auto simp: is_absolute_def)
  have sep: "is_sep (CHR ''/'')" by (simp add: is_sep_def)
  show ?thesis
  proof (cases "is_sep (last base)")
    case True
    obtain b where b: "base = b @ [last base]" using ne by (metis append_butlast_last_id)
    have "plain_components (base @ s) = plain_components base @ plain_components s"
      using plain_components_sep[OF True, of b s] plain_components_last_sep[OF True, of b] b
      by (metis append.assoc append_Cons append_Nil)
    with True assms show ?thesis
      by (simp add: path_join_def path_components_plain is_absolute_append)
  next
    case False
    have "plain_components (base @ CHR ''/'' # s) = plain_components base @ plain_components s"
      by (rule plain_components_sep[OF sep])
    with False ne assms show ?thesis
      by (simp add: path_join_def path_components_plain is_absolute_append)
  qed
qed

lemma starts_with_join: "is_absolute base \<Longrightarrow> \<not> is_absolute s \<Longrightarrow> starts_with (path_join base s) base"
  by (simp add: starts_with_def path_components_join)

lemma is_absolute_join: "is_absolute base \<Longrightarrow> is_absolute (path_join base s)"
  by (simp add: path_join_def is_absolute_append)

lemma strip_path_prefix_relative:
  assumes "strip_path_prefix s base = Some r" and "path_components base \<noteq> []"
  shows "\<not> is_absolute r"
proof -
  have r: "path_components r = drop (length (path_components base)) (path_components s)"
    using assms(1) by (auto simp: strip_path_prefix_def Let_def split: if_splits option.splits dest!: find_Some_set)
  obtain n where "length (path_components base) = Suc n" using assms(2) by (cases "path_components base") auto
  then have "set (path_components r) \<subseteq> set (tl (path_components s))"
    unfolding r by (simp add: drop_Suc set_drop_subset)
  moreover have "set (tl (path_components s)) \<subseteq> set (plain_components s)"
    using path_components_cases[of s] by (elim disjE) (cases "plain_components s"; simp; blast)+
  then have "Root_Dir \<notin> set (tl (path_components s))" using plain_no_root(1) by blast
  ultimately show ?thesis unfolding absolute_root by blast
qed

lemma normal_component:
  assumes "Normal n \<in> set (path_components p)"
  shows "\<not> is_absolute n \<and> plain_components n = [Normal n]"
proof -
  have "Normal n \<in> set (plain_components p)" using assms path_components_cases[of p] by (elim disjE) simp_all
  then have n: "n \<in> set (split_on is_sep p)" "n \<noteq> []" "n \<noteq> ''.''" "n \<noteq> ''..''"
    by (auto simp: plain_components_def component_of_def split: if_splits)
  have ns: "\<forall>c \<in> set n. \<not> is_sep c" using split_on_no_sep[OF n(1)] by blast
  then have "\<not> is_absolute n" by (cases n) (auto simp: is_absolute_def is_sep_def)
  moreover have "split_on is_sep n = [n]" using ns by (rule split_on_id)
  ultimately show ?thesis using n by (simp add: plain_components_def component_of_def)
qed

end
