(* ===== verification/Path_Policy.thy ===== *)
theory Path_Policy
  imports Policy_Types Rust_Path
begin

text \<open>
  The path checks of the security policy (\<open>src/openhuman/security/policy/path_checks.rs\<close>,
  \<open>expand_tilde\<close> of the configuration, \<open>validate_path_within_root\<close> of the enforcement).  What
  the operating system answers is the record \<open>file_system\<close>: the canonical form of a path or
  an error, whether a path exists, the home directory of the user and the variable \<open>HOME\<close>.
\<close>

section \<open>The operating system\<close>

record file_system =
  fs_canon :: "string \<Rightarrow> string + string"
  fs_exists :: "string \<Rightarrow> bool"
  fs_home_dir :: "string option"
  fs_home_var :: "string option"

definition canonicalize_or_self :: "file_system \<Rightarrow> string \<Rightarrow> string" where
  "canonicalize_or_self fs p = (case fs_canon fs p of Inl e \<Rightarrow> p | Inr c \<Rightarrow> c)"

definition expand_tilde :: "file_system \<Rightarrow> string \<Rightarrow> string" where
  "expand_tilde fs path =
     (case strip_prefix ''~/'' path of
        None \<Rightarrow> path
      | Some rest \<Rightarrow>
          (case fs_home_dir fs of
             None \<Rightarrow> path
           | Some home \<Rightarrow>
               foldl (\<lambda>out part. if part = [] then out else path_join out part) home
                 (split_on is_sep rest)))"

section \<open>Paths that are always forbidden\<close>

definition SENSITIVE_COMPONENTS :: "string list" where
  "SENSITIVE_COMPONENTS = [''.ssh'', ''.gnupg'', ''.aws'', ''.azure'', ''.kube'', ''keychains'']"

definition SYSTEM_PREFIXES :: "string list" where
  "SYSTEM_PREFIXES =
     [''/etc'', ''/root'', ''/boot'', ''/proc'', ''/sys'', ''/system'', ''c:/windows'',
      ''c:/program files'', ''c:/program files (x86)'', ''c:/programdata'']"

text \<open>The lower-cased string with backslashes turned into slashes, and its segments.\<close>

definition normalise_separators :: "string \<Rightarrow> string" where
  "normalise_separators s =
     map (\<lambda>c. if c = CHR 0x5C then CHR ''/'' else c) (to_ascii_lowercase s)"

fun windows_pair :: "(string \<Rightarrow> string \<Rightarrow> bool) \<Rightarrow> string list \<Rightarrow> bool" where
  "windows_pair p (a # b # rest) = (p a b \<or> windows_pair p (b # rest))"
| "windows_pair p _ = False"

definition is_always_forbidden :: "string \<Rightarrow> bool" where
  "is_always_forbidden path =
     (let lc_path = normalise_separators path;
          segments = filter (\<lambda>s. s \<noteq> []) (split_on is_sep lc_path)
      in if list_ex (\<lambda>s. s \<in> set SENSITIVE_COMPONENTS) segments then True
         else if windows_pair (\<lambda>a b. a = ''microsoft'' \<and>
                   b \<in> {''protect'', ''credentials'', ''crypto'', ''vault''}) segments then True
         else list_ex (\<lambda>p. lc_path = p \<or> prefix (p @ ''/'') lc_path) SYSTEM_PREFIXES)"

definition is_within_trusted_root :: "file_system \<Rightarrow> security_policy \<Rightarrow> string \<Rightarrow> bool \<Rightarrow> bool" where
  "is_within_trusted_root fs policy path require_write =
     (if is_always_forbidden path then False
      else list_ex (\<lambda>root.
             if require_write \<and> tr_access root \<noteq> Access_ReadWrite then False
             else (let root_path = expand_tilde fs (tr_path root)
                   in starts_with path root_path
                      \<or> starts_with path (canonicalize_or_self fs root_path)))
           (trusted_roots policy))"

definition is_resolved_path_allowed_for :: "file_system \<Rightarrow> security_policy \<Rightarrow> string \<Rightarrow> bool \<Rightarrow> bool" where
  "is_resolved_path_allowed_for fs policy resolved require_write =
     (if is_always_forbidden resolved then False
      else starts_with resolved (canonicalize_or_self fs (workspace_dir policy))
           \<or> is_within_trusted_root fs policy resolved require_write)"

definition is_resolved_path_allowed :: "file_system \<Rightarrow> security_policy \<Rightarrow> string \<Rightarrow> bool" where
  "is_resolved_path_allowed fs policy resolved = is_resolved_path_allowed_for fs policy resolved False"

definition is_workspace_internal_path :: "file_system \<Rightarrow> security_policy \<Rightarrow> string \<Rightarrow> bool" where
  "is_workspace_internal_path fs policy path =
     (let (ws, check_path) =
            (case (fs_canon fs (workspace_dir policy), fs_canon fs path) of
               (Inr w, Inr p) \<Rightarrow> (w, p)
             | _ \<Rightarrow> (workspace_dir policy, path));
          relative = drop (length (path_components ws)) (path_components check_path)
      in if \<not> starts_with check_path ws then False
         else case relative of
                Normal s # rest \<Rightarrow>
                  s \<in> set WORKSPACE_INTERNAL_DIRS \<or> rest = [] \<and> s \<in> set WORKSPACE_INTERNAL_FILES
              | _ \<Rightarrow> False)"

section \<open>The check of the path as a string\<close>

definition try_canonicalize_under_workspace :: "file_system \<Rightarrow> security_policy \<Rightarrow> string \<Rightarrow> string option" where
  "try_canonicalize_under_workspace fs policy path =
     (case (case strip_prefix ''~/'' path of
              Some stripped \<Rightarrow> map_option (\<lambda>h. path_join h stripped) (fs_home_var fs)
            | None \<Rightarrow> Some path) of
        None \<Rightarrow> None
      | Some expanded \<Rightarrow>
          (let absolute = (if is_absolute expanded then expanded
                           else path_join (workspace_dir policy) expanded)
           in case fs_canon fs absolute of
                Inr canonical \<Rightarrow> Some canonical
              | Inl e \<Rightarrow>
                  (case (parent_path absolute, file_name absolute) of
                     (Some parent, Some name) \<Rightarrow>
                       (case fs_canon fs parent of Inl e' \<Rightarrow> None | Inr p \<Rightarrow> Some (path_join p name))
                   | _ \<Rightarrow> None)))"

text \<open>An entry of \<open>forbidden_paths\<close> as the check of the canonical path resolves it.\<close>

definition forbidden_canonical :: "file_system \<Rightarrow> string \<Rightarrow> string" where
  "forbidden_canonical fs forbidden =
     canonicalize_or_self fs
       (case strip_prefix ''~/'' forbidden of
          Some stripped \<Rightarrow>
            (case fs_home_var fs of None \<Rightarrow> forbidden | Some h \<Rightarrow> path_join h stripped)
        | None \<Rightarrow> forbidden)"

definition canonical_allowed :: "file_system \<Rightarrow> security_policy \<Rightarrow> string \<Rightarrow> bool" where
  "canonical_allowed fs policy canonical =
     (if is_always_forbidden canonical then False
      else
        (let workspace_root = canonicalize_or_self fs (workspace_dir policy);
             canonical_in_trusted = is_within_trusted_root fs policy canonical False;
             inside_workspace = starts_with canonical workspace_root
         in if workspace_only policy \<and> \<not> inside_workspace \<and> \<not> canonical_in_trusted then False
            else if \<not> inside_workspace \<and> \<not> canonical_in_trusted
            then \<not> list_ex (\<lambda>f. starts_with canonical (forbidden_canonical fs f)) (forbidden_paths policy)
            else True))"

text \<open>
  The check for an encoded traversal lower-cases the path; no character outside ASCII has a
  lower case among the characters it searches for, so the ASCII table is enough.
\<close>

definition has_encoded_traversal :: "string \<Rightarrow> bool" where
  "has_encoded_traversal path =
     (let lower = to_ascii_lowercase path in sublist ''..%2f'' lower \<or> sublist ''%2f..'' lower)"

definition is_path_string_allowed :: "file_system \<Rightarrow> security_policy \<Rightarrow> string \<Rightarrow> bool" where
  "is_path_string_allowed fs policy path =
     (if CHR 0x00 \<in> set path then False
      else if Parent_Dir \<in> set (path_components path) then False
      else if has_encoded_traversal path then False
      else
        (let expanded = expand_tilde fs path
         in if is_always_forbidden expanded then False
            else
              (let in_trusted_root = is_within_trusted_root fs policy expanded False;
                   check = (if is_absolute expanded then expanded
                            else path_join (workspace_dir policy) expanded)
               in if \<not> in_trusted_root \<and> is_workspace_internal_path fs policy check then False
                  else if workspace_only policy \<and> is_absolute expanded \<and> \<not> in_trusted_root then False
                  else if \<not> in_trusted_root \<and>
                          list_ex (\<lambda>f. starts_with expanded (expand_tilde fs f)) (forbidden_paths policy)
                  then False
                  else case try_canonicalize_under_workspace fs policy path of
                         None \<Rightarrow> True
                       | Some canonical \<Rightarrow> canonical_allowed fs policy canonical)))"

section \<open>The validators\<close>

datatype path_error =
  Path_Not_Allowed string | Path_Unresolved string string | Path_Escapes string
| Path_Protected string | Path_Forbidden string | Path_No_Parent string | Path_No_File_Name string
| Path_Parent_Unresolved string string | Path_Parent_Escapes string

fun path_error_text :: "path_error \<Rightarrow> string" where
  "path_error_text (Path_Not_Allowed path) =
     POLICY_BLOCKED_MARKER @ '' Path not allowed by security policy: '' @ path @
     ''. Do not retry this path; use an allowed location (the workspace or a granted folder).''"
| "path_error_text (Path_Unresolved path e) =
     ''Failed to resolve path '' @ [CHR 0x27] @ path @ [CHR 0x27] @ '': '' @ e"
| "path_error_text (Path_Escapes resolved) =
     POLICY_BLOCKED_MARKER @ '' Resolved path escapes workspace: '' @ resolved"
| "path_error_text (Path_Protected resolved) =
     POLICY_BLOCKED_MARKER @ '' Resolved path is a protected credential store: '' @ resolved"
| "path_error_text (Path_Forbidden dir) =
     POLICY_BLOCKED_MARKER @ '' Resolved path is inside a forbidden directory: '' @ dir"
| "path_error_text (Path_No_Parent path) = ''Invalid path (no parent): '' @ path"
| "path_error_text (Path_No_File_Name path) = ''Invalid path (no filename): '' @ path"
| "path_error_text (Path_Parent_Unresolved path e) =
     ''Failed to resolve parent of '' @ [CHR 0x27] @ path @ [CHR 0x27] @ '': '' @ e"
| "path_error_text (Path_Parent_Escapes resolved) =
     POLICY_BLOCKED_MARKER @ '' Resolved parent path escapes workspace: '' @ resolved"

text \<open>
  \<open>workspace_root\<close> resolves the workspace on the first call and keeps the answer in a cell,
  the argument \<open>cell\<close>, for the life of the policy.
\<close>

type_synonym root_cell = "string option"

definition workspace_root :: "file_system \<Rightarrow> security_policy \<Rightarrow> root_cell \<Rightarrow> string \<times> root_cell" where
  "workspace_root fs policy cell =
     (case cell of
        Some r \<Rightarrow> (r, cell)
      | None \<Rightarrow> (let r = canonicalize_or_self fs (workspace_dir policy) in (r, Some r)))"

text \<open>The loop over \<open>forbidden_paths\<close> in \<open>check_resolved_against_forbidden\<close>.\<close>

fun check_forbidden_entries :: "file_system \<Rightarrow> string \<Rightarrow> string \<Rightarrow> string list \<Rightarrow> path_error + unit" where
  "check_forbidden_entries fs resolved root [] = Inr ()"
| "check_forbidden_entries fs resolved root (f # fs') =
     (let forbidden_path = expand_tilde fs f
      in if is_absolute forbidden_path \<and> starts_with root forbidden_path
         then check_forbidden_entries fs resolved root fs'
         else
           (let forbidden_resolved = (if is_absolute forbidden_path then forbidden_path
                                      else path_join root forbidden_path)
            in if starts_with resolved forbidden_resolved then Inl (Path_Forbidden forbidden_resolved)
               else check_forbidden_entries fs resolved root fs'))"

definition check_resolved_against_forbidden ::
    "file_system \<Rightarrow> security_policy \<Rightarrow> string \<Rightarrow> string \<Rightarrow> path_error + unit" where
  "check_resolved_against_forbidden fs policy resolved root =
     (if is_always_forbidden resolved then Inl (Path_Protected resolved)
      else if is_within_trusted_root fs policy resolved False then Inr ()
      else check_forbidden_entries fs resolved root (forbidden_paths policy))"

definition action_path :: "file_system \<Rightarrow> security_policy \<Rightarrow> string \<Rightarrow> string" where
  "action_path fs policy path =
     (let expanded = expand_tilde fs path
      in if is_absolute expanded then expanded else path_join (action_dir policy) expanded)"

definition validate_path :: "file_system \<Rightarrow> security_policy \<Rightarrow> string \<Rightarrow> root_cell \<Rightarrow>
    (path_error + string) \<times> root_cell" where
  "validate_path fs policy path cell =
     (if \<not> is_path_string_allowed fs policy path then (Inl (Path_Not_Allowed path), cell)
      else
        (case fs_canon fs (action_path fs policy path) of
           Inl e \<Rightarrow> (Inl (Path_Unresolved path e), cell)
         | Inr resolved \<Rightarrow>
             (if \<not> is_resolved_path_allowed_for fs policy resolved False
              then (Inl (Path_Escapes resolved), cell)
              else
                (let (root, cell') = workspace_root fs policy cell
                 in case check_resolved_against_forbidden fs policy resolved root of
                      Inl e \<Rightarrow> (Inl e, cell')
                    | Inr u \<Rightarrow> (Inr resolved, cell')))))"

text \<open>The walk up to the deepest existing ancestor; it ends as every parent is shorter.\<close>

function existing_ancestor :: "file_system \<Rightarrow> string \<Rightarrow> string" where
  "existing_ancestor fs p =
     (if fs_exists fs p then p
      else case parent_path p of None \<Rightarrow> p | Some q \<Rightarrow> existing_ancestor fs q)"
  by pat_completeness auto
termination
  by (relation "measure (\<lambda>(fs, p). length p)") (auto dest: parent_path_shorter)

declare existing_ancestor.simps [simp del]

definition validate_parent_path :: "file_system \<Rightarrow> security_policy \<Rightarrow> string \<Rightarrow> root_cell \<Rightarrow>
    (path_error + string) \<times> root_cell" where
  "validate_parent_path fs policy path cell =
     (if \<not> is_path_string_allowed fs policy path then (Inl (Path_Not_Allowed path), cell)
      else
        (case parent_path (action_path fs policy path) of
           None \<Rightarrow> (Inl (Path_No_Parent path), cell)
         | Some parent \<Rightarrow>
             (case file_name (action_path fs policy path) of
                None \<Rightarrow> (Inl (Path_No_File_Name path), cell)
              | Some name \<Rightarrow>
                  (let ancestor = existing_ancestor fs parent
                   in case fs_canon fs ancestor of
                        Inl e \<Rightarrow> (Inl (Path_Parent_Unresolved path e), cell)
                      | Inr canonical_ancestor \<Rightarrow>
                          (if \<not> is_resolved_path_allowed_for fs policy canonical_ancestor True
                           then (Inl (Path_Parent_Escapes canonical_ancestor), cell)
                           else
                             (let suffix = (case strip_path_prefix parent ancestor of
                                              None \<Rightarrow> [] | Some s \<Rightarrow> s);
                                  result = path_join (path_join canonical_ancestor suffix) name;
                                  (root, cell') = workspace_root fs policy cell
                              in case check_resolved_against_forbidden fs policy canonical_ancestor root of
                                   Inl e \<Rightarrow> (Inl e, cell')
                                 | Inr u \<Rightarrow>
                                     (case check_resolved_against_forbidden fs policy result root of
                                        Inl e \<Rightarrow> (Inl e, cell')
                                      | Inr u' \<Rightarrow> (Inr result, cell'))))))))"

text \<open>\<open>validate_path_within_root\<close> of \<open>enforcement.rs\<close>.\<close>

datatype root_error = Root_Unresolved string | Candidate_Unresolved string string | Escapes_Root string string

fun root_error_text :: "root_error \<Rightarrow> string" where
  "root_error_text (Root_Unresolved e) = ''workspace root: '' @ e"
| "root_error_text (Candidate_Unresolved c e) = c @ '': '' @ e"
| "root_error_text (Escapes_Root r root) = ''path escapes root: '' @ r @ '' is not under '' @ root"

definition validate_path_within_root :: "file_system \<Rightarrow> string \<Rightarrow> string \<Rightarrow> root_error + string" where
  "validate_path_within_root fs candidate root =
     (case fs_canon fs root of
        Inl e \<Rightarrow> Inl (Root_Unresolved e)
      | Inr resolved_root \<Rightarrow>
          (case fs_canon fs candidate of
             Inl e \<Rightarrow> Inl (Candidate_Unresolved candidate e)
           | Inr resolved \<Rightarrow>
               (if \<not> starts_with resolved resolved_root then Inl (Escapes_Root resolved resolved_root)
                else Inr resolved)))"

end
