(* ===== verification/Path_Facts.thy ===== *)
theory Path_Facts
  imports Path_Policy
begin

text \<open>
  What the path checks guarantee: a path that is validated for reading is inside the workspace
  or a granted folder, one that is validated for writing is inside the workspace or a folder
  granted for writing, neither is ever a protected location, whatever the user grants, and
  protection reaches the whole subtree.  The last section holds the gaps.
\<close>

section \<open>What is documented of the operating system\<close>

text \<open>
  \<open>canonicalize\<close> answers an absolute path without \<open>..\<close>, and fails on the empty path.
\<close>

definition fs_ok :: "file_system \<Rightarrow> bool" where
  "fs_ok fs \<longleftrightarrow>
     (\<forall>p r. fs_canon fs p = Inr r \<longrightarrow> is_absolute r \<and> Parent_Dir \<notin> set (path_components r))
     \<and> (\<forall>p. path_components p = [] \<longrightarrow> isl (fs_canon fs p))"

lemma fs_ok_canon:
  "fs_ok fs \<Longrightarrow> fs_canon fs p = Inr r \<Longrightarrow> is_absolute r \<and> Parent_Dir \<notin> set (path_components r)
   \<and> path_components p \<noteq> []"
  unfolding fs_ok_def by (metis isl_def sum.disc(2))

section \<open>Protected locations\<close>

definition lc_segments :: "string \<Rightarrow> string list" where
  "lc_segments s = filter (\<lambda>s. s \<noteq> []) (split_on is_sep (normalise_separators s))"

lemma normalise_append: "normalise_separators (s @ t) = normalise_separators s @ normalise_separators t"
  by (simp add: normalise_separators_def to_ascii_lowercase_def)

lemma normalise_sep [simp]: "normalise_separators (CHR ''/'' # t) = CHR ''/'' # normalise_separators t"
  by (simp add: normalise_separators_def to_ascii_lowercase_def to_lower_char_def is_ascii_uppercase_def byte_def)

lemma lc_segments_append: "lc_segments (s @ CHR ''/'' # t) = lc_segments s @ lc_segments t"
  by (simp add: lc_segments_def normalise_append split_on_append_sep is_sep_def)

lemma windows_pair_append: "windows_pair p xs \<Longrightarrow> windows_pair p (xs @ ys)"
  by (induction p xs rule: windows_pair.induct) auto

lemma is_always_forbidden_segments:
  "is_always_forbidden s \<longleftrightarrow>
     list_ex (\<lambda>s. s \<in> set SENSITIVE_COMPONENTS) (lc_segments s)
     \<or> windows_pair (\<lambda>a b. a = ''microsoft'' \<and> b \<in> {''protect'', ''credentials'', ''crypto'', ''vault''})
         (lc_segments s)
     \<or> list_ex (\<lambda>p. normalise_separators s = p \<or> prefix (p @ ''/'') (normalise_separators s)) SYSTEM_PREFIXES"
  by (simp add: is_always_forbidden_def lc_segments_def Let_def)

lemma system_prefix_append:
  "list_ex (\<lambda>p. s = p \<or> prefix (p @ ''/'') s) ps \<Longrightarrow>
   list_ex (\<lambda>p. s @ CHR ''/'' # t = p \<or> prefix (p @ ''/'') (s @ CHR ''/'' # t)) ps"
  by (induction ps) (auto simp: prefix_def)

text \<open>A protected location protects its whole subtree: everything below a forbidden path is
  forbidden, in any spelling of case and separators of the part above.
\<close>

theorem forbidden_subtree:
  assumes "is_always_forbidden dir" and "normalise_separators dir' = normalise_separators dir"
  shows "is_always_forbidden (dir' @ ''/'' @ below)"
proof -
  have seg: "lc_segments dir' = lc_segments dir" using assms(2) by (simp add: lc_segments_def)
  have split: "lc_segments (dir' @ ''/'' @ below) = lc_segments dir @ lc_segments below"
    "normalise_separators (dir' @ ''/'' @ below)
       = normalise_separators dir @ CHR ''/'' # normalise_separators below"
    using lc_segments_append seg assms(2) by (simp_all add: normalise_append)
  consider "list_ex (\<lambda>s. s \<in> set SENSITIVE_COMPONENTS) (lc_segments dir)"
    | "windows_pair (\<lambda>a b. a = ''microsoft'' \<and> b \<in> {''protect'', ''credentials'', ''crypto'', ''vault''})
         (lc_segments dir)"
    | "list_ex (\<lambda>p. normalise_separators dir = p \<or> prefix (p @ ''/'') (normalise_separators dir)) SYSTEM_PREFIXES"
    using assms(1) unfolding is_always_forbidden_segments by blast
  then show ?thesis
  proof cases
    case 1
    then show ?thesis unfolding is_always_forbidden_segments split by simp
  next
    case 2
    then show ?thesis unfolding is_always_forbidden_segments split using windows_pair_append by blast
  next
    case 3
    then show ?thesis unfolding is_always_forbidden_segments split using system_prefix_append by blast
  qed
qed

theorem forbidden_subtree_witness: "is_always_forbidden (''/home/u/.SSH'' @ ''/'' @ ''id_rsa'')"
  by (rule forbidden_subtree[of "''/home/u/.ssh''"]) code_simp+

section \<open>Reading\<close>

lemma within_trusted_root:
  assumes "is_within_trusted_root fs policy r w"
  shows "\<not> is_always_forbidden r"
    and "\<exists>root \<in> set (trusted_roots policy). (w \<longrightarrow> tr_access root = Access_ReadWrite)
           \<and> (starts_with r (expand_tilde fs (tr_path root))
              \<or> starts_with r (canonicalize_or_self fs (expand_tilde fs (tr_path root))))"
  using assms by (auto simp: is_within_trusted_root_def Let_def list_ex_iff split: if_splits)

text \<open>Where a path may be: below the workspace, or below a granted folder.\<close>

definition confined :: "file_system \<Rightarrow> security_policy \<Rightarrow> bool \<Rightarrow> string \<Rightarrow> bool" where
  "confined fs policy write r \<longleftrightarrow>
     starts_with r (canonicalize_or_self fs (workspace_dir policy)) \<or>
     (\<exists>root \<in> set (trusted_roots policy). (write \<longrightarrow> tr_access root = Access_ReadWrite)
        \<and> (starts_with r (expand_tilde fs (tr_path root))
           \<or> starts_with r (canonicalize_or_self fs (expand_tilde fs (tr_path root)))))"

lemma allowed_confined:
  "is_resolved_path_allowed_for fs policy r write \<Longrightarrow> confined fs policy write r \<and> \<not> is_always_forbidden r"
  using within_trusted_root(2) by (fastforce simp: is_resolved_path_allowed_for_def confined_def split: if_splits)

lemma confined_below: "confined fs policy write a \<Longrightarrow> starts_with r a \<Longrightarrow> confined fs policy write r"
  unfolding confined_def using starts_with_trans by blast

lemma check_forbidden_entries_ok:
  assumes "check_forbidden_entries fs r root fs' = Inr u" and "f \<in> set fs'"
  shows "is_absolute (expand_tilde fs f) \<and> starts_with root (expand_tilde fs f) \<or>
    \<not> starts_with r (if is_absolute (expand_tilde fs f) then expand_tilde fs f
                     else path_join root (expand_tilde fs f))"
  using assms by (induction fs') (auto simp: Let_def split: if_splits)

lemma check_forbidden_ok:
  assumes "check_resolved_against_forbidden fs policy r root = Inr u"
  shows "\<not> is_always_forbidden r"
    and "is_within_trusted_root fs policy r False \<or>
      (\<forall>f \<in> set (forbidden_paths policy).
         is_absolute (expand_tilde fs f) \<and> \<not> starts_with root (expand_tilde fs f) \<longrightarrow>
         \<not> starts_with r (expand_tilde fs f))"
proof -
  show "\<not> is_always_forbidden r"
    using assms by (auto simp: check_resolved_against_forbidden_def)
  show "is_within_trusted_root fs policy r False \<or>
      (\<forall>f \<in> set (forbidden_paths policy).
         is_absolute (expand_tilde fs f) \<and> \<not> starts_with root (expand_tilde fs f) \<longrightarrow>
         \<not> starts_with r (expand_tilde fs f))"
  proof (cases "is_within_trusted_root fs policy r False")
    case False
    then have "check_forbidden_entries fs r root (forbidden_paths policy) = Inr u"
      using assms by (simp add: check_resolved_against_forbidden_def split: if_splits)
    then show ?thesis by (metis check_forbidden_entries_ok)
  qed simp
qed

lemma string_allowed_no_parent:
  "is_path_string_allowed fs policy path \<Longrightarrow> Parent_Dir \<notin> set (path_components path) \<and> CHR 0x00 \<notin> set path"
  by (auto simp: is_path_string_allowed_def split: if_splits)

text \<open>C3. A path validated for reading is the canonical form of the requested one, lies in the
  workspace or a granted folder, is no protected location, and, outside the granted folders,
  is in none of the absolute forbidden directories that do not themselves hold the workspace.
\<close>

theorem validate_path_confined:
  assumes "validate_path fs policy path cell = (Inr r, cell')"
  shows "fs_canon fs (action_path fs policy path) = Inr r
    \<and> confined fs policy False r \<and> \<not> is_always_forbidden r
    \<and> (is_within_trusted_root fs policy r False \<or>
       (\<forall>f \<in> set (forbidden_paths policy).
          is_absolute (expand_tilde fs f) \<and> \<not> starts_with (fst (workspace_root fs policy cell)) (expand_tilde fs f)
          \<longrightarrow> \<not> starts_with r (expand_tilde fs f)))"
proof -
  from assms have c: "fs_canon fs (action_path fs policy path) = Inr r"
    and a: "is_resolved_path_allowed_for fs policy r False"
    and k: "\<exists>u. check_resolved_against_forbidden fs policy r (fst (workspace_root fs policy cell)) = Inr u"
    by (auto simp: validate_path_def split: if_splits sum.splits prod.splits)
  then show ?thesis using allowed_confined[OF a] check_forbidden_ok(2) by blast
qed

definition demo_fs :: file_system where
  "demo_fs = \<lparr>fs_canon = (\<lambda>p. if p = [] then Inl ''not found''
                            else if p = ''/w/a.txt'' then Inr ''/w/a.txt''
                            else if p = ''/w'' then Inr ''/w'' else Inl ''not found''),
     fs_exists = (\<lambda>p. p \<in> {''/w'', ''/w/a.txt''}), fs_home_dir = Some ''/home/u'',
     fs_home_var = Some ''/home/u''\<rparr>"

definition demo_path_policy :: security_policy where
  "demo_path_policy = default_policy\<lparr>workspace_dir := ''/w'', action_dir := ''/w''\<rparr>"

theorem validate_path_confined_witness:
  "validate_path demo_fs demo_path_policy ''a.txt'' None = (Inr ''/w/a.txt'', Some ''/w'')
   \<and> confined demo_fs demo_path_policy False ''/w/a.txt''"
proof -
  have r: "validate_path demo_fs demo_path_policy ''a.txt'' None = (Inr ''/w/a.txt'', Some ''/w'')"
    by code_simp
  then show ?thesis using validate_path_confined[OF r] by simp
qed

section \<open>Writing\<close>

lemma existing_ancestor_below: "starts_with p (existing_ancestor fs p)"
proof (induction fs p rule: existing_ancestor.induct)
  case (1 fs p)
  show ?case
  proof (cases "fs_exists fs p \<or> parent_path p = None")
    case True
    then show ?thesis by (subst existing_ancestor.simps) auto
  next
    case False
    then obtain q where q: "parent_path p = Some q" by auto
    with 1 False have "starts_with q (existing_ancestor fs q)" by auto
    with starts_with_parent[OF q] have "starts_with p (existing_ancestor fs q)" by (rule starts_with_trans)
    with False q show ?thesis by (subst existing_ancestor.simps) simp
  qed
qed

text \<open>\<open>Path::ancestors\<close>: the path, its parent, the parent of that, and so on.\<close>

function ancestors :: "string \<Rightarrow> string list" where
  "ancestors p = p # (case parent_path p of None \<Rightarrow> [] | Some q \<Rightarrow> ancestors q)"
  by pat_completeness auto
termination
  by (relation "measure length") (auto dest: parent_path_shorter)

declare ancestors.simps [simp del]

text \<open>The walk up from the parent of a file to be written ends, at the first of the ancestors
  that exists, and at the topmost one when none does.
\<close>

theorem existing_ancestor_first:
  "existing_ancestor fs p =
     (case find (fs_exists fs) (ancestors p) of Some a \<Rightarrow> a | None \<Rightarrow> last (ancestors p))"
proof (induction fs p rule: existing_ancestor.induct)
  case (1 fs p)
  show ?case
  proof (cases "parent_path p")
    case None
    then show ?thesis by (subst existing_ancestor.simps, subst (1 2) ancestors.simps) simp
  next
    case (Some q)
    have ne: "ancestors q \<noteq> []" by (subst ancestors.simps) simp
    show ?thesis
      using 1[of q] Some ne
      by (subst existing_ancestor.simps, subst (1 2) ancestors.simps) (auto split: option.splits)
  qed
qed

lemma file_name_relative: "file_name p = Some n \<Longrightarrow> \<not> is_absolute n \<and> plain_components n = [Normal n]"
  by (rule normal_component[of n p])
     (auto simp: file_name_def split: if_splits path_component.splits dest: last_in_set)

text \<open>C2. A path validated for writing lies in the workspace or in a folder granted for writing, is
  no protected location and has no \<open>..\<close>; it is the requested file below the canonical form of
  the deepest ancestor that exists.
\<close>

theorem validate_parent_path_confined:
  assumes "fs_ok fs" and "validate_parent_path fs policy path cell = (Inr r, cell')"
  shows "confined fs policy True r \<and> \<not> is_always_forbidden r
    \<and> (\<exists>parent a. parent_path (action_path fs policy path) = Some parent
         \<and> fs_canon fs (existing_ancestor fs parent) = Inr a \<and> starts_with r a
         \<and> file_name r = file_name (action_path fs policy path))"
proof -
  from assms(2) obtain parent name a u u' where
    parent: "parent_path (action_path fs policy path) = Some parent"
    and name: "file_name (action_path fs policy path) = Some name"
    and a: "fs_canon fs (existing_ancestor fs parent) = Inr a"
    and ok: "is_resolved_path_allowed_for fs policy a True"
    and r: "r = path_join (path_join a (case strip_path_prefix parent (existing_ancestor fs parent) of
                                          None \<Rightarrow> [] | Some s \<Rightarrow> s)) name"
    and k: "check_resolved_against_forbidden fs policy r (fst (workspace_root fs policy cell)) = Inr u'"
    by (auto simp: validate_parent_path_def Let_def split: if_splits sum.splits prod.splits option.splits)
  let ?suffix = "case strip_path_prefix parent (existing_ancestor fs parent) of None \<Rightarrow> [] | Some s \<Rightarrow> s"
  have abs: "is_absolute a" and ne: "path_components (existing_ancestor fs parent) \<noteq> []"
    using fs_ok_canon[OF assms(1) a] by auto
  have rel: "\<not> is_absolute ?suffix"
    using strip_path_prefix_relative[OF _ ne] by (auto simp: is_absolute_def split: option.splits)
  have n: "\<not> is_absolute name" "plain_components name = [Normal name]"
    using file_name_relative[OF name] by auto
  have aj: "is_absolute (path_join a ?suffix)" using abs by (rule is_absolute_join)
  have "starts_with r (path_join a ?suffix)" unfolding r by (rule starts_with_join[OF aj n(1)])
  then have below: "starts_with r a" using starts_with_join[OF abs rel] starts_with_trans by blast
  have "file_name r = Some name"
    unfolding file_name_def r path_components_join[OF aj n(1)] n(2) by simp
  moreover have "confined fs policy True r"
    using allowed_confined[OF ok] below confined_below by blast
  ultimately show ?thesis
    using check_forbidden_ok(1)[OF k] parent a below name
    by (intro conjI exI[of _ parent] exI[of _ a]) simp_all
qed

theorem validate_parent_path_confined_witness:
  "validate_parent_path demo_fs demo_path_policy ''new/b.txt'' None = (Inr ''/w/new/b.txt'', Some ''/w'')
   \<and> confined demo_fs demo_path_policy True ''/w/new/b.txt''"
proof -
  have r: "validate_parent_path demo_fs demo_path_policy ''new/b.txt'' None = (Inr ''/w/new/b.txt'', Some ''/w'')"
    by code_simp
  have "fs_ok demo_fs"
    by (auto simp: fs_ok_def demo_fs_def path_components_def is_absolute_def is_sep_def component_of_def
        Let_def split: if_splits)
  from validate_parent_path_confined[OF this r] r show ?thesis by simp
qed

section \<open>Gaps\<close>

text \<open>
  The string check resolves a relative path below \<open>workspace_dir\<close>, the validators below
  \<open>action_dir\<close>.  When the two differ, as they do for the default projects folder, a symbolic
  link in the action directory is not seen by the string check, and the validator for writing
  resolves only the parent: the link is accepted although its target is protected.  With one
  directory for both the same link is refused.
\<close>

definition linked_fs :: file_system where
  "linked_fs = \<lparr>fs_canon = (\<lambda>p. if p = ''/w'' then Inr ''/w'' else if p = ''/p'' then Inr ''/p''
                              else if p = ''/p/evil'' then Inr ''/etc/shadow'' else Inl ''not found''),
     fs_exists = (\<lambda>p. p \<in> {''/w'', ''/p'', ''/p/evil''}), fs_home_dir = None, fs_home_var = None\<rparr>"

definition projects_policy :: security_policy where
  "projects_policy = default_policy\<lparr>workspace_dir := ''/w'', action_dir := ''/p'',
     trusted_roots := [\<lparr>tr_path = ''/p'', tr_access = Access_ReadWrite\<rparr>]\<rparr>"

theorem linked_target_is_accepted:
  "validate_parent_path linked_fs projects_policy ''evil'' None = (Inr ''/p/evil'', Some ''/w'')
   \<and> fs_canon linked_fs ''/p/evil'' = Inr ''/etc/shadow'' \<and> is_always_forbidden ''/etc/shadow''
   \<and> fst (validate_parent_path linked_fs (projects_policy\<lparr>workspace_dir := ''/p''\<rparr>) ''evil'' None)
       = Inl (Path_Not_Allowed ''evil'')"
  by (intro conjI; code_simp)

text \<open>
  The string form of a path is compared before it is canonicalised, so a doubled separator at
  the front hides a system directory from \<open>is_always_forbidden\<close>; the canonical form shows it.
\<close>

theorem doubled_separator_hides:
  "\<not> is_always_forbidden ''//etc/shadow'' \<and> is_always_forbidden ''/etc/shadow''
   \<and> path_components ''//etc/shadow'' = path_components ''/etc/shadow''"
  by (intro conjI; code_simp)

text \<open>
  The cell of the workspace root keeps the raw directory when the first resolution fails.
  Later calls then compare with the wrong root: here the workspace resolves into \<open>/tmp\<close>, the
  entry \<open>/tmp\<close> is no longer skipped as a parent of the workspace, and every file is refused.
\<close>

definition moved_fs :: file_system where
  "moved_fs = \<lparr>fs_canon = (\<lambda>p. if p = ''/w'' then Inr ''/tmp/w'' else if p = ''/w/a'' then Inr ''/tmp/w/a''
                             else Inl ''not found''),
     fs_exists = (\<lambda>p. True), fs_home_dir = None, fs_home_var = None\<rparr>"

theorem stale_root_refuses:
  "let policy = default_policy\<lparr>workspace_dir := ''/w'', action_dir := ''/w'', forbidden_paths := [''/tmp'']\<rparr>;
       stale = snd (workspace_root (moved_fs\<lparr>fs_canon := (\<lambda>p. Inl ''not found'')\<rparr>) policy None)
   in fst (validate_path moved_fs policy ''a'' None) = Inr ''/tmp/w/a''
      \<and> fst (validate_path moved_fs policy ''a'' stale) = Inl (Path_Forbidden ''/tmp'')"
  unfolding Let_def by (intro conjI; code_simp)

end
