(* ===== verification/Conversation.thy ===== *)
theory Conversation
  imports Prelude Rust_Str
begin

text \<open>
  The messages of a conversation (\<open>src/openhuman/inference/provider/traits.rs\<close>), the markers by
  which images ride in their text, and the estimate of their size in tokens
  (\<open>src/openhuman/agent/harness/token_budget.rs\<close>).  Lengths and sums of lengths are below
  the range of a machine word and are natural numbers.
\<close>

section \<open>Messages\<close>

text \<open>Arbitrary JSON is carried as its text.\<close>

record chat_message =
  cm_id :: "string option"
  cm_role :: string
  cm_content :: string
  cm_extra :: "string option"

record tool_call =
  call_id :: string
  call_name :: string
  call_arguments :: string
  call_extra :: "string option"

record tool_result =
  result_call_id :: string
  result_content :: string

datatype conv_message =
  Chat chat_message
| Assistant_Tool_Calls "string option" "tool_call list" "string option"
| Tool_Results "tool_result list"

definition system_message :: "string \<Rightarrow> chat_message" where
  "system_message content = \<lparr>cm_id = None, cm_role = ''system'', cm_content = content, cm_extra = None\<rparr>"

definition user_message :: "string \<Rightarrow> chat_message" where
  "user_message content = \<lparr>cm_id = None, cm_role = ''user'', cm_content = content, cm_extra = None\<rparr>"

section \<open>Image markers\<close>

definition IMAGE_MARKER_PREFIX :: string where
  "IMAGE_MARKER_PREFIX = ''[IMAGE:''"

definition IMAGE_MARKER_TOKEN_COST :: nat where
  "IMAGE_MARKER_TOKEN_COST = 1200"

text \<open>\<open>str::find\<close> of a pattern, as the text before and after its first occurrence.\<close>

fun split_at_sub :: "string \<Rightarrow> string \<Rightarrow> (string \<times> string) option" where
  "split_at_sub pat [] = (if pat = [] then Some ([], []) else None)"
| "split_at_sub pat (c # cs) =
     (if prefix pat (c # cs) then Some ([], drop (length pat) (c # cs))
      else map_option (\<lambda>(a, b). (c # a, b)) (split_at_sub pat cs))"

lemma split_at_sub_Some:
  "split_at_sub pat s = Some (a, b) \<Longrightarrow> s = a @ pat @ b"
  by (induction pat s arbitrary: a rule: split_at_sub.induct)
     (auto split: if_splits simp: prefix_def)

lemma split_at_sub_None: "split_at_sub pat s = None \<longleftrightarrow> \<not> sublist pat s"
  by (induction pat s rule: split_at_sub.induct) (auto simp: sublist_Cons_right split: if_splits)

definition next_marker :: "string \<Rightarrow> (string \<times> string) option" where
  "next_marker s =
     (case split_at_sub IMAGE_MARKER_PREFIX s of
        None \<Rightarrow> None
      | Some (before, after) \<Rightarrow>
          (case split_once (CHR '']'') after of
             None \<Rightarrow> None
           | Some (payload, rest) \<Rightarrow> Some (before, rest)))"

lemma next_marker_Some:
  "next_marker s = Some (a, r) \<Longrightarrow> \<exists>p. s = a @ IMAGE_MARKER_PREFIX @ p @ CHR '']'' # r"
  by (auto simp: next_marker_def split_once_Some dest!: split_at_sub_Some split: option.splits)

lemma next_marker_shorter: "next_marker s = Some (a, r) \<Longrightarrow> length r < length s"
  by (auto dest!: next_marker_Some)

text \<open>
  The loops of \<open>redact_image_markers\<close> and \<open>estimate_tokens\<close>.  Each step takes the text up to the
  next complete marker; at an unterminated one the rest is text.
\<close>

function redact_image_markers :: "string \<Rightarrow> string" where
  "redact_image_markers s =
     (case next_marker s of
        None \<Rightarrow> s
      | Some (before, rest) \<Rightarrow> before @ ''[image attachment]'' @ redact_image_markers rest)"
  by pat_completeness auto
termination
  by (relation "measure length") (auto dest: next_marker_shorter)

function count_text_images :: "string \<Rightarrow> nat \<times> nat" where
  "count_text_images s =
     (case next_marker s of
        None \<Rightarrow> (length s, 0)
      | Some (before, rest) \<Rightarrow>
          (let (text, images) = count_text_images rest in (length before + text, Suc images)))"
  by pat_completeness auto
termination
  by (relation "measure length") (auto dest: next_marker_shorter)

declare redact_image_markers.simps [simp del] count_text_images.simps [simp del]

definition estimate_tokens :: "string \<Rightarrow> nat" where
  "estimate_tokens s =
     (if \<not> sublist IMAGE_MARKER_PREFIX s then (length s + 3) div 4
      else (let (text, images) = count_text_images s
            in (text + 3) div 4 + images * IMAGE_MARKER_TOKEN_COST))"

definition estimate_chat_message_tokens :: "chat_message \<Rightarrow> nat" where
  "estimate_chat_message_tokens m = estimate_tokens (cm_content m)"

fun estimate_conversation_message_tokens :: "conv_message \<Rightarrow> nat" where
  "estimate_conversation_message_tokens (Chat m) = estimate_chat_message_tokens m"
| "estimate_conversation_message_tokens (Assistant_Tool_Calls text calls reasoning) =
     estimate_tokens (case text of None \<Rightarrow> [] | Some t \<Rightarrow> t)
     + (case reasoning of None \<Rightarrow> 0 | Some r \<Rightarrow> estimate_tokens r)
     + sum_list (map (\<lambda>c. estimate_tokens (call_name c) + estimate_tokens (call_arguments c)) calls)"
| "estimate_conversation_message_tokens (Tool_Results results) =
     sum_list (map (\<lambda>r. estimate_tokens (result_call_id r) + estimate_tokens (result_content r)) results)"

section \<open>Facts on markers\<close>

text \<open>The number of complete markers, and what is left when they are taken out.\<close>

lemma count_text_images_redact:
  "count_text_images s = (t, n) \<Longrightarrow> length (redact_image_markers s) = t + 18 * n"
proof (induction s arbitrary: t n rule: redact_image_markers.induct)
  case (1 s)
  then show ?case
    by (subst redact_image_markers.simps, subst (asm) (2) count_text_images.simps)
       (auto split: option.splits prod.splits)
qed

lemma no_marker_count: "\<not> sublist IMAGE_MARKER_PREFIX s \<Longrightarrow> count_text_images s = (length s, 0)"
  by (subst count_text_images.simps) (simp add: next_marker_def split_at_sub_None[THEN iffD2])

text \<open>The test for a marker up front is only a shortcut.\<close>

lemma estimate_tokens_count:
  "estimate_tokens s = (fst (count_text_images s) + 3) div 4 + snd (count_text_images s) * 1200"
  by (auto simp: estimate_tokens_def IMAGE_MARKER_TOKEN_COST_def no_marker_count split: prod.splits)

end
