(* ===== verification/Token_Budget.thy ===== *)
theory Token_Budget
  imports Conversation
begin

text \<open>
  The trim that runs before a request is sent (\<open>src/openhuman/agent/harness/token_budget.rs\<close>):
  the oldest messages that are not system messages go until the estimate fits, then tool
  results that have lost their call.  The code is generic in the kind of message, and so are
  the definitions.
\<close>

section \<open>The budget\<close>

definition DEFAULT_OUTPUT_RESERVE_TOKENS :: nat where
  "DEFAULT_OUTPUT_RESERVE_TOKENS = 8192"

definition MIN_OUTPUT_RESERVE_TOKENS :: nat where
  "MIN_OUTPUT_RESERVE_TOKENS = 512"

definition output_reserve_tokens :: "nat \<Rightarrow> nat" where
  "output_reserve_tokens context_window =
     min (max (context_window div 10) MIN_OUTPUT_RESERVE_TOKENS)
         (max DEFAULT_OUTPUT_RESERVE_TOKENS (context_window div 4))"

definition max_input_tokens :: "nat \<Rightarrow> nat" where
  "max_input_tokens context_window = context_window - output_reserve_tokens context_window"

section \<open>The trim\<close>

record token_budget_outcome =
  original_tokens :: nat
  final_tokens :: nat
  messages_removed :: nat
  trimmed_any :: bool

definition total_tokens_of :: "('m \<Rightarrow> nat) \<Rightarrow> 'm list \<Rightarrow> nat" where
  "total_tokens_of estimate messages = sum_list (map estimate messages)"

definition remove_at :: "nat \<Rightarrow> 'm list \<Rightarrow> 'm list" where
  "remove_at i xs = take i xs @ drop (Suc i) xs"

definition removable_positions :: "('m \<Rightarrow> bool) \<Rightarrow> 'm list \<Rightarrow> nat list" where
  "removable_positions is_system messages =
     filter (\<lambda>i. \<not> is_system (messages ! i)) [0..<length messages]"

fun evict_loop :: "('m \<Rightarrow> nat) \<Rightarrow> nat \<Rightarrow> nat list \<Rightarrow> nat \<Rightarrow> 'm list \<Rightarrow> 'm list \<times> nat" where
  "evict_loop estimate max_tokens [] removed messages = (messages, removed)"
| "evict_loop estimate max_tokens (p # ps) removed messages =
     (if total_tokens_of estimate messages \<le> max_tokens then (messages, removed)
      else evict_loop estimate max_tokens ps (Suc removed) (remove_at (p - removed) messages))"

function snap_loop :: "('m \<Rightarrow> bool) \<Rightarrow> ('m \<Rightarrow> bool) \<Rightarrow> nat \<Rightarrow> 'm list \<Rightarrow> 'm list \<times> nat" where
  "snap_loop is_system is_tool removed messages =
     (case dropWhile is_system messages of
        [] \<Rightarrow> (messages, removed)
      | m # rest \<Rightarrow>
          if is_tool m
          then snap_loop is_system is_tool (Suc removed) (takeWhile is_system messages @ rest)
          else (messages, removed))"
  by pat_completeness auto
termination
proof (relation "measure (\<lambda>(s, t, r, messages). length messages)", goal_cases)
  case (2 is_system is_tool removed messages m rest)
  then have "length messages = length (takeWhile is_system messages) + Suc (length rest)"
    by (metis length_Cons length_append takeWhile_dropWhile_id)
  then show ?case by simp
qed simp

declare snap_loop.simps [simp del]

definition trim_messages_to_budget :: "('m \<Rightarrow> nat) \<Rightarrow> ('m \<Rightarrow> bool) \<Rightarrow> ('m \<Rightarrow> bool) \<Rightarrow> nat \<Rightarrow> 'm list \<Rightarrow>
    'm list \<times> token_budget_outcome" where
  "trim_messages_to_budget estimate is_system is_tool context_window messages =
     (let max_tokens = max_input_tokens context_window;
          original = total_tokens_of estimate messages
      in if original \<le> max_tokens
         then (messages, \<lparr>original_tokens = original, final_tokens = original, messages_removed = 0,
                          trimmed_any = False\<rparr>)
         else
           (let (kept, removed) = evict_loop estimate max_tokens
                                    (removable_positions is_system messages) 0 messages;
                (kept', removed') = snap_loop is_system is_tool removed kept
            in (kept', \<lparr>original_tokens = original, final_tokens = total_tokens_of estimate kept',
                        messages_removed = removed', trimmed_any = (0 < removed')\<rparr>)))"

definition is_system_chat :: "chat_message \<Rightarrow> bool" where
  "is_system_chat m = (cm_role m = ''system'')"

fun is_system_conv :: "conv_message \<Rightarrow> bool" where
  "is_system_conv (Chat m) = (cm_role m = ''system'')"
| "is_system_conv _ = False"

fun is_tool_results :: "conv_message \<Rightarrow> bool" where
  "is_tool_results (Tool_Results r) = True"
| "is_tool_results _ = False"

definition trim_chat_messages_to_budget :: "nat \<Rightarrow> chat_message list \<Rightarrow>
    chat_message list \<times> token_budget_outcome" where
  "trim_chat_messages_to_budget =
     trim_messages_to_budget estimate_chat_message_tokens is_system_chat (\<lambda>m. cm_role m = ''tool'')"

definition trim_conversation_history_to_budget :: "nat \<Rightarrow> conv_message list \<Rightarrow>
    conv_message list \<times> token_budget_outcome" where
  "trim_conversation_history_to_budget =
     trim_messages_to_budget estimate_conversation_message_tokens is_system_conv is_tool_results"

section \<open>Eviction as a recursion on the list\<close>

text \<open>The list without its first \<open>n\<close> messages that are not system messages.\<close>

fun drop_oldest :: "('m \<Rightarrow> bool) \<Rightarrow> nat \<Rightarrow> 'm list \<Rightarrow> 'm list" where
  "drop_oldest sys 0 xs = xs"
| "drop_oldest sys (Suc n) [] = []"
| "drop_oldest sys (Suc n) (x # xs) = (if sys x then x # drop_oldest sys (Suc n) xs else drop_oldest sys n xs)"

lemma drop_oldest_Nil [simp]: "drop_oldest sys n [] = []"
  by (cases n) auto

lemma filter_drop_oldest:
  "filter sys (drop_oldest sys n xs) = filter sys xs"
  "filter (\<lambda>x. \<not> sys x) (drop_oldest sys n xs) = drop n (filter (\<lambda>x. \<not> sys x) xs)"
  by (induction sys n xs rule: drop_oldest.induct) auto

lemma drop_oldest_add: "drop_oldest sys m (drop_oldest sys n xs) = drop_oldest sys (n + m) xs"
proof (induction sys n xs arbitrary: m rule: drop_oldest.induct)
  case (3 sys n x xs)
  then show ?case by (cases m) auto
qed auto

lemma drop_oldest_first:
  assumes "dropWhile sys xs = y # ys"
  shows "drop_oldest sys (Suc 0) xs = takeWhile sys xs @ ys"
  using assms by (induction xs) (auto split: if_splits)



lemma remove_at_append: "length pre = i \<Longrightarrow> remove_at i (pre @ x # post) = pre @ post"
  by (simp add: remove_at_def)

lemma drop_oldest_sys: "sys x \<Longrightarrow> drop_oldest sys n (x # xs) = x # drop_oldest sys n xs"
  by (cases n) auto

lemma drop_oldest_append: "\<forall>x \<in> set pre. sys x \<Longrightarrow> drop_oldest sys n (pre @ xs) = pre @ drop_oldest sys n xs"
  by (induction pre) (auto simp: drop_oldest_sys)

lemma removable_positions_Cons:
  "removable_positions sys (x # xs) =
     (if sys x then map Suc (removable_positions sys xs) else 0 # map Suc (removable_positions sys xs))"
proof -
  have "[0..<length (x # xs)] = 0 # map Suc [0..<length xs]" by (simp add: map_Suc_upt upt_conv_Cons del: upt_Suc)
  then show ?thesis by (simp add: removable_positions_def filter_map o_def)
qed

definition non_system :: "('m \<Rightarrow> bool) \<Rightarrow> 'm list \<Rightarrow> 'm list" where
  "non_system sys xs = filter (\<lambda>x. \<not> sys x) xs"

definition evicts :: "('m \<Rightarrow> nat) \<Rightarrow> ('m \<Rightarrow> bool) \<Rightarrow> nat \<Rightarrow> nat \<Rightarrow> 'm list \<Rightarrow> bool" where
  "evicts est sys max_tokens k xs \<longleftrightarrow>
     (total_tokens_of est (drop_oldest sys k xs) \<le> max_tokens \<or> k = length (non_system sys xs))
     \<and> k \<le> length (non_system sys xs)
     \<and> (\<forall>j < k. max_tokens < total_tokens_of est (drop_oldest sys j xs))"

lemma evict_loop_drops:
  assumes "\<forall>x \<in> set pre. sys x"
  shows "\<exists>k. evict_loop est mx (map (\<lambda>i. i + removed + length pre) (removable_positions sys rest)) removed (pre @ rest)
             = (drop_oldest sys k (pre @ rest), removed + k) \<and> evicts est sys mx k (pre @ rest)"
  using assms
proof (induction rest arbitrary: pre removed)
  case Nil
  then show ?case
    by (intro exI[of _ 0]) (simp add: removable_positions_def evicts_def non_system_def)
next
  case (Cons x rest)
  show ?case
  proof (cases "sys x")
    case True
    then have "\<forall>y \<in> set (pre @ [x]). sys y" using Cons.prems by simp
    from Cons.IH[OF this, of removed] show ?thesis
      using True by (simp add: removable_positions_Cons comp_def)
  next
    case False
    let ?ps = "map (\<lambda>i. i + Suc removed + length pre) (removable_positions sys rest)"
    have step: "drop_oldest sys (Suc n) (pre @ x # rest) = drop_oldest sys n (pre @ rest)" for n
      using False Cons.prems by (simp add: drop_oldest_append)
    have count: "length (non_system sys (pre @ x # rest)) = Suc (length (non_system sys (pre @ rest)))"
      using False by (simp add: non_system_def)
    show ?thesis
    proof (cases "total_tokens_of est (pre @ x # rest) \<le> mx")
      case True
      then show ?thesis using False
        by (intro exI[of _ 0]) (simp add: removable_positions_Cons evicts_def)
    next
      case gt: False
      obtain k where k: "evict_loop est mx ?ps (Suc removed) (pre @ rest)
          = (drop_oldest sys k (pre @ rest), Suc removed + k)"
        and ev: "evicts est sys mx k (pre @ rest)"
        using Cons.IH[OF Cons.prems, of "Suc removed"] by auto
      have "evicts est sys mx (Suc k) (pre @ x # rest)"
        using ev gt unfolding evicts_def step count by (auto simp: step less_Suc_eq_0_disj)
      then show ?thesis
        using k gt False
        by (intro exI[of _ "Suc k"]) (simp add: removable_positions_Cons comp_def remove_at_append step)
    qed
  qed
qed

lemma snap_loop_drops:
  "\<exists>k. snap_loop sys tool removed xs = (drop_oldest sys k xs, removed + k)
     \<and> (\<forall>y ys. non_system sys (drop_oldest sys k xs) = y # ys \<longrightarrow> \<not> tool y)
     \<and> (\<forall>y \<in> set (take k (non_system sys xs)). tool y) \<and> k \<le> length (non_system sys xs)"
proof (induction sys tool removed xs rule: snap_loop.induct)
  case (1 sys tool removed xs)
  show ?case
  proof (cases "dropWhile sys xs")
    case Nil
    then have "non_system sys xs = []" by (simp add: dropWhile_eq_Nil_conv non_system_def filter_empty_conv)
    moreover have "snap_loop sys tool removed xs = (xs, removed)"
      using Nil by (subst snap_loop.simps) (simp del: dropWhile_eq_Nil_conv)
    ultimately show ?thesis by (intro exI[of _ 0]) simp
  next
    case (Cons m rest)
    have ns: "non_system sys xs = m # non_system sys rest"
    proof -
      have "xs = takeWhile sys xs @ m # rest" using Cons by (metis takeWhile_dropWhile_id)
      moreover have "filter (\<lambda>x. \<not> sys x) (takeWhile sys xs) = []"
        by (auto simp: filter_empty_conv dest: set_takeWhileD)
      moreover have "\<not> sys m" using Cons by (metis hd_dropWhile list.discI list.sel(1))
      ultimately show ?thesis unfolding non_system_def by (metis filter.simps(2) filter_append self_append_conv2)
    qed
    show ?thesis
    proof (cases "tool m")
      case False
      with Cons ns show ?thesis by (subst snap_loop.simps) (auto intro!: exI[of _ 0])
    next
      case True
      let ?next = "takeWhile sys xs @ rest"
      have nxt: "drop_oldest sys (Suc 0) xs = ?next" using Cons by (rule drop_oldest_first)
      obtain k where k: "snap_loop sys tool (Suc removed) ?next = (drop_oldest sys k ?next, Suc removed + k)"
        "\<forall>y ys. non_system sys (drop_oldest sys k ?next) = y # ys \<longrightarrow> \<not> tool y"
        "\<forall>y \<in> set (take k (non_system sys ?next)). tool y" "k \<le> length (non_system sys ?next)"
        using "1"[OF Cons True] by auto
      have d: "drop_oldest sys k ?next = drop_oldest sys (Suc k) xs"
        using drop_oldest_add[of sys k "Suc 0" xs] nxt by simp
      have nn: "non_system sys ?next = non_system sys rest"
        using ns filter_drop_oldest(2)[of sys "Suc 0" xs] nxt by (simp add: non_system_def)
      then have "\<forall>y \<in> set (take (Suc k) (non_system sys xs)). tool y" using k(3) ns True by simp
      moreover have "Suc k \<le> length (non_system sys xs)" using k(4) ns nn by simp
      ultimately show ?thesis
        using k(1,2) d Cons True by (intro exI[of _ "Suc k"]) (subst snap_loop.simps, simp)
    qed
  qed
qed

section \<open>What the trim keeps\<close>


lemma non_system_drop_oldest [simp]: "non_system sys (drop_oldest sys k xs) = drop k (non_system sys xs)"
  unfolding non_system_def by (rule filter_drop_oldest(2))

definition trims_to :: "('m \<Rightarrow> nat) \<Rightarrow> ('m \<Rightarrow> bool) \<Rightarrow> nat \<Rightarrow> 'm list \<Rightarrow> nat \<Rightarrow> nat \<Rightarrow> bool" where
  "trims_to est sys mx xs k n \<longleftrightarrow> k \<le> n \<and> n \<le> length (non_system sys xs) \<and> evicts est sys mx k xs"

lemma trim_drops:
  assumes "trim_messages_to_budget est sys tool cw xs = (kept, out)"
  shows "\<exists>k n. trims_to est sys (max_input_tokens cw) xs k n \<and> kept = drop_oldest sys n xs
    \<and> messages_removed out = n \<and> final_tokens out = total_tokens_of est kept
    \<and> original_tokens out = total_tokens_of est xs \<and> trimmed_any out = (0 < n)
    \<and> (\<forall>y \<in> set (take (n - k) (drop k (non_system sys xs))). tool y)
    \<and> (\<forall>y ys. 0 < n \<longrightarrow> non_system sys kept = y # ys \<longrightarrow> \<not> tool y)"
proof (cases "total_tokens_of est xs \<le> max_input_tokens cw")
  case True
  with assms show ?thesis
    by (intro exI[of _ 0]) (auto simp: trim_messages_to_budget_def Let_def trims_to_def evicts_def)
next
  case False
  let ?mx = "max_input_tokens cw"
  obtain k where ev: "evict_loop est ?mx (removable_positions sys xs) 0 xs = (drop_oldest sys k xs, k)"
    and k: "evicts est sys ?mx k xs"
    using evict_loop_drops[of "[]" sys est ?mx 0 xs] by (auto simp: comp_def)
  obtain j where sn: "snap_loop sys tool k (drop_oldest sys k xs)
      = (drop_oldest sys j (drop_oldest sys k xs), k + j)"
    and j: "\<forall>y ys. non_system sys (drop_oldest sys j (drop_oldest sys k xs)) = y # ys \<longrightarrow> \<not> tool y"
      "\<forall>y \<in> set (take j (non_system sys (drop_oldest sys k xs))). tool y"
      "j \<le> length (non_system sys (drop_oldest sys k xs))"
    using snap_loop_drops[of sys tool k "drop_oldest sys k xs"] by blast
  have "k \<le> length (non_system sys xs)" using k by (simp add: evicts_def)
  with j(3) k have "trims_to est sys ?mx xs k (k + j)" by (simp add: trims_to_def)
  with assms False ev sn j(1,2) show ?thesis
    by (intro exI[of _ k] exI[of _ "k + j"])
       (auto simp: trim_messages_to_budget_def Let_def drop_oldest_add)
qed



section \<open>Calls and their results\<close>

text \<open>
  The providers accept a history only when every message of tool calls is followed by its
  results and results appear nowhere else.
\<close>

fun paired :: "conv_message list \<Rightarrow> bool" where
  "paired [] = True"
| "paired (Chat m # rest) = paired rest"
| "paired (Assistant_Tool_Calls t cs r # Tool_Results rs # rest) = paired rest"
| "paired (Assistant_Tool_Calls t cs r # rest) = False"
| "paired (Tool_Results rs # rest) = False"

text \<open>A final part of a paired history is paired, or is so without its first message.\<close>

lemma paired_drop:
  "paired xs \<Longrightarrow> paired (drop k xs) \<or> (\<exists>rs rest. drop k xs = Tool_Results rs # rest \<and> paired rest)"
proof (induction xs arbitrary: k rule: paired.induct)
  case (3 t cs r rs rest)
  then show ?case
  proof (cases k)
    case (Suc j)
    then show ?thesis using 3 by (cases j) auto
  qed simp
next
  case (2 m rest)
  then show ?case by (cases k) auto
qed auto

lemma paired_not_tool: "paired (y # ys) \<Longrightarrow> \<not> is_tool_results y"
  by (cases y) auto

lemma paired_snap:
  assumes "paired xs" and "\<forall>y ys. drop n xs = y # ys \<longrightarrow> \<not> is_tool_results y"
  shows "paired (drop n xs)"
  using paired_drop[OF assms(1), of n]
proof
  assume "\<exists>rs rest. drop n xs = Tool_Results rs # rest \<and> paired rest"
  with assms(2) show ?thesis by fastforce
qed

text \<open>Trimming never separates tool calls from their results: a history that is paired apart
  from its system messages stays so.
\<close>

theorem trim_keeps_pairs:
  assumes "paired (non_system is_system_conv history)"
  shows "paired (non_system is_system_conv (fst (trim_conversation_history_to_budget cw history)))"
proof (cases "trim_conversation_history_to_budget cw history")
  case (Pair kept out)
  from trim_drops[OF Pair[unfolded trim_conversation_history_to_budget_def]] obtain k n where
    n: "kept = drop_oldest is_system_conv n history"
    and first: "\<forall>y ys. 0 < n \<longrightarrow> non_system is_system_conv kept = y # ys \<longrightarrow> \<not> is_tool_results y"
    by blast
  show ?thesis
  proof (cases n)
    case 0
    then show ?thesis using Pair n assms by simp
  next
    case (Suc m)
    then have "\<forall>y ys. drop n (non_system is_system_conv history) = y # ys \<longrightarrow> \<not> is_tool_results y"
      using first n by simp
    then have "paired (drop n (non_system is_system_conv history))"
      by (rule paired_snap[OF assms])
    then show ?thesis using Pair n by simp
  qed
qed

definition demo_history :: "conv_message list" where
  "demo_history =
     [Chat (system_message ''be brief''), Chat (user_message ''first question''),
      Assistant_Tool_Calls None [\<lparr>call_id = ''1'', call_name = ''t'', call_arguments = ''{}'', call_extra = None\<rparr>] None,
      Tool_Results [\<lparr>result_call_id = ''1'', result_content = ''a long tool result''\<rparr>],
      Chat (user_message ''second question'')]"


theorem trim_keeps_pairs_witness:
  "paired (non_system is_system_conv (fst (trim_conversation_history_to_budget 520 demo_history)))"
  by (rule trim_keeps_pairs) code_simp

text \<open>The reserve for the output is a tenth of the window, and at least 512: the cap built from
  \<open>DEFAULT_OUTPUT_RESERVE_TOKENS\<close> and a quarter of the window never takes effect, so the
  reserve of a large window is far above 8192.
\<close>

theorem output_reserve_is_uncapped:
  "output_reserve_tokens cw = max (cw div 10) 512"
  by (simp add: output_reserve_tokens_def DEFAULT_OUTPUT_RESERVE_TOKENS_def MIN_OUTPUT_RESERVE_TOKENS_def
      min_def max_def) linarith


end
