(* ===== verification/Rust_Float.thy ===== *)
theory Rust_Float
  imports Complex_Main
begin

text \<open>
  The double-precision operations the context guard uses, on non-negative numbers in the range
  of normal values: the exact result rounded to 53 significant bits, ties to even.  Every
  number the guard computes with is zero or lies between \<open>2 ^ -64\<close> and \<open>2 ^ 71\<close>.
\<close>

definition round_ties_even :: "rat \<Rightarrow> int" where
  "round_ties_even q =
     (let f = floor q; r = q - of_int f
      in if r < 1 / 2 then f else if r > 1 / 2 then f + 1 else if even f then f else f + 1)"

function bit_count :: "int \<Rightarrow> int" where
  "bit_count n = (if n \<le> 0 then 0 else 1 + bit_count (n div 2))"
  by pat_completeness auto
termination
  by (relation "measure nat") auto

declare bit_count.simps [simp del]

definition pow2 :: "int \<Rightarrow> rat" where
  "pow2 e = (if 0 \<le> e then 2 ^ nat e else 1 / 2 ^ nat (- e))"

text \<open>The exponent \<open>e\<close> with \<open>2 ^ e \<le> q < 2 ^ (e + 1)\<close>.\<close>

definition rat_exponent :: "rat \<Rightarrow> int" where
  "rat_exponent q =
     (let (a, b) = quotient_of q; e = bit_count a - bit_count b
      in if pow2 e \<le> q then e else e - 1)"

definition f64_round :: "rat \<Rightarrow> rat" where
  "f64_round q =
     (if q = 0 then 0
      else (let u = pow2 (rat_exponent q - 52) in of_int (round_ties_even (q / u)) * u))"

definition f64_of_int :: "int \<Rightarrow> rat" where
  "f64_of_int n = f64_round (of_int n)"

definition f64_div :: "rat \<Rightarrow> rat \<Rightarrow> rat" where
  "f64_div a b = f64_round (a / b)"

definition f64_mult :: "rat \<Rightarrow> rat \<Rightarrow> rat" where
  "f64_mult a b = f64_round (a * b)"

text \<open>\<open>as u8\<close> truncates and saturates; \<open>round\<close> is to the nearest, ties away from zero.\<close>

definition f64_to_u8 :: "rat \<Rightarrow> nat" where
  "f64_to_u8 q = nat (min 255 (floor q))"

definition f64_nearest :: "rat \<Rightarrow> rat" where
  "f64_nearest q = of_int (floor (q + 1 / 2))"

lemma f64_round_0 [simp]: "f64_round 0 = 0"
  by (simp add: f64_round_def)

lemma f64_of_int_0 [simp]: "f64_of_int 0 = 0"
  by (simp add: f64_of_int_def)

end
