(* ===== verification/Context_Mgmt.thy ===== *)
theory Context_Mgmt
  imports Token_Budget Rust_Float "HOL-Library.Word"
begin

text \<open>
  Context management (\<open>src/openhuman/context\<close>): the budget of a single tool result, the guard
  with its compaction breaker, microcompaction, the session-memory counters, the pipeline over
  them and the manager that calls the summarizer.  Token counts are 64-bit words, the breaker
  counts in 8 bits.
\<close>

section \<open>The budget of a tool result\<close>

definition DEFAULT_TOOL_RESULT_BUDGET_BYTES :: nat where
  "DEFAULT_TOOL_RESULT_BUDGET_BYTES = 16 * 1024"

definition TRAILER_RESERVED :: nat where
  "TRAILER_RESERVED = 256"

record budget_outcome =
  original_bytes :: nat
  final_bytes :: nat
  truncated :: bool

definition truncation_marker :: "nat \<Rightarrow> string" where
  "truncation_marker dropped =
     [CHR 0x0A, CHR 0x0A] @ ''['' @ ellipsis @ '' '' @ dec_nat dropped @
     '' bytes truncated by tool_result_budget '' @ em_dash @
     '' re-run with a narrower query to see the rest '' @ ellipsis @ '']''"

text \<open>The length of the first character: one lead byte and the continuation bytes after it.\<close>

definition first_char_len :: "string \<Rightarrow> nat" where
  "first_char_len s = (case s of [] \<Rightarrow> 0 | c # cs \<Rightarrow> Suc (length (takeWhile is_continuation cs)))"

definition apply_tool_result_budget :: "string \<Rightarrow> nat \<Rightarrow> string \<times> budget_outcome" where
  "apply_tool_result_budget content budget =
     (if budget = 0 \<or> length content \<le> budget
      then (content, \<lparr>original_bytes = length content, final_bytes = length content, truncated = False\<rparr>)
      else
        (let head_capacity = max (budget - TRAILER_RESERVED) 1;
             cut0 = floor_char_boundary content head_capacity;
             cut = (if cut0 = 0 then first_char_len content else cut0);
             out = take cut content @ truncation_marker (length content - cut)
         in (out, \<lparr>original_bytes = length content, final_bytes = length out, truncated = True\<rparr>)))"

section \<open>The context guard\<close>

text \<open>Of the provider's usage report, the fields that are read here.\<close>

record usage_info =
  input_tokens :: "64 word"
  output_tokens :: "64 word"
  usage_window :: "64 word"

definition COMPACTION_TRIGGER_THRESHOLD :: rat where
  "COMPACTION_TRIGGER_THRESHOLD = f64_round (9 / 10)"

definition HARD_LIMIT_THRESHOLD :: rat where
  "HARD_LIMIT_THRESHOLD = f64_round (19 / 20)"

definition MAX_CONSECUTIVE_FAILURES :: "8 word" where
  "MAX_CONSECUTIVE_FAILURES = 3"

datatype context_check = Check_Ok | Compaction_Needed | Check_Exhausted nat string

record context_guard =
  last_input_tokens :: "64 word"
  last_output_tokens :: "64 word"
  context_window :: "64 word"
  compaction_failures :: "8 word"
  compaction_disabled :: bool

definition guard_with_context_window :: "64 word \<Rightarrow> context_guard" where
  "guard_with_context_window w =
     \<lparr>last_input_tokens = 0, last_output_tokens = 0, context_window = w, compaction_failures = 0,
      compaction_disabled = False\<rparr>"

definition context_guard_new :: context_guard where
  "context_guard_new = guard_with_context_window 0"

definition update_usage :: "usage_info \<Rightarrow> context_guard \<Rightarrow> context_guard" where
  "update_usage u g =
     g\<lparr>last_input_tokens := input_tokens u, last_output_tokens := output_tokens u,
       context_window := (if 0 < usage_window u then usage_window u else context_window g)\<rparr>"

definition utilization :: "context_guard \<Rightarrow> rat option" where
  "utilization g =
     (if context_window g = 0 then None
      else Some (f64_div (f64_of_int (uint (last_input_tokens g + last_output_tokens g)))
                         (f64_of_int (uint (context_window g)))))"

definition context_guard_check :: "context_guard \<Rightarrow> context_check" where
  "context_guard_check g =
     (case utilization g of
        None \<Rightarrow> Check_Ok
      | Some u \<Rightarrow>
          if HARD_LIMIT_THRESHOLD \<le> u \<and> compaction_disabled g
          then Check_Exhausted (f64_to_u8 (f64_mult u 100))
                 (''Context '' @ dec_int (round_ties_even (f64_mult u 100)) @
                  ''% full; compaction disabled after '' @ dec_nat (unat (compaction_failures g)) @
                  '' consecutive failures'')
          else if COMPACTION_TRIGGER_THRESHOLD \<le> u \<and> \<not> compaction_disabled g then Compaction_Needed
          else Check_Ok)"

definition record_compaction_success :: "context_guard \<Rightarrow> context_guard" where
  "record_compaction_success g = g\<lparr>compaction_failures := 0, compaction_disabled := False\<rparr>"

definition record_compaction_failure :: "context_guard \<Rightarrow> context_guard" where
  "record_compaction_failure g =
     (let n = compaction_failures g + 1
      in g\<lparr>compaction_failures := n,
           compaction_disabled := (MAX_CONSECUTIVE_FAILURES \<le> n \<or> compaction_disabled g)\<rparr>)"

section \<open>Microcompaction\<close>

definition CLEARED_PLACEHOLDER :: string where
  "CLEARED_PLACEHOLDER = ''[Old tool result content cleared]''"

definition DEFAULT_KEEP_RECENT_TOOL_RESULTS :: nat where
  "DEFAULT_KEEP_RECENT_TOOL_RESULTS = 5"

record microcompact_stats =
  envelopes_cleared :: nat
  entries_cleared :: nat
  bytes_freed :: nat

definition no_stats :: microcompact_stats where
  "no_stats = \<lparr>envelopes_cleared = 0, entries_cleared = 0, bytes_freed = 0\<rparr>"

text \<open>One envelope: its entries afterwards, how many changed, and the bytes freed.\<close>

fun clear_entries :: "tool_result list \<Rightarrow> tool_result list \<times> nat \<times> nat" where
  "clear_entries [] = ([], 0, 0)"
| "clear_entries (r # rs) =
     (let (rs', n, freed) = clear_entries rs
      in if result_content r = CLEARED_PLACEHOLDER then (r # rs', n, freed)
         else (r\<lparr>result_content := CLEARED_PLACEHOLDER\<rparr> # rs', Suc n,
               (length (result_content r) - length CLEARED_PLACEHOLDER) + freed))"

definition clear_at :: "conv_message list \<times> microcompact_stats \<Rightarrow> nat \<Rightarrow>
    conv_message list \<times> microcompact_stats" where
  "clear_at s i =
     (let (history, stats) = s
      in case history ! i of
           Tool_Results rs \<Rightarrow>
             (let (rs', n, freed) = clear_entries rs
              in (history[i := Tool_Results rs'],
                  \<lparr>envelopes_cleared = envelopes_cleared stats + (if 0 < n then 1 else 0),
                   entries_cleared = entries_cleared stats + n,
                   bytes_freed = bytes_freed stats + freed\<rparr>))
         | _ \<Rightarrow> (history, stats))"

definition tool_result_indices :: "conv_message list \<Rightarrow> nat list" where
  "tool_result_indices history = filter (\<lambda>i. is_tool_results (history ! i)) [0..<length history]"

definition microcompact :: "nat \<Rightarrow> conv_message list \<Rightarrow> conv_message list \<times> microcompact_stats" where
  "microcompact keep_recent history =
     (let indices = tool_result_indices history
      in if length indices \<le> keep_recent then (history, no_stats)
         else foldl clear_at (history, no_stats) (take (length indices - keep_recent) indices))"

section \<open>Session memory\<close>

definition sat_add :: "64 word \<Rightarrow> 64 word \<Rightarrow> 64 word" where
  "sat_add a b = (if a + b < a then - 1 else a + b)"

definition sat_sub :: "64 word \<Rightarrow> 64 word \<Rightarrow> 64 word" where
  "sat_sub a b = (if b \<le> a then a - b else 0)"

record session_memory_config =
  min_token_growth :: "64 word"
  min_tool_calls :: "64 word"
  min_turns_between :: "64 word"

definition default_session_memory_config :: session_memory_config where
  "default_session_memory_config = \<lparr>min_token_growth = 4000, min_tool_calls = 8, min_turns_between = 4\<rparr>"

record session_memory_state =
  total_tokens :: "64 word"
  tokens_at_last_extract :: "64 word"
  turn_at_last_extract :: "64 word"
  total_tool_calls :: "64 word"
  tool_calls_at_last_extract :: "64 word"
  current_turn :: "64 word"
  extraction_in_progress :: bool

definition session_memory_new :: session_memory_state where
  "session_memory_new = \<lparr>total_tokens = 0, tokens_at_last_extract = 0, turn_at_last_extract = 0,
     total_tool_calls = 0, tool_calls_at_last_extract = 0, current_turn = 0, extraction_in_progress = False\<rparr>"

definition sm_tick_turn :: "session_memory_state \<Rightarrow> session_memory_state" where
  "sm_tick_turn s = s\<lparr>current_turn := sat_add (current_turn s) 1\<rparr>"

definition sm_record_usage :: "64 word \<Rightarrow> session_memory_state \<Rightarrow> session_memory_state" where
  "sm_record_usage used s = (if total_tokens s < used then s\<lparr>total_tokens := used\<rparr> else s)"

definition sm_record_tool_calls :: "64 word \<Rightarrow> session_memory_state \<Rightarrow> session_memory_state" where
  "sm_record_tool_calls n s = s\<lparr>total_tool_calls := sat_add (total_tool_calls s) n\<rparr>"

definition should_extract :: "session_memory_config \<Rightarrow> session_memory_state \<Rightarrow> bool" where
  "should_extract c s =
     (if extraction_in_progress s then False
      else min_token_growth c \<le> sat_sub (total_tokens s) (tokens_at_last_extract s)
           \<and> min_tool_calls c \<le> sat_sub (total_tool_calls s) (tool_calls_at_last_extract s)
           \<and> min_turns_between c \<le> sat_sub (current_turn s) (turn_at_last_extract s))"

definition mark_extraction_started :: "session_memory_state \<Rightarrow> session_memory_state" where
  "mark_extraction_started s = s\<lparr>extraction_in_progress := True\<rparr>"

definition mark_extraction_complete :: "session_memory_state \<Rightarrow> session_memory_state" where
  "mark_extraction_complete s =
     s\<lparr>extraction_in_progress := False, tokens_at_last_extract := total_tokens s,
       tool_calls_at_last_extract := total_tool_calls s, turn_at_last_extract := current_turn s\<rparr>"

definition mark_extraction_failed :: "session_memory_state \<Rightarrow> session_memory_state" where
  "mark_extraction_failed s = s\<lparr>extraction_in_progress := False\<rparr>"

section \<open>The pipeline\<close>

record pipeline_config =
  microcompact_keep_recent :: nat
  microcompact_enabled :: bool
  autocompact_enabled :: bool
  session_memory_config :: session_memory_config

definition default_pipeline_config :: pipeline_config where
  "default_pipeline_config = \<lparr>microcompact_keep_recent = DEFAULT_KEEP_RECENT_TOOL_RESULTS,
     microcompact_enabled = True, autocompact_enabled = True,
     session_memory_config = default_session_memory_config\<rparr>"

datatype pipeline_outcome =
  Pipeline_NoOp
| Pipeline_Microcompacted microcompact_stats
| Pipeline_Autocompaction_Requested nat
| Pipeline_Autocompaction_Disabled nat
| Pipeline_Exhausted nat string

record context_pipeline =
  cp_config :: pipeline_config
  cp_guard :: context_guard
  cp_session_memory :: session_memory_state

definition context_pipeline_new :: "pipeline_config \<Rightarrow> context_pipeline" where
  "context_pipeline_new c =
     \<lparr>cp_config = c, cp_guard = context_guard_new, cp_session_memory = session_memory_new\<rparr>"

definition pipeline_record_usage :: "usage_info \<Rightarrow> context_pipeline \<Rightarrow> context_pipeline" where
  "pipeline_record_usage u p =
     p\<lparr>cp_guard := update_usage u (cp_guard p),
       cp_session_memory := sm_record_usage (input_tokens u + output_tokens u) (cp_session_memory p)\<rparr>"

definition pipeline_tick_turn :: "context_pipeline \<Rightarrow> context_pipeline" where
  "pipeline_tick_turn p = p\<lparr>cp_session_memory := sm_tick_turn (cp_session_memory p)\<rparr>"

definition pipeline_record_tool_calls :: "64 word \<Rightarrow> context_pipeline \<Rightarrow> context_pipeline" where
  "pipeline_record_tool_calls n p = p\<lparr>cp_session_memory := sm_record_tool_calls n (cp_session_memory p)\<rparr>"

definition should_extract_session_memory :: "context_pipeline \<Rightarrow> bool" where
  "should_extract_session_memory p = should_extract (session_memory_config (cp_config p)) (cp_session_memory p)"

definition utilisation_pct :: "context_guard \<Rightarrow> nat option" where
  "utilisation_pct g = map_option (\<lambda>u. f64_to_u8 (f64_nearest (f64_mult u 100))) (utilization g)"

definition run_before_call :: "context_pipeline \<Rightarrow> conv_message list \<Rightarrow>
    pipeline_outcome \<times> context_pipeline \<times> conv_message list" where
  "run_before_call p history =
     (case context_guard_check (cp_guard p) of
        Check_Ok \<Rightarrow> (Pipeline_NoOp, p, history)
      | Check_Exhausted pct reason \<Rightarrow> (Pipeline_Exhausted pct reason, p, history)
      | Compaction_Needed \<Rightarrow>
          (let (history', stats) =
                 (if microcompact_enabled (cp_config p)
                  then microcompact (microcompact_keep_recent (cp_config p)) history
                  else (history, no_stats))
           in if microcompact_enabled (cp_config p) \<and> 0 < envelopes_cleared stats
              then (Pipeline_Microcompacted stats,
                    p\<lparr>cp_guard := record_compaction_success (cp_guard p)\<rparr>, history')
              else
                (let pct = (case utilisation_pct (cp_guard p) of None \<Rightarrow> 0 | Some n \<Rightarrow> n)
                 in if autocompact_enabled (cp_config p)
                    then (Pipeline_Autocompaction_Requested pct, p, history')
                    else (Pipeline_Autocompaction_Disabled pct, p, history'))))"

section \<open>The manager\<close>

record summary_stats =
  ss_messages_removed :: nat
  ss_approx_tokens_freed :: nat
  ss_summary_chars :: nat

definition default_summary_stats :: summary_stats where
  "default_summary_stats = \<lparr>ss_messages_removed = 0, ss_approx_tokens_freed = 0, ss_summary_chars = 0\<rparr>"

text \<open>A summarizer answers with an error or its statistics, and the history afterwards.\<close>

type_synonym summarizer = "conv_message list \<Rightarrow> (string + summary_stats) \<times> conv_message list"

datatype reduction_outcome =
  Reduction_NoOp
| Reduction_Microcompacted nat nat nat
| Reduction_Summarized summary_stats
| Reduction_Summarization_Failed nat string
| Reduction_Exhausted nat string
| Reduction_Not_Attempted nat

text \<open>The context section of the configuration and its defaults.\<close>

record context_config =
  cc_enabled :: bool
  cc_microcompact_enabled :: bool
  cc_autocompact_enabled :: bool
  cc_microcompact_keep_recent :: nat
  cc_tool_result_budget_bytes :: nat
  cc_payload_threshold_tokens :: nat
  cc_max_payload_tokens :: nat
  cc_session_memory :: session_memory_config
  cc_summarizer_model :: "string option"
  cc_prefer_markdown :: bool
  cc_compaction_enabled :: bool

definition default_context_config :: context_config where
  "default_context_config = \<lparr>cc_enabled = True, cc_microcompact_enabled = True, cc_autocompact_enabled = True,
     cc_microcompact_keep_recent = DEFAULT_KEEP_RECENT_TOOL_RESULTS,
     cc_tool_result_budget_bytes = DEFAULT_TOOL_RESULT_BUDGET_BYTES,
     cc_payload_threshold_tokens = 4000, cc_max_payload_tokens = 2000000,
     cc_session_memory = default_session_memory_config, cc_summarizer_model = None,
     cc_prefer_markdown = True, cc_compaction_enabled = True\<rparr>"

text \<open>
  The manager.  Its summarizer is an argument of the reduction, and its prompt builder is not
  part of the model.
\<close>

record context_manager =
  cm_pipeline :: context_pipeline
  cm_summarizer_model :: string
  cm_enabled :: bool
  cm_tool_result_budget_bytes :: nat
  cm_prefer_markdown :: bool
  cm_compaction_enabled :: bool

definition context_manager_new :: "context_config \<Rightarrow> string \<Rightarrow> context_manager" where
  "context_manager_new c main_model =
     \<lparr>cm_pipeline = context_pipeline_new
        \<lparr>microcompact_keep_recent = cc_microcompact_keep_recent c,
         microcompact_enabled = cc_microcompact_enabled c,
         autocompact_enabled = cc_autocompact_enabled c,
         session_memory_config = cc_session_memory c\<rparr>,
      cm_summarizer_model = (case cc_summarizer_model c of None \<Rightarrow> main_model | Some model \<Rightarrow> model),
      cm_enabled = cc_enabled c,
      cm_tool_result_budget_bytes = cc_tool_result_budget_bytes c,
      cm_prefer_markdown = cc_prefer_markdown c,
      cm_compaction_enabled = cc_compaction_enabled c\<rparr>"

definition cm_record_usage :: "usage_info \<Rightarrow> context_manager \<Rightarrow> context_manager" where
  "cm_record_usage u m = m\<lparr>cm_pipeline := pipeline_record_usage u (cm_pipeline m)\<rparr>"

definition cm_tick_turn :: "context_manager \<Rightarrow> context_manager" where
  "cm_tick_turn m = m\<lparr>cm_pipeline := pipeline_tick_turn (cm_pipeline m)\<rparr>"

definition cm_record_tool_calls :: "64 word \<Rightarrow> context_manager \<Rightarrow> context_manager" where
  "cm_record_tool_calls n m = m\<lparr>cm_pipeline := pipeline_record_tool_calls n (cm_pipeline m)\<rparr>"

definition on_session_memory :: "(session_memory_state \<Rightarrow> session_memory_state) \<Rightarrow> context_manager \<Rightarrow> context_manager" where
  "on_session_memory f m =
     m\<lparr>cm_pipeline := (cm_pipeline m)\<lparr>cp_session_memory := f (cp_session_memory (cm_pipeline m))\<rparr>\<rparr>"

definition mark_session_memory_started :: "context_manager \<Rightarrow> context_manager" where
  "mark_session_memory_started = on_session_memory mark_extraction_started"

definition mark_session_memory_complete :: "context_manager \<Rightarrow> context_manager" where
  "mark_session_memory_complete = on_session_memory mark_extraction_complete"

definition mark_session_memory_failed :: "context_manager \<Rightarrow> context_manager" where
  "mark_session_memory_failed = on_session_memory mark_extraction_failed"

definition reduce_before_call :: "summarizer \<Rightarrow> context_manager \<Rightarrow> conv_message list \<Rightarrow>
    reduction_outcome \<times> context_manager \<times> conv_message list" where
  "reduce_before_call summarize m history =
     (if \<not> cm_enabled m then (Reduction_NoOp, m, history)
      else
        (let (outcome, p, history') = run_before_call (cm_pipeline m) history;
             m' = m\<lparr>cm_pipeline := p\<rparr>
         in case outcome of
              Pipeline_NoOp \<Rightarrow> (Reduction_NoOp, m', history')
            | Pipeline_Microcompacted s \<Rightarrow>
                (Reduction_Microcompacted (envelopes_cleared s) (entries_cleared s) (bytes_freed s), m', history')
            | Pipeline_Exhausted pct reason \<Rightarrow> (Reduction_Exhausted pct reason, m', history')
            | Pipeline_Autocompaction_Disabled pct \<Rightarrow> (Reduction_Not_Attempted pct, m', history')
            | Pipeline_Autocompaction_Requested pct \<Rightarrow>
                (case summarize history' of
                   (Inr stats, history'') \<Rightarrow>
                     (Reduction_Summarized stats,
                      m'\<lparr>cm_pipeline := p\<lparr>cp_guard := record_compaction_success (cp_guard p)\<rparr>\<rparr>, history'')
                 | (Inl reason, history'') \<Rightarrow>
                     (Reduction_Summarization_Failed pct reason,
                      m'\<lparr>cm_pipeline := p\<lparr>cp_guard := record_compaction_failure (cp_guard p)\<rparr>\<rparr>, history''))))"

record context_stats =
  cs_utilisation_pct :: "nat option"
  cs_input_tokens :: "64 word"
  cs_output_tokens :: "64 word"
  cs_context_window :: "64 word"
  cs_compaction_disabled :: bool
  cs_failures :: "8 word"
  cs_total_tokens :: "64 word"
  cs_current_turn :: "64 word"
  cs_total_tool_calls :: "64 word"

definition manager_stats :: "context_manager \<Rightarrow> context_stats" where
  "manager_stats m =
     (let g = cp_guard (cm_pipeline m); s = cp_session_memory (cm_pipeline m)
      in \<lparr>cs_utilisation_pct = utilisation_pct g, cs_input_tokens = last_input_tokens g,
          cs_output_tokens = last_output_tokens g, cs_context_window = context_window g,
          cs_compaction_disabled = compaction_disabled g, cs_failures = compaction_failures g,
          cs_total_tokens = total_tokens s, cs_current_turn = current_turn s,
          cs_total_tool_calls = total_tool_calls s\<rparr>)"

end
