(* ===== verification/Context_Facts.thy ===== *)
theory Context_Facts
  imports Summarizer
begin

text \<open>
  What context management guarantees: the size of a budgeted tool result, what
  microcompaction touches, that no reduction separates calls from results, and how the
  compaction breaker moves.  The last sections hold the gaps.
\<close>

section \<open>The budget of a tool result\<close>

lemma dec_nat_length: "n < 10 ^ k \<Longrightarrow> 0 < k \<Longrightarrow> length (dec_nat n) \<le> k"
proof (induction k arbitrary: n)
  case (Suc k)
  show ?case
  proof (cases "n < 10")
    case True
    then show ?thesis by (subst dec_nat.simps) simp
  next
    case False
    then have "0 < k" using Suc.prems(1) by (cases k) auto
    moreover have "n div 10 < 10 ^ k" using Suc.prems(1) by (simp add: less_mult_imp_div_less mult.commute)
    ultimately show ?thesis using Suc.IH[of "n div 10"] False by (subst dec_nat.simps) simp
  qed
qed simp

lemma marker_length: "n < 10 ^ 20 \<Longrightarrow> length (truncation_marker n) \<le> 119"
  using dec_nat_length[of n 20] by (simp add: truncation_marker_def ellipsis_def em_dash_def)

lemma marker_long: "99 \<le> length (truncation_marker n)"
  by (simp add: truncation_marker_def ellipsis_def em_dash_def)

text \<open>With a budget above 256 bytes the result of \<open>apply_tool_result_budget\<close> fits the budget,
  for any UTF-8 text (whose characters have at most four bytes) that fits in memory; text within
  the budget is returned as it is.
\<close>

theorem tool_result_fits_budget:
  assumes "256 < budget" and "length content < 2 ^ 64" and "first_char_len content \<le> 4"
    and "apply_tool_result_budget content budget = (out, st)"
  shows "length out \<le> budget \<and> final_bytes st = length out \<and> (\<not> truncated st \<longrightarrow> out = content)
    \<and> (truncated st \<longleftrightarrow> budget < length content)"
proof (cases "length content \<le> budget")
  case True
  then show ?thesis using assms(4) by (auto simp: apply_tool_result_budget_def)
next
  case False
  define raw where "raw = floor_char_boundary content (max (budget - TRAILER_RESERVED) 1)"
  define cut where "cut = (if raw = 0 then first_char_len content else raw)"
  have "raw \<le> max (budget - 256) 1"
    using floor_char_boundary_le[of content "max (budget - 256) 1"] by (simp add: raw_def TRAILER_RESERVED_def)
  then have cut: "cut \<le> budget - 253" using assms(1,3) by (auto simp: cut_def)
  have "length content - cut < 10 ^ 20" using assms(2) by simp
  from marker_length[OF this] cut assms(1)
  have len: "length (take cut content @ truncation_marker (length content - cut)) \<le> budget" by simp
  have "apply_tool_result_budget content budget =
      (let out = take cut content @ truncation_marker (length content - cut)
       in (out, \<lparr>original_bytes = length content, final_bytes = length out, truncated = True\<rparr>))"
    using False assms(1) by (simp add: apply_tool_result_budget_def Let_def cut_def raw_def)
  then show ?thesis using assms(4) len False by (auto simp: Let_def)
qed

theorem tool_result_fits_budget_witness:
  "\<exists>out st. apply_tool_result_budget (replicate 400 (CHR ''x'')) 300 = (out, st) \<and> length out \<le> 300
     \<and> truncated st"
proof (cases "apply_tool_result_budget (replicate 400 (CHR ''x'')) 300")
  case (Pair out st)
  have "first_char_len (replicate 400 (CHR ''x'')) = 1"
    by (simp add: first_char_len_def numeral_nat takeWhile_replicate is_continuation_def byte_def)
  then show ?thesis using tool_result_fits_budget[OF _ _ _ Pair] Pair by auto
qed

text \<open>
  The comment promises a result shorter than the original also below that; it is longer
  whenever the marker alone is.
\<close>

theorem small_budget_grows:
  assumes "0 < budget" and "budget < length content" and "length content < 99"
  shows "length content < length (fst (apply_tool_result_budget content budget))"
proof -
  have "\<exists>cut. fst (apply_tool_result_budget content budget)
          = take cut content @ truncation_marker (length content - cut)"
    using assms by (auto simp: apply_tool_result_budget_def Let_def)
  then show ?thesis using assms(3) marker_long by (metis length_append le_trans linorder_not_le trans_le_add2)
qed

section \<open>Microcompaction\<close>

definition cleared :: "tool_result \<Rightarrow> tool_result" where
  "cleared r = r\<lparr>result_content := CLEARED_PLACEHOLDER\<rparr>"

text \<open>The history with its first \<open>n\<close> envelopes of tool results cleared.\<close>

fun clear_first :: "nat \<Rightarrow> conv_message list \<Rightarrow> conv_message list" where
  "clear_first 0 h = h"
| "clear_first (Suc n) [] = []"
| "clear_first (Suc n) (Tool_Results rs # h) = Tool_Results (map cleared rs) # clear_first n h"
| "clear_first (Suc n) (m # h) = m # clear_first (Suc n) h"

lemma clear_entries_fst: "fst (clear_entries rs) = map cleared rs"
  by (induction rs) (auto simp: cleared_def split: prod.splits)

lemma clear_entries_cleared: "clear_entries (map cleared rs) = (map cleared rs, 0, 0)"
  by (induction rs) (auto simp: cleared_def)

lemma clear_first_Nil [simp]: "clear_first n [] = []"
  by (cases n) auto

lemma clear_first_other: "\<not> is_tool_results m \<Longrightarrow> clear_first n (m # h) = m # clear_first n h"
  by (cases n; cases m) auto

lemma tool_result_indices_Cons:
  "tool_result_indices (m # h) =
     (if is_tool_results m then 0 # map Suc (tool_result_indices h) else map Suc (tool_result_indices h))"
proof -
  have "[0..<length (m # h)] = 0 # map Suc [0..<length h]" by (simp add: map_Suc_upt upt_conv_Cons del: upt_Suc)
  then show ?thesis by (simp add: tool_result_indices_def filter_map o_def)
qed

lemma clear_at_fst:
  "fst (clear_at (pre @ Tool_Results rs # h, st) (length pre)) = pre @ Tool_Results (map cleared rs) # h"
  using clear_entries_fst[of rs] by (auto simp: clear_at_def split: prod.splits)

lemma foldl_clear:
  "fst (foldl clear_at (pre @ h, st) (take n (map ((+) (length pre)) (tool_result_indices h))))
     = pre @ clear_first n h"
proof (induction h arbitrary: pre st n)
  case Nil
  then show ?case by (cases n) (simp_all add: tool_result_indices_def)
next
  case (Cons m h)
  have shift: "map ((+) (length pre)) (map Suc (tool_result_indices h))
      = map ((+) (length (pre @ [x]))) (tool_result_indices h)" for x :: conv_message by simp
  show ?case
  proof (cases m)
    case (Tool_Results rs)
    show ?thesis
    proof (cases n)
      case (Suc k)
      obtain st' where "clear_at (pre @ m # h, st) (length pre) = (pre @ Tool_Results (map cleared rs) # h, st')"
        using clear_at_fst[of pre rs h st] Tool_Results by (metis prod.collapse)
      then show ?thesis
        using Cons.IH[of "pre @ [Tool_Results (map cleared rs)]" st' k] Tool_Results Suc
        by (simp add: tool_result_indices_Cons comp_def)
    qed simp
  qed (use Cons.IH[of "pre @ [m]" st n] in
      \<open>simp_all add: tool_result_indices_Cons clear_first_other comp_def\<close>)
qed

lemma microcompact_fst:
  "fst (microcompact keep h) = clear_first (length (tool_result_indices h) - keep) h"
proof -
  have "((+) 0) = (\<lambda>i :: nat. i)" by auto
  then show ?thesis
    using foldl_clear[of "[]" h no_stats] by (simp add: microcompact_def Let_def)
qed

lemma tool_result_indices_clear [simp]: "tool_result_indices (clear_first n h) = tool_result_indices h"
  by (induction n h rule: clear_first.induct) (auto simp: tool_result_indices_Cons)

lemma clear_first_idem: "clear_first n (clear_first n h) = clear_first n h"
  by (induction n h rule: clear_first.induct) (auto simp: cleared_def)

lemma paired_clear: "paired h \<Longrightarrow> paired (clear_first n h)"
proof (induction h arbitrary: n rule: paired.induct)
  case (3 t cs r rs rest)
  then show ?case by (cases n) auto
next
  case (2 m rest)
  then show ?case by (cases n) auto
qed auto

definition erase_results :: "conv_message \<Rightarrow> conv_message" where
  "erase_results m = (case m of Tool_Results rs \<Rightarrow> Tool_Results (map cleared rs) | _ \<Rightarrow> m)"

lemma count_tools: "length (tool_result_indices h) = length (filter is_tool_results h)"
  by (induction h) (auto simp: tool_result_indices_Cons, simp add: tool_result_indices_def)

lemma length_clear_first [simp]: "length (clear_first n h) = length h"
  by (induction n h rule: clear_first.induct) auto

lemma nth_clear_first:
  "i < length h \<Longrightarrow> clear_first n h ! i =
     (if is_tool_results (h ! i) \<and> length (filter is_tool_results (take i h)) < n
      then erase_results (h ! i) else h ! i)"
proof (induction h arbitrary: n i)
  case (Cons m h)
  then show ?case by (cases n; cases m; cases i) (auto simp: erase_results_def)
qed simp

lemma foldl_clear_again:
  "foldl clear_at (pre @ clear_first n h, st) (take n (map ((+) (length pre)) (tool_result_indices h)))
     = (pre @ clear_first n h, st)"
proof (induction h arbitrary: pre n)
  case Nil
  then show ?case by (cases n) (simp_all add: tool_result_indices_def)
next
  case (Cons m h)
  show ?case
  proof (cases m)
    case (Tool_Results rs)
    show ?thesis
    proof (cases n)
      case (Suc k)
      let ?m = "Tool_Results (map cleared rs)"
      have "clear_at (pre @ ?m # clear_first k h, st) (length pre) = (pre @ ?m # clear_first k h, st)"
        by (simp add: clear_at_def clear_entries_cleared)
      then show ?thesis
        using Cons.IH[of "pre @ [?m]" k] Tool_Results Suc
        by (simp add: tool_result_indices_Cons comp_def)
    qed simp
  qed (use Cons.IH[of "pre @ [m]" n] in
      \<open>simp_all add: tool_result_indices_Cons clear_first_other comp_def\<close>)
qed

lemma filter_split_at:
  assumes "i < length h" and "p (h ! i)"
  shows "length (filter p h) = length (filter p (take i h)) + 1 + length (filter p (drop (Suc i) h))"
proof -
  have "h = take i h @ h ! i # drop (Suc i) h" using assms(1) by (rule id_take_nth_drop)
  then have "filter p h = filter p (take i h) @ h ! i # filter p (drop (Suc i) h)"
    using assms(2) by (metis filter.simps(2) filter_append)
  then show ?thesis by simp
qed

text \<open>Microcompaction changes nothing but the contents of the older tool results: the most
  recent \<open>keep\<close> envelopes, all other messages, the order and the call identifiers stay; every
  older entry holds the placeholder; and a second pass changes nothing and counts nothing.
\<close>

theorem microcompact_clears_old:
  assumes "microcompact keep h = (h', st)"
  shows "length h' = length h
    \<and> (\<forall>i < length h. h' ! i =
         (if is_tool_results (h ! i) \<and> keep \<le> length (filter is_tool_results (drop (Suc i) h))
          then erase_results (h ! i) else h ! i))
    \<and> microcompact keep h' = (h', no_stats)"
proof -
  let ?n = "length (tool_result_indices h) - keep"
  have h': "h' = clear_first ?n h" using assms microcompact_fst[of keep h] by simp
  have "h' ! i = (if is_tool_results (h ! i) \<and> keep \<le> length (filter is_tool_results (drop (Suc i) h))
      then erase_results (h ! i) else h ! i)" if "i < length h" for i
    using filter_split_at[OF that, of is_tool_results]
    unfolding h' nth_clear_first[OF that] count_tools by auto
  moreover have "microcompact keep h' = (h', no_stats)"
  proof -
    have "((+) 0) = (\<lambda>i :: nat. i)" by auto
    then show ?thesis
      using foldl_clear_again[of "[]" ?n h no_stats] by (simp add: microcompact_def Let_def h')
  qed
  ultimately show ?thesis by (simp add: h')
qed

theorem microcompact_clears_old_witness:
  "let (h', st) = microcompact 0 demo_history
   in length h' = length demo_history \<and> microcompact 0 h' = (h', no_stats)"
proof (cases "microcompact 0 demo_history")
  case (Pair h' st)
  from microcompact_clears_old[OF this] Pair show ?thesis by simp
qed

section \<open>Summarizers\<close>

lemma clear_entries_zero: "clear_entries rs = (rs', 0, freed) \<Longrightarrow> rs' = rs"
  by (induction rs arbitrary: rs' freed) (auto split: if_splits prod.splits)

lemma nth_list_update_self: "xs ! i = y \<Longrightarrow> xs[i := y] = xs"
  by auto

lemma foldl_clear_zero:
  "envelopes_cleared (snd (foldl clear_at s idx)) = 0 \<Longrightarrow>
     envelopes_cleared (snd s) = 0 \<and> fst (foldl clear_at s idx) = fst s"
proof (induction idx arbitrary: s)
  case (Cons i idx)
  then have "envelopes_cleared (snd (clear_at s i)) = 0" and
    rest: "fst (foldl clear_at (clear_at s i) idx) = fst (clear_at s i)" by auto
  then have "envelopes_cleared (snd s) = 0 \<and> fst (clear_at s i) = fst s"
    by (cases s) (auto simp: clear_at_def split: conv_message.splits prod.splits if_splits
        dest: clear_entries_zero intro: nth_list_update_self)
  then show ?case using rest by simp
qed simp

lemma microcompact_zero: "envelopes_cleared (snd (microcompact keep h)) = 0 \<Longrightarrow> fst (microcompact keep h) = h"
  using foldl_clear_zero[of "(h, no_stats)"] by (auto simp: microcompact_def Let_def)

lemma microcompact_paired: "paired h \<Longrightarrow> paired (fst (microcompact keep h))"
  by (simp add: microcompact_fst paired_clear)

text \<open>
  What the manager relies on: an error leaves the history alone, a success leaves it alone or
  replaces a head of it by one note, and calls stay with their results.
\<close>

definition note_for_head :: "nat \<Rightarrow> conv_message list \<Rightarrow> conv_message list \<Rightarrow> bool" where
  "note_for_head n h h' \<longleftrightarrow>
     (if n = 0 then h' = h else n < length h \<and> (\<exists>body. h' = Chat (system_message body) # drop n h))"

locale compactor =
  fixes summarize :: summarizer
  assumes error_keeps: "summarize h = (Inl e, h') \<Longrightarrow> h' = h"
    and success_notes: "summarize h = (Inr st, h') \<Longrightarrow> note_for_head (ss_messages_removed st) h h'"
    and keeps_pairs: "summarize h = (res, h') \<Longrightarrow> paired h \<Longrightarrow> paired h'"
begin

lemma before_call_cases:
  assumes "run_before_call p h = (out, p', h')"
  shows "paired h \<longrightarrow> paired h'" and "(\<forall>st. out \<noteq> Pipeline_Microcompacted st) \<longrightarrow> h' = h"
  using assms microcompact_paired[of h "microcompact_keep_recent (cp_config p)"]
    microcompact_zero[of "microcompact_keep_recent (cp_config p)" h]
  by (auto simp: run_before_call_def Let_def split: context_check.splits if_splits prod.splits)

lemma reduce_keeps_pairs:
  assumes "reduce_before_call summarize m h = (out, m', h')" and "paired h"
  shows "paired h'"
  using assms before_call_cases(1)[of "cm_pipeline m" h] keeps_pairs
  by (fastforce simp: reduce_before_call_def Let_def split: if_splits prod.splits pipeline_outcome.splits sum.splits)

lemma reduce_outcome:
  assumes "reduce_before_call summarize m h = (out, m', h')"
  shows "case out of
      Reduction_Microcompacted a b c \<Rightarrow> True
    | Reduction_Summarized st \<Rightarrow> note_for_head (ss_messages_removed st) h h'
    | _ \<Rightarrow> h' = h"
proof (cases "run_before_call (cm_pipeline m) h")
  case (fields o1 p1 h1)
  from before_call_cases(2)[OF this] assms fields show ?thesis
    by (cases o1) (auto simp: reduce_before_call_def Let_def split: if_splits prod.splits sum.splits
        dest: error_keeps success_notes)
qed

end

lemma tool_after_calls:
  "paired h \<Longrightarrow> i < length h \<Longrightarrow> is_tool_results (h ! i) \<Longrightarrow> 0 < i \<and> is_assistant_calls (h ! (i - 1))"
proof (induction h arbitrary: i rule: paired.induct)
  case (2 m rest)
  then show ?case
  proof (cases i)
    case (Suc j)
    with 2 have "0 < j" "is_assistant_calls (rest ! (j - 1))" by auto
    then show ?thesis using Suc by (cases j) auto
  qed simp
next
  case (3 t cs r rs rest)
  then show ?case using "3.IH"[of "i - 2"] by (cases i; cases "i - 1"; cases "i - 2") auto
qed auto

lemma two_tools: "paired h \<Longrightarrow> Suc i < length h \<Longrightarrow> is_tool_results (h ! i) \<Longrightarrow> \<not> is_tool_results (h ! Suc i)"
  using tool_after_calls[of h "Suc i"] by (cases "h ! i") auto

lemma snap_clean:
  assumes "paired h" and "snap_split_forward h n = k" and "0 < k"
  shows "paired (drop k h)"
proof (rule paired_snap[OF assms(1)], intro allI impI)
  fix y ys assume d: "drop k h = y # ys"
  then have k: "k < length h" "y = h ! k" using nth_via_drop[OF d] by (metis drop_all list.discI not_le, simp)
  then show "\<not> is_tool_results y"
    using assms(2,3) tool_after_calls[OF assms(1), of k] two_tools[OF assms(1), of "k - 1"]
    by (auto simp: snap_split_forward_def Let_def split: if_splits)
qed

lemma snap_short: "snap_split_forward h n = k \<Longrightarrow> 0 < k \<Longrightarrow> k < length h"
  by (auto simp: snap_split_forward_def Let_def split: if_splits)

interpretation provider: compactor "provider_summarize chat keep" for chat keep
proof
  fix h h' e st res
  show "provider_summarize chat keep h = (Inl e, h') \<Longrightarrow> h' = h"
    by (auto simp: provider_summarize_def Let_def split: if_splits sum.splits)
  show "provider_summarize chat keep h = (Inr st, h') \<Longrightarrow> note_for_head (ss_messages_removed st) h h'"
    using snap_short[of h "length h - keep"]
    by (auto simp: provider_summarize_def Let_def note_for_head_def default_summary_stats_def
        summary_result_def split: if_splits sum.splits)
  show "provider_summarize chat keep h = (res, h') \<Longrightarrow> paired h \<Longrightarrow> paired h'"
    using snap_clean[of h "length h - keep"]
    by (auto simp: provider_summarize_def Let_def split: if_splits sum.splits)
qed

context compactor
begin

lemma recap_compactor: "compactor (recap_summarize recap keep summarize)"
proof
  fix h h' e st res
  show "recap_summarize recap keep summarize h = (Inl e, h') \<Longrightarrow> h' = h"
    by (auto simp: recap_summarize_def Let_def split: if_splits option.splits dest: error_keeps)
  show "recap_summarize recap keep summarize h = (Inr st, h') \<Longrightarrow> note_for_head (ss_messages_removed st) h h'"
    using snap_short[of h "length h - keep"]
    by (auto simp: recap_summarize_def Let_def default_summary_stats_def summary_result_def
        split: if_splits option.splits dest: success_notes) (auto simp: note_for_head_def)
  show "recap_summarize recap keep summarize h = (res, h') \<Longrightarrow> paired h \<Longrightarrow> paired h'"
    using snap_clean[of h "length h - keep"]
    by (auto simp: recap_summarize_def Let_def split: if_splits option.splits dest: keeps_pairs)
qed

end

interpretation recap: compactor "recap_summarize recap keep (provider_summarize chat keep')"
  for recap keep chat keep'
  by (rule provider.recap_compactor)

text \<open>C6. A reduction with the summarizer an agent uses (the archivist's recap over the provider's
  summary) keeps calls and results together; only a microcompaction or a reported summary
  changes the history, and a summary replaces exactly the reported number of oldest messages
  by one note: after a failed summary, or an exhausted context, the history is as it was.
\<close>

theorem reduction_keeps_history:
  assumes "reduce_before_call (recap_summarize recap keep (provider_summarize chat keep')) m h = (out, m', h')"
  shows "(paired h \<longrightarrow> paired h') \<and>
    (case out of
       Reduction_Microcompacted a b c \<Rightarrow> True
     | Reduction_Summarized st \<Rightarrow> note_for_head (ss_messages_removed st) h h'
     | _ \<Rightarrow> h' = h)"
  using recap.reduce_keeps_pairs[OF assms] recap.reduce_outcome[OF assms] by blast

section \<open>Before a request\<close>

lemma paired_drop_oldest:
  "paired h \<Longrightarrow> \<forall>y ys. non_system is_system_conv (drop_oldest is_system_conv n h) = y # ys \<longrightarrow> \<not> is_tool_results y \<Longrightarrow>
     paired (drop_oldest is_system_conv n h)"
proof (induction h arbitrary: n rule: paired.induct)
  case (2 m rest)
  then show ?case by (cases n) (auto simp: non_system_def)
next
  case (3 t cs r rs rest)
  show ?case
  proof (cases n)
    case (Suc j)
    then show ?thesis using 3 by (cases j) (auto simp: non_system_def)
  qed (use 3 in simp)
qed auto

lemma trim_paired:
  assumes "paired h"
  shows "paired (fst (trim_conversation_history_to_budget w h))"
proof (cases "trim_conversation_history_to_budget w h")
  case (Pair kept out)
  from trim_drops[OF Pair[unfolded trim_conversation_history_to_budget_def]] obtain n where
    n: "kept = drop_oldest is_system_conv n h"
    and first: "\<forall>y ys. 0 < n \<longrightarrow> non_system is_system_conv kept = y # ys \<longrightarrow> \<not> is_tool_results y"
    by blast
  show ?thesis
  proof (cases "n = 0")
    case True
    then show ?thesis using n assms Pair by simp
  next
    case False
    then have "\<forall>y ys. non_system is_system_conv (drop_oldest is_system_conv n h) = y # ys \<longrightarrow> \<not> is_tool_results y"
      using first n by blast
    from paired_drop_oldest[OF assms this] show ?thesis using n Pair by simp
  qed
qed

text \<open>C5. What an agent sends is well formed: if in the history every message of tool calls is
  followed by its results and results stand nowhere else, the same holds after the trim and the
  reduction that precede the request; and the turn is given up only with the breaker open.
\<close>

theorem dispatch_keeps_pairs:
  assumes "paired h"
    and "before_dispatch (recap_summarize recap keep (provider_summarize chat keep')) window m h = (res, m', h')"
  shows "paired h' \<and> (\<not> isl res \<or> compaction_disabled (cp_guard (cm_pipeline m)))"
proof -
  let ?s = "recap_summarize recap keep (provider_summarize chat keep')"
  let ?h = "case window of None \<Rightarrow> h | Some w \<Rightarrow> fst (trim_conversation_history_to_budget w h)"
  have h: "paired ?h" using assms(1) trim_paired by (cases window) simp_all
  obtain out where r: "reduce_before_call ?s m ?h = (out, m', h')"
    and res: "res = (case out of Reduction_Exhausted pct reason \<Rightarrow> Inl (exhausted_text pct reason) | _ \<Rightarrow> Inr ())"
    using assms(2) by (auto simp: before_dispatch_def Let_def split: prod.splits)
  have "compaction_disabled (cp_guard (cm_pipeline m))" if "isl res"
  proof -
    from that res obtain pct reason where "out = Reduction_Exhausted pct reason"
      by (auto split: reduction_outcome.splits)
    with r show ?thesis
      by (auto simp: reduce_before_call_def run_before_call_def context_guard_check_def Let_def
          split: if_splits option.splits prod.splits sum.splits)
  qed
  with recap.reduce_keeps_pairs[OF r h] show ?thesis by blast
qed

theorem dispatch_keeps_pairs_witness:
  "paired (snd (snd (before_dispatch (recap_summarize None 10 (provider_summarize (\<lambda>_. Inr ''summary'') 2))
      (Some 520) (context_manager_new default_context_config ''m'') demo_history)))"
proof (cases "before_dispatch (recap_summarize None 10 (provider_summarize (\<lambda>_. Inr ''summary'') 2))
      (Some 520) (context_manager_new default_context_config ''m'') demo_history")
  case (fields res m' h')
  have "paired demo_history" by code_simp
  from dispatch_keeps_pairs[OF this fields] fields show ?thesis by simp
qed

section \<open>The compaction breaker\<close>

inductive cm_step :: "context_manager \<Rightarrow> context_manager \<Rightarrow> bool" where
  "cm_step m (cm_record_usage u m)"
| "cm_step m (cm_tick_turn m)"
| "cm_step m (cm_record_tool_calls n m)"
| "cm_step m (mark_session_memory_started m)"
| "cm_step m (mark_session_memory_complete m)"
| "cm_step m (mark_session_memory_failed m)"
| "reduce_before_call summarize m h = (out, m', h') \<Longrightarrow> cm_step m m'"

inductive managed :: "context_manager \<Rightarrow> bool" where
  "managed (context_manager_new c main_model)"
| "managed m \<Longrightarrow> cm_step m m' \<Longrightarrow> managed m'"

abbreviation cm_guard :: "context_manager \<Rightarrow> context_guard" where
  "cm_guard m \<equiv> cp_guard (cm_pipeline m)"

definition breaker_ok :: "context_guard \<Rightarrow> bool" where
  "breaker_ok g \<longleftrightarrow> compaction_failures g \<le> 3 \<and> (compaction_disabled g \<longleftrightarrow> compaction_failures g = 3)"

lemma check_needed: "context_guard_check g = Compaction_Needed \<Longrightarrow> \<not> compaction_disabled g"
  by (auto simp: context_guard_check_def split: option.splits if_splits)

lemma before_call_guard:
  assumes "run_before_call p h = (out, p', h')"
  shows "cp_guard p' = cp_guard p
    \<or> \<not> compaction_disabled (cp_guard p) \<and> cp_guard p' = record_compaction_success (cp_guard p)"
    and "out = Pipeline_Autocompaction_Requested n \<Longrightarrow> cp_guard p' = cp_guard p \<and> \<not> compaction_disabled (cp_guard p)"
  using assms check_needed[of "cp_guard p"]
  by (auto simp: run_before_call_def Let_def split: context_check.splits if_splits prod.splits)

lemma reduce_guard:
  assumes "reduce_before_call summarize m h = (out, m', h')"
  shows "cm_guard m' = cm_guard m \<or> \<not> compaction_disabled (cm_guard m)
    \<and> (cm_guard m' = record_compaction_success (cm_guard m) \<or> cm_guard m' = record_compaction_failure (cm_guard m))"
proof (cases "run_before_call (cm_pipeline m) h")
  case (fields o1 p1 h1)
  from before_call_guard[OF this] assms fields show ?thesis
    by (cases o1) (auto simp: reduce_before_call_def Let_def split: if_splits prod.splits sum.splits)
qed

lemma cm_step_guard:
  assumes "cm_step m m'"
  shows "compaction_failures (cm_guard m') = compaction_failures (cm_guard m)
      \<and> compaction_disabled (cm_guard m') = compaction_disabled (cm_guard m)
    \<or> \<not> compaction_disabled (cm_guard m) \<and> (cm_guard m' = record_compaction_success (cm_guard m)
      \<or> cm_guard m' = record_compaction_failure (cm_guard m))"
  using assms
proof cases
  case (7 summarize h out h')
  from reduce_guard[OF this] show ?thesis by auto
qed (simp_all add: cm_record_usage_def pipeline_record_usage_def update_usage_def cm_tick_turn_def
    pipeline_tick_turn_def cm_record_tool_calls_def pipeline_record_tool_calls_def on_session_memory_def
    mark_session_memory_started_def mark_session_memory_complete_def mark_session_memory_failed_def)

lemma below_three: "(n :: 8 word) \<le> 3 \<Longrightarrow> n \<noteq> 3 \<Longrightarrow> n = 0 \<or> n = 1 \<or> n = 2"
  by (simp add: word_le_nat_alt word_unat_eq_iff) arith

lemma three_above: "\<not> (3 :: 8 word) \<le> 1" "\<not> (3 :: 8 word) \<le> 2"
  by code_simp+

lemma record_ok:
  "breaker_ok (record_compaction_success g)"
  "breaker_ok g \<Longrightarrow> \<not> compaction_disabled g \<Longrightarrow> breaker_ok (record_compaction_failure g)"
  using below_three[of "compaction_failures g"] three_above
  by (auto simp: breaker_ok_def record_compaction_success_def record_compaction_failure_def Let_def
      MAX_CONSECUTIVE_FAILURES_def)

lemma cm_step_ok: "cm_step m m' \<Longrightarrow> breaker_ok (cm_guard m) \<Longrightarrow> breaker_ok (cm_guard m')"
  using cm_step_guard[of m m'] record_ok[of "cm_guard m"] by (auto simp: breaker_ok_def)

lemma managed_ok: "managed m \<Longrightarrow> breaker_ok (cm_guard m)"
  by (induction rule: managed.induct)
     (simp_all add: cm_step_ok, simp add: breaker_ok_def context_manager_new_def context_pipeline_new_def
        context_guard_new_def guard_with_context_window_def)

lemma disabled_stays: "cm_step\<^sup>*\<^sup>* m m' \<Longrightarrow> compaction_disabled (cm_guard m) \<Longrightarrow> compaction_disabled (cm_guard m')"
  by (induction rule: rtranclp_induct) (auto dest: cm_step_guard)

lemma managed_steps: "cm_step\<^sup>*\<^sup>* m m' \<Longrightarrow> managed m \<Longrightarrow> managed m'"
  by (induction rule: rtranclp_induct) (auto intro: managed.intros)

text \<open>In every run of a session the breaker counts at most three failures in a row and is open
  exactly at three.  Once it is open it stays open: the only calls that would reset it are made
  after a check that an open breaker never passes.
\<close>

theorem breaker_is_final:
  assumes "managed m"
  shows "compaction_failures (cm_guard m) \<le> 3
    \<and> (compaction_disabled (cm_guard m) \<longleftrightarrow> compaction_failures (cm_guard m) = 3)
    \<and> (\<forall>m'. cm_step\<^sup>*\<^sup>* m m' \<longrightarrow> compaction_disabled (cm_guard m) \<longrightarrow>
          compaction_disabled (cm_guard m') \<and> compaction_failures (cm_guard m') = 3)"
  using managed_ok[OF assms] managed_ok[OF managed_steps[OF _ assms]] disabled_stays[of m]
  unfolding breaker_ok_def by blast

text \<open>The outcome of the call after \<open>n\<close> reductions in a row, without a reply in between.\<close>

fun nth_outcome :: "summarizer \<Rightarrow> nat \<Rightarrow> context_manager \<Rightarrow> conv_message list \<Rightarrow> reduction_outcome" where
  "nth_outcome summarize 0 m h = fst (reduce_before_call summarize m h)"
| "nth_outcome summarize (Suc n) m h =
     (let (out, m', h') = reduce_before_call summarize m h in nth_outcome summarize n m' h')"

text \<open>A context past the hard limit with nothing left to microcompact.\<close>

definition pressed :: "context_manager \<Rightarrow> conv_message list \<Rightarrow> bool" where
  "pressed m h \<longleftrightarrow> cm_enabled m \<and> autocompact_enabled (cp_config (cm_pipeline m))
     \<and> length (filter is_tool_results h) \<le> microcompact_keep_recent (cp_config (cm_pipeline m))
     \<and> (case utilization (cm_guard m) of None \<Rightarrow> False | Some u \<Rightarrow> HARD_LIMIT_THRESHOLD \<le> u)"

lemma thresholds: "COMPACTION_TRIGGER_THRESHOLD \<le> HARD_LIMIT_THRESHOLD"
  by code_simp

lemma pressed_microcompact: "pressed m h \<Longrightarrow> microcompact (microcompact_keep_recent (cp_config (cm_pipeline m))) h = (h, no_stats)"
  by (simp add: pressed_def microcompact_def count_tools)

lemma pressed_check:
  assumes "pressed m h"
  shows "\<not> compaction_disabled (cm_guard m) \<Longrightarrow> context_guard_check (cm_guard m) = Compaction_Needed"
    and "compaction_disabled (cm_guard m) \<Longrightarrow> \<exists>pct reason. context_guard_check (cm_guard m) = Check_Exhausted pct reason"
  using assms thresholds by (auto simp: pressed_def context_guard_check_def split: option.splits)


lemma pressed_reduce:
  assumes "pressed m h" and "\<not> compaction_disabled (cm_guard m)"
  shows "\<exists>n. reduce_before_call summarize m h =
    (case summarize h of
       (Inr stats, h') \<Rightarrow> (Reduction_Summarized stats,
          m\<lparr>cm_pipeline := (cm_pipeline m)\<lparr>cp_guard := record_compaction_success (cm_guard m)\<rparr>\<rparr>, h')
     | (Inl reason, h') \<Rightarrow> (Reduction_Summarization_Failed n reason,
          m\<lparr>cm_pipeline := (cm_pipeline m)\<lparr>cp_guard := record_compaction_failure (cm_guard m)\<rparr>\<rparr>, h'))"
  using pressed_check(1)[OF assms] pressed_microcompact[OF assms(1)] assms(1)
  by (auto simp: reduce_before_call_def run_before_call_def pressed_def Let_def no_stats_def
      split: prod.splits sum.splits)

lemma pressed_guard:
  "pressed m h \<Longrightarrow> pressed (m\<lparr>cm_pipeline := (cm_pipeline m)\<lparr>cp_guard := record_compaction_success (cm_guard m)\<rparr>\<rparr>) h"
  "pressed m h \<Longrightarrow> pressed (m\<lparr>cm_pipeline := (cm_pipeline m)\<lparr>cp_guard := record_compaction_failure (cm_guard m)\<rparr>\<rparr>) h"
  by (auto simp: pressed_def utilization_def record_compaction_success_def record_compaction_failure_def Let_def
      split: if_splits)




definition full_manager :: context_manager where
  "full_manager = cm_record_usage \<lparr>input_tokens = 96000, output_tokens = 0, usage_window = 100000\<rparr>
     (context_manager_new default_context_config ''m'')"

lemma full_managed: "managed full_manager"
  unfolding full_manager_def by (rule managed.intros(2)[OF managed.intros(1) cm_step.intros(1)])

lemma full_guard:
  "cm_guard full_manager = \<lparr>last_input_tokens = 96000, last_output_tokens = 0, context_window = 100000,
     compaction_failures = 0, compaction_disabled = False\<rparr>"
  by (simp add: full_manager_def cm_record_usage_def context_manager_new_def pipeline_record_usage_def
      context_pipeline_new_def update_usage_def context_guard_new_def guard_with_context_window_def)

lemma full_utilization: "HARD_LIMIT_THRESHOLD \<le> f64_div (f64_of_int 96000) (f64_of_int 100000)"
  by code_simp

lemma full_pressed: "length (filter is_tool_results h) \<le> 5 \<Longrightarrow> pressed full_manager h"
  using full_utilization unfolding pressed_def
  by (simp add: full_guard utilization_def)
     (simp add: full_manager_def cm_record_usage_def context_manager_new_def pipeline_record_usage_def
        context_pipeline_new_def default_context_config_def DEFAULT_KEEP_RECENT_TOOL_RESULTS_def)


theorem breaker_is_final_witness:
  "compaction_failures (cm_guard full_manager) \<le> 3"
  using breaker_is_final[OF full_managed] by blast

lemma provider_short: "length h \<le> keep \<Longrightarrow> provider_summarize chat keep h = (Inr default_summary_stats, h)"
  by (simp add: provider_summarize_def)

text \<open>A history too short to be summarized is reported as summarized, and counted as a success:
  the summarizer answers with empty statistics, so past the hard limit every call ends this way,
  with the history and the breaker as they were, and the context is never reported exhausted.
\<close>

theorem short_history_never_exhausts:
  assumes "pressed m h" and "\<not> compaction_disabled (cm_guard m)" and "length h \<le> keep"
  shows "nth_outcome (provider_summarize chat keep) n m h = Reduction_Summarized default_summary_stats"
  using assms(1,2)
proof (induction n arbitrary: m)
  case 0
  with pressed_reduce[OF 0, of "provider_summarize chat keep"] assms(3) show ?case
    by (auto simp: provider_short)
next
  case (Suc n)
  let ?m = "m\<lparr>cm_pipeline := (cm_pipeline m)\<lparr>cp_guard := record_compaction_success (cm_guard m)\<rparr>\<rparr>"
  have "\<not> compaction_disabled (cm_guard ?m)" by (simp add: record_compaction_success_def)
  moreover have "reduce_before_call (provider_summarize chat keep) m h
      = (Reduction_Summarized default_summary_stats, ?m, h)"
    using pressed_reduce[OF Suc.prems, of "provider_summarize chat keep"] assms(3)
    by (auto simp: provider_short)
  ultimately show ?case using Suc.IH[OF pressed_guard(1)[OF Suc.prems(1)]] by simp
qed

theorem short_history_never_exhausts_witness:
  "nth_outcome (provider_summarize (\<lambda>_. Inl ''offline'') 10) 1000 full_manager demo_history
     = Reduction_Summarized default_summary_stats"
  by (rule short_history_never_exhausts[OF full_pressed]) (simp_all add: demo_history_def full_guard)

theorem reduction_keeps_history_witness:
  "paired (snd (snd (reduce_before_call (recap_summarize None 10 (provider_summarize (\<lambda>_. Inr ''summary'') 2))
      full_manager demo_history)))"
proof (cases "reduce_before_call (recap_summarize None 10 (provider_summarize (\<lambda>_. Inr ''summary'') 2))
      full_manager demo_history")
  case (fields out m' h')
  have "paired demo_history" by code_simp
  with reduction_keeps_history[OF fields] fields show ?thesis by simp
qed

section \<open>System prompts and summaries\<close>

text \<open>
  An agent pushes its system prompt as the first message of the typed history.  The typed
  summarizer takes it into the head it replaces, whereas the one of the sub-agents keeps it.
\<close>

theorem typed_summary_drops_system_prompt:
  assumes "provider_summarize chat keep (Chat (system_message p) # h) = (Inr st, h')"
    and "0 < ss_messages_removed st"
  shows "\<exists>body n. h' = Chat (system_message body) # drop n h"
proof -
  obtain body where "h' = Chat (system_message body) # drop (ss_messages_removed st) (Chat (system_message p) # h)"
    using provider.success_notes[OF assms(1)] assms(2) by (auto simp: note_for_head_def)
  then show ?thesis using assms(2) by (cases "ss_messages_removed st") auto
qed

theorem chat_summary_keeps_system_prompt:
  assumes "summarize_chat_history chat keep (system_message p # h) = (res, h')"
  shows "\<exists>rest. h' = system_message p # rest"
  using assms
  by (auto simp: summarize_chat_history_def Let_def is_some_and_def is_system_chat_def system_message_def
      split: if_splits sum.splits)

section \<open>Session memory\<close>

datatype sm_op = Sm_Tick | Sm_Usage "64 word" | Sm_Calls "64 word" | Sm_Started | Sm_Failed

fun sm_apply :: "sm_op \<Rightarrow> session_memory_state \<Rightarrow> session_memory_state" where
  "sm_apply Sm_Tick s = sm_tick_turn s"
| "sm_apply (Sm_Usage u) s = sm_record_usage u s"
| "sm_apply (Sm_Calls n) s = sm_record_tool_calls n s"
| "sm_apply Sm_Started s = mark_extraction_started s"
| "sm_apply Sm_Failed s = mark_extraction_failed s"

fun sm_ticks :: "sm_op \<Rightarrow> nat" where
  "sm_ticks Sm_Tick = 1"
| "sm_ticks _ = 0"

fun sm_calls :: "sm_op \<Rightarrow> nat" where
  "sm_calls (Sm_Calls n) = unat n"
| "sm_calls _ = 0"

lemma unat_sat_sub: "unat (sat_sub a b) = unat a - unat b"
  by (auto simp: sat_sub_def unat_sub word_le_nat_alt)

lemma unat_sat_add: "unat (sat_add a b) \<le> unat a + unat b"
proof -
  have "unat (a + b) \<le> unat a + unat b" by (simp add: unat_word_ariths)
  moreover have "unat (- 1 :: 64 word) \<le> unat a + unat b" if "a + b < a"
    using that unsigned_less[of "- 1 :: 64 word", where 'a = nat]
    by (simp add: unat_plus_if' word_less_nat_alt split: if_splits)
  ultimately show ?thesis by (simp add: sat_add_def)
qed

lemma sm_apply_bounds:
  "unat (current_turn (sm_apply op s)) \<le> unat (current_turn s) + sm_ticks op"
  "unat (total_tool_calls (sm_apply op s)) \<le> unat (total_tool_calls s) + sm_calls op"
  "turn_at_last_extract (sm_apply op s) = turn_at_last_extract s"
  "tool_calls_at_last_extract (sm_apply op s) = tool_calls_at_last_extract s"
  "tokens_at_last_extract (sm_apply op s) = tokens_at_last_extract s"
  using unat_sat_add[of "current_turn s" 1] unat_sat_add[of "total_tool_calls s"]
  by (cases op; simp add: sm_tick_turn_def sm_record_usage_def sm_record_tool_calls_def
      mark_extraction_started_def mark_extraction_failed_def)+

lemma fold_sm_bounds:
  "unat (current_turn (fold sm_apply ops s)) \<le> unat (current_turn s) + sum_list (map sm_ticks ops)
   \<and> unat (total_tool_calls (fold sm_apply ops s)) \<le> unat (total_tool_calls s) + sum_list (map sm_calls ops)
   \<and> turn_at_last_extract (fold sm_apply ops s) = turn_at_last_extract s
   \<and> tool_calls_at_last_extract (fold sm_apply ops s) = tool_calls_at_last_extract s"
proof (induction ops arbitrary: s)
  case (Cons op ops)
  show ?case using Cons.IH[of "sm_apply op s"] sm_apply_bounds[of op s] by simp
qed simp

text \<open>After an extraction completes the next one starts only when at least
  \<open>min_turns_between\<close> turns have been ticked and \<open>min_tool_calls\<close> calls recorded, whatever else
  happens and however the counters saturate; and none starts while one is in flight.
\<close>

theorem extractions_are_spaced:
  assumes "should_extract c (fold sm_apply ops (mark_extraction_complete s))"
  shows "unat (min_turns_between c) \<le> sum_list (map sm_ticks ops)
    \<and> unat (min_tool_calls c) \<le> sum_list (map sm_calls ops)
    \<and> \<not> extraction_in_progress (fold sm_apply ops (mark_extraction_complete s))"
proof -
  let ?s = "mark_extraction_complete s" and ?e = "fold sm_apply ops (mark_extraction_complete s)"
  have "min_turns_between c \<le> sat_sub (current_turn ?e) (turn_at_last_extract ?e)"
    and "min_tool_calls c \<le> sat_sub (total_tool_calls ?e) (tool_calls_at_last_extract ?e)"
    and "\<not> extraction_in_progress ?e"
    using assms by (auto simp: should_extract_def split: if_splits)
  moreover have "turn_at_last_extract ?s = current_turn ?s" "tool_calls_at_last_extract ?s = total_tool_calls ?s"
    by (simp_all add: mark_extraction_complete_def)
  ultimately show ?thesis
    using fold_sm_bounds[of ops ?s] by (simp add: word_le_nat_alt unat_sat_sub) linarith
qed

theorem extractions_are_spaced_witness:
  "4 \<le> sum_list (map sm_ticks (replicate 4 Sm_Tick @ [Sm_Calls 9, Sm_Usage 5000]))"
  using extractions_are_spaced[of default_session_memory_config
      "replicate 4 Sm_Tick @ [Sm_Calls 9, Sm_Usage 5000]" session_memory_new]
  by (simp add: default_session_memory_config_def mark_extraction_complete_def session_memory_new_def
      should_extract_def sm_tick_turn_def sm_record_usage_def sm_record_tool_calls_def sat_add_def sat_sub_def
      numeral_nat)

text \<open>What happens while an extraction runs is lost to the next one: completion takes the counters as they are then.\<close>

lemma activity_during_extraction_is_lost:
  "\<not> should_extract default_session_memory_config
     (mark_extraction_complete (fold sm_apply ops (mark_extraction_started s)))"
  by (simp add: should_extract_def mark_extraction_complete_def sat_sub_def default_session_memory_config_def)

section \<open>Microcompaction of short results\<close>

text \<open>
  An entry shorter than the placeholder grows, and still counts as cleared: the pass reports
  success with nothing freed.
\<close>

theorem microcompact_can_grow:
  "let h = [Assistant_Tool_Calls None [] None, Tool_Results [\<lparr>result_call_id = ''1'', result_content = ''ok''\<rparr>]];
       (h', st) = microcompact 0 h
   in envelopes_cleared st = 1 \<and> bytes_freed st = 0
      \<and> sum_list (map conversation_message_approx_bytes h) < sum_list (map conversation_message_approx_bytes h')"
  by code_simp

end
