(* ===== verification/Net_Addr.thy ===== *)
theory Net_Addr
  imports Prelude Rust_Str "HOL-Library.Word"
begin

text \<open>
  Rust's IP addresses: the parser behind \<open>str::parse::<IpAddr>\<close> and the text \<open>Display\<close> writes.
  The address checks of the URL guard go through that text, so the section ends with the
  round trip.
\<close>

section \<open>Addresses\<close>

datatype ip_addr =
  V4 "8 word" "8 word" "8 word" "8 word"
| V6 "16 word list"

text \<open>The segments of an IPv6 address are eight.\<close>

fun ip_ok :: "ip_addr \<Rightarrow> bool" where
  "ip_ok (V4 a b c d) = True"
| "ip_ok (V6 segs) = (length segs = 8)"

section \<open>Numbers\<close>

definition digit_val :: "char \<Rightarrow> nat" where
  "digit_val c =
     (if is_ascii_digit c then byte c - 48
      else if 97 \<le> byte c \<and> byte c \<le> 102 then byte c - 87
      else if 65 \<le> byte c \<and> byte c \<le> 70 then byte c - 55
      else 16)"

definition digit_char :: "nat \<Rightarrow> char" where
  "digit_char d = (if d < 10 then char_of (48 + d) else char_of (87 + d))"

fun show_radix :: "nat \<Rightarrow> nat \<Rightarrow> string" where
  "show_radix b n = (if n < b \<or> b < 2 then [digit_char n] else show_radix b (n div b) @ [digit_char (n mod b)])"

declare show_radix.simps [simp del]

definition number_of :: "nat \<Rightarrow> string \<Rightarrow> int" where
  "number_of b ds = foldl (\<lambda>n c. n * int b + int (digit_val c)) 0 ds"

text \<open>A number of at most \<open>max_digits\<close> digits that fits the type, and the rest of the input.\<close>

definition read_number :: "nat \<Rightarrow> nat \<Rightarrow> bool \<Rightarrow> int \<Rightarrow> string \<Rightarrow> (int \<times> string) option" where
  "read_number radix max_digits allow_zero_prefix largest s =
     (let ds = takeWhile (\<lambda>c. digit_val c < radix) s
      in if ds = [] \<or> max_digits < length ds then None
         else if \<not> allow_zero_prefix \<and> hd ds = CHR ''0'' \<and> 1 < length ds then None
         else if largest < number_of radix ds then None
         else Some (number_of radix ds, drop (length ds) s))"

fun read_separator :: "char \<Rightarrow> nat \<Rightarrow> (string \<Rightarrow> ('a \<times> string) option) \<Rightarrow> string \<Rightarrow> ('a \<times> string) option" where
  "read_separator sep 0 p s = p s"
| "read_separator sep (Suc i) p [] = None"
| "read_separator sep (Suc i) p (c # s) = (if c = sep then p s else None)"

section \<open>The parser\<close>

fun read_octets :: "nat \<Rightarrow> nat \<Rightarrow> string \<Rightarrow> (8 word list \<times> string) option" where
  "read_octets 0 i s = Some ([], s)"
| "read_octets (Suc n) i s =
     (case read_separator (CHR ''.'') i (read_number 10 3 False 255) s of
        None \<Rightarrow> None
      | Some (octet, rest) \<Rightarrow>
          map_option (\<lambda>(os, r). (of_int octet # os, r)) (read_octets n (Suc i) rest))"

definition read_ipv4_addr :: "string \<Rightarrow> (8 word list \<times> string) option" where
  "read_ipv4_addr = read_octets 4 0"

definition be_bytes :: "8 word \<Rightarrow> 8 word \<Rightarrow> 16 word" where
  "be_bytes hi lo = or (push_bit 8 (ucast hi)) (ucast lo)"

text \<open>
  \<open>read_groups\<close> with \<open>n\<close> slots left: the groups read, whether they end with an embedded IPv4
  address, and the rest of the input.
\<close>

fun read_groups :: "nat \<Rightarrow> nat \<Rightarrow> string \<Rightarrow> 16 word list \<times> bool \<times> string" where
  "read_groups 0 i s = ([], False, s)"
| "read_groups (Suc n) i s =
     (case (if 0 < n then read_separator (CHR '':'') i read_ipv4_addr s else None) of
        Some (os, rest) \<Rightarrow> ([be_bytes (os ! 0) (os ! 1), be_bytes (os ! 2) (os ! 3)], True, rest)
      | None \<Rightarrow>
          (case read_separator (CHR '':'') i (read_number 16 4 True 65535) s of
             Some (g, rest) \<Rightarrow>
               (let (gs, v4, r) = read_groups n (Suc i) rest in (of_int g # gs, v4, r))
           | None \<Rightarrow> ([], False, s)))"

definition read_ipv6_addr :: "string \<Rightarrow> (16 word list \<times> string) option" where
  "read_ipv6_addr s =
     (let (head, head_ipv4, rest) = read_groups 8 0 s
      in if length head = 8 then Some (head, rest)
         else if head_ipv4 then None
         else (case strip_prefix ''::'' rest of
                 None \<Rightarrow> None
               | Some rest' \<Rightarrow>
                   (let (tail, _, rest'') = read_groups (8 - (length head + 1)) 0 rest'
                    in Some (head @ replicate (8 - length head - length tail) 0 @ tail, rest''))))"

definition parse_ip :: "string \<Rightarrow> ip_addr option" where
  "parse_ip s =
     (case read_ipv4_addr s of
        Some (os, rest) \<Rightarrow> if rest = [] then Some (V4 (os ! 0) (os ! 1) (os ! 2) (os ! 3)) else None
      | None \<Rightarrow>
          (case read_ipv6_addr s of
             Some (segs, rest) \<Rightarrow> if rest = [] then Some (V6 segs) else None
           | None \<Rightarrow> None))"

section \<open>The text of an address\<close>

definition show_v4 :: "8 word \<Rightarrow> 8 word \<Rightarrow> 8 word \<Rightarrow> 8 word \<Rightarrow> string" where
  "show_v4 a b c d = join_with ''.'' (map (\<lambda>x. dec_nat (unat x)) [a, b, c, d])"

definition hex :: "16 word \<Rightarrow> string" where
  "hex g = show_radix 16 (unat g)"

definition fmt_subslice :: "16 word list \<Rightarrow> string" where
  "fmt_subslice segs = join_with '':'' (map hex segs)"

text \<open>The first longest run of zero segments, as its start and length.\<close>

fun zero_span :: "nat \<Rightarrow> nat \<times> nat \<Rightarrow> nat \<times> nat \<Rightarrow> 16 word list \<Rightarrow> nat \<times> nat" where
  "zero_span i longest current [] = longest"
| "zero_span i longest current (g # gs) =
     (if g = 0
      then (let current' = ((if snd current = 0 then i else fst current), Suc (snd current))
            in zero_span (Suc i) (if snd longest < snd current' then current' else longest) current' gs)
      else zero_span (Suc i) longest (0, 0) gs)"

definition to_ipv4_mapped :: "16 word list \<Rightarrow> (8 word \<times> 8 word \<times> 8 word \<times> 8 word) option" where
  "to_ipv4_mapped segs =
     (if take 6 segs = [0, 0, 0, 0, 0, 0xFFFF] \<and> length segs = 8
      then Some (ucast (drop_bit 8 (segs ! 6)), ucast (segs ! 6),
                 ucast (drop_bit 8 (segs ! 7)), ucast (segs ! 7))
      else None)"

definition show_v6 :: "16 word list \<Rightarrow> string" where
  "show_v6 segs =
     (case to_ipv4_mapped segs of
        Some (a, b, c, d) \<Rightarrow> ''::ffff:'' @ show_v4 a b c d
      | None \<Rightarrow>
          (let (start, len) = zero_span 0 (0, 0) (0, 0) segs
           in if 1 < len
              then fmt_subslice (take start segs) @ ''::'' @ fmt_subslice (drop (start + len) segs)
              else fmt_subslice segs))"

fun show_ip :: "ip_addr \<Rightarrow> string" where
  "show_ip (V4 a b c d) = show_v4 a b c d"
| "show_ip (V6 segs) = show_v6 segs"

section \<open>The round trip\<close>

lemma byte_digit_char: "d < 16 \<Longrightarrow> byte (digit_char d) = (if d < 10 then 48 + d else 87 + d)"
  by (simp add: digit_char_def byte_def)

lemma digit_val_char [simp]: "d < 16 \<Longrightarrow> digit_val (digit_char d) = d"
  by (simp add: digit_val_def byte_digit_char is_ascii_digit_def)

lemma digit_char_0: "d < 16 \<Longrightarrow> digit_char d = CHR ''0'' \<longleftrightarrow> d = 0"
proof -
  assume d: "d < 16"
  have "digit_val (CHR ''0'') = 0" "digit_char 0 = CHR ''0''" by code_simp+
  then show ?thesis using digit_val_char[OF d] by auto
qed

lemma show_radix_digits:
  "2 \<le> b \<Longrightarrow> b \<le> 16 \<Longrightarrow> \<forall>c \<in> set (show_radix b n). \<exists>d < b. c = digit_char d"
proof (induction b n rule: show_radix.induct)
  case (1 b n)
  then have "n mod b < b" by simp
  then have "\<exists>d < b. digit_char (n mod b) = digit_char d" by blast
  with 1 show ?case by (subst show_radix.simps) auto
qed

lemma show_radix_number: "2 \<le> b \<Longrightarrow> b \<le> 16 \<Longrightarrow> number_of b (show_radix b n) = int n"
proof (induction b n rule: show_radix.induct)
  case (1 b n)
  have "n mod b < 16" using 1(2,3) mod_less_divisor[of b n] by linarith
  with 1 show ?case by (subst show_radix.simps) (simp add: number_of_def flip: of_nat_mult of_nat_add)
qed

lemma show_radix_not_Nil [simp]: "show_radix b n \<noteq> []"
  by (subst show_radix.simps) simp

lemma show_radix_hd: "2 \<le> b \<Longrightarrow> b \<le> 16 \<Longrightarrow> 1 < length (show_radix b n) \<Longrightarrow> hd (show_radix b n) \<noteq> CHR ''0''"
proof (induction b n rule: show_radix.induct)
  case (1 b n)
  then have n: "\<not> n < b" by (metis length_Cons less_irrefl list.size(3) One_nat_def show_radix.simps)
  show ?case
  proof (cases "n div b < b")
    case True
    then have "show_radix b n = [digit_char (n div b), digit_char (n mod b)]"
      using n 1(2) by (subst show_radix.simps, subst show_radix.simps) simp
    moreover have "n div b \<noteq> 0" using n 1(2) by (simp add: div_eq_0_iff)
    ultimately show ?thesis using True 1(3) digit_char_0[of "n div b"] by simp
  next
    case False
    then have "1 < length (show_radix b (n div b))"
      using 1(2) by (subst show_radix.simps) (simp add: Suc_lessI)
    then have "hd (show_radix b (n div b)) \<noteq> CHR ''0''" using 1 n by simp
    then show ?thesis using n 1(2) by (subst show_radix.simps) simp
  qed
qed

lemma show_radix_length: "2 \<le> b \<Longrightarrow> n < b ^ k \<Longrightarrow> 0 < k \<Longrightarrow> length (show_radix b n) \<le> k"
proof (induction k arbitrary: n)
  case (Suc k)
  show ?case
  proof (cases "n < b")
    case True
    then show ?thesis by (subst show_radix.simps) simp
  next
    case False
    then have "0 < k" using Suc.prems by (cases k) auto
    moreover have "n div b < b ^ k" using Suc.prems(2) by (simp add: less_mult_imp_div_less mult.commute)
    ultimately show ?thesis using Suc.IH[of "n div b"] Suc.prems(1) False by (subst show_radix.simps) simp
  qed
qed simp

lemma dec_nat_radix: "dec_nat n = show_radix 10 n"
proof (induction n rule: dec_nat.induct)
  case (1 n)
  then show ?case
    by (subst dec_nat.simps, subst show_radix.simps) (simp add: digit_char_def dec_digit_def)
qed

lemma read_number_show:
  assumes b: "2 \<le> b" "b \<le> 16" and n: "n < b ^ k" "0 < k" "int n \<le> largest"
    and stop: "s = [] \<or> \<not> digit_val (hd s) < b"
  shows "read_number b k zero largest (show_radix b n @ s) = Some (int n, s)"
proof -
  have "\<forall>c \<in> set (show_radix b n). digit_val c < b"
    using show_radix_digits[OF b, of n] b(2) by fastforce
  then have "takeWhile (\<lambda>c. digit_val c < b) (show_radix b n @ s) = show_radix b n"
    using stop by (cases s) (auto simp: takeWhile_append)
  then show ?thesis
    using show_radix_number[OF b, of n] show_radix_hd[OF b, of n] show_radix_length[OF b(1) n(1,2)] n(3)
    by (auto simp: read_number_def Let_def)
qed

lemma octet_bound: "unat (x :: 8 word) < 256"
  using unsigned_less[of x, where 'a = nat] by simp

lemma read_octet:
  assumes "s = [] \<or> \<not> digit_val (hd s) < 10"
  shows "read_number 10 3 False 255 (dec_nat (unat (x :: 8 word)) @ s) = Some (int (unat x), s)"
  unfolding dec_nat_radix using octet_bound[of x] unsigned_less[of x, where 'a = int] assms by (intro read_number_show) auto

lemma digit_val_sep [simp]: "\<not> digit_val (CHR ''.'') < 10" "\<not> digit_val (CHR '':'') < 10" "\<not> digit_val (CHR '':'') < 16"
  by code_simp+

lemma read_ipv4_octets: "read_ipv4_addr = read_octets (Suc (Suc (Suc (Suc 0)))) 0"
  by (simp add: read_ipv4_addr_def numeral_nat)

lemma read_v4_show:
  assumes "s = [] \<or> \<not> digit_val (hd s) < 10"
  shows "read_ipv4_addr (show_v4 a b c d @ s) = Some ([a, b, c, d], s)"
  using assms
  by (simp add: read_ipv4_octets show_v4_def read_octet[of "_ # _"] read_octet[of s])

lemma parse_show_v4: "parse_ip (show_v4 a b c d) = Some (V4 a b c d)"
  using read_v4_show[of "[]" a b c d] by (simp add: parse_ip_def)

text \<open>The IPv4 parser needs dots.\<close>

lemma read_number_rest: "read_number b k z m s = Some (n, r) \<Longrightarrow> set r \<subseteq> set s"
  by (auto simp: read_number_def Let_def dest: in_set_dropD split: if_splits)

lemma read_octets_dot: "CHR ''.'' \<notin> set s \<Longrightarrow> read_octets (Suc n) (Suc i) s = None"
  by (cases s) auto

lemma read_v4_dot:
  assumes "CHR ''.'' \<notin> set s" shows "read_ipv4_addr s = None"
proof -
  have "read_octets (Suc (Suc (Suc 0))) (Suc 0) r = None" if "read_number 10 3 False 255 s = Some (n, r)" for n r
    using read_octets_dot read_number_rest[OF that] assms by blast
  then show ?thesis
    unfolding read_ipv4_octets by (subst read_octets.simps) (auto split: option.splits simp del: read_octets.simps)
qed

lemma read_sep_v4_dot: "CHR ''.'' \<notin> set s \<Longrightarrow> read_separator c i read_ipv4_addr s = None"
  by (cases i; cases s) (auto simp: read_v4_dot)

lemma hex_chars: "c \<in> set (hex g) \<Longrightarrow> digit_val c < 16 \<and> c \<noteq> CHR ''.''"
proof -
  assume "c \<in> set (hex g)"
  then obtain d where "d < 16" "c = digit_char d" using show_radix_digits[of 16 "unat g"] by (auto simp: hex_def)
  moreover have "digit_val (CHR ''.'') = 16" by code_simp
  ultimately show ?thesis using digit_val_char[of d] by (metis nat_neq_iff)
qed

lemma hex_bound: "unat (g :: 16 word) < 65536"
  using unsigned_less[of g, where 'a = nat] by simp

lemma read_hex:
  assumes "s = [] \<or> \<not> digit_val (hd s) < 16"
  shows "read_number 16 4 True 65535 (hex g @ s) = Some (int (unat g), s)"
  unfolding hex_def using hex_bound[of g] unsigned_less[of g, where 'a = int] assms by (intro read_number_show) auto

text \<open>The text of groups from slot \<open>i\<close> on.\<close>

definition groups_text :: "nat \<Rightarrow> 16 word list \<Rightarrow> string" where
  "groups_text i gs = (if i = 0 then fmt_subslice gs else concat (map (\<lambda>g. CHR '':'' # hex g) gs))"

lemma join_colon: "join_with '':'' (x # xs) = x @ concat (map (\<lambda>y. CHR '':'' # y) xs)"
  by (induction xs arbitrary: x) auto

lemma groups_text_Cons:
  "groups_text i (g # gs) = (if i = 0 then [] else '':'') @ hex g @ groups_text (Suc i) gs"
  using join_colon[of "hex g" "map hex gs"] by (simp add: groups_text_def fmt_subslice_def comp_def)

lemma groups_text_dot: "CHR ''.'' \<notin> set (groups_text i gs)"
proof (induction gs arbitrary: i)
  case Nil
  then show ?case by (simp add: groups_text_def fmt_subslice_def)
next
  case (Cons g gs)
  then show ?case using hex_chars[of "CHR ''.''" g] by (auto simp: groups_text_Cons)
qed

lemma groups_text_start:
  "\<not> digit_val (hd (groups_text (Suc i) gs @ rest)) < 16 \<or> groups_text (Suc i) gs @ rest = []"
  if "rest = [] \<or> prefix ''::'' rest"
  using that by (cases gs) (auto simp: groups_text_def prefix_def)

lemma read_groups_end:
  assumes "rest = [] \<or> prefix ''::'' rest" and "CHR ''.'' \<notin> set rest"
  shows "read_groups n i rest = ([], False, rest)"
proof (cases n)
  case (Suc m)
  have "read_number 16 4 True 65535 (CHR '':'' # s) = None" "read_number 16 4 True 65535 [] = None" for s
    by (simp_all add: read_number_def)
  then have "read_separator (CHR '':'') i (read_number 16 4 True 65535) rest = None"
    using assms(1) by (cases i) (auto simp: prefix_def)
  then show ?thesis using Suc read_sep_v4_dot[OF assms(2)] by simp
qed simp

lemma read_groups_show:
  assumes "rest = [] \<or> prefix ''::'' rest" and "CHR ''.'' \<notin> set rest"
  shows "length gs \<le> n \<Longrightarrow> read_groups n i (groups_text i gs @ rest) = (gs, False, rest)"
proof (induction gs arbitrary: n i)
  case Nil
  then show ?case using read_groups_end[OF assms] by (simp add: groups_text_def fmt_subslice_def)
next
  case (Cons g gs)
  then obtain m where m: "n = Suc m" by (cases n) auto
  let ?s = "groups_text i (g # gs) @ rest"
  have "CHR ''.'' \<notin> set ?s" using groups_text_dot assms(2) by simp
  then have "read_separator (CHR '':'') i read_ipv4_addr ?s = None" by (rule read_sep_v4_dot)
  moreover have "read_separator (CHR '':'') i (read_number 16 4 True 65535) ?s
      = Some (int (unat g), groups_text (Suc i) gs @ rest)"
    using read_hex[of "groups_text (Suc i) gs @ rest" g] groups_text_start[OF assms(1), of i gs]
    by (cases i) (auto simp: groups_text_Cons)
  ultimately show ?case
    using Cons.IH[of m "Suc i"] Cons.prems m by (auto simp: groups_text_def)
qed

text \<open>The run of zeros that \<open>::\<close> stands for.\<close>

lemma zero_span_zeros:
  assumes "zero_span i longest current gs = (st, len)"
    and "i \<le> length segs" and "gs = drop i segs"
    and "fst longest + snd longest \<le> i" and "\<forall>k < snd longest. segs ! (fst longest + k) = 0"
    and "snd current \<noteq> 0 \<longrightarrow> fst current + snd current = i" and "\<forall>k < snd current. segs ! (fst current + k) = 0"
  shows "st + len \<le> length segs \<and> (\<forall>k < len. segs ! (st + k) = 0)"
  using assms
proof (induction i longest current gs rule: zero_span.induct)
  case (1 i longest current)
  then show ?case by auto
next
  case (2 i longest current g gs)
  have i: "i < length segs" using 2(5) by (metis drop_all leI list.distinct(1))
  then have g: "segs ! i = g" "gs = drop (Suc i) segs" using 2(5) by (metis Cons_nth_drop_Suc list.inject)+
  show ?case
  proof (cases "g = 0")
    case False
    then show ?thesis using 2 i g by simp
  next
    case True
    let ?c = "(if snd current = 0 then i else fst current, Suc (snd current))"
    have end_c: "fst ?c + snd ?c = Suc i" using 2(8) by auto
    have zeros: "\<forall>k < snd ?c. segs ! (fst ?c + k) = 0"
      using 2(8,9) g(1) True by (auto simp: less_Suc_eq)
    show ?thesis
      by (rule "2.IH"(1)[OF True refl]) (use 2(3,6,7) True i g end_c zeros in \<open>auto simp: Let_def\<close>)
  qed
qed

lemma zero_span_split:
  assumes "zero_span 0 (0, 0) (0, 0) segs = (st, len)"
  shows "st + len \<le> length segs" and "segs = take st segs @ replicate len 0 @ drop (st + len) segs"
proof -
  have z: "st + len \<le> length segs \<and> (\<forall>k < len. segs ! (st + k) = 0)"
    by (rule zero_span_zeros[OF assms]) auto
  then show "st + len \<le> length segs" by simp
  have "take len (drop st segs) = replicate len 0"
    using z by (intro nth_equalityI) auto
  then show "segs = take st segs @ replicate len 0 @ drop (st + len) segs"
    by (metis add.commute append_take_drop_id drop_drop)
qed

lemma be_bytes_split: "be_bytes (ucast (drop_bit 8 w)) (ucast w) = w"
  by (rule bit_word_eqI) (auto simp: be_bytes_def bit_simps)

lemma parse_v6: "read_ipv4_addr s = None \<Longrightarrow> read_ipv6_addr s = Some (segs, []) \<Longrightarrow> parse_ip s = Some (V6 segs)"
  by (simp add: parse_ip_def)

lemma eight: "length segs = 8 \<Longrightarrow> \<exists>a b c d e f g h. segs = [a, b, c, d, e, f, g, h]"
  by (auto simp: numeral_nat length_Suc_conv)

lemma parse_show_mapped:
  assumes "length segs = 8" and "to_ipv4_mapped segs = Some (a, b, c, d)"
  shows "parse_ip (''::ffff:'' @ show_v4 a b c d) = Some (V6 segs)"
proof -
  let ?v4 = "show_v4 a b c d"
  obtain u v where segs: "segs = [0, 0, 0, 0, 0, 0xFFFF, u, v]"
    using eight[OF assms(1)] assms(2) by (auto simp: to_ipv4_mapped_def split: if_splits)
  then have ab: "be_bytes a b = u" "be_bytes c d = v"
    using assms(2) be_bytes_split[of u] be_bytes_split[of v] by (auto simp: to_ipv4_mapped_def)
  have colon: "read_number r k z m (CHR '':'' # s) = None" if "r = 10 \<or> r = 16" for r k z m s
    using that by (auto simp: read_number_def)
  have v4: "read_ipv4_addr (CHR '':'' # s) = None" for s
    by (simp add: read_ipv4_octets colon)
  have ff: "digit_val (CHR ''f'') = 15" by code_simp
  have v4f: "read_ipv4_addr (CHR ''f'' # s) = None" for s
    by (simp add: read_ipv4_octets read_number_def ff)
  have ffff: "read_number 16 4 True 65535 (''ffff:'' @ ?v4) = Some (65535, CHR '':'' # ?v4)"
    by (simp add: read_number_def ff number_of_def)
  have "read_groups n 0 (CHR '':'' # s) = ([], False, CHR '':'' # s)" for n s
    by (cases n) (simp_all add: v4 colon)
  then have "read_groups 8 0 (''::ffff:'' @ ?v4) = ([], False, ''::ffff:'' @ ?v4)" by simp
  moreover have "read_groups 7 0 (''ffff:'' @ ?v4) = ([0xFFFF, u, v], True, [])"
  proof -
    have "read_groups (Suc (Suc n)) 0 (''ffff:'' @ ?v4) = ([0xFFFF, u, v], True, [])" if "0 < n" for n
      using that read_v4_show[of "[]" a b c d] ffff
      by (cases n) (simp_all add: v4f ab)
    from this[of 5] show ?thesis by (simp add: eval_nat_numeral)
  qed
  ultimately have "read_ipv6_addr (''::ffff:'' @ ?v4) = Some (segs, [])"
    by (simp add: read_ipv6_addr_def strip_prefix_def segs numeral_nat)
  then show ?thesis using v4 by (simp add: parse_v6)
qed

lemma fmt_subslice_text: "fmt_subslice segs = groups_text 0 segs"
  by (simp add: groups_text_def)

lemma parse_show_compressed:
  assumes "length segs = 8" and "zero_span 0 (0, 0) (0, 0) segs = (st, len)" and "1 < len"
  shows "parse_ip (fmt_subslice (take st segs) @ ''::'' @ fmt_subslice (drop (st + len) segs)) = Some (V6 segs)"
    (is "parse_ip ?s = _")
proof -
  let ?tail = "drop (st + len) segs"
  have le: "st + len \<le> 8" and split: "segs = take st segs @ replicate len 0 @ ?tail"
    using zero_span_split[OF assms(2)] assms(1) by auto
  have no_dot: "CHR ''.'' \<notin> set (''::'' @ fmt_subslice ?tail)" "CHR ''.'' \<notin> set ?s"
    using groups_text_dot[of 0] by (auto simp: fmt_subslice_text)
  have "read_groups 8 0 ?s = (take st segs, False, ''::'' @ fmt_subslice ?tail)"
    using read_groups_show[of "''::'' @ fmt_subslice ?tail" "take st segs" 8 0] no_dot(1) assms(1)
    by (simp add: fmt_subslice_text)
  moreover have "read_groups (8 - (st + 1)) 0 (fmt_subslice ?tail) = (?tail, False, [])"
    using read_groups_show[of "[]" ?tail "8 - (st + 1)" 0] assms(1,3) by (simp add: fmt_subslice_text)
  moreover have "length (take st segs) = st" "length ?tail = 8 - (st + len)" "st < 8"
    using le assms(1,3) by auto
  ultimately have "read_ipv6_addr ?s = Some (take st segs @ replicate (8 - st - (8 - (st + len))) 0 @ ?tail, [])"
    by (simp add: read_ipv6_addr_def strip_prefix_def)
  moreover have "8 - st - (8 - (st + len)) = len" using le by simp
  ultimately have "read_ipv6_addr ?s = Some (segs, [])" using split by simp
  then show ?thesis using read_v4_dot[OF no_dot(2)] by (rule parse_v6[rotated])
qed

lemma parse_show_plain:
  assumes "length segs = 8"
  shows "parse_ip (fmt_subslice segs) = Some (V6 segs)"
proof -
  have "read_groups 8 0 (fmt_subslice segs) = (segs, False, [])"
    using read_groups_show[of "[]" segs 8 0] assms by (simp add: fmt_subslice_text)
  then have "read_ipv6_addr (fmt_subslice segs) = Some (segs, [])"
    using assms by (simp add: read_ipv6_addr_def)
  then show ?thesis using read_v4_dot[OF groups_text_dot[of 0 segs, folded fmt_subslice_text]] by (rule parse_v6[rotated])
qed

lemma parse_show_ip: "ip_ok a \<Longrightarrow> parse_ip (show_ip a) = Some a"
  by (cases a) (auto simp: parse_show_v4 show_v6_def parse_show_mapped[simplified]
      parse_show_compressed[simplified] parse_show_plain
      split: option.splits prod.splits)

end
