(* ===== verification/Url_Guard.thy ===== *)
theory Url_Guard
  imports Net_Addr "HOL-Library.List_Lexorder" "HOL-Library.Char_ord"
begin

text \<open>
  The URL checks of the network tools (\<open>src/openhuman/tools/impl/network/url_guard.rs\<close>): scheme,
  host and port of a URL as the guard reads them, the allowlist, the tests for local and private
  hosts, and the variant that resolves the name first.  The resolver is a parameter, and so is
  the lower case of text outside ASCII (\<open>uni\<close>).
\<close>

section \<open>Address ranges\<close>

definition is_non_global_v4 :: "8 word \<Rightarrow> 8 word \<Rightarrow> 8 word \<Rightarrow> 8 word \<Rightarrow> bool" where
  "is_non_global_v4 a b c d \<longleftrightarrow>
     a = 127
     \<or> (a = 10 \<or> a = 172 \<and> 16 \<le> b \<and> b \<le> 31 \<or> a = 192 \<and> b = 168)
     \<or> (a = 169 \<and> b = 254)
     \<or> (a = 0 \<and> b = 0 \<and> c = 0 \<and> d = 0)
     \<or> (a = 255 \<and> b = 255 \<and> c = 255 \<and> d = 255)
     \<or> (224 \<le> a \<and> a \<le> 239)
     \<or> (a = 100 \<and> 64 \<le> b \<and> b \<le> 127)
     \<or> 240 \<le> a
     \<or> (a = 192 \<and> b = 0 \<and> (c = 0 \<or> c = 2))
     \<or> (a = 198 \<and> b = 51)
     \<or> (a = 203 \<and> b = 0)
     \<or> (a = 198 \<and> 18 \<le> b \<and> b \<le> 19)"

definition is_non_global_v6 :: "16 word list \<Rightarrow> bool" where
  "is_non_global_v6 segs \<longleftrightarrow>
     segs = [0, 0, 0, 0, 0, 0, 0, 1]
     \<or> segs = [0, 0, 0, 0, 0, 0, 0, 0]
     \<or> and (segs ! 0) 0xFF00 = 0xFF00
     \<or> and (segs ! 0) 0xFE00 = 0xFC00
     \<or> and (segs ! 0) 0xFFC0 = 0xFE80
     \<or> (segs ! 0 = 0x2001 \<and> segs ! 1 = 0x0DB8)
     \<or> (case to_ipv4_mapped segs of None \<Rightarrow> False | Some (a, b, c, d) \<Rightarrow> is_non_global_v4 a b c d)"

definition ends_with :: "string \<Rightarrow> string \<Rightarrow> bool" where
  "ends_with s p = suffix p s"

definition is_private_or_local_host :: "string \<Rightarrow> bool" where
  "is_private_or_local_host host =
     (let bare = (case strip_prefix ''['' host of
                    None \<Rightarrow> host
                  | Some h \<Rightarrow> (case strip_suffix '']'' h of None \<Rightarrow> host | Some b \<Rightarrow> b));
          has_local_tld = (rev (takeWhile (\<lambda>c. c \<noteq> CHR ''.'') (rev bare)) = ''local'')
      in if bare = ''localhost'' \<or> ends_with bare ''.localhost'' \<or> has_local_tld then True
         else (case parse_ip bare of
                 Some (V4 a b c d) \<Rightarrow> is_non_global_v4 a b c d
               | Some (V6 segs) \<Rightarrow> is_non_global_v6 segs
               | None \<Rightarrow> False))"

section \<open>Host and port\<close>

definition trim_end_matches :: "char \<Rightarrow> string \<Rightarrow> string" where
  "trim_end_matches c s = rev (dropWhile (\<lambda>x. x = c) (rev s))"

definition trim_start_matches :: "char \<Rightarrow> string \<Rightarrow> string" where
  "trim_start_matches c s = dropWhile (\<lambda>x. x = c) s"

definition strip_scheme :: "string \<Rightarrow> string option" where
  "strip_scheme url = (case strip_prefix ''http://'' url of Some r \<Rightarrow> Some r | None \<Rightarrow> strip_prefix ''https://'' url)"

text \<open>The first piece of \<open>split\<close> is the text before the first separator.\<close>

definition authority_of :: "string \<Rightarrow> string" where
  "authority_of rest = takeWhile (\<lambda>c. c \<noteq> CHR ''/'' \<and> c \<noteq> CHR ''?'' \<and> c \<noteq> CHR ''#'') rest"

definition SCHEME_ERROR :: string where
  "SCHEME_ERROR = ''Only http:// and https:// URLs are allowed''"

definition IPV6_ERROR :: string where
  "IPV6_ERROR = ''IPv6 hosts are not supported in http_request''"

definition extract_host :: "(string \<Rightarrow> string) \<Rightarrow> string \<Rightarrow> string + string" where
  "extract_host uni url =
     (case strip_scheme url of
        None \<Rightarrow> Inl SCHEME_ERROR
      | Some rest \<Rightarrow>
          (let authority = authority_of rest
           in if authority = [] then Inl ''URL must include a host''
              else if CHR 0x40 \<in> set authority then Inl ''URL userinfo is not allowed''
              else if prefix ''['' authority then Inl IPV6_ERROR
              else
                (let host = str_to_lowercase uni (trim_end_matches (CHR ''.'')
                              (trim (takeWhile (\<lambda>c. c \<noteq> CHR '':'') authority)))
                 in if host = [] then Inl ''URL must include a valid host'' else Inr host)))"

definition extract_port :: "string \<Rightarrow> string + 16 word" where
  "extract_port url =
     (case strip_scheme url of
        None \<Rightarrow> Inl SCHEME_ERROR
      | Some rest \<Rightarrow>
          (let authority = authority_of rest
           in if prefix ''['' authority then Inl IPV6_ERROR
              else
                (case rsplit_once (CHR '':'') authority of
                   Some (_, port) \<Rightarrow>
                     if port = [] \<or> \<not> list_all is_ascii_digit port then Inl ''URL port must be numeric''
                     else if 65535 < number_of 10 port then Inl ''URL port is out of range''
                     else Inr (of_int (number_of 10 port))
                 | None \<Rightarrow> Inr (if prefix ''http://'' url then 80 else 443))))"

section \<open>The allowlist\<close>

definition host_matches_allowlist :: "string \<Rightarrow> string list \<Rightarrow> bool" where
  "host_matches_allowlist host allowed =
     list_ex (\<lambda>domain. domain = ''*'' \<or> host = domain
                \<or> is_some_and (strip_suffix domain host) (\<lambda>p. ends_with p ''.'')) allowed"

definition normalize_domain :: "(string \<Rightarrow> string) \<Rightarrow> string \<Rightarrow> string option" where
  "normalize_domain uni raw =
     (let d0 = str_to_lowercase uni (trim raw)
      in if d0 = [] then None
         else
           (let d1 = (case strip_prefix ''https://'' d0 of
                        Some r \<Rightarrow> r
                      | None \<Rightarrow> (case strip_prefix ''http://'' d0 of Some r \<Rightarrow> r | None \<Rightarrow> d0));
                d2 = (case split_once (CHR ''/'') d1 of Some (host, _) \<Rightarrow> host | None \<Rightarrow> d1);
                d3 = trim_end_matches (CHR ''.'') (trim_start_matches (CHR ''.'') d2);
                d4 = (case split_once (CHR '':'') d3 of Some (host, _) \<Rightarrow> host | None \<Rightarrow> d3)
            in if d4 = [] \<or> has_ws d4 then None else Some d4))"

definition MISCONFIGURED_ALLOWLIST :: string where
  "MISCONFIGURED_ALLOWLIST = ''<misconfigured-allowlist>''"

definition normalize_allowed_domains :: "(string \<Rightarrow> string) \<Rightarrow> string list \<Rightarrow> string list" where
  "normalize_allowed_domains uni domains =
     (if domains = [] then []
      else
        (let normalized = remdups_adj (sort (List.map_filter (normalize_domain uni) domains))
         in if normalized = [] then [MISCONFIGURED_ALLOWLIST] else normalized))"

section \<open>The checks\<close>

definition arrow :: string where
  "arrow = [CHR 0xE2, CHR 0x86, CHR 0x92]"

definition not_allowed_text :: "string \<Rightarrow> string" where
  "not_allowed_text host =
     ''I'' @ [CHR 0x27] @ ''m not allowed to open '' @ [CHR 0x27] @ host @ [CHR 0x27] @ '' '' @ em_dash @
     '' it isn'' @ [CHR 0x27] @ ''t in your allowed websites. Add it (or turn on '' @ [CHR 0x22] @
     ''Allow all sites'' @ [CHR 0x22] @ '') under Settings '' @ arrow @ '' Advanced '' @ arrow @
     '' Search engine '' @ arrow @ '' Allowed websites, then ask me again.''"

definition validate_url :: "(string \<Rightarrow> string) \<Rightarrow> string \<Rightarrow> string list \<Rightarrow> string + string" where
  "validate_url uni raw_url allowed =
     (let url = trim raw_url
      in if url = [] then Inl ''URL cannot be empty''
         else if has_ws url then Inl ''URL cannot contain whitespace''
         else if \<not> prefix ''http://'' url \<and> \<not> prefix ''https://'' url then Inl SCHEME_ERROR
         else
           (case extract_host uni url of
              Inl e \<Rightarrow> Inl e
            | Inr host \<Rightarrow>
                if is_private_or_local_host host then Inl (''Blocked local/private host: '' @ host)
                else if allowed \<noteq> [] \<and> \<not> host_matches_allowlist host allowed
                then Inl (not_allowed_text host)
                else Inr url))"

text \<open>The resolver answers a host and a port with an error or addresses.\<close>

type_synonym resolver = "string \<Rightarrow> 16 word \<Rightarrow> string + ip_addr list"

definition dns_empty_text :: "string \<Rightarrow> string" where
  "dns_empty_text host = ''DNS resolution returned no addresses for '' @ [CHR 0x27] @ host @ [CHR 0x27]"

definition dns_blocked_text :: "string \<Rightarrow> string \<Rightarrow> string" where
  "dns_blocked_text host ip =
     ''DNS rebinding blocked: '' @ [CHR 0x27] @ host @ [CHR 0x27] @ '' resolved to private/local address '' @ ip"

definition validate_url_with_dns_check :: "(string \<Rightarrow> string) \<Rightarrow> resolver \<Rightarrow> string \<Rightarrow> string list \<Rightarrow>
    string + string" where
  "validate_url_with_dns_check uni resolver raw_url allowed =
     (case validate_url uni raw_url allowed of
        Inl e \<Rightarrow> Inl e
      | Inr url \<Rightarrow>
          (case extract_host uni url of
             Inl e \<Rightarrow> Inl e
           | Inr host \<Rightarrow>
               if parse_ip host \<noteq> None then Inr url
               else
                 (case extract_port url of
                    Inl e \<Rightarrow> Inl e
                  | Inr port \<Rightarrow>
                      (case resolver host port of
                         Inl e \<Rightarrow> Inl e
                       | Inr addrs \<Rightarrow>
                           if addrs = [] then Inl (dns_empty_text host)
                           else
                             (case find (\<lambda>a. is_private_or_local_host (show_ip a)) addrs of
                                Some a \<Rightarrow> Inl (dns_blocked_text host (show_ip a))
                              | None \<Rightarrow> Inr url)))))"

end
