(* ===== verification/Url_Facts.thy ===== *)
theory Url_Facts
  imports Url_Guard
begin

text \<open>
  What the URL checks guarantee: the address ranges as blocks, a validated URL's host and
  resolved addresses, and the normal form of the allowlist.  The last section holds the gaps.
\<close>

section \<open>The ranges as blocks\<close>

definition add_byte :: "int \<Rightarrow> int \<Rightarrow> int" where
  "add_byte x y = x * 256 + y"

definition v4_num :: "8 word \<Rightarrow> 8 word \<Rightarrow> 8 word \<Rightarrow> 8 word \<Rightarrow> int" where
  "v4_num a b c d = add_byte (add_byte (add_byte (uint a) (uint b)) (uint c)) (uint d)"

text \<open>A block \<open>a.b.c.0/n\<close>.\<close>

definition in_block :: "int \<Rightarrow> int \<Rightarrow> int \<Rightarrow> nat \<Rightarrow> int \<Rightarrow> bool" where
  "in_block a b c n x \<longleftrightarrow> x div 2 ^ (32 - n) = add_byte (add_byte (add_byte a b) c) 0 div 2 ^ (32 - n)"

definition blocked_v4 :: "int \<Rightarrow> bool" where
  "blocked_v4 x \<longleftrightarrow>
     in_block 0 0 0 32 x \<or> in_block 10 0 0 8 x \<or> in_block 100 64 0 10 x \<or> in_block 127 0 0 8 x
     \<or> in_block 169 254 0 16 x \<or> in_block 172 16 0 12 x \<or> in_block 192 0 0 24 x \<or> in_block 192 0 2 24 x
     \<or> in_block 192 168 0 16 x \<or> in_block 198 18 0 15 x \<or> in_block 198 51 0 16 x \<or> in_block 203 0 0 16 x
     \<or> in_block 224 0 0 3 x"

abbreviation is_byte :: "int \<Rightarrow> bool" where
  "is_byte x \<equiv> 0 \<le> x \<and> x < 256"

lemma word8_byte: "is_byte (uint (a :: 8 word))"
  using unsigned_less[of a, where 'a = int] by simp

lemma add_byte_div: "is_byte y \<Longrightarrow> add_byte x y div 256 = x"
  by (simp add: add_byte_def)

lemma add_byte_eq:
  assumes "is_byte y" "is_byte z"
  shows "add_byte x y = add_byte w z \<longleftrightarrow> x = w \<and> y = z"
proof
  assume eq: "add_byte x y = add_byte w z"
  then have "x = w" using add_byte_div[OF assms(1), of x] add_byte_div[OF assms(2), of w] by metis
  then show "x = w \<and> y = z" using eq by (simp add: add_byte_def)
qed simp

lemma div_twice: "k = m * n \<Longrightarrow> 0 \<le> n \<Longrightarrow> x div k = x div m div n" for x k m n :: int
  by (simp only: zdiv_zmult2_eq)

lemma add_byte_2:
  assumes "is_byte y" "is_byte z"
  shows "add_byte (add_byte x y) z div 65536 = x"
proof -
  have "add_byte (add_byte x y) z div 65536 = add_byte (add_byte x y) z div 256 div 256"
    by (rule div_twice) simp_all
  then show ?thesis unfolding add_byte_div[OF assms(2)] add_byte_div[OF assms(1)] .
qed

lemma add_byte_3:
  assumes "is_byte y" "is_byte z" "is_byte u"
  shows "add_byte (add_byte (add_byte x y) z) u div 16777216 = x"
proof -
  have "add_byte (add_byte (add_byte x y) z) u div 16777216 = add_byte (add_byte (add_byte x y) z) u div 65536 div 256"
    by (rule div_twice) simp_all
  then show ?thesis unfolding add_byte_2[OF assms(2,3)] add_byte_div[OF assms(1)] .
qed

lemma div_part: "0 < m \<Longrightarrow> (x * (k * m) + y) div m = x * k + y div m" for x y k m :: int
  using div_mult_self3[of m "x * k" y] by (simp add: mult.assoc)

lemma add_byte_part:
  "add_byte x y div 64 = x * 4 + y div 64"
  "add_byte x y div 16 = x * 16 + y div 16"
  "add_byte x y div 2 = x * 128 + y div 2"
proof -
  show "add_byte x y div 64 = x * 4 + y div 64" unfolding add_byte_def by (rule div_part[of 64 x 4, simplified])
  show "add_byte x y div 16 = x * 16 + y div 16" unfolding add_byte_def by (rule div_part[of 16 x 16, simplified])
  show "add_byte x y div 2 = x * 128 + y div 2" unfolding add_byte_def by (rule div_part[of 2 x 128, simplified])
qed

lemma digit_eq: "0 \<le> e \<Longrightarrow> e < 4 \<Longrightarrow> a * 4 + e = 401 \<longleftrightarrow> a = 100 \<and> e = 1"
  "0 \<le> f \<Longrightarrow> f < 16 \<Longrightarrow> a * 16 + f = 2753 \<longleftrightarrow> a = 172 \<and> f = 1"
  "0 \<le> g \<Longrightarrow> g < 128 \<Longrightarrow> a * 128 + g = 25353 \<longleftrightarrow> a = 198 \<and> g = 9" for a e f g :: int
  by presburger+

lemma octets: "is_byte (uint (b :: 8 word))" "is_byte 0"
  using word8_byte by auto

lemma block_32: "in_block 0 0 0 32 (v4_num a b c d) \<longleftrightarrow> uint a = 0 \<and> uint b = 0 \<and> uint c = 0 \<and> uint d = 0"
proof -
  have "add_byte (add_byte (add_byte 0 0) 0) 0 = add_byte (add_byte (add_byte (uint a) (uint b)) (uint c)) (uint d)
      \<longleftrightarrow> uint a = 0 \<and> uint b = 0 \<and> uint c = 0 \<and> uint d = 0"
    using octets by (simp add: add_byte_eq)
  then show ?thesis by (auto simp: in_block_def v4_num_def)
qed

lemma block_8: "in_block p 0 0 8 (v4_num a b c d) \<longleftrightarrow> uint a = p"
  unfolding in_block_def v4_num_def using octets by (simp add: add_byte_3)

lemma block_16: "is_byte q \<Longrightarrow> in_block p q 0 16 (v4_num a b c d) \<longleftrightarrow> uint a = p \<and> uint b = q"
  unfolding in_block_def v4_num_def using octets by (simp add: add_byte_2 add_byte_eq)

lemma block_24:
  "is_byte q \<Longrightarrow> is_byte s \<Longrightarrow> in_block p q s 24 (v4_num a b c d) \<longleftrightarrow> uint a = p \<and> uint b = q \<and> uint c = s"
  unfolding in_block_def v4_num_def using octets by (simp add: add_byte_div add_byte_eq)

lemma small_div:
  fixes a b :: int
  assumes "is_byte a" "is_byte b"
  shows "a * 4 + b div 64 = 401 \<longleftrightarrow> a = 100 \<and> 64 \<le> b \<and> b \<le> 127"
    and "a * 16 + b div 16 = 2753 \<longleftrightarrow> a = 172 \<and> 16 \<le> b \<and> b \<le> 31"
    and "a * 128 + b div 2 = 25353 \<longleftrightarrow> a = 198 \<and> 18 \<le> b \<and> b \<le> 19"
    and "a div 32 = 7 \<longleftrightarrow> 224 \<le> a"
proof -
  have d: "0 \<le> b div 64" "b div 64 < 4" "0 \<le> b div 16" "b div 16 < 16" "0 \<le> b div 2" "b div 2 < 128"
    using assms by linarith+
  have "b div 64 = 1 \<longleftrightarrow> 64 \<le> b \<and> b \<le> 127" "b div 16 = 1 \<longleftrightarrow> 16 \<le> b \<and> b \<le> 31" "b div 2 = 9 \<longleftrightarrow> 18 \<le> b \<and> b \<le> 19"
    by linarith+
  moreover have "a * 4 + b div 64 = 401 \<longleftrightarrow> a = 100 \<and> b div 64 = 1" using d(1,2) by (rule digit_eq)
  moreover have "a * 16 + b div 16 = 2753 \<longleftrightarrow> a = 172 \<and> b div 16 = 1" using d(3,4) by (rule digit_eq)
  moreover have "a * 128 + b div 2 = 25353 \<longleftrightarrow> a = 198 \<and> b div 2 = 9" using d(5,6) by (rule digit_eq)
  moreover have "a div 32 = 7 \<longleftrightarrow> 224 \<le> a" using assms(1) by linarith
  ultimately show "a * 4 + b div 64 = 401 \<longleftrightarrow> a = 100 \<and> 64 \<le> b \<and> b \<le> 127"
    "a * 16 + b div 16 = 2753 \<longleftrightarrow> a = 172 \<and> 16 \<le> b \<and> b \<le> 31"
    "a * 128 + b div 2 = 25353 \<longleftrightarrow> a = 198 \<and> 18 \<le> b \<and> b \<le> 19"
    "a div 32 = 7 \<longleftrightarrow> 224 \<le> a" by blast+
qed

lemma block_odd:
  "in_block 100 64 0 10 (v4_num a b c d) \<longleftrightarrow> uint a = 100 \<and> 64 \<le> uint b \<and> uint b \<le> 127"
  "in_block 172 16 0 12 (v4_num a b c d) \<longleftrightarrow> uint a = 172 \<and> 16 \<le> uint b \<and> uint b \<le> 31"
  "in_block 198 18 0 15 (v4_num a b c d) \<longleftrightarrow> uint a = 198 \<and> 18 \<le> uint b \<and> uint b \<le> 19"
  "in_block 224 0 0 3 (v4_num a b c d) \<longleftrightarrow> 224 \<le> uint a"
proof -
  let ?x = "v4_num a b c d"
  have two: "?x div 65536 = add_byte (uint a) (uint b)" and three: "?x div 16777216 = uint a"
    unfolding v4_num_def using octets by (simp_all add: add_byte_2 add_byte_3)
  have "?x div 4194304 = ?x div 65536 div 64" "?x div 1048576 = ?x div 65536 div 16"
    "?x div 131072 = ?x div 65536 div 2" "?x div 536870912 = ?x div 16777216 div 32"
    by (rule div_twice, simp, simp)+
  then have x: "?x div 4194304 = uint a * 4 + uint b div 64" "?x div 1048576 = uint a * 16 + uint b div 16"
    "?x div 131072 = uint a * 128 + uint b div 2" "?x div 536870912 = uint a div 32"
    unfolding two three add_byte_part .
  have net: "add_byte (add_byte (add_byte 100 64) 0) 0 div 4194304 = 401"
    "add_byte (add_byte (add_byte 172 16) 0) 0 div 1048576 = 2753"
    "add_byte (add_byte (add_byte 198 18) 0) 0 div 131072 = 25353"
    "add_byte (add_byte (add_byte 224 0) 0) 0 div 536870912 = 7"
    by (simp_all add: add_byte_def)
  have pow: "2 ^ (32 - 10) = (4194304 :: int)" "2 ^ (32 - 12) = (1048576 :: int)" "2 ^ (32 - 15) = (131072 :: int)"
    "2 ^ (32 - 3) = (536870912 :: int)" by simp_all
  note small = small_div[OF word8_byte[of a] word8_byte[of b]]
  show "in_block 100 64 0 10 ?x \<longleftrightarrow> uint a = 100 \<and> 64 \<le> uint b \<and> uint b \<le> 127"
    unfolding in_block_def pow x net by (rule small)
  show "in_block 172 16 0 12 ?x \<longleftrightarrow> uint a = 172 \<and> 16 \<le> uint b \<and> uint b \<le> 31"
    unfolding in_block_def pow x net by (rule small)
  show "in_block 198 18 0 15 ?x \<longleftrightarrow> uint a = 198 \<and> 18 \<le> uint b \<and> uint b \<le> 19"
    unfolding in_block_def pow x net by (rule small)
  show "in_block 224 0 0 3 ?x \<longleftrightarrow> 224 \<le> uint a"
    unfolding in_block_def pow x net by (rule small)
qed

lemma word8_consts: "a = numeral n \<longleftrightarrow> uint a = uint (numeral n :: 8 word)" "a = 0 \<longleftrightarrow> uint a = 0" for a :: "8 word"
  by (simp_all add: word_uint_eq_iff)

text \<open>The IPv4 addresses the guard refuses are exactly thirteen blocks: this host, the private
  and shared ranges, loopback, link-local, the protocol and documentation ranges (two of them widened to
  \<open>/16\<close>), benchmarking, and everything from multicast up.\<close>

theorem non_global_v4_blocks:
  "is_non_global_v4 a b c d \<longleftrightarrow> blocked_v4 (v4_num a b c d)"
proof -
  have "is_non_global_v4 a b c d \<longleftrightarrow>
      uint a = 127 \<or> uint a = 10 \<or> uint a = 172 \<and> 16 \<le> uint b \<and> uint b \<le> 31 \<or> uint a = 192 \<and> uint b = 168
      \<or> uint a = 169 \<and> uint b = 254 \<or> uint a = 0 \<and> uint b = 0 \<and> uint c = 0 \<and> uint d = 0
      \<or> uint a = 255 \<and> uint b = 255 \<and> uint c = 255 \<and> uint d = 255 \<or> 224 \<le> uint a \<and> uint a \<le> 239
      \<or> uint a = 100 \<and> 64 \<le> uint b \<and> uint b \<le> 127 \<or> 240 \<le> uint a
      \<or> uint a = 192 \<and> uint b = 0 \<and> (uint c = 0 \<or> uint c = 2) \<or> uint a = 198 \<and> uint b = 51
      \<or> uint a = 203 \<and> uint b = 0 \<or> uint a = 198 \<and> 18 \<le> uint b \<and> uint b \<le> 19"
    by (simp add: is_non_global_v4_def word8_consts word_le_def)
  moreover have "uint a = 255 \<and> uint b = 255 \<and> uint c = 255 \<and> uint d = 255
      \<or> 224 \<le> uint a \<and> uint a \<le> 239 \<or> 240 \<le> uint a \<longleftrightarrow> 224 \<le> uint a" by auto
  moreover have "blocked_v4 (v4_num a b c d) \<longleftrightarrow>
      uint a = 0 \<and> uint b = 0 \<and> uint c = 0 \<and> uint d = 0 \<or> uint a = 10
      \<or> uint a = 100 \<and> 64 \<le> uint b \<and> uint b \<le> 127 \<or> uint a = 127 \<or> uint a = 169 \<and> uint b = 254
      \<or> uint a = 172 \<and> 16 \<le> uint b \<and> uint b \<le> 31 \<or> uint a = 192 \<and> uint b = 0 \<and> uint c = 0
      \<or> uint a = 192 \<and> uint b = 0 \<and> uint c = 2 \<or> uint a = 192 \<and> uint b = 168
      \<or> uint a = 198 \<and> 18 \<le> uint b \<and> uint b \<le> 19 \<or> uint a = 198 \<and> uint b = 51 \<or> uint a = 203 \<and> uint b = 0
      \<or> 224 \<le> uint a"
    by (simp add: blocked_v4_def block_32 block_8 block_16 block_24 block_odd)
  ultimately show ?thesis by argo
qed

section \<open>Validated URLs\<close>

fun non_global :: "ip_addr \<Rightarrow> bool" where
  "non_global (V4 a b c d) = is_non_global_v4 a b c d"
| "non_global (V6 segs) = is_non_global_v6 segs"

lemma parse_bracket: "parse_ip (CHR ''['' # s) = None"
proof -
  have d: "digit_val (CHR ''['') = 16" by code_simp
  have n: "read_number r k z m (CHR ''['' # s) = None" if "r \<le> 16" for r k z m
    using that d by (simp add: read_number_def)
  have "read_ipv4_addr (CHR ''['' # s) = None" by (simp add: read_ipv4_octets n)
  moreover have "read_groups 8 0 (CHR ''['' # s) = ([], False, CHR ''['' # s)"
    using calculation n by (subst read_groups.simps(2)[of 7, simplified]) simp
  ultimately show ?thesis by (simp add: parse_ip_def read_ipv6_addr_def strip_prefix_def)
qed

lemma literal_checked: "parse_ip host = Some a \<Longrightarrow> \<not> is_private_or_local_host host \<Longrightarrow> \<not> non_global a"
  using parse_bracket[of "drop 1 host"]
  by (cases host) (auto simp: is_private_or_local_host_def Let_def strip_prefix_def prefix_def
      split: if_splits option.splits ip_addr.splits)

text \<open>An address the resolver answers is judged through its text; nothing is lost on the way.\<close>

lemma shown_checked: "ip_ok a \<Longrightarrow> \<not> is_private_or_local_host (show_ip a) \<Longrightarrow> \<not> non_global a"
  using literal_checked[of "show_ip a" a] parse_show_ip by simp

lemma not_local_host:
  "\<not> is_private_or_local_host host \<Longrightarrow> host \<noteq> ''localhost'' \<and> \<not> suffix ''.localhost'' host \<and> \<not> suffix ''.local'' host"
proof -
  assume a: "\<not> is_private_or_local_host host"
  have bracket: "strip_prefix ''['' host = Some h \<Longrightarrow> strip_suffix '']'' h = Some b \<Longrightarrow> host = CHR ''['' # b @ '']''" for h b
    by (simp add: strip_prefix_Some strip_suffix_Some)
  have "host \<noteq> ''localhost'' \<and> \<not> suffix ''.localhost'' host"
    using a bracket by (auto simp: is_private_or_local_host_def Let_def ends_with_def split: option.splits if_splits)
       (auto simp: strip_prefix_def suffix_def)
  moreover have "\<not> suffix ''.local'' host"
    using a bracket by (auto simp: is_private_or_local_host_def Let_def ends_with_def suffix_def split: option.splits if_splits)
  ultimately show ?thesis by blast
qed

definition allowed_host :: "string list \<Rightarrow> string \<Rightarrow> bool" where
  "allowed_host allowed host \<longleftrightarrow>
     allowed = [] \<or> (\<exists>d \<in> set allowed. d = ''*'' \<or> host = d \<or> suffix (CHR ''.'' # d) host)"

lemma matches_allowed: "host_matches_allowlist host allowed \<Longrightarrow> allowed_host allowed host"
  by (fastforce simp: host_matches_allowlist_def allowed_host_def list_ex_iff is_some_and_iff strip_suffix_Some
      ends_with_def suffix_def)

lemma validate_url_ok:
  assumes "validate_url uni raw allowed = Inr url"
  obtains host where "extract_host uni url = Inr host" and "\<not> is_private_or_local_host host"
    and "allowed_host allowed host" and "url = trim raw" and "\<not> has_ws url" and "strip_scheme url \<noteq> None"
proof -
  from assms obtain host where h: "extract_host uni url = Inr host" "\<not> is_private_or_local_host host"
    "allowed = [] \<or> host_matches_allowlist host allowed" "url = trim raw" "\<not> has_ws url"
    by (auto simp: validate_url_def Let_def split: if_splits sum.splits)
  moreover have "strip_scheme url \<noteq> None" using h(1) by (auto simp: extract_host_def split: option.splits)
  ultimately show thesis using that matches_allowed by (auto simp: allowed_host_def)
qed

text \<open>C4. A URL the DNS check lets through has a host that is no local name and is on the
  allowlist when there is one; a host that is an address literal is global, and for a name every
  address the resolver answered for the URL's host and port is global.\<close>

theorem resolved_url_is_public:
  assumes "validate_url_with_dns_check uni resolver raw allowed = Inr url"
    and "\<And>h p addrs. resolver h p = Inr addrs \<Longrightarrow> list_all ip_ok addrs"
  shows "\<exists>host. extract_host uni url = Inr host \<and> allowed_host allowed host
    \<and> host \<noteq> ''localhost'' \<and> \<not> suffix ''.localhost'' host \<and> \<not> suffix ''.local'' host
    \<and> (case parse_ip host of
         Some a \<Rightarrow> \<not> non_global a
       | None \<Rightarrow> (\<exists>port addrs. extract_port url = Inr port \<and> resolver host port = Inr addrs \<and> addrs \<noteq> []
                  \<and> list_all (\<lambda>a. \<not> non_global a) addrs))"
proof -
  obtain u where v: "validate_url uni raw allowed = Inr u"
    using assms(1) by (auto simp: validate_url_with_dns_check_def split: sum.splits)
  from validate_url_ok[OF v] obtain host where h: "extract_host uni u = Inr host" "\<not> is_private_or_local_host host"
    "allowed_host allowed host" .
  have url: "u = url" using assms(1) v h(1)
    by (auto simp: validate_url_with_dns_check_def split: sum.splits if_splits option.splits)
  have "case parse_ip host of
         Some a \<Rightarrow> \<not> non_global a
       | None \<Rightarrow> (\<exists>port addrs. extract_port url = Inr port \<and> resolver host port = Inr addrs \<and> addrs \<noteq> []
                  \<and> list_all (\<lambda>a. \<not> non_global a) addrs)"
  proof (cases "parse_ip host")
    case None
    then obtain port addrs where r: "extract_port url = Inr port" "resolver host port = Inr addrs" "addrs \<noteq> []"
      "find (\<lambda>a. is_private_or_local_host (show_ip a)) addrs = None"
      using assms(1) v h(1) url
      by (auto simp: validate_url_with_dns_check_def split: sum.splits if_splits option.splits)
    have "list_all (\<lambda>a. \<not> non_global a) addrs"
      using r(4) assms(2)[OF r(2)] shown_checked by (auto simp: find_None_iff list_all_iff)
    with r None show ?thesis by auto
  next
    case (Some a)
    then show ?thesis using literal_checked[OF Some h(2)] by simp
  qed
  with h url not_local_host[OF h(2)] show ?thesis by blast
qed

definition demo_resolver :: resolver where
  "demo_resolver host port = Inr [V4 93 184 215 14, V6 [0x20, 1, 0, 0, 0, 0, 0, 0x88]]"

definition example_url :: string where
  "example_url = ''https://api.example.com:8443/v1''"

lemma demo_resolver_public: "\<not> is_private_or_local_host (show_ip (V4 93 184 215 14))"
  "\<not> is_private_or_local_host (show_ip (V6 [0x20, 1, 0, 0, 0, 0, 0, 0x88]))"
  by code_simp+

lemma demo_accepted: "validate_url_with_dns_check (\<lambda>s. s) demo_resolver example_url [''example.com''] = Inr example_url"
proof -
  have "validate_url (\<lambda>s. s) example_url [''example.com''] = Inr example_url" by code_simp
  moreover have "extract_host (\<lambda>s. s) example_url = Inr ''api.example.com''" by code_simp
  moreover have "extract_port example_url = Inr 8443" by code_simp
  moreover have "parse_ip ''api.example.com'' = None" by code_simp
  ultimately show ?thesis
    using demo_resolver_public by (simp add: validate_url_with_dns_check_def demo_resolver_def del: show_ip.simps)
qed

theorem resolved_url_is_public_witness:
  "\<exists>host. extract_host (\<lambda>s. s) example_url = Inr host \<and> allowed_host [''example.com''] host"
  using resolved_url_is_public[OF demo_accepted] by (auto simp: demo_resolver_def)

section \<open>The allowlist\<close>

lemma distinct_remdups_adj: "sorted xs \<Longrightarrow> distinct (remdups_adj xs)" for xs :: "'a :: linorder list"
proof (induction xs rule: remdups_adj.induct)
  case (3 x y xs)
  then show ?case by (fastforce simp: order.antisym)
qed auto

lemma cut_before:
  "c \<notin> set (case split_once c s of Some (h, _) \<Rightarrow> h | None \<Rightarrow> s)"
  "set (case split_once c s of Some (h, _) \<Rightarrow> h | None \<Rightarrow> s) \<subseteq> set s"
  by (auto simp: split_once_Some split_once_None split: option.splits)

lemma set_trim_matches: "set (trim_end_matches c (trim_start_matches c s)) \<subseteq> set s"
  by (auto simp: trim_end_matches_def trim_start_matches_def dest!: set_dropWhileD)

lemma normalize_domain_Some:
  assumes "normalize_domain uni raw = Some d"
  shows "d \<noteq> [] \<and> \<not> has_ws d \<and> CHR '':'' \<notin> set d \<and> CHR ''/'' \<notin> set d"
proof -
  obtain d1 where d: "d = (case split_once (CHR '':'') (trim_end_matches (CHR ''.'') (trim_start_matches (CHR ''.'')
        (case split_once (CHR ''/'') d1 of Some (host, _) \<Rightarrow> host | None \<Rightarrow> d1))) of
          Some (host, _) \<Rightarrow> host
        | None \<Rightarrow> trim_end_matches (CHR ''.'') (trim_start_matches (CHR ''.'')
            (case split_once (CHR ''/'') d1 of Some (host, _) \<Rightarrow> host | None \<Rightarrow> d1)))"
    and "d \<noteq> []" "\<not> has_ws d"
    using assms unfolding normalize_domain_def Let_def by (metis option.distinct(1) option.inject)
  moreover have "CHR '':'' \<notin> set d" unfolding d by (rule cut_before(1))
  moreover have "CHR ''/'' \<notin> set d"
    unfolding d using cut_before(2) set_trim_matches cut_before(1)[of "CHR ''/''" d1] by blast
  ultimately show ?thesis by blast
qed

text \<open>The normal form of a non-empty allowlist is never the empty list that would open the
  guard to every host; it is sorted, without repetitions, and its entries are bare host names (or
  the placeholder for a list without a usable entry).\<close>

theorem allowlist_stays_strict:
  "(normalize_allowed_domains uni ds = [] \<longleftrightarrow> ds = [])
   \<and> sorted (normalize_allowed_domains uni ds) \<and> distinct (normalize_allowed_domains uni ds)
   \<and> (\<forall>d \<in> set (normalize_allowed_domains uni ds).
        d = MISCONFIGURED_ALLOWLIST \<or> d \<noteq> [] \<and> \<not> has_ws d \<and> CHR '':'' \<notin> set d \<and> CHR ''/'' \<notin> set d)"
proof -
  have "d \<noteq> [] \<and> \<not> has_ws d \<and> CHR '':'' \<notin> set d \<and> CHR ''/'' \<notin> set d"
    if "d \<in> set (List.map_filter (normalize_domain uni) ds)" for d
    using that by (auto simp: List.map_filter_def normalize_domain_Some)
  then show ?thesis by (auto simp: normalize_allowed_domains_def Let_def distinct_remdups_adj)
qed

theorem allowlist_stays_strict_witness:
  "normalize_allowed_domains (\<lambda>s. s) [''Example.com/x'', '' ''] \<noteq> []
   \<and> distinct (normalize_allowed_domains (\<lambda>s. s) [''Example.com/x'', '' ''])"
  using allowlist_stays_strict[of "\<lambda>s. s" "[''Example.com/x'', '' '']"] by blast

section \<open>Gaps\<close>

text \<open>
  A backslash ends the authority for the URL library that sends the request, but not for the
  guard: the host the guard sees is a subdomain of an allowed one, and the request goes to the
  loopback address before it.
\<close>

definition backslash_url :: string where
  "backslash_url = ''http://127.0.0.1'' @ [CHR 0x5C] @ ''.evil.com/x''"

theorem backslash_hides_loopback:
  "validate_url (\<lambda>s. s) backslash_url [''evil.com''] = Inr backslash_url
   \<and> extract_host (\<lambda>s. s) backslash_url = Inr (''127.0.0.1'' @ [CHR 0x5C] @ ''.evil.com'')"
proof -
  have "validate_url (\<lambda>s. s) backslash_url [''evil.com''] = Inr backslash_url" by code_simp
  moreover have "extract_host (\<lambda>s. s) backslash_url = Inr (''127.0.0.1'' @ [CHR 0x5C] @ ''.evil.com'')" by code_simp
  ultimately show ?thesis by blast
qed

text \<open>The placeholder of a misconfigured list is itself a host the guard accepts.\<close>

theorem placeholder_host_is_accepted:
  "validate_url (\<lambda>s. s) ''http://<misconfigured-allowlist>/'' (normalize_allowed_domains (\<lambda>s. s) ['' ''])
     = Inr ''http://<misconfigured-allowlist>/''"
  by code_simp

text \<open>Dots are trimmed before the port is cut, so an entry with both keeps its dot and matches no host.\<close>

theorem dotted_port_entry_matches_nothing:
  "normalize_domain (\<lambda>s. s) ''example.com.:443'' = Some ''example.com.''
   \<and> (\<forall>url. validate_url (\<lambda>s. s) ''https://example.com.:443/'' [''example.com.''] \<noteq> Inr url)"
proof -
  have "validate_url (\<lambda>s. s) ''https://example.com.:443/'' [''example.com.''] = Inl (not_allowed_text ''example.com'')"
    by code_simp
  moreover have "normalize_domain (\<lambda>s. s) ''example.com.:443'' = Some ''example.com.''" by code_simp
  ultimately show ?thesis by simp
qed

text \<open>
  IPv6 forms that carry an IPv4 address other than the mapped one count as global, whatever they
  carry: here the loopback address behind the NAT64 prefix, the 6to4 prefix and the old compatible form.
\<close>

theorem embedded_loopback_is_global:
  "\<not> non_global (V6 [0x64, 0xFF9B, 0, 0, 0, 0, 0x7F00, 1])"
  "\<not> non_global (V6 [0x2002, 0x7F00, 1, 0, 0, 0, 0, 1])"
  "\<not> non_global (V6 [0, 0, 0, 0, 0, 0, 0x7F00, 1])"
  by code_simp+

text \<open>The documentation range is \<open>198.51.100.0/24\<close>; its whole \<open>/16\<close> is refused.\<close>

theorem public_host_is_refused:
  "is_private_or_local_host ''198.51.7.1''"
  by code_simp

end
