(* ===== verification/Message_Windows.thy ===== *)
theory Message_Windows
  imports Token_Budget
begin

text \<open>
  Histories cut to a number of messages (\<open>agent/harness/session/turn/context.rs\<close>), and the
  repair of the message array at the wire (\<open>inference/provider/compatible_helpers.rs\<close>), with
  what both guarantee.  Whether the text of a message is the JSON envelope of tool calls is the
  parameter \<open>envelope\<close>.
\<close>

section \<open>Cutting a history\<close>

definition trim_history :: "nat \<Rightarrow> conv_message list \<Rightarrow> conv_message list" where
  "trim_history mx history =
     (if length history \<le> mx then history
      else
        (let system_messages = filter is_system_conv history;
             other_messages = filter (\<lambda>m. \<not> is_system_conv m) history;
             kept = (if mx < length other_messages
                     then drop (length other_messages - mx) other_messages else other_messages)
         in system_messages @ dropWhile is_tool_results kept))"

definition assistant_message_has_tool_calls :: "(string \<Rightarrow> bool) \<Rightarrow> chat_message \<Rightarrow> bool" where
  "assistant_message_has_tool_calls envelope m = (cm_role m = ''assistant'' \<and> envelope (cm_content m))"

definition is_tool_chat :: "chat_message \<Rightarrow> bool" where
  "is_tool_chat m = (cm_role m = ''tool'')"

definition bound_cached_transcript_messages :: "(string \<Rightarrow> bool) \<Rightarrow> nat \<Rightarrow> chat_message list \<Rightarrow>
    chat_message list" where
  "bound_cached_transcript_messages envelope max_history messages =
     (let mx = max max_history 1
      in if length messages \<le> mx then messages
         else
           (let has_system = is_some_and (first messages) is_system_chat;
                keep_tail = (if has_system then mx - 1 else mx);
                tail = dropWhile is_tool_chat (drop (length messages - keep_tail) messages);
                bounded = (if has_system then [hd messages] else []) @ tail
            in rev (dropWhile (assistant_message_has_tool_calls envelope) (rev bounded))))"

section \<open>The repair at the wire\<close>

datatype content_part = Text_Part string | Image_Part string

datatype message_content = Text_Content string | Parts_Content "content_part list"

record wire_call =
  wc_id :: "string option"
  wc_kind :: "string option"
  wc_function :: "(string option \<times> string option) option"
  wc_extra :: "string option"

record native_message =
  nm_role :: string
  nm_content :: "message_content option"
  nm_tool_call_id :: "string option"
  nm_tool_calls :: "wire_call list option"
  nm_reasoning :: "string option"

definition is_tool_msg :: "native_message \<Rightarrow> bool" where
  "is_tool_msg m = (nm_role m = ''tool'')"

definition responded :: "native_message list \<Rightarrow> string \<Rightarrow> bool" where
  "responded run i = list_ex (\<lambda>t. nm_tool_call_id t = Some i) run"

definition kept_calls :: "native_message list \<Rightarrow> wire_call list \<Rightarrow> wire_call list" where
  "kept_calls run calls = filter (\<lambda>c. is_some_and (wc_id c) (responded run)) calls"

definition answers :: "wire_call list \<Rightarrow> native_message \<Rightarrow> bool" where
  "answers calls t = is_some_and (nm_tool_call_id t) (\<lambda>i. list_ex (\<lambda>c. wc_id c = Some i) calls)"

definition with_calls :: "wire_call list \<Rightarrow> native_message \<Rightarrow> native_message" where
  "with_calls kept m =
     (if kept = [] then m\<lparr>nm_tool_calls := None, nm_reasoning := None\<rparr> else m\<lparr>nm_tool_calls := Some kept\<rparr>)"

function enforce_tool_message_invariants :: "native_message list \<Rightarrow> native_message list" where
  "enforce_tool_message_invariants [] = []"
| "enforce_tool_message_invariants (msg # rest) =
     (if nm_role msg = ''assistant'' \<and> nm_tool_calls msg \<noteq> None
      then
        (let run = takeWhile is_tool_msg rest;
             kept = kept_calls run (the (nm_tool_calls msg))
         in with_calls kept msg # filter (answers kept) run
              @ enforce_tool_message_invariants (dropWhile is_tool_msg rest))
      else if is_tool_msg msg then enforce_tool_message_invariants rest
      else msg # enforce_tool_message_invariants rest)"
  by pat_completeness auto
termination
  by (relation "measure length") (auto simp: length_dropWhile_le le_imp_less_Suc)

section \<open>What a cut keeps\<close>

lemma paired_dropWhile:
  assumes "paired xs"
  shows "paired (dropWhile is_tool_results (drop n xs))"
  using paired_drop[OF assms, of n]
proof
  assume p: "paired (drop n xs)"
  then have "dropWhile is_tool_results (drop n xs) = drop n xs"
    using paired_not_tool by (cases "drop n xs") auto
  with p show ?thesis by simp
next
  assume "\<exists>rs rest. drop n xs = Tool_Results rs # rest \<and> paired rest"
  then obtain rs rest where r: "drop n xs = Tool_Results rs # rest" "paired rest" by blast
  then have "dropWhile is_tool_results rest = rest" using paired_not_tool by (cases rest) auto
  with r show ?thesis by simp
qed

lemma paired_system_append: "\<forall>m \<in> set ss. is_system_conv m \<Longrightarrow> paired (ss @ xs) = paired xs"
proof (induction ss)
  case (Cons m ss)
  then show ?case by (cases m) auto
qed simp

text \<open>A history cut to its maximum keeps every system message and a final part of the others,
  at most as many as the maximum; and if calls and results were paired they still are.\<close>

theorem trim_history_window:
  assumes "paired (non_system is_system_conv h)"
  shows "(\<exists>k. non_system is_system_conv (trim_history mx h) = drop k (non_system is_system_conv h))
    \<and> filter is_system_conv (trim_history mx h) = filter is_system_conv h
    \<and> length (non_system is_system_conv (trim_history mx h)) \<le> mx
    \<and> paired (non_system is_system_conv (trim_history mx h))"
proof (cases "length h \<le> mx")
  case True
  moreover have "length (non_system is_system_conv h) \<le> length h" by (simp add: non_system_def)
  ultimately show ?thesis using assms by (auto simp: trim_history_def intro: exI[of _ 0])
next
  case False
  let ?o = "non_system is_system_conv h"
  let ?d = "drop (length ?o - mx) ?o"
  let ?t = "dropWhile is_tool_results ?d"
  have t: "trim_history mx h = filter is_system_conv h @ ?t"
    using False by (simp add: trim_history_def Let_def non_system_def)
  have no_sys: "\<forall>m \<in> set ?t. \<not> is_system_conv m"
    by (auto simp: non_system_def dest!: set_dropWhileD in_set_dropD)
  have ns: "non_system is_system_conv (trim_history mx h) = ?t"
    unfolding t non_system_def filter_append filter_True[OF no_sys[unfolded non_system_def]] by simp
  have sys: "filter is_system_conv (trim_history mx h) = filter is_system_conv h"
    unfolding t filter_append filter_False[OF no_sys] by simp
  have "?t = drop (length (takeWhile is_tool_results ?d) + (length ?o - mx)) ?o"
    by (simp add: dropWhile_eq_drop[of is_tool_results ?d])
  then have "\<exists>k. ?t = drop k ?o" by blast
  moreover have "length ?t \<le> mx"
    using length_dropWhile_le[of is_tool_results ?d] by simp
  ultimately show ?thesis using ns sys paired_dropWhile[OF assms] by simp
qed

theorem trim_history_window_witness:
  "paired (non_system is_system_conv (trim_history 2 demo_history))"
proof -
  have "paired (non_system is_system_conv demo_history)" by code_simp
  from trim_history_window[OF this, of 2] show ?thesis by blast
qed

section \<open>What the wire accepts\<close>

text \<open>
  The rule of the providers: tool messages stand only after a message with tool calls, every
  call is answered in the run of tool messages that follows, and every one of these answers a
  call.
\<close>

function wire_ok :: "native_message list \<Rightarrow> bool" where
  "wire_ok [] = True"
| "wire_ok (m # rest) =
     (if nm_role m = ''assistant'' \<and> nm_tool_calls m \<noteq> None
      then
        the (nm_tool_calls m) \<noteq> []
        \<and> list_all (\<lambda>c. is_some_and (wc_id c) (responded (takeWhile is_tool_msg rest))) (the (nm_tool_calls m))
        \<and> list_all (answers (the (nm_tool_calls m))) (takeWhile is_tool_msg rest)
        \<and> wire_ok (dropWhile is_tool_msg rest)
      else \<not> is_tool_msg m \<and> wire_ok rest)"
  by pat_completeness auto
termination
  by (relation "measure length") (auto simp: length_dropWhile_le le_imp_less_Suc)

declare enforce_tool_message_invariants.simps(2) [simp del] wire_ok.simps(2) [simp del]

lemma wire_head: "wire_ok (m # rest) \<Longrightarrow> \<not> is_tool_msg m"
  by (auto simp: wire_ok.simps(2) is_tool_msg_def split: if_splits)

lemma take_run: "\<forall>t \<in> set run. is_tool_msg t \<Longrightarrow> wire_ok rest \<Longrightarrow> takeWhile is_tool_msg (run @ rest) = run"
  and drop_run: "\<forall>t \<in> set run. is_tool_msg t \<Longrightarrow> wire_ok rest \<Longrightarrow> dropWhile is_tool_msg (run @ rest) = rest"
  by (cases rest; auto simp: wire_head takeWhile_append2 dropWhile_append2)+

lemma responded_filter:
  "is_some_and (wc_id c) (responded run) \<Longrightarrow> c \<in> set kept \<Longrightarrow> is_some_and (wc_id c) (responded (filter (answers kept) run))"
  by (fastforce simp: is_some_and_iff responded_def list_ex_iff answers_def)

lemma enforce_ok: "wire_ok (enforce_tool_message_invariants ms)"
proof (induction ms rule: enforce_tool_message_invariants.induct)
  case (2 msg rest)
  show ?case
  proof (cases "nm_role msg = ''assistant'' \<and> nm_tool_calls msg \<noteq> None")
    case True
    let ?run = "takeWhile is_tool_msg rest"
    let ?kept = "kept_calls ?run (the (nm_tool_calls msg))"
    let ?run' = "filter (answers ?kept) ?run"
    let ?rest = "enforce_tool_message_invariants (dropWhile is_tool_msg rest)"
    have rest: "wire_ok ?rest" using "2.IH"(1)[OF True refl refl] .
    have tools: "\<forall>t \<in> set ?run'. is_tool_msg t" by (auto dest: set_takeWhileD)
    have enf: "enforce_tool_message_invariants (msg # rest) = with_calls ?kept msg # ?run' @ ?rest"
      using True by (simp add: enforce_tool_message_invariants.simps(2) Let_def)
    show ?thesis
    proof (cases "?kept = []")
      case True
      then have "?run' = []" by (simp add: answers_def is_some_and_def filter_empty_conv split: option.splits)
      then show ?thesis
        unfolding enf using rest True \<open>nm_role msg = _ \<and> _\<close>
        by (simp add: wire_ok.simps(2) with_calls_def is_tool_msg_def)
    next
      case kept: False
      have "list_all (\<lambda>c. is_some_and (wc_id c) (responded ?run')) ?kept"
        by (auto simp: list_all_iff kept_calls_def intro: responded_filter)
      then show ?thesis
        unfolding enf using rest kept True take_run[OF tools rest] drop_run[OF tools rest]
        by (simp add: wire_ok.simps(2) with_calls_def list_all_iff)
    qed
  next
    case False
    then show ?thesis
      using "2.IH"(2,3) by (auto simp: enforce_tool_message_invariants.simps(2) wire_ok.simps(2))
  qed
qed simp

lemma enforce_id: "wire_ok ms \<Longrightarrow> enforce_tool_message_invariants ms = ms"
proof (induction ms rule: wire_ok.induct)
  case (2 m rest)
  show ?case
  proof (cases "nm_role m = ''assistant'' \<and> nm_tool_calls m \<noteq> None")
    case True
    then obtain calls where calls: "nm_tool_calls m = Some calls" by blast
    have ok: "calls \<noteq> []" "list_all (\<lambda>c. is_some_and (wc_id c) (responded (takeWhile is_tool_msg rest))) calls"
      "list_all (answers calls) (takeWhile is_tool_msg rest)" "wire_ok (dropWhile is_tool_msg rest)"
      using 2(3) True calls by (auto simp: wire_ok.simps(2))
    have "kept_calls (takeWhile is_tool_msg rest) calls = calls"
      using ok(2) by (auto simp: kept_calls_def list_all_iff filter_id_conv)
    moreover have "filter (answers calls) (takeWhile is_tool_msg rest) = takeWhile is_tool_msg rest"
      using ok(3) by (auto simp: list_all_iff filter_id_conv)
    moreover have "with_calls calls m = m" using ok(1) calls by (simp add: with_calls_def)
    ultimately show ?thesis
      using True calls 2(1)[OF True ok(4)] by (simp add: enforce_tool_message_invariants.simps(2) Let_def)
  next
    case False
    then show ?thesis using 2(2,3) by (auto simp: enforce_tool_message_invariants.simps(2) wire_ok.simps(2))
  qed
qed simp

definition bare :: "native_message \<Rightarrow> native_message" where
  "bare m = m\<lparr>nm_tool_calls := None, nm_reasoning := None\<rparr>"

lemma enforce_keeps:
  "map bare (filter (\<lambda>m. \<not> is_tool_msg m) (enforce_tool_message_invariants ms))
     = map bare (filter (\<lambda>m. \<not> is_tool_msg m) ms)"
proof (induction ms rule: enforce_tool_message_invariants.induct)
  case (2 msg rest)
  have run: "filter (\<lambda>m. \<not> is_tool_msg m) (filter p (takeWhile is_tool_msg rest)) = []" for p
    by (auto simp: filter_empty_conv dest: set_takeWhileD)
  have "filter (\<lambda>m. \<not> is_tool_msg m) (dropWhile is_tool_msg rest) = filter (\<lambda>m. \<not> is_tool_msg m) rest"
    using run[of "\<lambda>_. True"] by (metis (no_types, lifting) filter_True append_Nil filter_append takeWhile_dropWhile_id)
  then show ?case
    using 2 run by (auto simp: enforce_tool_message_invariants.simps(2) Let_def with_calls_def bare_def is_tool_msg_def)
qed simp

text \<open>C9. The array that goes on the wire satisfies the providers' rule on tool messages, whatever
  it was before; an array that satisfies it goes out unchanged; and no message but tool
  messages is lost, or changed in more than its calls and reasoning.\<close>

theorem wire_repair_sound:
  "wire_ok (enforce_tool_message_invariants ms)
   \<and> (wire_ok ms \<longleftrightarrow> enforce_tool_message_invariants ms = ms)
   \<and> map bare (filter (\<lambda>m. \<not> is_tool_msg m) (enforce_tool_message_invariants ms))
       = map bare (filter (\<lambda>m. \<not> is_tool_msg m) ms)"
  using enforce_ok[of ms] enforce_id[of ms] enforce_keeps[of ms] by metis

section \<open>Gaps\<close>

text \<open>
  The two guards of the resumed transcript are behind the early return: a transcript within the
  limit keeps leading results and trailing calls.
\<close>

theorem short_transcript_is_not_cleaned:
  "length messages \<le> max_history \<Longrightarrow> bound_cached_transcript_messages envelope max_history messages = messages"
  by (simp add: bound_cached_transcript_messages_def Let_def)

lemma drop_end:
  "length xs \<le> n \<Longrightarrow>
     length (rev (dropWhile p (rev xs))) \<le> n \<and> (\<forall>y ys. rev (rev (dropWhile p (rev xs))) = y # ys \<longrightarrow> \<not> p y)"
  using length_dropWhile_le[of p "rev xs"] by (auto dest: dropWhile_eq_Cons_conv[THEN iffD1])

text \<open>A longer one fits the limit and ends on no message of calls.\<close>

theorem long_transcript_is_cleaned:
  assumes "max max_history 1 < length messages"
  shows "length (bound_cached_transcript_messages envelope max_history messages) \<le> max max_history 1
    \<and> (\<forall>m ms. rev (bound_cached_transcript_messages envelope max_history messages) = m # ms \<longrightarrow>
         \<not> assistant_message_has_tool_calls envelope m)"
proof -
  let ?tail = "\<lambda>k. dropWhile is_tool_chat (drop (length messages - k) messages)"
  let ?sys = "is_some_and (first messages) is_system_chat"
  let ?bounded = "(if ?sys then [hd messages] else []) @ ?tail (if ?sys then max max_history 1 - 1 else max max_history 1)"
  have b: "bound_cached_transcript_messages envelope max_history messages
      = rev (dropWhile (assistant_message_has_tool_calls envelope) (rev ?bounded))"
  proof -
    have n: "\<not> length messages \<le> max max_history 1" using assms by linarith
    show ?thesis by (simp only: bound_cached_transcript_messages_def Let_def n if_False)
  qed
  have "length (?tail k) \<le> k" for k
    using length_dropWhile_le[of is_tool_chat "drop (length messages - k) messages"] by simp
  from this[of "max max_history 1"] this[of "max max_history 1 - 1"]
  moreover have "1 \<le> max max_history 1" by simp
  ultimately have "length ?bounded \<le> max max_history 1"
    unfolding length_append by (cases ?sys) (simp_all only: if_True if_False list.size, linarith+)
  then show ?thesis unfolding b by (rule drop_end)
qed

end
