(* ===== verification/Scheduler_Gate.thy ===== *)
theory Scheduler_Gate
  imports Complex_Main Prelude Rust_Str "HOL-Library.Word"
begin

text \<open>
  The scheduler gate (\<open>src/openhuman/scheduler_gate\<close>): the policy computed from the host's
  signals, the process-wide state with its sign-out override, and the callers that wait for
  the single permit of LLM-bound work, as a step relation in which callers, the sampler and the
  user interleave; with what the gate guarantees and where it falls short.
\<close>

section \<open>Signals and configuration\<close>

text \<open>
  A single-precision number is \<open>None\<close> when it is not a number.  Only comparisons and clamping
  are used, so the others are rationals.
\<close>

type_synonym f32 = "rat option"

definition f32_le :: "f32 \<Rightarrow> f32 \<Rightarrow> bool" where
  "f32_le a b = (case (a, b) of (Some x, Some y) \<Rightarrow> x \<le> y | _ \<Rightarrow> False)"

definition f32_clamp :: "rat \<Rightarrow> rat \<Rightarrow> f32 \<Rightarrow> f32" where
  "f32_clamp lo hi a = map_option (\<lambda>x. if x < lo then lo else if hi < x then hi else x) a"

record signals =
  on_ac_power :: bool
  battery_charge :: "f32 option"
  cpu_usage_pct :: f32
  server_mode :: bool

datatype gate_mode = Mode_Auto | Mode_AlwaysOn | Mode_Off

record gate_config =
  gc_mode :: gate_mode
  gc_battery_floor :: f32
  gc_cpu_busy_threshold_pct :: f32
  gc_throttled_backoff_ms :: "64 word"
  gc_paused_poll_ms :: "64 word"
  gc_cpu_severe_pct :: f32
  gc_require_ac_power :: bool

definition default_gate_config :: gate_config where
  "default_gate_config = \<lparr>gc_mode = Mode_Auto, gc_battery_floor = Some (4 / 5),
     gc_cpu_busy_threshold_pct = Some 70, gc_throttled_backoff_ms = 30000, gc_paused_poll_ms = 60000,
     gc_cpu_severe_pct = Some 95, gc_require_ac_power = False\<rparr>"

text \<open>
  Sampling the power state: the two environment variables (the second already parsed) and the
  answer of the battery probe, \<open>None\<close> for its failure.
\<close>

definition env_on_ac :: "string option \<Rightarrow> bool option" where
  "env_on_ac v =
     (case v of
        None \<Rightarrow> None
      | Some s \<Rightarrow>
          (let t = to_ascii_lowercase s
           in if t = ''1'' \<or> t = ''true'' \<or> t = ''yes'' then Some True
              else if t = ''0'' \<or> t = ''false'' \<or> t = ''no'' then Some False
              else None))"

definition sample_power :: "string option \<Rightarrow> f32 option \<Rightarrow> (bool \<times> f32 option) option \<Rightarrow> bool \<times> f32 option" where
  "sample_power ac_var charge_var probe =
     (let ac = env_on_ac ac_var; charge = map_option (f32_clamp 0 1) charge_var
      in case (ac, charge) of
           (Some a, Some c) \<Rightarrow> (a, Some c)
         | _ \<Rightarrow>
             (case probe of
                Some (on_ac, c) \<Rightarrow>
                  ((case ac of Some a \<Rightarrow> a | None \<Rightarrow> on_ac), (case charge of Some x \<Rightarrow> Some x | None \<Rightarrow> c))
              | None \<Rightarrow> ((case ac of Some a \<Rightarrow> a | None \<Rightarrow> True), charge)))"

text \<open>The deployment: the variable, the marks of a container, and on Linux a host without battery and display.\<close>

definition detect_server_mode :: "string option \<Rightarrow> bool \<Rightarrow> bool \<Rightarrow> bool \<Rightarrow> bool \<Rightarrow> bool \<Rightarrow> bool" where
  "detect_server_mode deployment kubernetes dockerenv linux has_display no_battery =
     (let named = (\<lambda>n. is_some_and deployment (\<lambda>v. to_ascii_lowercase v = n))
      in if named ''server'' then True
         else if named ''desktop'' \<or> named ''laptop'' then False
         else if kubernetes then True
         else if dockerenv then True
         else linux \<and> no_battery \<and> \<not> has_display)"

section \<open>The policy\<close>

datatype pause_reason = Pause_UserDisabled | Pause_OnBattery | Pause_CpuPressure | Pause_SignedOut | Pause_Unknown

fun pause_reason_as_str :: "pause_reason \<Rightarrow> string" where
  "pause_reason_as_str Pause_UserDisabled = ''user_disabled''"
| "pause_reason_as_str Pause_OnBattery = ''on_battery''"
| "pause_reason_as_str Pause_CpuPressure = ''cpu_pressure''"
| "pause_reason_as_str Pause_SignedOut = ''signed_out''"
| "pause_reason_as_str Pause_Unknown = ''unknown''"

datatype gate_policy = Gate_Aggressive | Gate_Normal | Gate_Throttled | Gate_Paused pause_reason

fun policy_as_str :: "gate_policy \<Rightarrow> string" where
  "policy_as_str Gate_Aggressive = ''aggressive''"
| "policy_as_str Gate_Normal = ''normal''"
| "policy_as_str Gate_Throttled = ''throttled''"
| "policy_as_str (Gate_Paused r) = ''paused''"

fun policy_pause_reason :: "gate_policy \<Rightarrow> pause_reason option" where
  "policy_pause_reason (Gate_Paused r) = Some r"
| "policy_pause_reason _ = None"

definition is_paused :: "gate_policy \<Rightarrow> bool" where
  "is_paused p = (policy_pause_reason p \<noteq> None)"

definition gate_decide :: "signals \<Rightarrow> gate_config \<Rightarrow> gate_policy" where
  "gate_decide s c =
     (case gc_mode c of
        Mode_Off \<Rightarrow> Gate_Paused Pause_UserDisabled
      | Mode_AlwaysOn \<Rightarrow> Gate_Aggressive
      | Mode_Auto \<Rightarrow>
          if server_mode s then Gate_Aggressive
          else
            (let battery_floor = f32_clamp 0 1 (gc_battery_floor c);
                 cpu_threshold = f32_clamp 0 100 (gc_cpu_busy_threshold_pct c);
                 cpu_severe = f32_clamp 0 100 (gc_cpu_severe_pct c)
             in if gc_require_ac_power c \<and> \<not> on_ac_power s then Gate_Paused Pause_OnBattery
                else if f32_le cpu_severe (cpu_usage_pct s) then Gate_Paused Pause_CpuPressure
                else
                  (let battery_ok = (on_ac_power s \<or>
                         (case battery_charge s of None \<Rightarrow> True | Some b \<Rightarrow> f32_le battery_floor b));
                       cpu_ok = f32_le (cpu_usage_pct s) cpu_threshold
                   in if battery_ok \<and> cpu_ok then Gate_Normal else Gate_Throttled)))"

section \<open>The process-wide gate\<close>

record gate_core =
  core_cfg :: gate_config
  core_signals :: signals
  core_policy :: gate_policy

text \<open>
  Where a caller of \<open>wait_for_capacity\<close> stands: about to check the sign-out override, about to
  read the policy, asleep (in the paused poll or the throttle's backoff), in the queue of the semaphore,
  or holding the permit.
\<close>

datatype caller = Check_Override | Read_Policy | Sleep_Paused | Sleep_Throttled | Queued | Holding

record scheduler_gate =
  sg_core :: "gate_core option"
  sg_signed_out :: bool
  sg_resume_stored :: bool
  sg_callers :: "nat \<rightharpoonup> caller"
  sg_waiting :: "nat list"
  sg_available :: nat

definition LLM_SLOTS :: nat where
  "LLM_SLOTS = 1"

definition gate_start :: scheduler_gate where
  "gate_start = \<lparr>sg_core = None, sg_signed_out = False, sg_resume_stored = False, sg_callers = Map.empty,
     sg_waiting = [], sg_available = LLM_SLOTS\<rparr>"

definition init_global :: "gate_config \<Rightarrow> signals \<Rightarrow> scheduler_gate \<Rightarrow> scheduler_gate" where
  "init_global c s g =
     (case sg_core g of
        None \<Rightarrow> g\<lparr>sg_core := Some \<lparr>core_cfg = c, core_signals = s, core_policy = gate_decide s c\<rparr>\<rparr>
      | Some _ \<Rightarrow> g)"

definition take_sample :: "signals \<Rightarrow> scheduler_gate \<Rightarrow> scheduler_gate" where
  "take_sample s g =
     (case sg_core g of
        None \<Rightarrow> g
      | Some k \<Rightarrow> g\<lparr>sg_core := Some (k\<lparr>core_signals := s, core_policy := gate_decide s (core_cfg k)\<rparr>)\<rparr>)"

definition update_config :: "gate_config \<Rightarrow> scheduler_gate \<Rightarrow> scheduler_gate" where
  "update_config c g =
     (case sg_core g of
        None \<Rightarrow> g
      | Some k \<Rightarrow>
          (let next = gate_decide (core_signals k) c
           in g\<lparr>sg_core := Some (k\<lparr>core_cfg := c, core_policy := next\<rparr>),
                sg_resume_stored := (sg_resume_stored g \<or> is_paused (core_policy k) \<and> \<not> is_paused next)\<rparr>))"

definition set_signed_out :: "bool \<Rightarrow> scheduler_gate \<Rightarrow> scheduler_gate" where
  "set_signed_out v g =
     (if sg_core g = None then g
      else g\<lparr>sg_signed_out := v, sg_resume_stored := (sg_resume_stored g \<or> sg_signed_out g \<and> \<not> v)\<rparr>)"

definition current_policy :: "scheduler_gate \<Rightarrow> gate_policy" where
  "current_policy g =
     (case sg_core g of
        None \<Rightarrow> Gate_Normal
      | Some k \<Rightarrow> if sg_signed_out g then Gate_Paused Pause_SignedOut else core_policy k)"

definition current_signals :: "scheduler_gate \<Rightarrow> signals" where
  "current_signals g =
     (case sg_core g of
        None \<Rightarrow> \<lparr>on_ac_power = True, battery_charge = None, cpu_usage_pct = Some 0, server_mode = False\<rparr>
      | Some k \<Rightarrow> core_signals k)"

section \<open>Waiting for capacity\<close>

definition move_caller :: "nat \<Rightarrow> caller \<Rightarrow> scheduler_gate \<Rightarrow> scheduler_gate" where
  "move_caller i c g = g\<lparr>sg_callers := (sg_callers g)(i \<mapsto> c)\<rparr>"

text \<open>\<open>acquire_owned\<close> joins the queue of the semaphore.\<close>

definition join_queue :: "nat \<Rightarrow> scheduler_gate \<Rightarrow> scheduler_gate" where
  "join_queue i g = (move_caller i Queued g)\<lparr>sg_waiting := sg_waiting g @ [i]\<rparr>"

definition check_override :: "nat \<Rightarrow> scheduler_gate \<Rightarrow> scheduler_gate" where
  "check_override i g =
     move_caller i (if sg_core g \<noteq> None \<and> sg_signed_out g then Sleep_Paused else Read_Policy) g"

definition read_policy :: "nat \<Rightarrow> scheduler_gate \<Rightarrow> scheduler_gate" where
  "read_policy i g =
     (case sg_core g of
        None \<Rightarrow> join_queue i g
      | Some k \<Rightarrow>
          (case core_policy k of
             Gate_Aggressive \<Rightarrow> join_queue i g
           | Gate_Normal \<Rightarrow> join_queue i g
           | Gate_Throttled \<Rightarrow> move_caller i Sleep_Throttled g
           | Gate_Paused _ \<Rightarrow> move_caller i Sleep_Paused g))"

inductive gate_step :: "scheduler_gate \<Rightarrow> scheduler_gate \<Rightarrow> bool" where
  init: "gate_step g (init_global c s g)"
| sample: "gate_step g (take_sample s g)"
| config: "gate_step g (update_config c g)"
| signed: "gate_step g (set_signed_out v g)"
| call: "sg_callers g i = None \<Longrightarrow> gate_step g (move_caller i Check_Override g)"
| override: "sg_callers g i = Some Check_Override \<Longrightarrow> gate_step g (check_override i g)"
| policy: "sg_callers g i = Some Read_Policy \<Longrightarrow> gate_step g (read_policy i g)"
| poll: "sg_callers g i = Some Sleep_Paused \<Longrightarrow> gate_step g (move_caller i Check_Override g)"
| backoff: "sg_callers g i = Some Sleep_Throttled \<Longrightarrow> gate_step g (join_queue i g)"
| grant: "sg_waiting g = i # rest \<Longrightarrow> 0 < sg_available g \<Longrightarrow>
    gate_step g ((move_caller i Holding g)\<lparr>sg_waiting := rest, sg_available := sg_available g - 1\<rparr>)"
| release: "sg_callers g i = Some Holding \<Longrightarrow>
    gate_step g (g\<lparr>sg_callers := (sg_callers g)(i := None), sg_available := sg_available g + 1\<rparr>)"

inductive gate_run :: "scheduler_gate \<Rightarrow> bool" where
  start: "gate_run gate_start"
| step: "gate_run g \<Longrightarrow> gate_step g g' \<Longrightarrow> gate_run g'"

section \<open>One call at a time\<close>

definition callers_at :: "caller \<Rightarrow> scheduler_gate \<Rightarrow> nat set" where
  "callers_at c g = {i. sg_callers g i = Some c}"

definition permits_ok :: "scheduler_gate \<Rightarrow> bool" where
  "permits_ok g \<longleftrightarrow> finite (callers_at Holding g) \<and> card (callers_at Holding g) + sg_available g = LLM_SLOTS
     \<and> distinct (sg_waiting g) \<and> set (sg_waiting g) = callers_at Queued g"

lemma move_at:
  "callers_at c (move_caller i d g) = (if c = d then insert i (callers_at c g) else callers_at c g - {i})"
  "sg_available (move_caller i d g) = sg_available g" "sg_waiting (move_caller i d g) = sg_waiting g"
  by (auto simp: callers_at_def move_caller_def)

lemma permits_ok_move:
  assumes "permits_ok g" and "sg_callers g i \<noteq> Some Holding" "sg_callers g i \<noteq> Some Queued"
    and "d \<noteq> Holding" "d \<noteq> Queued"
  shows "permits_ok (move_caller i d g)"
proof -
  have "callers_at Holding g - {i} = callers_at Holding g" "callers_at Queued g - {i} = callers_at Queued g"
    using assms(2,3) by (auto simp: callers_at_def)
  then show ?thesis using assms by (simp add: permits_ok_def move_at)
qed

lemma permits_ok_join:
  assumes "permits_ok g" and "sg_callers g i \<noteq> Some Holding" "sg_callers g i \<noteq> Some Queued"
  shows "permits_ok (join_queue i g)"
proof -
  have h: "callers_at Holding g - {i} = callers_at Holding g" "i \<notin> callers_at Queued g"
    using assms(2,3) by (auto simp: callers_at_def)
  have at: "callers_at c (join_queue i g) = callers_at c (move_caller i Queued g)" for c
    by (simp add: join_queue_def callers_at_def)
  show ?thesis
    using assms(1) h unfolding permits_ok_def at move_at
    by (auto simp: join_queue_def move_caller_def)
qed

lemma permits_ok_same:
  "permits_ok g \<Longrightarrow> sg_callers g' = sg_callers g \<Longrightarrow> sg_waiting g' = sg_waiting g \<Longrightarrow>
     sg_available g' = sg_available g \<Longrightarrow> permits_ok g'"
  by (simp add: permits_ok_def callers_at_def)

lemma permits_ok_step: "gate_step g g' \<Longrightarrow> permits_ok g \<Longrightarrow> permits_ok g'"
proof (induction rule: gate_step.induct)
  case (grant g i rest)
  let ?g = "(move_caller i Holding g)\<lparr>sg_waiting := rest, sg_available := sg_available g - 1\<rparr>"
  have i: "i \<in> callers_at Queued g" using grant by (auto simp: permits_ok_def)
  then have "i \<notin> callers_at Holding g" by (simp add: callers_at_def)
  note i = i this
  have at: "callers_at c ?g = callers_at c (move_caller i Holding g)" for c by (simp add: callers_at_def)
  show ?case using grant i unfolding permits_ok_def at move_at by auto
next
  case (release g i)
  let ?g = "g\<lparr>sg_callers := (sg_callers g)(i := None), sg_available := sg_available g + 1\<rparr>"
  have at: "callers_at c ?g = callers_at c g - {i}" for c by (auto simp: callers_at_def)
  have i: "i \<in> callers_at Holding g" "i \<notin> callers_at Queued g" using release(1) by (auto simp: callers_at_def)
  have fin: "finite (callers_at Holding g)" using release(2) by (simp add: permits_ok_def)
  have "0 < card (callers_at Holding g)" using i(1) fin by (auto simp: card_gt_0_iff)
  then show ?case using release(2) i unfolding permits_ok_def at by (auto simp: card_Diff_singleton)
next
  case (policy g i)
  then show ?case
    by (auto simp: read_policy_def permits_ok_move permits_ok_join split: option.splits gate_policy.splits)
qed (auto simp: init_global_def take_sample_def update_config_def set_signed_out_def Let_def check_override_def
    permits_ok_move permits_ok_join split: option.splits intro: permits_ok_same)

lemma gate_run_permits: "gate_run g \<Longrightarrow> permits_ok g"
  by (induction rule: gate_run.induct)
     (simp_all add: permits_ok_step, simp add: permits_ok_def gate_start_def callers_at_def LLM_SLOTS_def)

text \<open>C10. However callers, the sampler and the user interleave, at most one caller holds the
  permit for LLM-bound work, the permit is free exactly when none does, and a caller is in the queue of the
  semaphore at most once.\<close>

theorem one_llm_call:
  assumes "gate_run g"
  shows "(sg_callers g i = Some Holding \<longrightarrow> sg_callers g j = Some Holding \<longrightarrow> i = j)
    \<and> (sg_available g = 1 \<longleftrightarrow> (\<forall>i. sg_callers g i \<noteq> Some Holding)) \<and> sg_available g \<le> 1
    \<and> distinct (sg_waiting g)"
proof -
  have ok: "finite (callers_at Holding g)" "card (callers_at Holding g) + sg_available g = 1" "distinct (sg_waiting g)"
    using gate_run_permits[OF assms] by (simp_all add: permits_ok_def LLM_SLOTS_def)
  have "card (callers_at Holding g) \<le> 1" using ok(2) by linarith
  then have "i = j" if "sg_callers g i = Some Holding" "sg_callers g j = Some Holding"
    using that ok(1) by (auto simp: card_le_Suc0_iff_eq callers_at_def)
  moreover have "sg_available g = 1 \<longleftrightarrow> callers_at Holding g = {}" using ok(1,2) by auto
  ultimately show ?thesis using ok(2,3) by (auto simp: callers_at_def)
qed

section \<open>Pressure never loosens the policy\<close>

fun policy_rank :: "gate_policy \<Rightarrow> nat" where
  "policy_rank (Gate_Paused r) = 0"
| "policy_rank Gate_Throttled = 1"
| "policy_rank Gate_Normal = 2"
| "policy_rank Gate_Aggressive = 3"

text \<open>The second host is under at least the pressure of the first.\<close>

definition more_pressure :: "signals \<Rightarrow> signals \<Rightarrow> bool" where
  "more_pressure s s' \<longleftrightarrow> server_mode s' = server_mode s \<and> (on_ac_power s' \<longrightarrow> on_ac_power s)
     \<and> (case (battery_charge s, battery_charge s') of
          (None, _) \<Rightarrow> True | (Some b, Some b') \<Rightarrow> f32_le b' b | (Some b, None) \<Rightarrow> False)
     \<and> f32_le (cpu_usage_pct s) (cpu_usage_pct s')"

lemma f32_le_trans: "f32_le a b \<Longrightarrow> f32_le b c \<Longrightarrow> f32_le a c"
  by (auto simp: f32_le_def split: option.splits)

text \<open>More load, less charge or the loss of the power supply never make the policy more
  permissive, for any configuration, not-a-number thresholds included.\<close>

theorem pressure_never_loosens:
  assumes "more_pressure s s'"
  shows "policy_rank (gate_decide s' c) \<le> policy_rank (gate_decide s c)"
proof -
  have cpu: "f32_le (cpu_usage_pct s) (cpu_usage_pct s')" and sm: "server_mode s' = server_mode s"
    and ac: "on_ac_power s' \<Longrightarrow> on_ac_power s" using assms by (auto simp: more_pressure_def)
  have severe: "f32_le v (cpu_usage_pct s) \<Longrightarrow> f32_le v (cpu_usage_pct s')" for v
    using cpu f32_le_trans by blast
  have busy: "f32_le (cpu_usage_pct s') v \<Longrightarrow> f32_le (cpu_usage_pct s) v" for v
    using cpu f32_le_trans by blast
  have battery: "(case battery_charge s' of None \<Rightarrow> True | Some b \<Rightarrow> f32_le v b) \<Longrightarrow>
      (case battery_charge s of None \<Rightarrow> True | Some b \<Rightarrow> f32_le v b)" for v
    using assms f32_le_trans by (auto simp: more_pressure_def split: option.splits)
  show ?thesis
    using sm ac severe busy battery
    by (auto simp: gate_decide_def Let_def split: gate_mode.splits)
qed

definition idle_host :: signals where
  "idle_host = \<lparr>on_ac_power = True, battery_charge = None, cpu_usage_pct = Some 10, server_mode = False\<rparr>"

definition busy_host :: signals where
  "busy_host = idle_host\<lparr>cpu_usage_pct := Some 97\<rparr>"

theorem pressure_never_loosens_witness:
  "policy_rank (gate_decide busy_host default_gate_config) \<le> policy_rank (gate_decide idle_host default_gate_config)"
  by (rule pressure_never_loosens) (simp add: more_pressure_def busy_host_def idle_host_def f32_le_def)

definition queued_gate :: scheduler_gate where
  "queued_gate = read_policy 0 (check_override 0 (move_caller 0 Check_Override
     (init_global default_gate_config idle_host gate_start)))"

lemma queued_run: "gate_run queued_gate"
proof -
  have "gate_run (init_global default_gate_config idle_host gate_start)" (is "gate_run ?a")
    by (intro gate_run.step[OF gate_run.start] gate_step.init)
  then have "gate_run (move_caller 0 Check_Override ?a)" (is "gate_run ?b")
    by (rule gate_run.step[OF _ gate_step.call]) (simp add: init_global_def gate_start_def)
  then have "gate_run (check_override 0 ?b)" (is "gate_run ?c")
    by (rule gate_run.step[OF _ gate_step.override]) (simp add: move_caller_def)
  then show ?thesis unfolding queued_gate_def
    by (rule gate_run.step[OF _ gate_step.policy])
       (simp add: check_override_def move_caller_def init_global_def gate_start_def)
qed

lemma queued_facts:
  "sg_callers queued_gate 0 = Some Queued" "sg_waiting queued_gate = [0]" "sg_available queued_gate = 1"
  "sg_core queued_gate \<noteq> None" "sg_signed_out queued_gate = False"
proof -
  have "gate_decide idle_host default_gate_config = Gate_Normal" by code_simp
  then show "sg_callers queued_gate 0 = Some Queued" "sg_waiting queued_gate = [0]" "sg_available queued_gate = 1"
    "sg_core queued_gate \<noteq> None" "sg_signed_out queued_gate = False"
    by (simp_all add: queued_gate_def read_policy_def check_override_def move_caller_def join_queue_def
        init_global_def gate_start_def LLM_SLOTS_def)
qed

theorem one_llm_call_witness:
  "sg_available queued_gate = 1 \<longleftrightarrow> (\<forall>i. sg_callers queued_gate i \<noteq> Some Holding)"
  using one_llm_call[OF queued_run] by blast

section \<open>Gaps\<close>

text \<open>
  While signed out the host should do no LLM-bound work at all.  A caller that joined the queue of
  the semaphore before the sign-out is granted the permit after it, since nothing looks at the policy
  again.
\<close>

theorem signed_out_caller_gets_permit:
  "\<exists>g g'. gate_run g \<and> current_policy g = Gate_Paused Pause_SignedOut \<and> sg_callers g 0 = Some Queued
     \<and> gate_step g g' \<and> sg_callers g' 0 = Some Holding"
proof -
  let ?g = "set_signed_out True queued_gate"
  let ?g' = "(move_caller 0 Holding ?g)\<lparr>sg_waiting := [], sg_available := sg_available ?g - 1\<rparr>"
  have "gate_run ?g" by (rule gate_run.step[OF queued_run gate_step.signed])
  moreover have "gate_step ?g ?g'"
    by (rule gate_step.grant) (simp_all add: set_signed_out_def queued_facts)
  moreover have "current_policy ?g = Gate_Paused Pause_SignedOut" "sg_callers ?g 0 = Some Queued"
    using queued_facts(4) by (auto simp: current_policy_def set_signed_out_def queued_facts split: option.splits)
  moreover have "sg_callers ?g' 0 = Some Holding" by (simp add: move_caller_def)
  ultimately show ?thesis by blast
qed

text \<open>
  The resume signal is documented to fire whenever the gate leaves a paused state; the sampler, which
  ends the pauses for battery and load, never fires it.
\<close>

theorem sampler_resumes_silently:
  "sg_resume_stored (take_sample s g) = sg_resume_stored g"
  by (simp add: take_sample_def split: option.splits)

text \<open>A threshold that is not a number survives the clamping and throttles the gate for good.\<close>

theorem nan_threshold_throttles:
  "gate_decide s (default_gate_config\<lparr>gc_cpu_busy_threshold_pct := None\<rparr>) \<noteq> Gate_Normal"
  by (auto simp: gate_decide_def default_gate_config_def f32_clamp_def f32_le_def Let_def split: option.splits)

text \<open>A sign-out before the gate is initialised is forgotten: initialising does not look at the session.\<close>

theorem early_sign_out_is_lost:
  "current_policy (init_global c s (set_signed_out True gate_start)) = gate_decide s c"
  by (simp add: current_policy_def init_global_def set_signed_out_def gate_start_def)

end
