(* ===== verification/Rust_Text.thy ===== *)
theory Rust_Text
  imports Rust_Str Rust_Float
begin

text \<open>
  More of Rust's \<open>str\<close> and of the formatting macros: lines, decimal parsing, and the
  single-precision ratios of the content detector.
\<close>

section \<open>Lines\<close>

text \<open>
  \<open>str::lines\<close>: the pieces that end at a line feed, without it and without a carriage return
  before it, and what is left after the last line feed unless that is nothing.
\<close>

definition strip_cr :: "string \<Rightarrow> string" where
  "strip_cr l = (case strip_suffix [CHR 0x0D] l of Some r \<Rightarrow> r | None \<Rightarrow> l)"

fun lines_go :: "string \<Rightarrow> string \<Rightarrow> string list" where
  "lines_go acc [] = (if acc = [] then [] else [rev acc])"
| "lines_go acc (c # cs) =
     (if c = CHR 0x0A then strip_cr (rev acc) # lines_go [] cs else lines_go (c # acc) cs)"

definition str_lines :: "string \<Rightarrow> string list" where
  "str_lines s = lines_go [] s"

text \<open>\<open>writeln!\<close> of each of a list of lines.\<close>

definition write_lines :: "string list \<Rightarrow> string" where
  "write_lines ls = concat (map (\<lambda>l. l @ [CHR 0x0A]) ls)"

lemma write_lines_simps [simp]:
  "write_lines [] = []"
  "write_lines (l # ls) = l @ CHR 0x0A # write_lines ls"
  "write_lines (ls @ ms) = write_lines ls @ write_lines ms"
  by (simp_all add: write_lines_def)

lemma lines_go_line:
  "CHR 0x0A \<notin> set l \<Longrightarrow> lines_go acc (l @ CHR 0x0A # s) = strip_cr (rev acc @ l) # lines_go [] s"
  by (induction l arbitrary: acc) auto

lemma lines_go_no_lf: "l \<in> set (lines_go acc s) \<Longrightarrow> CHR 0x0A \<notin> set acc \<Longrightarrow> CHR 0x0A \<notin> set l"
proof (induction acc s rule: lines_go.induct)
  case (2 acc c cs)
  have "set (strip_cr (rev acc)) \<subseteq> set acc"
    by (auto simp: strip_cr_def strip_suffix_Some split: option.splits)
       (metis Un_iff set_append set_rev)
  with 2 show ?case by (auto split: if_splits)
qed (auto split: if_splits)

lemma str_lines_no_lf: "l \<in> set (str_lines s) \<Longrightarrow> CHR 0x0A \<notin> set l"
  using lines_go_no_lf[of l "[]" s] by (simp add: str_lines_def)

text \<open>Lines without line feeds and final carriage returns are read back as they were written.\<close>

lemma strip_cr_id: "l = [] \<or> last l \<noteq> CHR 0x0D \<Longrightarrow> strip_cr l = l"
  by (auto simp: strip_cr_def strip_suffix_Some split: option.splits)

lemma str_lines_write:
  assumes "\<forall>l \<in> set ls. CHR 0x0A \<notin> set l \<and> (l = [] \<or> last l \<noteq> CHR 0x0D)"
  shows "str_lines (write_lines ls) = ls"
  using assms by (induction ls) (auto simp: str_lines_def lines_go_line strip_cr_id)

section \<open>Decimal numbers\<close>

text \<open>The value of a run of digits; \<open>parse::<u64>\<close> of it fails from \<open>2 ^ 64\<close> on.\<close>

definition dec_value :: "string \<Rightarrow> nat" where
  "dec_value ds = foldl (\<lambda>n c. 10 * n + (byte c - 48)) 0 ds"

definition parse_u64 :: "string \<Rightarrow> nat option" where
  "parse_u64 ds =
     (if ds \<noteq> [] \<and> list_all is_ascii_digit ds \<and> dec_value ds < 2 ^ 64 then Some (dec_value ds) else None)"

lemma dec_value_snoc: "dec_value (ds @ [c]) = 10 * dec_value ds + (byte c - 48)"
  by (simp add: dec_value_def)

lemma dec_value_dec_nat [simp]: "dec_value (dec_nat n) = n"
proof (induction n rule: dec_nat.induct)
  case (1 n)
  show ?case
  proof (cases "n < 10")
    case True
    then show ?thesis by (subst dec_nat.simps) (simp add: dec_value_def)
  next
    case False
    then show ?thesis using 1 by (subst dec_nat.simps) (simp add: dec_value_snoc)
  qed
qed

lemma parse_u64_dec_nat: "n < 2 ^ 64 \<Longrightarrow> parse_u64 (dec_nat n) = Some n"
  using dec_nat_digits by (auto simp: parse_u64_def list_all_iff)

section \<open>Shortening\<close>

text \<open>\<open>util::truncate_with_suffix\<close>: the first characters, without blanks at their end, and the suffix.\<close>

definition truncate_with_suffix :: "string \<Rightarrow> nat \<Rightarrow> string \<Rightarrow> string" where
  "truncate_with_suffix s max_chars sfx =
     (if char_count s \<le> max_chars then s else trim_end (take_chars max_chars s) @ sfx)"

definition truncate_with_ellipsis :: "string \<Rightarrow> nat \<Rightarrow> string" where
  "truncate_with_ellipsis s max_chars = truncate_with_suffix s max_chars ''...''"

text \<open>\<open>util::truncate_at_byte_boundary\<close> and the neighbours of a byte index among the character boundaries.\<close>

definition truncate_at_byte_boundary :: "string \<Rightarrow> nat \<Rightarrow> string" where
  "truncate_at_byte_boundary s max_bytes =
     (if length s \<le> max_bytes then s
      else if max_bytes < length ellipsis then []
      else take (back_to_boundary s (max_bytes - length ellipsis)) s @ ellipsis)"

definition utf8_safe_prefix :: "string \<Rightarrow> nat \<Rightarrow> string" where
  "utf8_safe_prefix s max_bytes = take (floor_char_boundary s max_bytes) s"

fun on_to_boundary :: "string \<Rightarrow> nat \<Rightarrow> nat \<Rightarrow> nat" where
  "on_to_boundary s i 0 = i"
| "on_to_boundary s i (Suc left) = (if is_char_boundary s i then i else on_to_boundary s (Suc i) left)"

definition ceil_char_boundary :: "string \<Rightarrow> nat \<Rightarrow> nat" where
  "ceil_char_boundary s index =
     (if length s \<le> index then length s else on_to_boundary s index (length s - index))"

lemma truncate_at_byte_boundary_le: "length (truncate_at_byte_boundary s n) \<le> n"
  using back_to_boundary_le[of s "n - length ellipsis"]
  by (auto simp: truncate_at_byte_boundary_def ellipsis_def)

lemma on_to_boundary_least:
  "i + left = length s \<Longrightarrow>
   is_char_boundary s (on_to_boundary s i left) \<and> i \<le> on_to_boundary s i left \<and>
   (\<forall>j. i \<le> j \<longrightarrow> is_char_boundary s j \<longrightarrow> on_to_boundary s i left \<le> j)"
proof (induction left arbitrary: i)
  case (Suc left)
  show ?case
  proof (cases "is_char_boundary s i")
    case False
    then have "\<forall>j. i \<le> j \<longrightarrow> is_char_boundary s j \<longrightarrow> Suc i \<le> j" by (metis Suc_leI le_neq_implies_less)
    with False Suc.IH[of "Suc i"] Suc.prems show ?thesis by auto
  qed simp
qed (auto simp: is_char_boundary_def split: if_splits)

section \<open>Single precision\<close>

text \<open>As \<open>f64_round\<close>, with 24 significant bits.\<close>

definition f32_round :: "rat \<Rightarrow> rat" where
  "f32_round q =
     (if q = 0 then 0
      else (let u = pow2 (rat_exponent q - 23) in of_int (round_ties_even (q / u)) * u))"

text \<open>The quotient of two counts, which \<open>as f32\<close> first rounds.\<close>

definition f32_ratio :: "nat \<Rightarrow> nat \<Rightarrow> rat" where
  "f32_ratio a b =
     (if b = 0 then 0 else f32_round (f32_round (of_nat a) / f32_round (of_nat b)))"

end
