(* ===== verification/Compaction_Detect.thy ===== *)
theory Compaction_Detect
  imports Prelude Rust_Text
begin

text \<open>
  What kind of text a tool printed (\<open>agent/harness/compaction/signals.rs\<close>, \<open>detect.rs\<close>) and the
  scan of the system prompt for tokens that change from launch to launch (\<open>cache_align.rs\<close>).
  A JSON value is a tree whose numbers are held as the text \<open>serde_json\<close> prints for them; its
  parser is an argument.
\<close>

section \<open>JSON values\<close>

datatype json =
    Json_Null
  | Json_Bool bool
  | Json_Number string
  | Json_String string
  | Json_Array "json list"
  | Json_Object "(string \<times> json) list"

fun is_json_object :: "json \<Rightarrow> bool" where
  "is_json_object (Json_Object _) = True"
| "is_json_object _ = False"

text \<open>\<open>Value::get\<close> with a key, and \<open>Value::as_str\<close>.\<close>

fun json_get :: "string \<Rightarrow> json \<Rightarrow> json option" where
  "json_get k (Json_Object kvs) = map_of kvs k"
| "json_get k _ = None"

fun json_as_str :: "json \<Rightarrow> string option" where
  "json_as_str (Json_String s) = Some s"
| "json_as_str _ = None"

section \<open>Signals\<close>

definition ERROR_KEYWORDS :: "string list" where
  "ERROR_KEYWORDS =
     [''error'', ''fatal'', ''panic'', ''panicked'', ''exception'', ''traceback'', ''failed'',
      ''failure'', ''segfault'', ''assertion'', ''abort'', ''[error]'', ''error:'']"

definition WARNING_KEYWORDS :: "string list" where
  "WARNING_KEYWORDS = [''warning'', ''warn:'', ''[warn]'', ''deprecated'']"

definition IMPORTANCE_KEYWORDS :: "string list" where
  "IMPORTANCE_KEYWORDS =
     [''security'', ''vulnerability'', ''critical'', ''todo'', ''fixme'', ''denied'',
      ''unauthorized'', ''forbidden'']"

definition mentions :: "string list \<Rightarrow> string \<Rightarrow> bool" where
  "mentions kws lower = list_ex (\<lambda>kw. sublist kw lower) kws"

definition has_error_indicators :: "string \<Rightarrow> bool" where
  "has_error_indicators text = mentions ERROR_KEYWORDS (to_ascii_lowercase text)"

definition SCORE_ERROR :: rat where "SCORE_ERROR = 1"
definition SCORE_WARNING :: rat where "SCORE_WARNING = f32_round (6 / 10)"
definition SCORE_IMPORTANCE :: rat where "SCORE_IMPORTANCE = f32_round (4 / 10)"
definition SCORE_BASELINE :: rat where "SCORE_BASELINE = f32_round (1 / 10)"

definition line_score :: "string \<Rightarrow> rat" where
  "line_score line =
     (let lower = to_ascii_lowercase line;
          score = SCORE_BASELINE;
          score = (if mentions ERROR_KEYWORDS lower then max score SCORE_ERROR else score);
          score = (if mentions WARNING_KEYWORDS lower then max score SCORE_WARNING else score)
      in if mentions IMPORTANCE_KEYWORDS lower then max score SCORE_IMPORTANCE else score)"

datatype severity = Sev_Error | Sev_Warning | Sev_Other

definition severity_of :: "string \<Rightarrow> severity" where
  "severity_of line =
     (let lower = to_ascii_lowercase line
      in if mentions ERROR_KEYWORDS lower then Sev_Error
         else if mentions WARNING_KEYWORDS lower then Sev_Warning
         else Sev_Other)"

section \<open>Search hits\<close>

text \<open>
  A leading Windows drive is skipped; the first colon that is followed by digits and another
  colon separates the path from the line number.
\<close>

definition drive_prefix :: "string \<Rightarrow> bool" where
  "drive_prefix line = (case line of a # b # _ \<Rightarrow> is_ascii_alphabetic a \<and> b = CHR '':'' | _ \<Rightarrow> False)"

fun find_marker :: "string \<Rightarrow> string \<Rightarrow> (string \<times> string \<times> string) option" where
  "find_marker pre [] = None"
| "find_marker pre (c # cs) =
     (let ds = takeWhile is_ascii_digit cs; after = dropWhile is_ascii_digit cs
      in if c = CHR '':'' \<and> ds \<noteq> [] \<and> first after = Some (CHR '':'') then Some (pre, ds, tl after)
         else find_marker (pre @ [c]) cs)"

definition parse_search_line :: "string \<Rightarrow> (string \<times> nat \<times> string) option" where
  "parse_search_line line =
     (let scan_from = (if drive_prefix line then 2 else 0)
      in case find_marker [] (drop scan_from line) of
           None \<Rightarrow> None
         | Some (pre, ds, body) \<Rightarrow>
             (case parse_u64 ds of
                None \<Rightarrow> None
              | Some num \<Rightarrow>
                  (let path = take scan_from line @ pre
                   in if path = [] then None else Some (path, num, body))))"

section \<open>Detection\<close>

datatype content_type = CT_Search | CT_Log | CT_Diff | CT_JsonArray | CT_PlainText

datatype content_hint = Hint_Search | Hint_Log | Hint_Diff | Hint_Json | Hint_Auto

definition hint_for_tool :: "string \<Rightarrow> content_hint" where
  "hint_for_tool tool_name =
     (if tool_name \<in> set [''grep'', ''glob_search''] then Hint_Search
      else if tool_name \<in> set [''run_tests'', ''run_linter'', ''npm_exec'', ''node_exec'', ''install_tool'', ''lsp'']
        then Hint_Log
      else if tool_name \<in> set [''read_diff'', ''git_operations''] then Hint_Diff
      else Hint_Auto)"

definition looks_like_json_array :: "(string \<Rightarrow> json option) \<Rightarrow> string \<Rightarrow> bool" where
  "looks_like_json_array parse content =
     (let trimmed = trim_start content
      in if first trimmed \<noteq> Some (CHR ''['') then False
         else (case parse trimmed of
                 Some (Json_Array items) \<Rightarrow> 2 \<le> length items \<and> list_ex is_json_object items
               | _ \<Rightarrow> False))"

definition diff_line :: "string \<Rightarrow> bool" where
  "diff_line line =
     (prefix ''diff --git '' line \<or> prefix ''Index: '' line \<or>
      prefix ''@@ '' line \<and> sublist ''@@'' (drop 3 line))"

definition looks_like_diff :: "string \<Rightarrow> bool" where
  "looks_like_diff content = list_ex diff_line (take 400 (str_lines content))"

definition line_ratio :: "(string \<Rightarrow> bool) \<Rightarrow> string \<Rightarrow> rat" where
  "line_ratio hit content =
     (let ls = filter (\<lambda>l. trim l \<noteq> []) (take 2000 (str_lines content))
      in f32_ratio (length (filter hit ls)) (length ls))"

definition search_line_ratio :: "string \<Rightarrow> rat" where
  "search_line_ratio = line_ratio (\<lambda>l. parse_search_line l \<noteq> None)"

definition log_line_ratio :: "string \<Rightarrow> rat" where
  "log_line_ratio = line_ratio (\<lambda>l. severity_of l \<noteq> Sev_Other)"

definition detect :: "(string \<Rightarrow> json option) \<Rightarrow> string \<Rightarrow> content_type" where
  "detect parse content =
     (if trim_start content = [] then CT_PlainText
      else if looks_like_json_array parse content then CT_JsonArray
      else if looks_like_diff content then CT_Diff
      else if f32_round (6 / 10) \<le> search_line_ratio content then CT_Search
      else if f32_round (5 / 10) \<le> log_line_ratio content then CT_Log
      else CT_PlainText)"

fun resolve :: "(string \<Rightarrow> json option) \<Rightarrow> content_hint \<Rightarrow> string \<Rightarrow> content_type" where
  "resolve parse Hint_Search content = (if looks_like_diff content then CT_Diff else CT_Search)"
| "resolve parse Hint_Log content =
     (if looks_like_diff content then CT_Diff
      else if f32_round (6 / 10) \<le> search_line_ratio content then CT_Search else CT_Log)"
| "resolve parse Hint_Diff content =
     (if looks_like_diff content then CT_Diff else detect parse content)"
| "resolve parse Hint_Json content =
     (if looks_like_json_array parse content then CT_JsonArray else detect parse content)"
| "resolve parse Hint_Auto content = detect parse content"

section \<open>Volatile tokens of a prompt\<close>

text \<open>
  The separators are the characters that are not ASCII letters, digits or \<open>-.:_\<close>; each byte of
  another character separates as well, which only adds empty tokens, and those are skipped.
\<close>

definition token_char :: "char \<Rightarrow> bool" where
  "token_char c = (is_ascii_alphanumeric c \<or> c \<in> set ''-.:_'')"

definition is_ascii_hexdigit :: "char \<Rightarrow> bool" where
  "is_ascii_hexdigit c =
     (is_ascii_digit c \<or> 97 \<le> byte c \<and> byte c \<le> 102 \<or> 65 \<le> byte c \<and> byte c \<le> 70)"

definition is_uuid :: "string \<Rightarrow> bool" where
  "is_uuid tok =
     (length tok = 36 \<and>
      list_all (\<lambda>(i, b). if i \<in> {8, 13, 18, 23} then b = CHR ''-'' else is_ascii_hexdigit b)
        (List.enumerate 0 tok))"

definition is_jwt :: "string \<Rightarrow> bool" where
  "is_jwt tok =
     (let segs = split_on (\<lambda>c. c = CHR ''.'') tok
      in length segs = 3 \<and>
         list_all (\<lambda>s. 4 \<le> length s \<and>
           list_all (\<lambda>b. is_ascii_alphanumeric b \<or> b = CHR ''-'' \<or> b = CHR ''_'') s) segs \<and>
         prefix ''ey'' tok)"

definition is_hex_hash :: "string \<Rightarrow> bool" where
  "is_hex_hash tok = (length tok \<in> {32, 40, 64} \<and> list_all is_ascii_hexdigit tok)"

definition is_iso8601 :: "string \<Rightarrow> bool" where
  "is_iso8601 tok =
     (if length tok < 19 then False
      else list_all (\<lambda>i. is_ascii_digit (tok ! i)) [0, 1, 2, 3, 5, 6, 8, 9, 11, 12, 14, 15, 17, 18] \<and>
        tok ! 4 = CHR ''-'' \<and> tok ! 7 = CHR ''-'' \<and>
        (tok ! 10 = CHR ''T'' \<or> tok ! 10 = CHR '' '') \<and>
        tok ! 13 = CHR '':'' \<and> tok ! 16 = CHR '':'')"

definition redact :: "string \<Rightarrow> string" where
  "redact tok = take_chars 4 tok @ ellipsis"

record volatile_finding =
  vf_kind :: string
  vf_sample :: string

definition classify_token :: "string \<Rightarrow> volatile_finding option" where
  "classify_token tok =
     (if length tok < 8 then None
      else if is_uuid tok then Some \<lparr>vf_kind = ''uuid'', vf_sample = redact tok\<rparr>
      else if is_jwt tok then Some \<lparr>vf_kind = ''jwt'', vf_sample = redact tok\<rparr>
      else if is_iso8601 tok then Some \<lparr>vf_kind = ''iso8601'', vf_sample = tok\<rparr>
      else if is_hex_hash tok then Some \<lparr>vf_kind = ''hex_hash'', vf_sample = redact tok\<rparr>
      else None)"

definition detect_volatile :: "string \<Rightarrow> volatile_finding list" where
  "detect_volatile prompt = List.map_filter classify_token (split_on (\<lambda>c. \<not> token_char c) prompt)"

definition warn_if_volatile :: "string \<Rightarrow> nat" where
  "warn_if_volatile prompt = length (detect_volatile prompt)"

end
