(* ===== verification/Compaction_Diff.thy ===== *)
theory Compaction_Diff
  imports Compaction_Detect
begin

text \<open>
  The compressors for diffs and logs (\<open>agent/harness/compaction/diff.rs\<close>, \<open>logs.rs\<close>).  Each is
  split where the source writes to its buffer: a function from the lines to the lines that are
  written, and the text made of them.
\<close>

text \<open>The result of a compressor (\<open>mod.rs\<close>).\<close>

record compacted =
  cp_text :: string
  cp_lossy :: bool

section \<open>Diffs\<close>

definition CONTEXT_ANCHOR :: nat where "CONTEXT_ANCHOR = 3"
definition CONTEXT_COLLAPSE_THRESHOLD :: nat where "CONTEXT_COLLAPSE_THRESHOLD = 8"

definition is_structural :: "string \<Rightarrow> bool" where
  "is_structural line =
     list_ex (\<lambda>p. prefix p line)
       [''@@'', ''--- '', ''+++ '', ''index '', ''new file'', ''deleted file'', ''rename '',
        ''similarity '', ''Binary files'']"

definition is_context :: "string \<Rightarrow> bool" where
  "is_context line = prefix '' '' line"

definition noisy_names :: "string list" where
  "noisy_names =
     [''cargo.lock'', ''package-lock.json'', ''pnpm-lock.yaml'', ''yarn.lock'', ''composer.lock'',
      ''poetry.lock'', ''gemfile.lock'', ''.min.js'', ''.min.css'', ''.map'', ''go.sum'']"

definition is_noisy_path :: "string \<Rightarrow> bool" where
  "is_noisy_path diff_git_line = mentions noisy_names (to_ascii_lowercase diff_git_line)"

text \<open>The lines of a hunk body, up to the next hunk or file header.\<close>

definition hunk_body :: "string list \<Rightarrow> string list" where
  "hunk_body ls = takeWhile (\<lambda>l. \<not> (prefix ''@@'' l \<or> prefix ''diff --git '' l)) ls"

definition summarize_hunk_body :: "string list \<Rightarrow> nat \<times> nat \<times> nat" where
  "summarize_hunk_body ls =
     (let body = hunk_body ls;
          added = filter (\<lambda>l. prefix ''+'' l \<and> \<not> prefix ''+++'' l) body;
          removed = filter (\<lambda>l. \<not> (prefix ''+'' l \<and> \<not> prefix ''+++'' l) \<and> prefix ''-'' l \<and> \<not> prefix ''---'' l) body
      in (length added, length removed, length body))"

definition hunk_marker :: "nat \<Rightarrow> nat \<Rightarrow> string" where
  "hunk_marker added removed =
     ''[... lockfile/bundle hunk: +'' @ dec_nat added @ ''/-'' @ dec_nat removed @ '' line(s) omitted ...]''"

definition context_marker :: "nat \<Rightarrow> string" where
  "context_marker omitted = ''[... '' @ dec_nat omitted @ '' context line(s) omitted ...]''"

definition collapse_run :: "string list \<Rightarrow> string list" where
  "collapse_run run =
     (if CONTEXT_COLLAPSE_THRESHOLD < length run
      then take CONTEXT_ANCHOR run @ [context_marker (length run - 2 * CONTEXT_ANCHOR)] @
           drop (length run - CONTEXT_ANCHOR) run
      else run)"

text \<open>The loop, with its two flags: the lines it writes and the final \<open>saw_hunk\<close>.\<close>

function diff_go :: "bool \<Rightarrow> bool \<Rightarrow> string list \<Rightarrow> string list \<times> bool" where
  "diff_go noisy saw [] = ([], saw)"
| "diff_go noisy saw (l # ls) =
     (if prefix ''diff --git '' l then
        (let (out, saw') = diff_go (is_noisy_path l) saw ls in (l # out, saw'))
      else if is_structural l then
        (let saw1 = (saw \<or> prefix ''@@'' l)
         in if noisy \<and> prefix ''@@'' l then
              (let (added, removed, consumed) = summarize_hunk_body ls;
                   (out, saw') = diff_go noisy saw1 (drop consumed ls)
               in (l # hunk_marker added removed # out, saw'))
            else (let (out, saw') = diff_go noisy saw1 ls in (l # out, saw')))
      else if is_context l then
        (let (out, saw') = diff_go noisy saw (dropWhile is_context ls)
         in (collapse_run (l # takeWhile is_context ls) @ out, saw'))
      else (let (out, saw') = diff_go noisy saw ls in (l # out, saw')))"
  by pat_completeness auto
termination
  by (relation "measure (\<lambda>(_, _, ls). length ls)") (auto simp: le_imp_less_Suc length_dropWhile_le)

definition diff_compress :: "string \<Rightarrow> compacted option" where
  "diff_compress content =
     (let ls = str_lines content
      in if ls = [] then None
         else (let (out_lines, saw) = diff_go False False ls; out = write_lines out_lines
               in if \<not> saw then None
                  else if length content \<le> length out then None
                  else Some \<lparr>cp_text = trim_end out, cp_lossy = True\<rparr>))"

section \<open>Logs\<close>

definition MAX_ERRORS :: nat where "MAX_ERRORS = 10"
definition MAX_WARNINGS :: nat where "MAX_WARNINGS = 5"
definition MAX_STACK_TRACES :: nat where "MAX_STACK_TRACES = 3"
definition STACK_TRACE_MAX_LINES :: nat where "STACK_TRACE_MAX_LINES = 20"
definition MAX_TOTAL_LINES :: nat where "MAX_TOTAL_LINES = 100"

text \<open>A \<open>BTreeSet\<close> of indices, collected.\<close>

definition btree :: "nat list \<Rightarrow> nat list" where
  "btree is = sort (remdups is)"

definition select_first_last :: "nat list \<Rightarrow> nat \<Rightarrow> nat list" where
  "select_first_last idx cap =
     (if length idx \<le> cap then idx
      else if cap = 0 then []
      else (let head = (cap + 1) div 2; tail = cap - head
            in btree (take head idx @ take tail (rev idx))))"

definition is_summary_line :: "string \<Rightarrow> bool" where
  "is_summary_line line =
     (let l = trim (to_ascii_lowercase line)
      in prefix ''test result:'' l \<or> prefix ''error: aborting'' l \<or>
         sublist '' passed'' l \<or> sublist '' failed'' l \<or>
         sublist ''tests passed'' l \<or> sublist ''tests failed'' l \<or> sublist ''failures:'' l \<or>
         (sublist ''warning'' l \<and> sublist ''generated'' l) \<or>
         prefix ''error: could not compile'' l \<or> prefix ''build failed'' l \<or>
         prefix ''build succeeded'' l \<or> (sublist ''npm'' l \<and> sublist ''err'' l))"

definition is_stack_frame :: "string \<Rightarrow> bool" where
  "is_stack_frame line =
     (let trimmed = trim_start line
      in if trimmed = [] then False
         else (first line = Some (CHR '' '') \<or> first line = Some (CHR 0x09)) \<and>
              (prefix ''at '' trimmed \<or> prefix (''File '' @ [CHR 0x22]) trimmed \<or>
               prefix ''#'' trimmed \<and> is_some_and (first (tl trimmed)) is_ascii_digit))"

definition normalize_for_dedupe :: "string \<Rightarrow> string" where
  "normalize_for_dedupe line =
     join_with '' '' (split_whitespace (to_ascii_lowercase (filter (\<lambda>c. \<not> is_ascii_digit c) line)))"

text \<open>The four sources of indices that are kept.\<close>

definition indices_where :: "(string \<Rightarrow> bool) \<Rightarrow> string list \<Rightarrow> nat list" where
  "indices_where p ls = map fst (filter (\<lambda>(_, l). p l) (List.enumerate 0 ls))"

definition error_indices :: "string list \<Rightarrow> nat list" where
  "error_indices = indices_where (\<lambda>l. severity_of l = Sev_Error)"

fun warn_go :: "string list \<Rightarrow> nat \<Rightarrow> (nat \<times> string) list \<Rightarrow> nat list" where
  "warn_go seen kept [] = []"
| "warn_go seen kept ((i, line) # rest) =
     (if MAX_WARNINGS \<le> kept then []
      else if severity_of line = Sev_Warning then
        (let norm = normalize_for_dedupe line
         in if norm \<in> set seen then warn_go seen kept rest
            else i # warn_go (norm # seen) (kept + 1) rest)
      else warn_go seen kept rest)"

function trace_go :: "nat \<Rightarrow> nat \<Rightarrow> string list \<Rightarrow> nat list" where
  "trace_go traces i [] = []"
| "trace_go traces i (l # ls) =
     (if MAX_STACK_TRACES \<le> traces then []
      else if is_stack_frame l then
        (let run = Suc (length (takeWhile is_stack_frame ls))
         in [i..<i + min run STACK_TRACE_MAX_LINES] @
            trace_go (traces + 1) (i + run) (dropWhile is_stack_frame ls))
      else trace_go traces (i + 1) ls)"
  by pat_completeness auto
termination
  by (relation "measure (\<lambda>(_, _, ls). length ls)") (auto simp: le_imp_less_Suc length_dropWhile_le)

definition keep_indices :: "string list \<Rightarrow> nat list" where
  "keep_indices ls =
     btree (indices_where is_summary_line ls @
            select_first_last (error_indices ls) MAX_ERRORS @
            warn_go [] 0 (List.enumerate 0 ls) @
            trace_go 0 0 ls)"

definition kept_set :: "string list \<Rightarrow> nat list" where
  "kept_set ls =
     (let keep = keep_indices ls
      in if MAX_TOTAL_LINES < length keep then select_first_last keep MAX_TOTAL_LINES else keep)"

text \<open>What is written: kept lines by their index, and markers for the gaps between them.\<close>

datatype log_part = Kept nat | Omitted nat

fun render_parts :: "nat \<Rightarrow> nat option \<Rightarrow> nat list \<Rightarrow> log_part list" where
  "render_parts n prev [] =
     (case prev of None \<Rightarrow> []
      | Some p \<Rightarrow> (if 0 < n - (p + 1) then [Omitted (n - (p + 1))] else []))"
| "render_parts n prev (i # is) =
     (case prev of
        Some p \<Rightarrow> (if 0 < i - p - 1 then [Omitted (i - p - 1)] else [])
      | None \<Rightarrow> (if 0 < i then [Omitted i] else [])) @
     Kept i # render_parts n (Some i) is"

fun part_text :: "string list \<Rightarrow> log_part \<Rightarrow> string" where
  "part_text ls (Kept i) = ls ! i"
| "part_text ls (Omitted gap) = ''[... '' @ dec_nat gap @ '' line(s) omitted ...]''"

definition log_compress :: "string \<Rightarrow> compacted option" where
  "log_compress content =
     (let ls = str_lines content
      in if length ls \<le> MAX_TOTAL_LINES then None
         else if keep_indices ls = [] then None
         else (let out = write_lines (map (part_text ls) (render_parts (length ls) None (kept_set ls)))
               in if length content \<le> length out then None
                  else Some \<lparr>cp_text = trim_end out, cp_lossy = True\<rparr>))"

end
