(* ===== verification/Compaction.thy ===== *)
theory Compaction
  imports Compaction_Diff
begin

text \<open>
  The table for JSON arrays (\<open>agent/harness/compaction/json_crusher.rs\<close>), the store of originals
  (\<open>store.rs\<close>), the router over the compressors (\<open>mod.rs\<close>) and the tool that hands an original
  back (\<open>tools/impl/system/retrieve_tool_output.rs\<close>).  The parser and the printer of JSON and the
  hash are arguments; the process-wide store is a state that is passed along.
\<close>

section \<open>JSON tables\<close>

definition MIN_ROWS :: nat where "MIN_ROWS = 3"
definition ROW_DROP_THRESHOLD :: nat where "ROW_DROP_THRESHOLD = 40"
definition HEAD_ROWS :: nat where "HEAD_ROWS = 20"
definition TAIL_ROWS :: nat where "TAIL_ROWS = 10"

definition render_cell :: "(json \<Rightarrow> string) \<Rightarrow> json \<Rightarrow> string" where
  "render_cell to_string v =
     (case v of
        Json_String s \<Rightarrow>
          (if CHR ''|'' \<notin> set s \<and> CHR 0x0A \<notin> set s then s else to_string v)
      | Json_Bool b \<Rightarrow> (if b then ''true'' else ''false'')
      | Json_Number n \<Rightarrow> n
      | _ \<Rightarrow> to_string v)"

fun json_entries :: "json \<Rightarrow> (string \<times> json) list" where
  "json_entries (Json_Object kvs) = kvs"
| "json_entries _ = []"

text \<open>The keys of all rows, each where it is first seen.\<close>

definition push_column :: "string \<Rightarrow> string list \<Rightarrow> string list" where
  "push_column k cols = (if k \<in> set cols then cols else cols @ [k])"

definition table_columns :: "json list \<Rightarrow> string list" where
  "table_columns items = fold push_column (concat (map (map fst \<circ> json_entries) items)) []"

definition table_cells :: "(json \<Rightarrow> string) \<Rightarrow> string list \<Rightarrow> json \<Rightarrow> string list" where
  "table_cells to_string cols item =
     map (\<lambda>col. case map_of (json_entries item) col of None \<Rightarrow> [] | Some v \<Rightarrow> render_cell to_string v) cols"

definition times_sign :: string where "times_sign = [CHR 0xC3, CHR 0x97]"
definition middle_dot :: string where "middle_dot = [CHR 0xC2, CHR 0xB7]"

definition table_header :: "nat \<Rightarrow> nat \<Rightarrow> string" where
  "table_header rows cols =
     ''[json table: '' @ dec_nat rows @ '' rows '' @ times_sign @ '' '' @ dec_nat cols @ '' cols '' @
     middle_dot @ '' blank=absent key '' @ middle_dot @ '' exact original via retrieve footer]''"

definition rows_marker :: "nat \<Rightarrow> string" where
  "rows_marker dropped = ''[... '' @ dec_nat dropped @ '' middle rows omitted ...]''"

definition table_body :: "string list \<Rightarrow> string list" where
  "table_body rows =
     (if ROW_DROP_THRESHOLD < length rows
      then take HEAD_ROWS rows @ [rows_marker (length rows - HEAD_ROWS - TAIL_ROWS)] @
           drop (length rows - TAIL_ROWS) rows
      else rows)"

definition table_lines :: "(json \<Rightarrow> string) \<Rightarrow> json list \<Rightarrow> string list" where
  "table_lines to_string items =
     (let cols = table_columns items;
          rows = map (\<lambda>item. join_with '' | '' (table_cells to_string cols item)) items
      in table_header (length rows) (length cols) # join_with '' | '' cols # table_body rows)"

definition json_compress ::
    "(string \<Rightarrow> json option) \<Rightarrow> (json \<Rightarrow> string) \<Rightarrow> string \<Rightarrow> compacted option" where
  "json_compress parse to_string content =
     (case parse (trim content) of
        Some (Json_Array items) \<Rightarrow>
          if length items < MIN_ROWS then None
          else if \<not> list_all is_json_object items then None
          else if length (table_columns items) < 2 then None
          else (let out = trim_end (write_lines (table_lines to_string items))
                in if length content \<le> length out then None
                   else Some \<lparr>cp_text = out, cp_lossy = ROW_DROP_THRESHOLD < length items\<rparr>)
      | _ \<Rightarrow> None)"

section \<open>The store of originals\<close>

definition MAX_ENTRIES :: nat where "MAX_ENTRIES = 256"

record ccr_store =
  ccr_map :: "string \<Rightarrow> string option"
  ccr_order :: "string list"

definition empty_ccr :: ccr_store where
  "empty_ccr = \<lparr>ccr_map = (\<lambda>_. None), ccr_order = []\<rparr>"

fun ccr_evict :: "(string \<Rightarrow> string option) \<Rightarrow> string list \<Rightarrow> ccr_store" where
  "ccr_evict m [] = \<lparr>ccr_map = m, ccr_order = []\<rparr>"
| "ccr_evict m (h # hs) =
     (if MAX_ENTRIES < length (h # hs) then ccr_evict (m(h := None)) hs
      else \<lparr>ccr_map = m, ccr_order = h # hs\<rparr>)"

definition ccr_insert :: "string \<Rightarrow> string \<Rightarrow> ccr_store \<Rightarrow> ccr_store" where
  "ccr_insert hash content st =
     (if ccr_map st hash \<noteq> None then st
      else ccr_evict ((ccr_map st)(hash \<mapsto> content)) (ccr_order st @ [hash]))"

definition offload :: "(string \<Rightarrow> string) \<Rightarrow> string \<Rightarrow> ccr_store \<Rightarrow> string \<times> ccr_store" where
  "offload short_hash content st = (short_hash content, ccr_insert (short_hash content) content st)"

definition retrieve :: "string \<Rightarrow> ccr_store \<Rightarrow> string option" where
  "retrieve hash st = ccr_map st hash"

section \<open>The router\<close>

definition MIN_BYTES_TO_COMPRESS :: nat where "MIN_BYTES_TO_COMPRESS = 2048"

definition RECOVERY_TOOL_NAME :: string where "RECOVERY_TOOL_NAME = ''retrieve_tool_output''"

definition NEVER_COMPACT_TOOLS :: "string list" where "NEVER_COMPACT_TOOLS = [RECOVERY_TOOL_NAME]"

definition recovery_footer :: "bool \<Rightarrow> nat \<Rightarrow> string \<Rightarrow> string" where
  "recovery_footer lossy original_len hash =
     [CHR 0x0A, CHR 0x0A] @
     (if lossy
      then ''[compacted tool output '' @ em_dash @ '' this is a PARTIAL view; the full original ('' @
        dec_nat original_len @ '' bytes) is available by calling retrieve_tool_output('' @
        [CHR 0x22] @ hash @ [CHR 0x22] @ '')]''
      else ''[reformatted tool output '' @ em_dash @ '' no data lost, but layout changed; the exact original ('' @
        dec_nat original_len @ '' bytes, e.g. raw JSON) is available by calling retrieve_tool_output('' @
        [CHR 0x22] @ hash @ [CHR 0x22] @ '')]'')"

text \<open>What is not under \<open>src\<close>: the JSON reader and writer and the hash.\<close>

record codec =
  parse_json :: "string \<Rightarrow> json option"
  json_text :: "json \<Rightarrow> string"
  short_hash :: "string \<Rightarrow> string"

definition content_type_for :: "codec \<Rightarrow> string \<Rightarrow> string \<Rightarrow> content_type" where
  "content_type_for cd tool_name content =
     (let hint = hint_for_tool tool_name
      in if hint = Hint_Search then CT_Search else resolve (parse_json cd) hint content)"

fun compress_as :: "codec \<Rightarrow> content_type \<Rightarrow> string \<Rightarrow> compacted option" where
  "compress_as cd CT_Search content = None"
| "compress_as cd CT_Log content = log_compress content"
| "compress_as cd CT_Diff content = diff_compress content"
| "compress_as cd CT_JsonArray content = json_compress (parse_json cd) (json_text cd) content"
| "compress_as cd CT_PlainText content = None"

definition compact_tool_output :: "codec \<Rightarrow> string \<Rightarrow> string \<Rightarrow> bool \<Rightarrow> ccr_store \<Rightarrow> string \<times> ccr_store" where
  "compact_tool_output cd content tool_name enabled st =
     (if \<not> enabled \<or> length content < MIN_BYTES_TO_COMPRESS \<or> tool_name \<in> set NEVER_COMPACT_TOOLS
      then (content, st)
      else case compress_as cd (content_type_for cd tool_name content) content of
             Some c \<Rightarrow>
               if length (cp_text c) < length content then
                 (let (hash, st') = offload (short_hash cd) content st;
                      out = cp_text c @ recovery_footer (cp_lossy c) (length content) hash
                  in if length content \<le> length out then (content, st') else (out, st'))
               else (content, st)
           | None \<Rightarrow> (content, st))"

section \<open>The recovery tool\<close>

definition missing_original_text :: "string \<Rightarrow> string" where
  "missing_original_text hash =
     ''retrieve_tool_output: no cached original for hash '' @ [CHR 0x27] @ hash @ [CHR 0x27] @
     '' (it may have been evicted; re-run the tool to regenerate it)''"

definition missing_hash_text :: string where
  "missing_hash_text =
     ''retrieve_tool_output: missing required '' @ [CHR 0x27] @ ''hash'' @ [CHR 0x27] @ '' argument''"

definition retrieve_tool :: "json \<Rightarrow> ccr_store \<Rightarrow> string + string" where
  "retrieve_tool args st =
     (case Option.bind (json_get ''hash'' args) json_as_str of
        None \<Rightarrow> Inl missing_hash_text
      | Some s \<Rightarrow>
          (let hash = trim s
           in if hash = [] then Inl missing_hash_text
              else case retrieve hash st of
                     Some original \<Rightarrow> Inr original
                   | None \<Rightarrow> Inl (missing_original_text hash)))"

end
