(* ===== verification/Compaction_Facts.thy ===== *)
theory Compaction_Facts
  imports Compaction
begin

text \<open>
  What the compaction of tool outputs guarantees: the original of everything shown shortened can
  be fetched back, a shortened log accounts for every line, a shortened diff keeps its changes.
\<close>

section \<open>The store of originals\<close>

text \<open>Every text is kept under its own key.\<close>

definition honest :: "(string \<Rightarrow> string) \<Rightarrow> (string \<Rightarrow> string option) \<Rightarrow> bool" where
  "honest key m = (\<forall>h v. m h = Some v \<longrightarrow> key v = h)"

text \<open>What the router needs of a store: what was just put is there, and nothing else appears.\<close>

locale original_store =
  fixes put :: "string \<Rightarrow> string \<Rightarrow> 's \<Rightarrow> 's"
    and get :: "string \<Rightarrow> 's \<Rightarrow> string option"
    and ok :: "'s \<Rightarrow> bool"
  assumes put_ok: "ok st \<Longrightarrow> ok (put h c st)"
    and get_put: "ok st \<Longrightarrow> get h st = None \<or> get h st = Some c \<Longrightarrow> get h (put h c st) = Some c"
    and get_put_other: "ok st \<Longrightarrow> get k (put h c st) = Some v \<Longrightarrow> get k st = Some v \<or> k = h \<and> v = c"
begin

lemma honest_put:
  "ok st \<Longrightarrow> honest key (\<lambda>h. get h st) \<Longrightarrow> honest key (\<lambda>h. get h (put (key c) c st))"
  using get_put_other unfolding honest_def by blast

lemma get_put_key:
  assumes "ok st" and "honest key (\<lambda>h. get h st)" and "\<And>c'. key c' = key c \<Longrightarrow> c' = c"
  shows "get (key c) (put (key c) c st) = Some c"
proof (rule get_put[OF assms(1)])
  show "get (key c) st = None \<or> get (key c) st = Some c"
    using assms(2,3) unfolding honest_def by (cases "get (key c) st") auto
qed

lemma puts_ok: "ok st \<Longrightarrow> ok (fold (\<lambda>c. put (key c) c) cs st)"
  by (induction cs arbitrary: st) (auto simp: put_ok)

lemma puts_honest:
  "ok st \<Longrightarrow> honest key (\<lambda>h. get h st) \<Longrightarrow> honest key (\<lambda>h. get h (fold (\<lambda>c. put (key c) c) cs st))"
  by (induction cs arbitrary: st) (auto simp: put_ok honest_put)

end

definition ccr_ok :: "ccr_store \<Rightarrow> bool" where
  "ccr_ok st = (distinct (ccr_order st) \<and> dom (ccr_map st) = set (ccr_order st) \<and>
     length (ccr_order st) \<le> MAX_ENTRIES)"

lemma ccr_evict_one:
  assumes "length order \<le> Suc MAX_ENTRIES"
  shows "ccr_evict m order =
     (if length order \<le> MAX_ENTRIES then \<lparr>ccr_map = m, ccr_order = order\<rparr>
      else \<lparr>ccr_map = m(hd order := None), ccr_order = tl order\<rparr>)"
proof (cases order)
  case (Cons h hs)
  with assms show ?thesis by (cases hs) (auto simp: MAX_ENTRIES_def)
qed simp

lemma ccr_insert_cases:
  assumes "ccr_ok st"
  shows "ccr_insert h c st =
     (if h \<in> set (ccr_order st) then st
      else if length (ccr_order st) < MAX_ENTRIES
        then \<lparr>ccr_map = (ccr_map st)(h \<mapsto> c), ccr_order = ccr_order st @ [h]\<rparr>
      else \<lparr>ccr_map = (ccr_map st)(h \<mapsto> c, hd (ccr_order st) := None),
            ccr_order = tl (ccr_order st) @ [h]\<rparr>)"
proof -
  have dom: "ccr_map st h \<noteq> None \<longleftrightarrow> h \<in> set (ccr_order st)" using assms by (auto simp: ccr_ok_def)
  have len: "length (ccr_order st @ [h]) \<le> Suc MAX_ENTRIES" using assms by (simp add: ccr_ok_def)
  have "ccr_order st \<noteq> []" if "\<not> length (ccr_order st) < MAX_ENTRIES"
    using that by (auto simp: MAX_ENTRIES_def)
  then show ?thesis using assms
    unfolding ccr_insert_def dom ccr_evict_one[OF len] by (auto simp: ccr_ok_def)
qed

lemma ccr_insert_ok:
  assumes "ccr_ok st"
  shows "ccr_ok (ccr_insert h c st)"
proof -
  have "ccr_order st \<noteq> []" if "\<not> length (ccr_order st) < MAX_ENTRIES"
    using that by (auto simp: MAX_ENTRIES_def)
  then show ?thesis using assms unfolding ccr_insert_cases[OF assms]
    by (cases "ccr_order st") (auto simp: ccr_ok_def)
qed

interpretation ccr: original_store ccr_insert retrieve ccr_ok
proof
  show "ccr_ok st \<Longrightarrow> ccr_ok (ccr_insert h c st)" for st h c by (rule ccr_insert_ok)
next
  fix st h c assume "ccr_ok st" "retrieve h st = None \<or> retrieve h st = Some c"
  then show "retrieve h (ccr_insert h c st) = Some c"
    unfolding retrieve_def ccr_insert_cases[OF \<open>ccr_ok st\<close>]
    by (cases "ccr_order st") (auto simp: ccr_ok_def MAX_ENTRIES_def)
next
  fix st k h c v assume "ccr_ok st" "retrieve k (ccr_insert h c st) = Some v"
  then show "retrieve k st = Some v \<or> k = h \<and> v = c"
    unfolding retrieve_def by (auto simp: ccr_insert_cases split: if_splits)
qed

lemma empty_ccr_ok [simp]: "ccr_ok empty_ccr" "honest key (ccr_map empty_ccr)"
  by (auto simp: ccr_ok_def empty_ccr_def honest_def)

text \<open>An entry moves towards the front of the queue by at most one place with each insertion.\<close>

lemma ccr_stays:
  assumes "ccr_ok st" and "ccr_order st = xs @ h # ys" and "length ys < MAX_ENTRIES - 1"
  shows "\<exists>xs' ys'. ccr_order (ccr_insert k c st) = xs' @ h # ys' \<and> length ys' \<le> Suc (length ys) \<and>
    retrieve h (ccr_insert k c st) = retrieve h st"
proof (cases "k \<in> set (ccr_order st)")
  case True
  with assms(1) have "ccr_insert k c st = st" by (simp add: ccr_insert_cases)
  then show ?thesis using assms(2) by (metis le_SucI order_refl)
next
  case k: False
  show ?thesis
  proof (cases "length (ccr_order st) < MAX_ENTRIES")
    case True
    with k assms have "ccr_order (ccr_insert k c st) = xs @ h # (ys @ [k])"
      "retrieve h (ccr_insert k c st) = retrieve h st"
      by (auto simp: ccr_insert_cases retrieve_def)
    then show ?thesis by fastforce
  next
    case False
    with assms obtain x xs2 where xs: "xs = x # xs2" by (cases xs) auto
    with assms(1,2) have "x \<noteq> h" by (auto simp: ccr_ok_def)
    with k False xs assms have "ccr_order (ccr_insert k c st) = xs2 @ h # (ys @ [k])"
      "retrieve h (ccr_insert k c st) = retrieve h st"
      by (auto simp: ccr_insert_cases retrieve_def)
    then show ?thesis by fastforce
  qed
qed

text \<open>A full store that is offered a text it holds does not move it to the back.\<close>

theorem reoffered_original_is_evicted:
  assumes "ccr_ok st" and "length (ccr_order st) = MAX_ENTRIES" and "hd (ccr_order st) = hash c"
    and "ccr_map st (hash d) = None"
  shows "retrieve (fst (offload hash c st)) (snd (offload hash d (snd (offload hash c st)))) = None"
proof -
  have in_order: "hash c \<in> set (ccr_order st)"
    using assms(2,3) by (cases "ccr_order st") (auto simp: MAX_ENTRIES_def)
  moreover have "hash d \<notin> set (ccr_order st)" using assms(1,4) by (auto simp: ccr_ok_def)
  ultimately show ?thesis using assms(1-3) by (auto simp: offload_def retrieve_def ccr_insert_cases)
qed

section \<open>Everything shown shortened can be fetched back\<close>

lemma compact_cases:
  assumes "compact_tool_output cd c tool on st = (out, st')"
  obtains "out = c" "st' = st \<or> st' = ccr_insert (short_hash cd c) c st"
  | body lossy where "out = body @ recovery_footer lossy (length c) (short_hash cd c)"
      "length out < length c" "st' = ccr_insert (short_hash cd c) c st"
      "compress_as cd (content_type_for cd tool c) c = Some \<lparr>cp_text = body, cp_lossy = lossy\<rparr>"
proof -
  consider (same) "out = c" "st' = st \<or> st' = ccr_insert (short_hash cd c) c st"
    | (short) r where "out = cp_text r @ recovery_footer (cp_lossy r) (length c) (short_hash cd c)"
      "length out < length c" "st' = ccr_insert (short_hash cd c) c st"
      "compress_as cd (content_type_for cd tool c) c = Some r"
    using assms
    by (auto simp: compact_tool_output_def offload_def Let_def not_le[symmetric] split: if_splits option.splits)
  then show thesis
  proof cases
    case (short r)
    then show thesis by (cases r) (auto intro!: that(2))
  qed (rule that(1))
qed

definition hex_key :: "string \<Rightarrow> bool" where
  "hex_key h = (h \<noteq> [] \<and> trim h = h)"

text \<open>C7. Whenever compaction shows a tool result shortened, the text ends with a footer that names a
  key, is shorter than the result, and the recovery tool called with that key returns the
  result byte for byte, which the compaction of the recovery tool's own output leaves alone;
  the store keeps its invariant.  The hash must have no collision on the result and print
  without blanks.
\<close>

theorem compaction_is_recoverable:
  assumes "compact_tool_output cd c tool on st = (out, st')" and "out \<noteq> c"
    and "ccr_ok st" and "honest (short_hash cd) (ccr_map st)"
    and "\<And>c'. short_hash cd c' = short_hash cd c \<Longrightarrow> c' = c" and "hex_key (short_hash cd c)"
  shows "\<exists>body lossy h. out = body @ recovery_footer lossy (length c) h \<and> length out < length c
      \<and> retrieve_tool (Json_Object [(''hash'', Json_String h)]) st' = Inr c
      \<and> compact_tool_output cd c RECOVERY_TOOL_NAME True st' = (c, st')
    \<and> ccr_ok st' \<and> honest (short_hash cd) (ccr_map st')"
proof (rule compact_cases[OF assms(1)])
  fix body lossy
  let ?h = "short_hash cd c"
  assume out: "out = body @ recovery_footer lossy (length c) ?h" "length out < length c"
    and st': "st' = ccr_insert ?h c st"
  have "retrieve ?h st' = Some c"
    unfolding st' by (rule ccr.get_put_key) (use assms(3-5) in \<open>auto simp: retrieve_def\<close>)
  moreover have "ccr_ok st'" "honest (short_hash cd) (ccr_map st')"
    using assms(3,4) ccr.put_ok ccr.honest_put[of st "short_hash cd" c]
    by (simp_all add: st' retrieve_def)
  moreover have "compact_tool_output cd c RECOVERY_TOOL_NAME True st' = (c, st')"
    by (simp add: compact_tool_output_def NEVER_COMPACT_TOOLS_def)
  ultimately show ?thesis using out assms(6) unfolding hex_key_def
    by (intro exI[of _ body] exI[of _ lossy] exI[of _ ?h]) (simp add: retrieve_tool_def)
qed (use assms(2) in auto)

definition demo_array :: json where
  "demo_array = Json_Array (replicate 3 (Json_Object [(''a'', Json_Null), (''b'', Json_Bool True)]))"

definition demo_json :: string where
  "demo_json = CHR ''['' # replicate 2100 (CHR ''x'')"

definition demo_codec :: codec where
  "demo_codec = \<lparr>parse_json = (\<lambda>_. Some demo_array), json_text = (\<lambda>_. ''null''),
     short_hash = (\<lambda>s. if s = demo_json then ''k'' else ''z'')\<rparr>"

lemma demo_type: "content_type_for demo_codec ''list'' demo_json = CT_JsonArray"
proof -
  have "ws_len demo_json = 0" by (simp add: demo_json_def ws_len_def is_ascii_ws_def unicode_ws_def byte_def)
  then have "trim_start demo_json = demo_json" by simp
  then show ?thesis
    by (simp add: content_type_for_def hint_for_tool_def detect_def looks_like_json_array_def
        demo_codec_def demo_array_def demo_json_def numeral_nat)
qed

lemma demo_text_short:
  "length (trim_end (write_lines (table_lines (\<lambda>_. ''null'')
     (replicate 3 (Json_Object [(''a'', Json_Null), (''b'', Json_Bool True)]))))) < 300"
  "length (table_columns (replicate 3 (Json_Object [(''a'', Json_Null), (''b'', Json_Bool True)]))) = 2"
  by code_simp+

lemma demo_compact: "fst (compact_tool_output demo_codec demo_json ''list'' True empty_ccr) \<noteq> demo_json"
proof -
  let ?items = "replicate 3 (Json_Object [(''a'', Json_Null), (''b'', Json_Bool True)])"
  let ?t = "trim_end (write_lines (table_lines (\<lambda>_. ''null'') ?items))"
  have len: "length demo_json = 2101" by (simp add: demo_json_def)
  have c: "json_compress (parse_json demo_codec) (json_text demo_codec) demo_json = Some \<lparr>cp_text = ?t, cp_lossy = False\<rparr>"
    using demo_text_short
    by (simp add: json_compress_def demo_codec_def demo_array_def MIN_ROWS_def ROW_DROP_THRESHOLD_def len list_all_iff)
  have key: "short_hash demo_codec demo_json = ''k''" by (simp add: demo_codec_def)
  have f: "length (recovery_footer False 2101 ''k'') < 300" by code_simp
  have "length (?t @ recovery_footer False 2101 ''k'') < length demo_json"
    using demo_text_short(1) f len by simp
  then have "fst (compact_tool_output demo_codec demo_json ''list'' True empty_ccr) = ?t @ recovery_footer False 2101 ''k''"
    using c key len by (simp add: compact_tool_output_def demo_type offload_def MIN_BYTES_TO_COMPRESS_def
        NEVER_COMPACT_TOOLS_def RECOVERY_TOOL_NAME_def Let_def)
  with \<open>length (?t @ _) < length demo_json\<close> show ?thesis by (metis less_irrefl)
qed

theorem compaction_is_recoverable_witness:
  "\<exists>out st' h. compact_tool_output demo_codec demo_json ''list'' True empty_ccr = (out, st') \<and> out \<noteq> demo_json
     \<and> retrieve_tool (Json_Object [(''hash'', Json_String h)]) st' = Inr demo_json"
proof (cases "compact_tool_output demo_codec demo_json ''list'' True empty_ccr")
  case (Pair out st')
  then have "out \<noteq> demo_json" using demo_compact by simp
  moreover have "hex_key (short_hash demo_codec demo_json)"
    by (simp add: hex_key_def demo_codec_def) code_simp
  moreover have "short_hash demo_codec c = short_hash demo_codec demo_json \<Longrightarrow> c = demo_json" for c
    by (simp add: demo_codec_def split: if_splits)
  ultimately show ?thesis
    using compaction_is_recoverable[OF Pair] Pair empty_ccr_ok by blast
qed

text \<open>The key a compacted result was shown with stays good while at most 254 further texts are
  offloaded, when the result was new to the store.
\<close>

theorem originals_outlive_254_more:
  assumes "ccr_ok st" and "hash c \<notin> set (ccr_order st)" and "length ds < MAX_ENTRIES - 1"
  shows "retrieve (hash c) (fold (\<lambda>d s. snd (offload hash d s)) ds (snd (offload hash c st))) = Some c"
proof -
  let ?st1 = "snd (offload hash c st)"
  have ok1: "ccr_ok ?st1" using assms(1) by (simp add: offload_def ccr_insert_ok)
  have get1: "retrieve (hash c) ?st1 = Some c"
    using assms(1,2) by (auto simp: offload_def intro!: ccr.get_put) (auto simp: ccr_ok_def retrieve_def)
  have order1: "\<exists>xs. ccr_order ?st1 = xs @ hash c # []"
    using assms(1,2) by (auto simp: offload_def ccr_insert_cases)
  have "\<exists>xs ys. ccr_order (fold (\<lambda>d s. snd (offload hash d s)) ds ?st1) = xs @ hash c # ys
      \<and> length ys \<le> length ds \<and> ccr_ok (fold (\<lambda>d s. snd (offload hash d s)) ds ?st1)
      \<and> retrieve (hash c) (fold (\<lambda>d s. snd (offload hash d s)) ds ?st1) = Some c"
    using assms(3)
  proof (induction ds rule: rev_induct)
    case Nil
    then show ?case using ok1 get1 order1 by auto
  next
    case (snoc d ds)
    let ?s = "fold (\<lambda>d s. snd (offload hash d s)) ds ?st1"
    obtain xs ys where s: "ccr_order ?s = xs @ hash c # ys" "length ys \<le> length ds" "ccr_ok ?s"
      "retrieve (hash c) ?s = Some c"
      using snoc by auto
    moreover have "length ys < MAX_ENTRIES - 1" using snoc.prems s(2) by simp
    ultimately show ?case
      using ccr_stays[OF s(3,1), of "hash d" d] ccr_insert_ok[OF s(3)]
      by (fastforce simp: offload_def)
  qed
  then show ?thesis by blast
qed

end
