(* ===== verification/Compaction_Text_Facts.thy ===== *)
theory Compaction_Text_Facts
  imports Compaction
begin

text \<open>
  What the compressors keep: a shortened log is a tiling of the log by kept lines and counted
  gaps, a shortened diff keeps every line that is not context, and where they keep less than
  their comments say.
\<close>

section \<open>Logs\<close>

text \<open>The parts cover the lines from the \<open>k\<close>-th to the last, each once and in order.\<close>

fun tiles :: "nat \<Rightarrow> nat \<Rightarrow> log_part list \<Rightarrow> bool" where
  "tiles n k [] = (k = n)"
| "tiles n k (Kept i # ps) = (i = k \<and> tiles n (Suc k) ps)"
| "tiles n k (Omitted gap # ps) = (0 < gap \<and> tiles n (k + gap) ps)"

fun kept_of :: "log_part list \<Rightarrow> nat list" where
  "kept_of [] = []"
| "kept_of (Kept i # ps) = i # kept_of ps"
| "kept_of (Omitted gap # ps) = kept_of ps"

lemma kept_of_append [simp]: "kept_of (xs @ ys) = kept_of xs @ kept_of ys"
  by (induction xs rule: kept_of.induct) auto

lemma kept_of_render [simp]: "kept_of (render_parts n prev is) = is"
  by (induction n prev "is" rule: render_parts.induct) (auto split: option.splits)

lemma render_tiles:
  assumes "sorted_wrt (<) is" and "\<forall>i \<in> set is. p < i \<and> i < n" and "p < n"
  shows "tiles n (Suc p) (render_parts n (Some p) is)"
  using assms
proof (induction "is" arbitrary: p)
  case (Cons i "is")
  then have "tiles n (Suc i) (render_parts n (Some i) is)" by simp
  moreover have "p < i" using Cons.prems(2) by simp
  ultimately show ?case by (cases "i = Suc p") (auto simp: Suc_diff_Suc)
qed (auto simp: Suc_diff_Suc)

lemma render_tiles_None:
  assumes "sorted_wrt (<) is" and "\<forall>i \<in> set is. i < n" and "is \<noteq> []"
  shows "tiles n 0 (render_parts n None is)"
  using assms by (cases "is") (auto simp: render_tiles)

lemma set_btree [simp]: "set (btree is) = set is"
  by (simp add: btree_def)

lemma btree_Nil_iff [simp]: "btree is = [] \<longleftrightarrow> is = []"
  using set_btree[of "is"] by (metis set_empty)

lemma strict_btree: "sorted_wrt (<) (btree is)"
  by (simp add: btree_def strict_sorted_iff)

lemma btree_id: "sorted_wrt (<) is \<Longrightarrow> btree is = is"
  by (simp add: btree_def strict_sorted_iff distinct_remdups_id sorted_sort_id)

lemma select_first_last_parts:
  assumes "sorted_wrt (<) idx" and "0 < cap" and "cap < length idx"
  shows "select_first_last idx cap =
    take ((cap + 1) div 2) idx @ drop (length idx - (cap - (cap + 1) div 2)) idx"
proof -
  let ?h = "(cap + 1) div 2" and ?d = "length idx - (cap - (cap + 1) div 2)"
  have "?h \<le> ?d" using assms(3) by linarith
  have strict: "sorted_wrt (<) (take ?h idx @ drop ?d idx)"
  proof -
    have "x < y" if x: "x \<in> set (take ?h idx)" and y: "y \<in> set (drop ?d idx)" for x y
    proof -
      obtain i where i: "i < length (take ?h idx)" "take ?h idx ! i = x"
        using x unfolding in_set_conv_nth by blast
      obtain j where j: "j < length (drop ?d idx)" "drop ?d idx ! j = y"
        using y unfolding in_set_conv_nth by blast
      have "idx ! i < idx ! (?d + j)"
        by (rule sorted_wrt_nth_less[OF assms(1)]) (use i(1) j(1) \<open>?h \<le> ?d\<close> in simp_all)
      then show ?thesis using i j by simp
    qed
    then show ?thesis
      using assms(1) sorted_wrt_take sorted_wrt_drop by (auto simp: sorted_wrt_append)
  qed
  have "set (take ?h idx @ take (cap - ?h) (rev idx)) = set (take ?h idx @ drop ?d idx)"
    by (simp add: take_rev)
  then have "btree (take ?h idx @ take (cap - ?h) (rev idx)) = btree (take ?h idx @ drop ?d idx)"
    unfolding btree_def by (intro sorted_distinct_set_unique) auto
  then show ?thesis
    using assms(2,3) btree_id[OF strict] by (simp add: select_first_last_def Let_def)
qed

lemma select_first_last_props:
  assumes "sorted_wrt (<) idx"
  shows "sorted_wrt (<) (select_first_last idx cap) \<and> set (select_first_last idx cap) \<subseteq> set idx \<and>
    length (select_first_last idx cap) \<le> cap"
proof (cases "length idx \<le> cap \<or> cap = 0")
  case True
  then show ?thesis using assms by (auto simp: select_first_last_def)
next
  case False
  then have e: "select_first_last idx cap =
      take ((cap + 1) div 2) idx @ drop (length idx - (cap - (cap + 1) div 2)) idx"
    using assms by (intro select_first_last_parts) auto
  have "sorted_wrt (<) (select_first_last idx cap)"
    using False by (simp add: select_first_last_def Let_def strict_btree)
  moreover have "set (select_first_last idx cap) \<subseteq> set idx"
    unfolding e using set_take_subset set_drop_subset by fastforce
  moreover have "length (select_first_last idx cap) \<le> cap"
    unfolding e using False by simp
  ultimately show ?thesis by blast
qed

lemma set_indices_where: "set (indices_where p ls) = {i. i < length ls \<and> p (ls ! i)}"
proof -
  have "set (indices_where p ls) = fst ` {(i, l). (i, l) \<in> set (List.enumerate 0 ls) \<and> p l}"
    by (auto simp: indices_where_def)
  also have "\<dots> = {i. i < length ls \<and> p (ls ! i)}"
    by (force simp: in_set_enumerate_eq image_iff)
  finally show ?thesis .
qed

lemma strict_indices_where: "sorted_wrt (<) (indices_where p ls)"
proof -
  have "sorted_wrt (<) (map fst (List.enumerate 0 ls))" by simp
  then show ?thesis unfolding indices_where_def sorted_wrt_map by (rule sorted_wrt_filter)
qed

lemma warn_go_indices: "set (warn_go seen kept ils) \<subseteq> fst ` set ils"
  by (induction seen kept ils rule: warn_go.induct) (auto simp: Let_def)

lemma trace_go_indices: "set (trace_go t i ls) \<subseteq> {i..<i + length ls}"
proof (induction t i ls rule: trace_go.induct)
  case (2 t i l ls)
  let ?run = "Suc (length (takeWhile is_stack_frame ls))"
  have run: "?run + length (dropWhile is_stack_frame ls) = length (l # ls)"
    by (metis add_Suc length_Cons length_append takeWhile_dropWhile_id)
  show ?case
  proof (cases "MAX_STACK_TRACES \<le> t")
    case False
    show ?thesis
    proof (cases "is_stack_frame l")
      case True
      have "set (trace_go (t + 1) (i + ?run) (dropWhile is_stack_frame ls))
          \<subseteq> {i + ?run..<i + ?run + length (dropWhile is_stack_frame ls)}"
        using 2(1)[OF False True refl] .
      moreover have "{i..<i + min ?run STACK_TRACE_MAX_LINES} \<subseteq> {i..<i + length (l # ls)}"
        using run by auto
      ultimately show ?thesis using False True run by (auto simp: Let_def)
    next
      case f: False
      then show ?thesis using 2(2)[OF False f] False by auto
    qed
  qed simp
qed simp

lemma keep_indices_props: "sorted_wrt (<) (keep_indices ls) \<and> (\<forall>i \<in> set (keep_indices ls). i < length ls)"
proof -
  have "set (warn_go [] 0 (List.enumerate 0 ls)) \<subseteq> {..<length ls}"
    using warn_go_indices[of "[]" 0 "List.enumerate 0 ls"] by (auto simp: in_set_enumerate_eq)
  moreover have "set (trace_go 0 0 ls) \<subseteq> {..<length ls}"
    using trace_go_indices[of 0 0 ls] by auto
  moreover have "set (select_first_last (error_indices ls) MAX_ERRORS) \<subseteq> {..<length ls}"
    using select_first_last_props[of "error_indices ls" MAX_ERRORS]
    by (auto simp: error_indices_def set_indices_where strict_indices_where)
  ultimately show ?thesis
    unfolding keep_indices_def by (auto simp: strict_btree set_indices_where)
qed

lemma kept_set_props:
  "sorted_wrt (<) (kept_set ls)" "\<forall>i \<in> set (kept_set ls). i < length ls"
  "length (kept_set ls) \<le> MAX_TOTAL_LINES" "keep_indices ls \<noteq> [] \<Longrightarrow> kept_set ls \<noteq> []"
proof -
  note k = keep_indices_props[of ls]
  note s = select_first_last_props[of "keep_indices ls" MAX_TOTAL_LINES]
  show "sorted_wrt (<) (kept_set ls)" "\<forall>i \<in> set (kept_set ls). i < length ls"
    "length (kept_set ls) \<le> MAX_TOTAL_LINES"
    using k s by (auto simp: kept_set_def Let_def)
  show "kept_set ls \<noteq> []" if "keep_indices ls \<noteq> []"
  proof (cases "MAX_TOTAL_LINES < length (keep_indices ls)")
    case True
    then have "length (kept_set ls) = length (take 50 (keep_indices ls)) +
        length (drop (length (keep_indices ls) - 50) (keep_indices ls))"
      using k select_first_last_parts[of "keep_indices ls" MAX_TOTAL_LINES]
      by (simp add: kept_set_def Let_def MAX_TOTAL_LINES_def)
    with True show ?thesis by (auto simp: MAX_TOTAL_LINES_def)
  qed (use that in \<open>simp add: kept_set_def\<close>)
qed

lemma log_compress_Some:
  assumes "log_compress content = Some r"
  shows "MAX_TOTAL_LINES < length (str_lines content)" "keep_indices (str_lines content) \<noteq> []"
    "cp_lossy r" "length (cp_text r) \<le> length content"
    "cp_text r = trim_end (write_lines (map (part_text (str_lines content))
        (render_parts (length (str_lines content)) None (kept_set (str_lines content)))))"
proof -
  note a = assms[unfolded log_compress_def Let_def]
  then show "MAX_TOTAL_LINES < length (str_lines content)" "keep_indices (str_lines content) \<noteq> []"
    "cp_lossy r"
    "cp_text r = trim_end (write_lines (map (part_text (str_lines content))
        (render_parts (length (str_lines content)) None (kept_set (str_lines content)))))"
    by (auto split: if_splits)
  show "length (cp_text r) \<le> length content"
    using a by (auto split: if_splits intro!: order_trans[OF prefix_length_le[OF trim_end_prefix]])
qed

text \<open>The first and the last five errors, or all of up to ten.\<close>

definition edge_errors :: "string list \<Rightarrow> nat list" where
  "edge_errors ls = (let es = error_indices ls in take 5 es @ drop (length es - 5) es)"

lemma edge_errors_kept: "set (edge_errors ls) \<subseteq> set (select_first_last (error_indices ls) MAX_ERRORS)"
proof (cases "length (error_indices ls) \<le> MAX_ERRORS")
  case True
  then show ?thesis
    using set_take_subset set_drop_subset by (fastforce simp: edge_errors_def select_first_last_def Let_def)
next
  case False
  then show ?thesis using select_first_last_parts[of "error_indices ls" MAX_ERRORS]
    by (simp add: edge_errors_def MAX_ERRORS_def Let_def error_indices_def strict_indices_where)
qed

text \<open>A compressed log is written as a tiling of the log: kept lines and markers with counts
  that together account for every line once and in order.  At most 100 lines are kept; as long
  as no more than 100 qualify, every summary line and the first and last five errors are
  among them.
\<close>

theorem log_view_accounts_for_all:
  assumes "log_compress content = Some r"
  shows "\<exists>parts. cp_text r = trim_end (write_lines (map (part_text (str_lines content)) parts))
    \<and> tiles (length (str_lines content)) 0 parts \<and> length (kept_of parts) \<le> 100
    \<and> (length (keep_indices (str_lines content)) \<le> 100 \<longrightarrow>
        (\<forall>i < length (str_lines content). is_summary_line (str_lines content ! i) \<longrightarrow> i \<in> set (kept_of parts))
      \<and> set (edge_errors (str_lines content)) \<subseteq> set (kept_of parts))"
proof -
  let ?ls = "str_lines content"
  note c = log_compress_Some[OF assms]
  let ?parts = "render_parts (length ?ls) None (kept_set ?ls)"
  have "tiles (length ?ls) 0 ?parts"
    using kept_set_props(1,2) kept_set_props(4)[OF c(2)] by (rule render_tiles_None)
  moreover have "length (kept_of ?parts) \<le> 100"
    using kept_set_props(3)[of ?ls] by (simp add: MAX_TOTAL_LINES_def)
  moreover have "set (kept_set ?ls) = set (keep_indices ?ls)" if "length (keep_indices ?ls) \<le> 100"
    using that by (simp add: kept_set_def MAX_TOTAL_LINES_def)
  moreover have "set (indices_where is_summary_line ?ls) \<subseteq> set (keep_indices ?ls)"
    "set (edge_errors ?ls) \<subseteq> set (keep_indices ?ls)"
    using edge_errors_kept[of ?ls] by (auto simp: keep_indices_def)
  ultimately show ?thesis using c(5)
    by (intro exI[of _ ?parts]) (auto simp: set_indices_where)
qed

text \<open>With more than 100 summary lines the middle of them is lost, and an error there with it.\<close>

theorem crowded_log_loses_middle:
  assumes "list_all is_summary_line ls" and "100 < length ls" and "50 \<le> i" and "i < length ls - 50"
  shows "i \<notin> set (kept_of (render_parts (length ls) None (kept_set ls)))"
proof -
  have "set (keep_indices ls) = {..<length ls}"
  proof
    show "set (keep_indices ls) \<subseteq> {..<length ls}" using keep_indices_props[of ls] by blast
    have "set (indices_where is_summary_line ls) \<subseteq> set (keep_indices ls)"
      by (simp add: keep_indices_def)
    then show "{..<length ls} \<subseteq> set (keep_indices ls)"
      using assms(1) by (auto simp: set_indices_where list_all_length)
  qed
  moreover have "{..<length ls} = set [0..<length ls]" by auto
  ultimately have "keep_indices ls = [0..<length ls]"
    using keep_indices_props[of ls] sorted_distinct_set_unique[of "keep_indices ls" "[0..<length ls]"]
    by (simp add: strict_sorted_iff)
  then have "kept_set ls = take 50 [0..<length ls] @ drop (length ls - 50) [0..<length ls]"
    using assms(2) select_first_last_parts[of "[0..<length ls]" 100]
    by (simp add: kept_set_def MAX_TOTAL_LINES_def)
  with assms(2-4) show ?thesis by auto
qed


theorem log_view_accounts_for_all_witness:
  "\<exists>r parts. log_compress (write_lines (replicate 100 [] @ [''error: aborting''])) = Some r
     \<and> tiles 101 0 parts \<and> length (kept_of parts) \<le> 100"
proof -
  let ?c = "write_lines (replicate 100 [] @ [''error: aborting''])"
  have "log_compress ?c \<noteq> None" by code_simp
  then obtain r where r: "log_compress ?c = Some r" by auto
  have "length (str_lines ?c) = 101" by (subst str_lines_write) auto
  then show ?thesis using log_view_accounts_for_all[OF r] r by auto
qed

section \<open>Diffs\<close>

lemma collapse_run_lines: "set (collapse_run run) \<subseteq> set run \<union> {l. \<exists>n. l = context_marker n}"
  using set_take_subset[of CONTEXT_ANCHOR run] set_drop_subset[of "length run - CONTEXT_ANCHOR" run]
  by (auto simp: collapse_run_def)

definition noisy_header :: "string \<Rightarrow> bool" where
  "noisy_header l = (prefix ''diff --git '' l \<and> is_noisy_path l)"

lemma header_is_no_context: "prefix ''diff --git '' l \<Longrightarrow> \<not> is_context l" "is_structural l \<Longrightarrow> \<not> is_context l"
  by (cases l; auto simp: is_structural_def is_context_def)+

lemma diff_go_step:
  assumes "\<not> is_context l" and "\<not> noisy_header l"
  shows "\<exists>saw'. fst (diff_go False saw (l # ls)) = l # fst (diff_go False saw' ls)"
proof (cases "prefix ''diff --git '' l")
  case True
  with assms(2) have "fst (diff_go False saw (l # ls)) = l # fst (diff_go False saw ls)"
    by (simp add: noisy_header_def split: prod.splits)
  then show ?thesis by blast
next
  case False
  show ?thesis
  proof (cases "is_structural l")
    case True
    with False show ?thesis
      by (intro exI[of _ "saw \<or> prefix ''@@'' l"]) (simp split: prod.splits)
  next
    case s: False
    with False assms(1) show ?thesis by (intro exI[of _ saw]) (simp split: prod.splits)
  qed
qed

lemma diff_go_context:
  assumes "is_context l"
  shows "fst (diff_go False saw (l # ls)) =
    collapse_run (l # takeWhile is_context ls) @ fst (diff_go False saw (dropWhile is_context ls))"
  using assms header_is_no_context[of l] by (auto split: prod.splits)

lemma filter_dropWhile: "filter (\<lambda>x. \<not> p x) (dropWhile p xs) = filter (\<lambda>x. \<not> p x) xs"
  by (induction xs) auto

lemma diff_go_keeps:
  assumes "\<forall>l \<in> set ls. \<not> noisy_header l"
  shows "subseq (filter (\<lambda>l. \<not> is_context l) ls) (fst (diff_go False saw ls))
    \<and> set (fst (diff_go False saw ls)) \<subseteq> set ls \<union> {l. \<exists>n. l = context_marker n}"
  using assms
proof (induction ls arbitrary: saw rule: length_induct)
  case (1 xs)
  show ?case
  proof (cases xs)
    case (Cons l ls)
    show ?thesis
    proof (cases "is_context l")
      case True
      let ?rest = "dropWhile is_context ls"
      have "length ?rest < length xs" "\<forall>l \<in> set ?rest. \<not> noisy_header l"
        using 1(2) Cons length_dropWhile_le[of is_context ls] by (auto dest: set_dropWhileD)
      then have IH: "subseq (filter (\<lambda>l. \<not> is_context l) ?rest) (fst (diff_go False saw ?rest))"
        "set (fst (diff_go False saw ?rest)) \<subseteq> set ?rest \<union> {l. \<exists>n. l = context_marker n}"
        using 1(1) by blast+
      have "set (l # takeWhile is_context ls) \<union> set ?rest \<subseteq> set xs"
        using Cons by (auto dest: set_takeWhileD set_dropWhileD)
      then show ?thesis using IH True Cons collapse_run_lines[of "l # takeWhile is_context ls"]
        by (auto simp: diff_go_context filter_dropWhile simp del: diff_go.simps intro: list_emb_append2)
    next
      case False
      then obtain saw' where "fst (diff_go False saw (l # ls)) = l # fst (diff_go False saw' ls)"
        using diff_go_step[of l saw ls] 1(2) Cons by auto
      moreover have "subseq (filter (\<lambda>l. \<not> is_context l) ls) (fst (diff_go False saw' ls))
        \<and> set (fst (diff_go False saw' ls)) \<subseteq> set ls \<union> {l. \<exists>n. l = context_marker n}"
        using 1 Cons by simp
      ultimately show ?thesis using False Cons by (auto simp del: diff_go.simps)
    qed
  qed simp
qed

text \<open>In a compressed diff every line that is not context survives, in order: file and hunk
  headers, added and removed lines; what else the text has are context lines of the diff and
  markers for omitted ones.  Diffs that name a lockfile or bundle are excepted.
\<close>

theorem diff_keeps_changes:
  assumes "diff_compress content = Some r"
    and "\<forall>l \<in> set (str_lines content). \<not> noisy_header l"
  shows "\<exists>out. cp_text r = trim_end (write_lines out)
    \<and> subseq (filter (\<lambda>l. \<not> is_context l) (str_lines content)) out
    \<and> (\<forall>l \<in> set out. l \<in> set (str_lines content) \<or> (\<exists>n. l = context_marker n))
    \<and> length (write_lines out) < length content"
proof -
  have "cp_text r = trim_end (write_lines (fst (diff_go False False (str_lines content))))"
    "length (write_lines (fst (diff_go False False (str_lines content)))) < length content"
    using assms(1) by (auto simp: diff_compress_def Let_def split: if_splits prod.splits)
  then show ?thesis using diff_go_keeps[of "str_lines content" False] assms(2)
    by (intro exI[of _ "fst (diff_go False False (str_lines content))"]) auto
qed

definition demo_diff :: "string list" where
  "demo_diff = [''@@ -1,12 +1,12 @@''] @ replicate 12 '' a context line of this file'' @ [''-x'', ''+y'']"

theorem diff_keeps_changes_witness:
  "\<exists>r out. diff_compress (write_lines demo_diff) = Some r
     \<and> subseq [''@@ -1,12 +1,12 @@'', ''-x'', ''+y''] out \<and> cp_text r = trim_end (write_lines out)"
proof -
  have lines: "str_lines (write_lines demo_diff) = demo_diff"
    by (rule str_lines_write) (auto simp: demo_diff_def)
  have "diff_compress (write_lines demo_diff) \<noteq> None" by code_simp
  then obtain r where r: "diff_compress (write_lines demo_diff) = Some r" by auto
  have "\<forall>l \<in> set (str_lines (write_lines demo_diff)). \<not> noisy_header l"
    unfolding lines by (auto simp: demo_diff_def noisy_header_def)
  moreover have "filter (\<lambda>l. \<not> is_context l) demo_diff = [''@@ -1,12 +1,12 @@'', ''-x'', ''+y'']"
    by (simp add: demo_diff_def is_context_def filter_replicate)
  ultimately show ?thesis using diff_keeps_changes[OF r] r unfolding lines by metis
qed

text \<open>
  Any path with \<open>.map\<close> in it counts as a generated bundle: the diff of a hand-written source file
  is reduced to a count.
\<close>

theorem mapper_source_is_noisy:
  "fst (diff_go False False [''diff --git a/user.mapper.ts b/user.mapper.ts'', ''@@ -1 +1 @@'', ''-x'', ''+y''])
   = [''diff --git a/user.mapper.ts b/user.mapper.ts'', ''@@ -1 +1 @@'', hunk_marker 1 1]"
  by code_simp

section \<open>Search hits\<close>

lemma find_marker_skip:
  "CHR '':'' \<notin> set p \<Longrightarrow> find_marker pre (p @ s) = find_marker (pre @ p) s"
  by (induction p arbitrary: pre) auto

lemma find_marker_hit:
  assumes "ds \<noteq> []" and "list_all is_ascii_digit ds"
  shows "find_marker pre (CHR '':'' # ds @ CHR '':'' # body) = Some (pre, ds, body)"
proof -
  have "\<not> is_ascii_digit (CHR '':'')" by (simp add: is_ascii_digit_def byte_def)
  then have "takeWhile is_ascii_digit (ds @ CHR '':'' # body) = ds"
    "dropWhile is_ascii_digit (ds @ CHR '':'' # body) = CHR '':'' # body"
    using assms(2) by (simp_all add: list_all_iff takeWhile_append2 dropWhile_append2)
  then show ?thesis using assms(1) by simp
qed

text \<open>A hit of the search tools is read back as it was printed, on Windows paths as well.\<close>

theorem search_line_roundtrip:
  assumes "path \<noteq> []" and "CHR '':'' \<notin> set (drop (if drive_prefix path then 2 else 0) path)"
    and "length path = 1 \<Longrightarrow> \<not> is_ascii_alphabetic (hd path)" and "n < 2 ^ 64"
  shows "parse_search_line (path @ '':'' @ dec_nat n @ '':'' @ body) = Some (path, n, body)"
proof -
  let ?line = "path @ '':'' @ dec_nat n @ '':'' @ body"
  have drive: "drive_prefix ?line = drive_prefix path"
    using assms(1,3) by (cases path; cases "tl path") (auto simp: drive_prefix_def)
  define k where "k = (if drive_prefix path then 2 else 0 :: nat)"
  have k: "k \<le> length path"
    by (auto simp: k_def drive_prefix_def split: list.splits)
  have "find_marker [] (drop k ?line) = Some (drop k path, dec_nat n, body)"
    using find_marker_skip[of "drop k path" "[]" "'':'' @ dec_nat n @ '':'' @ body"] assms(2)
      find_marker_hit[of "dec_nat n" "drop k path" body] dec_nat_digits k
    by (simp add: list_all_iff k_def)
  moreover have "take k ?line @ drop k path = path" using k by simp
  ultimately show ?thesis
    using assms(1,4) parse_u64_dec_nat
    unfolding parse_search_line_def drive Let_def k_def[symmetric] by simp
qed

text \<open>A file whose name is one letter is taken for a drive.\<close>

theorem one_letter_file_is_no_hit: "parse_search_line ''a:12:x'' = None"
  by code_simp

section \<open>JSON tables\<close>

lemma set_table_columns: "set (table_columns items) = \<Union> (set ` map fst ` json_entries ` set items)"
proof -
  have "set (fold push_column ks cols) = set cols \<union> set ks" for ks cols
    by (induction ks arbitrary: cols) (auto simp: push_column_def)
  then show ?thesis by (auto simp: table_columns_def)
qed

lemma distinct_table_columns: "distinct (table_columns items)"
proof -
  have "distinct cols \<Longrightarrow> distinct (fold push_column ks cols)" for ks cols
    by (induction ks arbitrary: cols) (auto simp: push_column_def)
  then show ?thesis by (simp add: table_columns_def)
qed

text \<open>In a table without omitted rows every value stands in its row, in the column of its key.\<close>

theorem table_shows_every_value:
  assumes "length items \<le> ROW_DROP_THRESHOLD" and "i < length items"
    and "map_of (json_entries (items ! i)) k = Some v"
  shows "\<exists>j < length (table_columns items).
    table_columns items ! j = k \<and>
    table_lines to_string items ! (i + 2) = join_with '' | '' (table_cells to_string (table_columns items) (items ! i)) \<and>
    table_cells to_string (table_columns items) (items ! i) ! j = render_cell to_string v"
proof -
  have "k \<in> fst ` set (json_entries (items ! i))" using assms(3) by (metis map_of_SomeD fst_conv image_eqI)
  then have "k \<in> set (table_columns items)" using assms(2) by (auto simp: set_table_columns)
  then obtain j where "j < length (table_columns items)" "table_columns items ! j = k"
    by (auto simp: in_set_conv_nth)
  then show ?thesis using assms
    by (intro exI[of _ j]) (simp add: table_lines_def table_body_def table_cells_def Let_def)
qed

text \<open>
  The table says that nothing is lost and that a blank is an absent key.  An empty string is a
  blank as well, and a number and the string of its digits look the same.
\<close>

theorem table_hides_kinds:
  "table_lines to_string [Json_Object [(''a'', Json_String []), (''b'', Json_Number ''1'')]]
   = table_lines to_string [Json_Object [(''a'', Json_String []), (''b'', Json_String ''1'')]]"
  "table_cells to_string [''a'', ''b''] (Json_Object [(''a'', Json_String [])])
   = table_cells to_string [''a'', ''b''] (Json_Object [])"
  by (simp_all add: table_lines_def table_columns_def table_cells_def render_cell_def push_column_def Let_def)

section \<open>Volatile tokens\<close>

text \<open>The detector allows a blank between date and time, which the split has removed.\<close>

theorem iso8601_has_T:
  assumes "tok \<in> set (split_on (\<lambda>c. \<not> token_char c) prompt)" and "is_iso8601 tok"
  shows "tok ! 10 = CHR ''T''"
proof -
  have "tok ! 10 \<in> set tok" using assms(2) by (simp add: is_iso8601_def split: if_splits)
  then have "token_char (tok ! 10)" using split_on_no_sep[OF assms(1)] by blast
  moreover have "\<not> token_char (CHR '' '')"
    by (simp add: token_char_def is_ascii_alphanumeric_def byte_simps)
  ultimately show ?thesis using assms(2) by (auto simp: is_iso8601_def split: if_splits)
qed

end
