(* ===== verification/Tool_Results.thy ===== *)
theory Tool_Results
  imports Compaction Context_Mgmt Rust_Path
begin

text \<open>
  Oversized tool results become files (\<open>agent/harness/tool_result_artifacts/mod.rs\<close>): one result
  over its own budget, and the results of one round over their common one.  The directory of
  artifacts is a map from paths to texts; whether a file can be written and the redaction of
  credentials are arguments, and so is the fresh name of a call without an identifier.
\<close>

section \<open>Names\<close>

definition ARTIFACT_ROOT :: string where "ARTIFACT_ROOT = ''artifacts/tool-results''"
definition AGGREGATE_PREVIEW_BUDGET_BYTES :: nat where "AGGREGATE_PREVIEW_BUDGET_BYTES = 512"

definition component_char :: "char \<Rightarrow> bool" where
  "component_char c = (is_ascii_alphanumeric c \<or> c = CHR ''-'' \<or> c = CHR ''_'')"

text \<open>Of a character outside ASCII the first byte gives the underscore, the others nothing.\<close>

definition sanitize_component :: "string \<Rightarrow> string" where
  "sanitize_component value =
     (let out = map (\<lambda>c. if component_char c then c else CHR ''_'')
                  (filter (\<lambda>c. \<not> is_continuation c) (take_chars 80 value))
      in if out = [] then ''unknown'' else out)"

record artifact_store =
  action_dir :: string
  session_key :: string

definition artifact_store_new :: "string \<Rightarrow> string \<Rightarrow> artifact_store" where
  "artifact_store_new dir key = \<lparr>action_dir = dir, session_key = sanitize_component key\<rparr>"

definition path_for_read_tool :: "artifact_store \<Rightarrow> string \<Rightarrow> string option \<Rightarrow> string \<Rightarrow> string" where
  "path_for_read_tool st tool_name cid uuid =
     (let call = (case map_option sanitize_component cid of
                    Some v \<Rightarrow> (if v = [] then uuid else v)
                  | None \<Rightarrow> uuid)
      in ARTIFACT_ROOT @ ''/'' @ session_key st @ ''/'' @ sanitize_component tool_name @ ''/'' @ call @ ''.txt'')"

section \<open>Writing an artifact\<close>

type_synonym artifact_files = "string \<Rightarrow> string option"

text \<open>What the code asks of the file system and of the redaction.\<close>

record artifact_env =
  can_write :: "string \<Rightarrow> bool"
  sanitize_text :: "string \<Rightarrow> string \<times> bool"
  fresh_name :: "nat \<Rightarrow> string"

record persisted_result =
  pr_output :: string
  pr_path :: string
  pr_original_bytes :: nat
  pr_stored_bytes :: nat
  pr_redacted :: bool

definition redaction_note :: string where
  "redaction_note = '' Credential/PII redaction was applied before storage and preview exposure.''"

definition truncation_note :: "nat \<Rightarrow> string" where
  "truncation_note stored =
     '' Preview is bounded; '' @ dec_nat stored @ '' stored bytes are available via file_read.''"

definition PREVIEW_HEADER :: string where
  "PREVIEW_HEADER = ''[tool_result_preview]'' @ [CHR 0x0A]"

definition preview_envelope ::
    "string \<Rightarrow> string \<Rightarrow> nat \<Rightarrow> nat \<Rightarrow> string \<Rightarrow> string \<Rightarrow> string \<Rightarrow> string" where
  "preview_envelope tool_name reason original stored path notes preview =
     PREVIEW_HEADER @
     ''tool: '' @ tool_name @ [CHR 0x0A] @
     ''reason: '' @ reason @ [CHR 0x0A] @
     ''original_bytes: '' @ dec_nat original @ [CHR 0x0A] @
     ''stored_bytes: '' @ dec_nat stored @ [CHR 0x0A] @
     ''artifact_path: '' @ path @ [CHR 0x0A] @
     ''read_with: file_read {'' @ [CHR 0x22] @ ''path'' @ [CHR 0x22] @ '':'' @ [CHR 0x22] @ path @
       [CHR 0x22] @ ''}'' @ [CHR 0x0A] @
     ''notes: Full scrubbed output was persisted under the action workspace.'' @ notes @
       [CHR 0x0A, CHR 0x0A] @
     ''[preview]'' @ [CHR 0x0A] @ preview"

text \<open>\<open>persist\<close>: \<open>Inl\<close> when the path leaves the action directory or the file is not written.\<close>

definition persist ::
    "artifact_env \<Rightarrow> artifact_store \<Rightarrow> string \<Rightarrow> string option \<Rightarrow> string \<Rightarrow> string \<Rightarrow> nat \<Rightarrow> string \<Rightarrow>
     artifact_files \<Rightarrow> (unit + persisted_result) \<times> artifact_files" where
  "persist env st tool_name cid uuid content preview_budget reason files =
     (let (value, changed) = sanitize_text env content;
          relative_path = path_for_read_tool st tool_name cid uuid;
          absolute_path = path_join (action_dir st) relative_path
      in if \<not> starts_with absolute_path (action_dir st) \<or> \<not> can_write env absolute_path
         then (Inl (), files)
         else
           (let (preview, po) = apply_tool_result_budget value preview_budget;
                notes = (if changed then redaction_note else []) @
                        (if truncated po then truncation_note (length value) else [])
            in (Inr \<lparr>pr_output = preview_envelope tool_name reason (length content) (length value)
                       relative_path notes preview,
                     pr_path = relative_path, pr_original_bytes = length content,
                     pr_stored_bytes = length value, pr_redacted = changed\<rparr>,
                files(absolute_path \<mapsto> value))))"

definition bound_text_to_budget :: "string \<Rightarrow> nat \<Rightarrow> string \<times> nat" where
  "bound_text_to_budget content budget =
     (if budget = 0 then ([], 0)
      else (let (out, o1) = apply_tool_result_budget content budget
            in if final_bytes o1 \<le> budget then (out, final_bytes o1)
               else (let out' = take (floor_char_boundary out budget) out in (out', length out'))))"

section \<open>The budget of one result\<close>

record artifact_outcome =
  ao_original_bytes :: nat
  ao_final_bytes :: nat
  ao_persisted :: bool

definition apply_per_result_persistence ::
    "artifact_env \<Rightarrow> string \<Rightarrow> artifact_store option \<Rightarrow> string \<Rightarrow> string option \<Rightarrow> nat \<Rightarrow>
     artifact_files \<Rightarrow> (string \<times> artifact_outcome) \<times> artifact_files" where
  "apply_per_result_persistence env content store tool_name cid budget files =
     (if budget = 0 \<or> length content \<le> budget
      then ((content, \<lparr>ao_original_bytes = length content, ao_final_bytes = length content,
                       ao_persisted = False\<rparr>), files)
      else
        (let fallback = (let (out, o1) = apply_tool_result_budget content budget
                         in (out, \<lparr>ao_original_bytes = length content, ao_final_bytes = final_bytes o1,
                                   ao_persisted = False\<rparr>))
         in case store of
              None \<Rightarrow> (fallback, files)
            | Some st \<Rightarrow>
                (case persist env st tool_name cid (fresh_name env 0) content budget
                        ''per-result budget exceeded'' files of
                   (Inl _, files') \<Rightarrow> (fallback, files')
                 | (Inr p, files') \<Rightarrow>
                     (let (out, final) = bound_text_to_budget (pr_output p) budget
                      in ((out, \<lparr>ao_original_bytes = length content, ao_final_bytes = final,
                                 ao_persisted = True\<rparr>), files')))))"

section \<open>The budget of a round\<close>

record exec_result =
  tr_name :: string
  tr_output :: string
  tr_success :: bool
  tr_call_id :: "string option"

definition looks_like_preview_envelope :: "string \<Rightarrow> bool" where
  "looks_like_preview_envelope v = prefix PREVIEW_HEADER v"

definition total_output :: "exec_result list \<Rightarrow> nat" where
  "total_output rs = sum_list (map (length \<circ> tr_output) rs)"

text \<open>One turn of the loop: the text that replaces the output of a result.\<close>

definition spill_output ::
    "artifact_env \<Rightarrow> artifact_store \<Rightarrow> nat \<Rightarrow> nat \<Rightarrow> exec_result \<Rightarrow> artifact_files \<Rightarrow>
     (string \<times> nat) \<times> artifact_files" where
  "spill_output env st idx allowed r files =
     (if looks_like_preview_envelope (tr_output r)
      then (bound_text_to_budget (tr_output r) allowed, files)
      else case persist env st (tr_name r) (tr_call_id r) (fresh_name env idx) (tr_output r)
                  (min allowed AGGREGATE_PREVIEW_BUDGET_BYTES)
                  ''aggregate tool-result budget exceeded'' files of
             (Inr p, files') \<Rightarrow> (bound_text_to_budget (pr_output p) allowed, files')
           | (Inl _, files') \<Rightarrow> (bound_text_to_budget (tr_output r) allowed, files'))"

fun spill_go ::
    "artifact_env \<Rightarrow> artifact_store \<Rightarrow> nat \<Rightarrow> nat list \<Rightarrow> nat \<Rightarrow> exec_result list \<Rightarrow> artifact_files \<Rightarrow>
     exec_result list \<times> artifact_files" where
  "spill_go env st budget [] tot rs files = (rs, files)"
| "spill_go env st budget (idx # rest) tot rs files =
     (if tot \<le> budget then (rs, files)
      else
        (let original_len = length (tr_output (rs ! idx));
             allowed = budget - (tot - original_len);
             ((out, final), files') = spill_output env st idx allowed (rs ! idx) files
         in spill_go env st budget rest (tot - original_len + final)
              (rs[idx := (rs ! idx)\<lparr>tr_output := out\<rparr>]) files'))"

text \<open>\<open>sort_by_key\<close> is stable: the largest outputs first, equal ones in the order of the calls.\<close>

definition spill_order :: "exec_result list \<Rightarrow> nat list" where
  "spill_order rs = sort_key (\<lambda>i. - int (length (tr_output (rs ! i)))) [0..<length rs]"

definition spill_aggregate_tool_results ::
    "artifact_env \<Rightarrow> exec_result list \<Rightarrow> artifact_store option \<Rightarrow> nat \<Rightarrow> artifact_files \<Rightarrow>
     exec_result list \<times> artifact_files" where
  "spill_aggregate_tool_results env rs store budget files =
     (if budget = 0 then (rs, files)
      else case store of
             None \<Rightarrow> (rs, files)
           | Some st \<Rightarrow>
               (if total_output rs \<le> budget then (rs, files)
                else spill_go env st budget (spill_order rs) (total_output rs) rs files))"

section \<open>A tool result on its way into the conversation\<close>

text \<open>The two stages after a tool returned (\<open>session/agent_tool_exec.rs\<close>).\<close>

definition admit_tool_result ::
    "codec \<Rightarrow> artifact_env \<Rightarrow> bool \<Rightarrow> artifact_store option \<Rightarrow> string \<Rightarrow> string option \<Rightarrow> nat \<Rightarrow> string \<Rightarrow>
     ccr_store \<times> artifact_files \<Rightarrow> (string \<times> artifact_outcome) \<times> ccr_store \<times> artifact_files" where
  "admit_tool_result cd env enabled store tool_name cid budget raw = (\<lambda>(ccr, files).
     (let (compacted, ccr') = compact_tool_output cd raw tool_name enabled ccr;
          (result, files') = apply_per_result_persistence env compacted store tool_name cid budget files
      in (result, ccr', files')))"

end
