(* ===== verification/Tool_Result_Facts.thy ===== *)
theory Tool_Result_Facts
  imports Tool_Results Compaction_Facts
begin

text \<open>
  What the budgets of tool results guarantee, where artifacts may lie, and how the budgets and
  the compaction before them fit together.
\<close>

section \<open>Budgets\<close>

lemma apply_budget_final_bytes:
  "apply_tool_result_budget content budget = (out, o1) \<Longrightarrow> final_bytes o1 = length out"
  by (auto simp: apply_tool_result_budget_def Let_def split: if_splits)

lemma bound_text_bounded:
  assumes "bound_text_to_budget content budget = (out, n)"
  shows "n = length out \<and> n \<le> budget"
  using assms floor_char_boundary_le[of _ budget]
  by (auto simp: bound_text_to_budget_def Let_def dest!: apply_budget_final_bytes
      split: if_splits prod.splits)

lemma bound_text_0 [simp]: "bound_text_to_budget content 0 = ([], 0)"
  by (simp add: bound_text_to_budget_def)

lemma spill_output_bounded:
  assumes "spill_output env st idx allowed r files = ((out, n), files')"
  shows "n = length out \<and> n \<le> allowed"
  using assms
  by (auto simp: spill_output_def split: if_splits prod.splits sum.splits dest!: bound_text_bounded)

lemma total_output_update:
  assumes "i < length rs"
  shows "total_output (rs[i := (rs ! i)\<lparr>tr_output := out\<rparr>]) + length (tr_output (rs ! i)) =
    total_output rs + length out"
  using assms by (induction rs arbitrary: i) (auto simp: total_output_def split: nat.splits)

lemma total_output_ge: "i < length rs \<Longrightarrow> length (tr_output (rs ! i)) \<le> total_output rs"
  by (auto simp: total_output_def intro!: member_le_sum_list)

lemma total_output_0: "total_output rs = 0 \<longleftrightarrow> (\<forall>r \<in> set rs. tr_output r = [])"
  by (auto simp: total_output_def)

text \<open>Outside the indices that are still to come all outputs are empty, or the budget is met.\<close>

lemma spill_go_bounded:
  assumes "tot = total_output rs" and "set idxs \<subseteq> {..<length rs}"
    and "tot \<le> budget \<or> (\<forall>i < length rs. i \<notin> set idxs \<longrightarrow> tr_output (rs ! i) = [])"
  shows "total_output (fst (spill_go env st budget idxs tot rs files)) \<le> budget"
  using assms
proof (induction idxs arbitrary: tot rs files)
  case Nil
  then have "tot \<le> budget \<or> (\<forall>r \<in> set rs. tr_output r = [])" by (auto simp: in_set_conv_nth)
  with Nil.prems(1) show ?case using total_output_0[of rs] by auto
next
  case (Cons i idxs)
  show ?case
  proof (cases "tot \<le> budget")
    case True
    then show ?thesis using Cons.prems(1) by simp
  next
    case False
    let ?len = "length (tr_output (rs ! i))"
    obtain out n files' where s:
      "spill_output env st i (budget - (tot - ?len)) (rs ! i) files = ((out, n), files')"
      by (metis prod.exhaust)
    let ?rs = "rs[i := (rs ! i)\<lparr>tr_output := out\<rparr>]"
    have i: "i < length rs" using Cons.prems(2) by simp
    have n: "n = length out" "n \<le> budget - (tot - ?len)" using spill_output_bounded[OF s] by auto
    have le: "?len \<le> tot" using total_output_ge[OF i] Cons.prems(1) by simp
    have tot: "tot - ?len + n = total_output ?rs"
      using total_output_update[OF i, of out] n(1) le Cons.prems(1) by simp
    have step: "spill_go env st budget (i # idxs) tot rs files =
        spill_go env st budget idxs (tot - ?len + n) ?rs files'"
      using False s by (simp add: Let_def)
    have "tot - ?len + n \<le> budget \<or> (\<forall>j < length ?rs. j \<notin> set idxs \<longrightarrow> tr_output (?rs ! j) = [])"
    proof (cases "tot - ?len \<le> budget")
      case True
      with n(2) have "tot - ?len + n \<le> budget" by linarith
      then show ?thesis by blast
    next
      case over: False
      then have "out = []" using n by simp
      have "tr_output (?rs ! j) = []" if "j < length rs" "j \<notin> set idxs" for j
        using Cons.prems(3) False \<open>out = []\<close> that by (cases "j = i") auto
      then show ?thesis by simp
    qed
    then show ?thesis unfolding step using Cons.prems(2) by (intro Cons.IH[OF tot]) auto
  qed
qed

lemma spill_go_shape:
  "map (\<lambda>r. (tr_name r, tr_success r, tr_call_id r)) (fst (spill_go env st budget idxs tot rs files))
   = map (\<lambda>r. (tr_name r, tr_success r, tr_call_id r)) rs"
proof (induction idxs arbitrary: tot rs files)
  case (Cons i idxs)
  show ?case
  proof (cases "i < length rs")
    case True
    then show ?thesis by (auto simp: Cons.IH map_update Let_def split: prod.splits)
       (metis (no_types, lifting) list_update_id map_update nth_map)
  next
    case False
    then show ?thesis by (auto simp: Cons.IH Let_def list_update_beyond split: prod.splits)
  qed
qed simp

text \<open>C8. With a store for artifacts the outputs of one round of tool calls fit the budget of the round
  together, whatever they are and whether or not a file can be written; names, outcomes and
  identifiers of the calls stay as they were, and nothing changes when the outputs fitted.
\<close>

theorem aggregate_fits_budget:
  assumes "spill_aggregate_tool_results env rs (Some st) budget files = (rs', files')" and "0 < budget"
  shows "total_output rs' \<le> budget
    \<and> map (\<lambda>r. (tr_name r, tr_success r, tr_call_id r)) rs' = map (\<lambda>r. (tr_name r, tr_success r, tr_call_id r)) rs
    \<and> (total_output rs \<le> budget \<longrightarrow> rs' = rs \<and> files' = files)"
proof (cases "total_output rs \<le> budget")
  case True
  then show ?thesis using assms by (simp add: spill_aggregate_tool_results_def)
next
  case False
  then have "rs' = fst (spill_go env st budget (spill_order rs) (total_output rs) rs files)"
    using assms by (simp add: spill_aggregate_tool_results_def)
  moreover have "set (spill_order rs) = {..<length rs}" by (auto simp: spill_order_def)
  ultimately show ?thesis using False spill_go_shape
      spill_go_bounded[of "total_output rs" rs "spill_order rs" budget env st files] by auto
qed

definition demo_result :: "string \<Rightarrow> exec_result" where
  "demo_result out = \<lparr>tr_name = ''shell'', tr_output = out, tr_success = True, tr_call_id = None\<rparr>"

definition demo_env :: artifact_env where
  "demo_env = \<lparr>can_write = (\<lambda>_. False), sanitize_text = (\<lambda>s. (s, False)), fresh_name = (\<lambda>_. ''u'')\<rparr>"

theorem aggregate_fits_budget_witness:
  "\<exists>rs' files'. spill_aggregate_tool_results demo_env [demo_result ''abc'', demo_result ''defgh'']
      (Some (artifact_store_new ''/w'' ''s'')) 6 (\<lambda>_. None) = (rs', files')
    \<and> total_output rs' \<le> 6"
proof (cases "spill_aggregate_tool_results demo_env [demo_result ''abc'', demo_result ''defgh'']
      (Some (artifact_store_new ''/w'' ''s'')) 6 (\<lambda>_. None)")
  case (Pair rs' files')
  then show ?thesis using aggregate_fits_budget[OF Pair] by simp
qed

section \<open>Where artifacts lie\<close>

lemma sanitize_component_chars:
  "sanitize_component v \<noteq> [] \<and> (\<forall>c \<in> set (sanitize_component v). component_char c)"
proof -
  have us: "component_char (CHR ''_'')" by (simp add: component_char_def)
  have unk: "\<forall>c \<in> set ''unknown''. component_char c"
    by (simp add: component_char_def is_ascii_alphanumeric_def is_ascii_alphabetic_def is_ascii_lowercase_def byte_def)
  define m where "m = map (\<lambda>c. if component_char c then c else CHR ''_'')
      (filter (\<lambda>c. \<not> is_continuation c) (take_chars 80 v))"
  have "\<forall>c \<in> set m. component_char c"
    using us unfolding m_def set_map by (auto split: if_splits)
  moreover have "sanitize_component v = (if m = [] then ''unknown'' else m)"
    by (simp only: sanitize_component_def Let_def m_def)
  ultimately show ?thesis using unk by (cases "m = []") (simp_all del: set_simps)
qed

lemma plain_component:
  assumes "w \<noteq> []" and "\<forall>c \<in> set w. component_char c"
  shows "plain_components w = [Normal w]" "plain_components (w @ ''.txt'') = [Normal (w @ ''.txt'')]"
proof -
  have no_sep: "\<not> is_sep c" if "component_char c \<or> c \<in> set ''.txt''" for c
    using that by (auto simp: component_char_def is_ascii_alphanumeric_def byte_simps is_sep_def)
  have "\<not> component_char (CHR ''.'')"
    by (simp add: component_char_def is_ascii_alphanumeric_def byte_simps)
  then have "w \<noteq> ''.''" "w \<noteq> ''..''" using assms(2) by auto
  then show "plain_components w = [Normal w]"
    using assms no_sep by (simp add: plain_components_def split_on_id component_of_def)
  have "w @ ''.txt'' \<noteq> ''.''" "w @ ''.txt'' \<noteq> ''..''" by (cases w; simp)+
  moreover have "split_on is_sep (w @ ''.txt'') = [w @ ''.txt'']"
    using assms no_sep by (intro split_on_id) auto
  ultimately show "plain_components (w @ ''.txt'') = [Normal (w @ ''.txt'')]"
    using assms by (simp add: plain_components_def component_of_def)
qed

text \<open>Whatever the session, the tool and the call are named, the artifact of a result lies under the
  action directory in \<open>artifacts/tool-results\<close>, two directories down, and its path has no parent
  component; the check for paths that leave the action directory never fails.
\<close>

theorem artifact_stays_in_action_dir:
  assumes "is_absolute dir" and "uuid \<noteq> []" and "\<forall>c \<in> set uuid. component_char c"
  shows "\<exists>k t c. path_components (path_join dir (path_for_read_tool (artifact_store_new dir key) tool cid uuid))
      = path_components dir @ [Normal ''artifacts'', Normal ''tool-results'', Normal k, Normal t, Normal (c @ ''.txt'')]
    \<and> starts_with (path_join dir (path_for_read_tool (artifact_store_new dir key) tool cid uuid)) dir
    \<and> (\<forall>x \<in> set k \<union> set t \<union> set c. component_char x)"
proof -
  obtain c where c: "c \<noteq> []" "\<forall>x \<in> set c. component_char x"
    and p: "path_for_read_tool (artifact_store_new dir key) tool cid uuid =
      ''artifacts'' @ CHR ''/'' # ''tool-results'' @ CHR ''/'' # sanitize_component key @ CHR ''/'' #
      sanitize_component tool @ CHR ''/'' # (c @ ''.txt'')"
    using assms(2,3) sanitize_component_chars
    by (cases cid) (auto simp: path_for_read_tool_def artifact_store_new_def ARTIFACT_ROOT_def)
  let ?p = "path_for_read_tool (artifact_store_new dir key) tool cid uuid"
  have sep: "is_sep (CHR ''/'')" by (simp add: is_sep_def)
  have plain: "plain_components ''artifacts'' = [Normal ''artifacts'']"
    "plain_components ''tool-results'' = [Normal ''tool-results'']"
    by (rule plain_component; simp add: component_char_def is_ascii_alphanumeric_def byte_simps)+
  have "plain_components ?p = [Normal ''artifacts'', Normal ''tool-results'',
      Normal (sanitize_component key), Normal (sanitize_component tool), Normal (c @ ''.txt'')]"
    unfolding p plain_components_sep[OF sep]
    using plain c sanitize_component_chars by (simp add: plain_component del: append_Cons)
  moreover have "\<not> is_absolute ?p" unfolding p by (simp add: is_absolute_def)
  ultimately show ?thesis
    using path_components_join[OF assms(1)] starts_with_join[OF assms(1)] sanitize_component_chars c(2)
    by (intro exI[of _ "sanitize_component key"] exI[of _ "sanitize_component tool"] exI[of _ c]) auto
qed

theorem artifact_stays_in_action_dir_witness:
  "starts_with (path_join ''/w'' (path_for_read_tool (artifact_store_new ''/w'' ''../..'') ''../x'' (Some ''..'') ''u'')) ''/w''"
  using artifact_stays_in_action_dir[of "''/w''" "''u''" "''../..''" "''../x''" "Some ''..''"]
  by (auto simp: is_absolute_def component_char_def is_ascii_alphanumeric_def byte_simps)

text \<open>
  A call with an empty identifier was to get a fresh name; since an empty component becomes
  \<open>unknown\<close> first, all such calls of a tool write the same file.
\<close>

theorem empty_call_id_is_shared:
  "path_for_read_tool st tool (Some []) uuid = path_for_read_tool st tool (Some ''unknown'') uuid'"
proof -
  have "sanitize_component [] = ''unknown''" "sanitize_component ''unknown'' = ''unknown''"
    by code_simp+
  then show ?thesis by (simp add: path_for_read_tool_def)
qed

section \<open>Compaction before the budgets\<close>

lemma budget_cut:
  assumes "256 < budget" and "budget \<le> length body" and "rest \<noteq> []" and "\<not> is_continuation (hd rest)"
  shows "\<exists>cut m. fst (apply_tool_result_budget (body @ rest) budget) = take cut body @ truncation_marker m"
proof -
  obtain c cs where body: "body = c # cs" using assms(1,2) by (cases body) auto
  have "takeWhile is_continuation (cs @ rest) = takeWhile is_continuation cs"
    using assms(3,4) by (cases rest) (auto simp: takeWhile_tail)
  then have first: "first_char_len (body @ rest) \<le> length body"
    by (simp add: body first_char_len_def length_takeWhile_le)
  let ?f = "floor_char_boundary (body @ rest) (budget - 256)"
  have "?f \<le> length body" using floor_char_boundary_le[of "body @ rest" "budget - 256"] assms(2) by simp
  moreover define cut where "cut = (if ?f = 0 then first_char_len (body @ rest) else ?f)"
  ultimately have "cut \<le> length body" using first by simp
  moreover have over: "\<not> length (body @ rest) \<le> budget" "budget \<noteq> 0" "max (budget - TRAILER_RESERVED) 1 = budget - 256"
    using assms(1-3) by (cases rest; simp add: TRAILER_RESERVED_def)+
  have "fst (apply_tool_result_budget (body @ rest) budget) =
      take cut (body @ rest) @ truncation_marker (length (body @ rest) - cut)"
    unfolding apply_tool_result_budget_def Let_def cut_def over(3) using over(1,2) by simp
  ultimately show ?thesis by auto
qed

text \<open>
  The footer with the key of the original is at the end of a compacted result.  Without a store
  for artifacts the budget cuts it off: what is shown names no key.
\<close>

theorem budget_cuts_recovery_footer:
  assumes "compact_tool_output cd raw tool on ccr = (body @ recovery_footer lossy n h, ccr')"
    and "256 < budget" and "budget \<le> length body"
  shows "\<exists>cut m. fst (fst (admit_tool_result cd env on None tool cid budget raw (ccr, files)))
    = take cut body @ truncation_marker m"
proof -
  have footer: "recovery_footer lossy n h \<noteq> []" "\<not> is_continuation (hd (recovery_footer lossy n h))"
    by (simp_all add: recovery_footer_def is_continuation_def byte_def)
  have "fst (fst (admit_tool_result cd env on None tool cid budget raw (ccr, files))) =
      fst (apply_tool_result_budget (body @ recovery_footer lossy n h) budget)"
    using assms footer(1)
    by (simp add: admit_tool_result_def apply_per_result_persistence_def length_greater_0_conv[symmetric]
        del: length_greater_0_conv split: prod.splits)
  then show ?thesis using budget_cut[OF assms(2,3) footer] by simp
qed

text \<open>
  With a store the file holds the redacted text of the compacted result, though its envelope
  says that the full output was persisted.
\<close>

theorem artifact_holds_compacted_view:
  assumes "compact_tool_output cd raw tool on ccr = (shown, ccr')" and "0 < budget" and "budget < length shown"
    and "admit_tool_result cd env on (Some st) tool cid budget raw (ccr, files) = ((out, o1), ccr'', files')"
    and "ao_persisted o1"
  shows "files' (path_join (action_dir st) (path_for_read_tool st tool cid (fresh_name env 0)))
      = Some (fst (sanitize_text env shown))
    \<and> length out \<le> budget \<and> ao_final_bytes o1 = length out"
  using assms
  by (auto simp: admit_tool_result_def apply_per_result_persistence_def persist_def Let_def
      split: prod.splits sum.splits if_splits dest!: bound_text_bounded)

end
