(* ===== verification/Cron_Schedule.thy ===== *)
theory Cron_Schedule
  imports Prelude Rust_Text "HOL-Library.Word"
begin

text \<open>
  Schedules of cron jobs (\<open>cron/types.rs\<close>, \<open>cron/schedule.rs\<close>) and the delays of one-shot jobs
  (\<open>parse_human_delay\<close> of \<open>cron/ops.rs\<close>).  An instant is the number of nanoseconds since the
  epoch.  The calendar is not under \<open>src\<close>: reading expressions, time zones and times of day, and
  stepping to the next occurrence of an expression, are fields of \<open>time_lib\<close>; \<open>None\<close> stands for
  the local time zone.
\<close>

section \<open>Types\<close>

datatype job_type = Job_Shell | Job_Agent

fun job_type_as_str :: "job_type \<Rightarrow> string" where
  "job_type_as_str Job_Shell = ''shell''"
| "job_type_as_str Job_Agent = ''agent''"

definition job_type_parse :: "string \<Rightarrow> job_type" where
  "job_type_parse raw = (if to_ascii_lowercase raw = ''agent'' then Job_Agent else Job_Shell)"

datatype session_target = Target_Isolated | Target_Main

fun session_target_as_str :: "session_target \<Rightarrow> string" where
  "session_target_as_str Target_Isolated = ''isolated''"
| "session_target_as_str Target_Main = ''main''"

definition session_target_parse :: "string \<Rightarrow> session_target" where
  "session_target_parse raw = (if to_ascii_lowercase raw = ''main'' then Target_Main else Target_Isolated)"

lemma job_type_roundtrip [simp]: "job_type_parse (job_type_as_str t) = t"
  by (cases t) (simp_all add: job_type_parse_def to_ascii_lowercase_def to_lower_char_def byte_simps)

lemma session_target_roundtrip [simp]: "session_target_parse (session_target_as_str t) = t"
  by (cases t) (simp_all add: session_target_parse_def to_ascii_lowercase_def to_lower_char_def byte_simps)

record active_hours =
  ah_start :: string
  ah_end :: string

datatype schedule =
    Sched_Cron string "string option" "active_hours option"
  | Sched_At int
  | Sched_Every "64 word"

definition schedule_cron_expression :: "schedule \<Rightarrow> string option" where
  "schedule_cron_expression s = (case s of Sched_Cron expr _ _ \<Rightarrow> Some expr | _ \<Rightarrow> None)"

section \<open>The calendar\<close>

record ('c, 'z) time_lib =
  cron_parse :: "string \<Rightarrow> 'c option"
  tz_parse :: "string \<Rightarrow> 'z option"
  cron_after :: "'c \<Rightarrow> 'z option \<Rightarrow> int \<Rightarrow> int option"
  local_minute :: "'z option \<Rightarrow> int \<Rightarrow> nat"
  parse_hm :: "string \<Rightarrow> nat option"
  max_utc :: int

section \<open>The next run\<close>

datatype schedule_error =
    Bad_Field_Count string nat
  | Bad_Expression string
  | Bad_Timezone string
  | Bad_Active_Start string
  | Bad_Active_End string
  | No_Occurrence string
  | No_Active_Occurrence
  | Every_Zero
  | Every_Too_Large
  | Every_Overflow
  | At_In_Past

fun schedule_error_text :: "schedule_error \<Rightarrow> string" where
  "schedule_error_text (Bad_Field_Count e n) =
     ''Invalid cron expression: '' @ e @ '' (expected 5, 6, or 7 fields, got '' @ dec_nat n @ '')''"
| "schedule_error_text (Bad_Expression e) = ''Invalid cron expression: '' @ e"
| "schedule_error_text (Bad_Timezone z) = ''Invalid IANA timezone: '' @ z"
| "schedule_error_text (Bad_Active_Start s) = ''Invalid active_hours.start: '' @ s"
| "schedule_error_text (Bad_Active_End s) = ''Invalid active_hours.end: '' @ s"
| "schedule_error_text (No_Occurrence e) = ''No future occurrence for expression: '' @ e"
| "schedule_error_text No_Active_Occurrence =
     ''No future occurrence found within active hours after 100,000 attempts''"
| "schedule_error_text Every_Zero = ''Invalid schedule: every_ms must be > 0''"
| "schedule_error_text Every_Too_Large = ''every_ms is too large''"
| "schedule_error_text Every_Overflow = ''every_ms overflowed DateTime''"
| "schedule_error_text At_In_Past =
     ''Invalid schedule: '' @ [CHR 0x27] @ ''at'' @ [CHR 0x27] @ '' must be in the future''"

definition normalize_expression :: "string \<Rightarrow> schedule_error + string" where
  "normalize_expression raw =
     (let expression = trim raw; field_count = length (split_whitespace expression)
      in if field_count = 5 then Inr (''0 '' @ expression)
         else if field_count = 6 \<or> field_count = 7 then Inr expression
         else Inl (Bad_Field_Count expression field_count))"

record active_window =
  aw_start :: nat
  aw_end :: nat

definition active_window_parse :: "('c, 'z) time_lib \<Rightarrow> active_hours \<Rightarrow> schedule_error + active_window" where
  "active_window_parse L ah =
     (case parse_hm L (ah_start ah) of
        None \<Rightarrow> Inl (Bad_Active_Start (ah_start ah))
      | Some s \<Rightarrow>
          (case parse_hm L (ah_end ah) of
             None \<Rightarrow> Inl (Bad_Active_End (ah_end ah))
           | Some e \<Rightarrow> Inr \<lparr>aw_start = s, aw_end = e\<rparr>))"

definition active_contains :: "active_window \<Rightarrow> nat \<Rightarrow> bool" where
  "active_contains w time =
     (if aw_start w \<le> aw_end w then aw_start w \<le> time \<and> time \<le> aw_end w
      else aw_start w \<le> time \<or> time \<le> aw_end w)"

definition timezone_parse :: "('c, 'z) time_lib \<Rightarrow> string option \<Rightarrow> schedule_error + 'z option" where
  "timezone_parse L tz =
     (case tz of
        None \<Rightarrow> Inr None
      | Some name \<Rightarrow> (case tz_parse L name of None \<Rightarrow> Inl (Bad_Timezone name) | Some z \<Rightarrow> Inr (Some z)))"

definition next_after ::
    "('c, 'z) time_lib \<Rightarrow> 'z option \<Rightarrow> 'c \<Rightarrow> int \<Rightarrow> string \<Rightarrow> schedule_error + int" where
  "next_after L zone c from expr =
     (case cron_after L c zone from of None \<Rightarrow> Inl (No_Occurrence expr) | Some t \<Rightarrow> Inr t)"

definition optional_window ::
    "('c, 'z) time_lib \<Rightarrow> active_hours option \<Rightarrow> schedule_error + active_window option" where
  "optional_window L ah =
     (case ah of None \<Rightarrow> Inr None
      | Some a \<Rightarrow> (case active_window_parse L a of Inl e \<Rightarrow> Inl e | Inr w \<Rightarrow> Inr (Some w)))"

text \<open>The candidates are tried at most 100,000 times.\<close>

definition MAX_CANDIDATES :: nat where "MAX_CANDIDATES = 100000"

fun search_next ::
    "('c, 'z) time_lib \<Rightarrow> 'z option \<Rightarrow> 'c \<Rightarrow> active_window option \<Rightarrow> string \<Rightarrow> nat \<Rightarrow> int \<Rightarrow> schedule_error + int" where
  "search_next L zone c window expr 0 from = Inl No_Active_Occurrence"
| "search_next L zone c window expr (Suc n) from =
     (case next_after L zone c from expr of
        Inl e \<Rightarrow> Inl e
      | Inr t \<Rightarrow>
          (case window of
             None \<Rightarrow> Inr t
           | Some w \<Rightarrow>
               if active_contains w (local_minute L zone t) then Inr t
               else search_next L zone c window expr n t))"

definition NANOS_PER_MS :: int where "NANOS_PER_MS = 1000000"

fun next_run_for_schedule :: "('c, 'z) time_lib \<Rightarrow> schedule \<Rightarrow> int \<Rightarrow> schedule_error + int" where
  "next_run_for_schedule L (Sched_Cron expr tz ah) from =
     (case normalize_expression expr of
        Inl e \<Rightarrow> Inl e
      | Inr normalized \<Rightarrow>
          (case cron_parse L normalized of
             None \<Rightarrow> Inl (Bad_Expression expr)
           | Some c \<Rightarrow>
               (case timezone_parse L tz of
                  Inl e \<Rightarrow> Inl e
                | Inr zone \<Rightarrow>
                    (case optional_window L ah of
                       Inl e \<Rightarrow> Inl e
                     | Inr window \<Rightarrow> search_next L zone c window expr MAX_CANDIDATES from))))"
| "next_run_for_schedule L (Sched_At due) from = Inr due"
| "next_run_for_schedule L (Sched_Every every_ms) from =
     (if every_ms = 0 then Inl Every_Zero
      else if 2 ^ 63 \<le> uint every_ms then Inl Every_Too_Large
      else (let t = from + uint every_ms * NANOS_PER_MS
            in if max_utc L < t then Inl Every_Overflow else Inr t))"

fun validate_schedule :: "('c, 'z) time_lib \<Rightarrow> schedule \<Rightarrow> int \<Rightarrow> schedule_error + unit" where
  "validate_schedule L (Sched_Cron expr tz ah) now =
     (case normalize_expression expr of
        Inl e \<Rightarrow> Inl e
      | Inr _ \<Rightarrow>
          (case optional_window L ah of
             Inl e \<Rightarrow> Inl e
           | Inr _ \<Rightarrow>
               (case timezone_parse L tz of
                  Inl e \<Rightarrow> Inl e
                | Inr _ \<Rightarrow>
                    (case next_run_for_schedule L (Sched_Cron expr tz ah) now of
                       Inl e \<Rightarrow> Inl e | Inr _ \<Rightarrow> Inr ()))))"
| "validate_schedule L (Sched_At due) now = (if due \<le> now then Inl At_In_Past else Inr ())"
| "validate_schedule L (Sched_Every every_ms) now = (if every_ms = 0 then Inl Every_Zero else Inr ())"

section \<open>Delays\<close>

text \<open>
  The amount is a signed 64-bit number; the durations of \<open>chrono\<close> panic when they exceed the
  range of 64-bit milliseconds, which is the last constructor.
\<close>

datatype delay_error = Delay_Empty | Delay_Number string | Delay_Unit string | Delay_Panic

definition I64_MAX :: int where "I64_MAX = 9223372036854775807"

definition unit_millis :: "string \<Rightarrow> int option" where
  "unit_millis unit =
     (if unit = ''s'' then Some 1000
      else if unit = ''m'' then Some 60000
      else if unit = ''h'' then Some 3600000
      else if unit = ''d'' then Some 86400000
      else None)"

text \<open>The duration, in milliseconds.\<close>

definition parse_human_delay :: "string \<Rightarrow> delay_error + int" where
  "parse_human_delay raw =
     (let input = trim raw
      in if input = [] then Inl Delay_Empty
         else
           (let num = takeWhile is_ascii_digit input;
                rest = dropWhile is_ascii_digit input;
                amount = int (dec_value num)
            in if num = [] \<or> I64_MAX < amount then Inl (Delay_Number num)
               else case unit_millis (if rest = [] then ''m'' else rest) of
                      None \<Rightarrow> Inl (Delay_Unit rest)
                    | Some millis \<Rightarrow>
                        (if I64_MAX < amount * millis then Inl Delay_Panic else Inr (amount * millis))))"

section \<open>The first occurrence\<close>

text \<open>
  What the calendar promises of an expression in a zone: \<open>cron_after\<close> steps to the least
  occurrence after an instant, and fails only when there is none.
\<close>

definition steps_through :: "('c, 'z) time_lib \<Rightarrow> 'c \<Rightarrow> 'z option \<Rightarrow> int set \<Rightarrow> bool" where
  "steps_through L c zone S =
     (\<forall>f. case cron_after L c zone f of
            Some t \<Rightarrow> t \<in> S \<and> f < t \<and> (\<forall>u \<in> S. f < u \<longrightarrow> t \<le> u)
          | None \<Rightarrow> (\<forall>u \<in> S. u \<le> f))"

definition within_window :: "('c, 'z) time_lib \<Rightarrow> 'z option \<Rightarrow> active_window option \<Rightarrow> int \<Rightarrow> bool" where
  "within_window L zone window t =
     (case window of None \<Rightarrow> True | Some w \<Rightarrow> active_contains w (local_minute L zone t))"

lemma steps_Some:
  assumes "steps_through L c zone S" and "cron_after L c zone f = Some t"
  shows "t \<in> S" "f < t" "\<And>u. u \<in> S \<Longrightarrow> f < u \<Longrightarrow> t \<le> u"
  using assms(1)[unfolded steps_through_def, rule_format, of f] assms(2) by auto

lemma steps_None:
  assumes "steps_through L c zone S" and "cron_after L c zone f = None" and "u \<in> S"
  shows "u \<le> f"
  using assms(1)[unfolded steps_through_def, rule_format, of f] assms(2,3) by auto

lemma search_next_first:
  assumes "steps_through L c zone S" and "search_next L zone c window expr n from = Inr t"
  shows "t \<in> S \<and> from < t \<and> within_window L zone window t
    \<and> (\<forall>u \<in> S. from < u \<and> u < t \<longrightarrow> \<not> within_window L zone window u)"
  using assms(2)
proof (induction n arbitrary: "from")
  case (Suc n)
  then obtain s where s: "cron_after L c zone from = Some s"
    by (auto simp: next_after_def split: option.splits)
  note first = steps_Some[OF assms(1) s]
  show ?case
  proof (cases "within_window L zone window s")
    case True
    then have "t = s" using Suc.prems s
      by (auto simp: next_after_def within_window_def split: option.splits)
    moreover have "\<not> u < s" if "u \<in> S" "from < u" for u using first(3)[OF that] by simp
    ultimately show ?thesis using True first(1,2) by blast
  next
    case False
    then have "search_next L zone c window expr n s = Inr t" using Suc.prems s
      by (auto simp: next_after_def within_window_def split: option.splits)
    note IH = Suc.IH[OF this]
    have "\<not> within_window L zone window u" if "u \<in> S" "from < u" "u < t" for u
      using first(3)[OF that(1,2)] False IH that by (cases "u = s") auto
    then show ?thesis using IH first(2) by auto
  qed
qed simp

lemma search_next_finds:
  assumes "steps_through L c zone S" and "u \<in> S" and "from < u" and "within_window L zone window u"
    and "finite {v \<in> S. from < v \<and> v \<le> u}" and "card {v \<in> S. from < v \<and> v \<le> u} \<le> n"
  shows "\<exists>t. search_next L zone c window expr n from = Inr t"
  using assms(3,5,6)
proof (induction n arbitrary: "from")
  case 0
  then have "{v \<in> S. from < v \<and> v \<le> u} = {}" by simp
  with 0 assms(2) show ?case by auto
next
  case (Suc n)
  have "cron_after L c zone from \<noteq> None"
    using steps_None[OF assms(1) _ assms(2)] Suc.prems(1) by fastforce
  then obtain s where s: "cron_after L c zone from = Some s" by auto
  note first = steps_Some[OF assms(1) s]
  show ?case
  proof (cases "within_window L zone window s")
    case True
    then show ?thesis using s
      by (cases window) (auto simp: next_after_def within_window_def)
  next
    case False
    with assms(4) have "s \<noteq> u" by auto
    with first(3)[OF assms(2) Suc.prems(1)] have "s < u" by simp
    let ?A = "{v \<in> S. from < v \<and> v \<le> u}" and ?B = "{v \<in> S. s < v \<and> v \<le> u}"
    have "s \<in> ?A" "s \<notin> ?B" using first(1,2) \<open>s < u\<close> by simp_all
    moreover have "?B \<subseteq> ?A" using first(2) by auto
    ultimately have less: "?B \<subset> ?A" by blast
    have "card ?B \<le> n"
      using psubset_card_mono[OF Suc.prems(2) less] Suc.prems(3) by linarith
    then have "\<exists>t. search_next L zone c window expr n s = Inr t"
      by (rule Suc.IH[OF \<open>s < u\<close> finite_subset[OF psubset_imp_subset[OF less] Suc.prems(2)]])
    then show ?thesis using s False
      by (cases window) (auto simp: next_after_def within_window_def)
  qed
qed

text \<open>C29. The next run of a cron schedule is the first occurrence of its expression after the given
  instant that lies in the active hours, in the schedule's time zone; and it is found whenever
  there is such an occurrence among the next 100,000.
\<close>

theorem next_run_is_first_active:
  assumes "normalize_expression expr = Inr e" and "cron_parse L e = Some c"
    and "timezone_parse L tz = Inr zone" and "optional_window L ah = Inr window"
    and "steps_through L c zone S"
  shows "(\<forall>t. next_run_for_schedule L (Sched_Cron expr tz ah) from = Inr t \<longrightarrow>
        t \<in> S \<and> from < t \<and> within_window L zone window t
        \<and> (\<forall>u \<in> S. from < u \<and> u < t \<longrightarrow> \<not> within_window L zone window u))
    \<and> (\<forall>u \<in> S. from < u \<longrightarrow> within_window L zone window u \<longrightarrow> card {v \<in> S. from < v \<and> v \<le> u} \<le> 100000 \<longrightarrow>
        (\<exists>t. next_run_for_schedule L (Sched_Cron expr tz ah) from = Inr t))"
proof -
  have run: "next_run_for_schedule L (Sched_Cron expr tz ah) from =
      search_next L zone c window expr 100000 from"
    using assms(1-4) by (simp add: MAX_CANDIDATES_def)
  have "finite {v \<in> S. from < v \<and> v \<le> u}" for u
    by (rule finite_subset[of _ "{from..u}"]) auto
  then show ?thesis unfolding run
    using search_next_first[OF assms(5)] search_next_finds[OF assms(5)] by blast
qed

text \<open>A calendar in which every expression occurs at each full minute of one zone.\<close>

definition minute :: int where "minute = 60000000000"

definition demo_lib :: "(unit, unit) time_lib" where
  "demo_lib = \<lparr>cron_parse = (\<lambda>_. Some ()), tz_parse = (\<lambda>_. None),
     cron_after = (\<lambda>_ _ f. Some ((f div minute + 1) * minute)),
     local_minute = (\<lambda>_ t. nat ((t div minute) mod 1440)),
     parse_hm = (\<lambda>s. Some (dec_value (filter is_ascii_digit s))), max_utc = 8210266876799999999999\<rparr>"

lemma demo_steps: "steps_through demo_lib c z {k. minute dvd k}"
proof -
  have above: "f < (f div minute + 1) * minute" for f
  proof -
    have "f mod minute < minute" by (simp add: minute_def)
    with div_mult_mod_eq[of f minute] have "f < f div minute * minute + minute" by linarith
    then show ?thesis by (simp add: distrib_right)
  qed
  have "(f div minute + 1) * minute \<le> u" if dvd: "minute dvd u" and less: "f < u" for f u
  proof -
    obtain k where u: "u = minute * k" using dvd by auto
    have "f div minute < k"
    proof (rule ccontr)
      assume "\<not> f div minute < k"
      then have "k * minute \<le> f div minute * minute" by (simp add: minute_def)
      also have "\<dots> \<le> f div minute * minute + f mod minute" by (simp add: minute_def)
      finally show False using less u by (simp add: mult.commute)
    qed
    then have "(f div minute + 1) * minute \<le> k * minute" by (simp add: minute_def)
    then show ?thesis by (simp add: u mult.commute)
  qed
  with above show ?thesis by (simp add: steps_through_def demo_lib_def)
qed

theorem next_run_is_first_active_witness:
  "\<exists>t. next_run_for_schedule demo_lib (Sched_Cron ''* * * * *'' None (Some \<lparr>ah_start = ''10'', ah_end = ''12''\<rparr>)) 0 = Inr t
     \<and> within_window demo_lib None (Some \<lparr>aw_start = 10, aw_end = 12\<rparr>) t"
proof -
  let ?e = "''* * * * *''" and ?ah = "Some \<lparr>ah_start = ''10'', ah_end = ''12''\<rparr>"
  have n: "normalize_expression ?e = Inr ''0 * * * * *''" by code_simp
  have w: "optional_window demo_lib ?ah = Inr (Some \<lparr>aw_start = 10, aw_end = 12\<rparr>)" by code_simp
  have c: "cron_parse demo_lib ''0 * * * * *'' = Some ()" by (simp add: demo_lib_def)
  have z: "timezone_parse demo_lib None = Inr None" by (simp add: timezone_parse_def)
  let ?u = "10 * minute"
  have "{v \<in> {k. minute dvd k}. 0 < v \<and> v \<le> ?u} \<subseteq> (\<lambda>k. minute * k) ` {1..10}"
    by (auto simp: minute_def elim!: dvdE)
  then have "card {v \<in> {k. minute dvd k}. 0 < v \<and> v \<le> ?u} \<le> card ((\<lambda>k. minute * k) ` {1..10})"
    by (intro card_mono) auto
  also have "\<dots> \<le> 10" by (rule order_trans[OF card_image_le]) auto
  finally have card: "card {v \<in> {k. minute dvd k}. 0 < v \<and> v \<le> ?u} \<le> 100000" by simp
  have "within_window demo_lib None (Some \<lparr>aw_start = 10, aw_end = 12\<rparr>) ?u"
    by (simp add: within_window_def active_contains_def demo_lib_def minute_def)
  then have "\<exists>t. next_run_for_schedule demo_lib (Sched_Cron ?e None ?ah) 0 = Inr t"
    using next_run_is_first_active[OF n c z w demo_steps, of 0, THEN conjunct2, rule_format, of ?u] card
    by (simp only: mem_Collect_eq dvd_triv_right) (simp add: minute_def)
  then show ?thesis using next_run_is_first_active[OF n c z w demo_steps, of 0] by blast
qed

end
