(* ===== verification/Cron_Store.thy ===== *)
theory Cron_Store
  imports Cron_Schedule Compaction_Detect "HOL-Library.Char_ord" "HOL-Library.List_Lexorder"
    "HOL-Library.Product_Lexorder"
begin

text \<open>
  The tables of cron jobs and of their runs (\<open>cron/store.rs\<close>, the serialised types of
  \<open>cron/types.rs\<close>).  A table is a list of rows in insertion order; timestamps, schedules and
  deliveries are the texts the columns hold, and comparisons of timestamps compare texts, as
  SQLite does.  Equal timestamps keep the order of insertion, which is the order of the index.
\<close>

section \<open>Serialised types\<close>

record delivery_config =
  dc_mode :: string
  dc_channel :: "string option"
  dc_to :: "string option"
  dc_best_effort :: bool

definition default_delivery :: delivery_config where
  "default_delivery = \<lparr>dc_mode = ''none'', dc_channel = None, dc_to = None, dc_best_effort = True\<rparr>"

text \<open>
  What is not under \<open>src\<close>: the JSON reader and writer, the RFC 3339 texts of the columns, and the
  texts \<open>chrono\<close> uses inside JSON.
\<close>

record cron_codec =
  cj_parse :: "string \<Rightarrow> json option"
  cj_text :: "json \<Rightarrow> string"
  show_ts :: "int \<Rightarrow> string"
  parse_ts :: "string \<Rightarrow> int option"
  show_at :: "int \<Rightarrow> string"
  read_at :: "string \<Rightarrow> int option"

fun json_of_option :: "string option \<Rightarrow> json" where
  "json_of_option None = Json_Null"
| "json_of_option (Some s) = Json_String s"

fun active_hours_to_json :: "active_hours option \<Rightarrow> json" where
  "active_hours_to_json None = Json_Null"
| "active_hours_to_json (Some ah) =
     Json_Object [(''start'', Json_String (ah_start ah)), (''end'', Json_String (ah_end ah))]"

fun schedule_to_json :: "cron_codec \<Rightarrow> schedule \<Rightarrow> json" where
  "schedule_to_json C (Sched_Cron expr tz ah) =
     Json_Object [(''kind'', Json_String ''cron''), (''expr'', Json_String expr),
                  (''tz'', json_of_option tz), (''active_hours'', active_hours_to_json ah)]"
| "schedule_to_json C (Sched_At due) =
     Json_Object [(''kind'', Json_String ''at''), (''at'', Json_String (show_at C due))]"
| "schedule_to_json C (Sched_Every every_ms) =
     Json_Object [(''kind'', Json_String ''every''), (''every_ms'', Json_Number (dec_nat (unat every_ms)))]"

text \<open>
  A field with a default is absent, null or a value; the outer \<open>None\<close> is an error.  That serde
  also reads a struct from an array is left out.
\<close>

fun optional_string :: "json option \<Rightarrow> string option option" where
  "optional_string None = Some None"
| "optional_string (Some Json_Null) = Some None"
| "optional_string (Some (Json_String s)) = Some (Some s)"
| "optional_string (Some _) = None"

definition string_field :: "string \<Rightarrow> json \<Rightarrow> string option" where
  "string_field k v = Option.bind (json_get k v) json_as_str"

fun optional_hours :: "json option \<Rightarrow> active_hours option option" where
  "optional_hours None = Some None"
| "optional_hours (Some Json_Null) = Some None"
| "optional_hours (Some (Json_Object kvs)) =
     (case (string_field ''start'' (Json_Object kvs), string_field ''end'' (Json_Object kvs)) of
        (Some s, Some e) \<Rightarrow> Some (Some \<lparr>ah_start = s, ah_end = e\<rparr>)
      | _ \<Rightarrow> None)"
| "optional_hours (Some _) = None"

definition number_field :: "string \<Rightarrow> json \<Rightarrow> nat option" where
  "number_field k v = (case json_get k v of Some (Json_Number n) \<Rightarrow> parse_u64 n | _ \<Rightarrow> None)"

text \<open>\<open>Schedule::deserialize\<close>: a bare string is a cron expression, an object is read by its tag.\<close>

fun schedule_of_json :: "cron_codec \<Rightarrow> json \<Rightarrow> schedule option" where
  "schedule_of_json C (Json_String s) = Some (Sched_Cron s None None)"
| "schedule_of_json C (Json_Object kvs) =
     (let v = Json_Object kvs
      in case string_field ''kind'' v of
           None \<Rightarrow> None
         | Some kind \<Rightarrow>
             (if kind = ''cron'' then
                (case (string_field ''expr'' v, optional_string (json_get ''tz'' v),
                       optional_hours (json_get ''active_hours'' v)) of
                   (Some expr, Some tz, Some ah) \<Rightarrow> Some (Sched_Cron expr tz ah)
                 | _ \<Rightarrow> None)
              else if kind = ''at'' then
                map_option Sched_At (Option.bind (string_field ''at'' v) (read_at C))
              else if kind = ''every'' then
                map_option (\<lambda>n. Sched_Every (of_nat n)) (number_field ''every_ms'' v)
              else None))"
| "schedule_of_json C _ = None"

definition delivery_to_json :: "delivery_config \<Rightarrow> json" where
  "delivery_to_json d =
     Json_Object [(''mode'', Json_String (dc_mode d)), (''channel'', json_of_option (dc_channel d)),
                  (''to'', json_of_option (dc_to d)), (''best_effort'', Json_Bool (dc_best_effort d))]"

fun delivery_of_json :: "json \<Rightarrow> delivery_config option" where
  "delivery_of_json (Json_Object kvs) =
     (let v = Json_Object kvs;
          mode = (case json_get ''mode'' v of None \<Rightarrow> Some [] | Some (Json_String s) \<Rightarrow> Some s | _ \<Rightarrow> None);
          best = (case json_get ''best_effort'' v of None \<Rightarrow> Some True | Some (Json_Bool b) \<Rightarrow> Some b | _ \<Rightarrow> None)
      in case (mode, optional_string (json_get ''channel'' v), optional_string (json_get ''to'' v), best) of
           (Some m, Some c, Some t, Some b) \<Rightarrow>
             Some \<lparr>dc_mode = m, dc_channel = c, dc_to = t, dc_best_effort = b\<rparr>
         | _ \<Rightarrow> None)"
| "delivery_of_json _ = None"

section \<open>Rows\<close>

record cron_row =
  cr_id :: string
  cr_expression :: string
  cr_command :: string
  cr_schedule :: "string option"
  cr_job_type :: string
  cr_prompt :: "string option"
  cr_name :: "string option"
  cr_session_target :: string
  cr_model :: "string option"
  cr_enabled :: int
  cr_delivery :: "string option"
  cr_delete_after_run :: int
  cr_created_at :: string
  cr_next_run :: string
  cr_last_run :: "string option"
  cr_last_status :: "string option"
  cr_last_output :: "string option"
  cr_agent_id :: "string option"

record run_row =
  rr_id :: nat
  rr_job_id :: string
  rr_started_at :: string
  rr_finished_at :: string
  rr_status :: string
  rr_output :: "string option"
  rr_duration_ms :: "int option"

record cron_db =
  db_jobs :: "cron_row list"
  db_runs :: "run_row list"
  db_next_run_id :: nat

record cron_job =
  cj_id :: string
  cj_expression :: string
  cj_schedule :: schedule
  cj_command :: string
  cj_prompt :: "string option"
  cj_name :: "string option"
  cj_job_type :: job_type
  cj_session_target :: session_target
  cj_model :: "string option"
  cj_agent_id :: "string option"
  cj_enabled :: bool
  cj_delivery :: delivery_config
  cj_delete_after_run :: bool
  cj_created_at :: int
  cj_next_run :: int
  cj_last_run :: "int option"
  cj_last_status :: "string option"
  cj_last_output :: "string option"

definition bad_timestamp :: "string \<Rightarrow> string" where
  "bad_timestamp raw = ''Invalid RFC3339 timestamp in cron DB: '' @ raw"

definition parse_rfc3339 :: "cron_codec \<Rightarrow> string \<Rightarrow> string + int" where
  "parse_rfc3339 C raw = (case parse_ts C raw of None \<Rightarrow> Inl (bad_timestamp raw) | Some t \<Rightarrow> Inr t)"

definition decode_schedule :: "cron_codec \<Rightarrow> string option \<Rightarrow> string \<Rightarrow> string + schedule" where
  "decode_schedule C raw expression =
     (let trimmed = (case raw of None \<Rightarrow> [] | Some r \<Rightarrow> trim r)
      in if trimmed \<noteq> [] then
           (case Option.bind (cj_parse C trimmed) (schedule_of_json C) of
              None \<Rightarrow> Inl (''Failed to parse cron schedule JSON: '' @ trimmed)
            | Some s \<Rightarrow> Inr s)
         else if trim expression = [] then Inl ''Missing schedule and legacy expression for cron job''
         else Inr (Sched_Cron expression None None))"

definition decode_delivery :: "cron_codec \<Rightarrow> string option \<Rightarrow> string + delivery_config" where
  "decode_delivery C raw =
     (let trimmed = (case raw of None \<Rightarrow> [] | Some r \<Rightarrow> trim r)
      in if trimmed \<noteq> [] then
           (case Option.bind (cj_parse C trimmed) delivery_of_json of
              None \<Rightarrow> Inl (''Failed to parse cron delivery JSON: '' @ trimmed)
            | Some d \<Rightarrow> Inr d)
         else Inr default_delivery)"

definition map_cron_job_row :: "cron_codec \<Rightarrow> cron_row \<Rightarrow> string + cron_job" where
  "map_cron_job_row C r =
     (case decode_schedule C (cr_schedule r) (cr_expression r) of
        Inl e \<Rightarrow> Inl e
      | Inr sched \<Rightarrow>
     (case decode_delivery C (cr_delivery r) of
        Inl e \<Rightarrow> Inl e
      | Inr delivery \<Rightarrow>
     (case parse_rfc3339 C (cr_created_at r) of
        Inl e \<Rightarrow> Inl e
      | Inr created \<Rightarrow>
     (case parse_rfc3339 C (cr_next_run r) of
        Inl e \<Rightarrow> Inl e
      | Inr next \<Rightarrow>
     (case (case cr_last_run r of
              None \<Rightarrow> Inr None
            | Some raw \<Rightarrow> (case parse_rfc3339 C raw of Inl e \<Rightarrow> Inl e | Inr t \<Rightarrow> Inr (Some t))) of
        Inl e \<Rightarrow> Inl e
      | Inr last_run \<Rightarrow>
          Inr \<lparr>cj_id = cr_id r, cj_expression = cr_expression r, cj_schedule = sched,
               cj_command = cr_command r, cj_prompt = cr_prompt r, cj_name = cr_name r,
               cj_job_type = job_type_parse (cr_job_type r),
               cj_session_target = session_target_parse (cr_session_target r),
               cj_model = cr_model r, cj_agent_id = cr_agent_id r, cj_enabled = (cr_enabled r \<noteq> 0),
               cj_delivery = delivery, cj_delete_after_run = (cr_delete_after_run r \<noteq> 0),
               cj_created_at = created, cj_next_run = next, cj_last_run = last_run,
               cj_last_status = cr_last_status r, cj_last_output = cr_last_output r\<rparr>)))))"

fun collect :: "('a \<Rightarrow> 'e + 'b) \<Rightarrow> 'a list \<Rightarrow> 'e + 'b list" where
  "collect f [] = Inr []"
| "collect f (x # xs) =
     (case f x of Inl e \<Rightarrow> Inl e
      | Inr y \<Rightarrow> (case collect f xs of Inl e \<Rightarrow> Inl e | Inr ys \<Rightarrow> Inr (y # ys)))"

section \<open>Reading\<close>

definition not_found_text :: "string \<Rightarrow> string" where
  "not_found_text jid = ''Cron job '' @ [CHR 0x27] @ jid @ [CHR 0x27] @ '' not found''"

definition get_cron_job :: "cron_codec \<Rightarrow> string \<Rightarrow> cron_db \<Rightarrow> string + cron_job" where
  "get_cron_job C jid db =
     (case find (\<lambda>r. cr_id r = jid) (db_jobs db) of
        None \<Rightarrow> Inl (not_found_text jid)
      | Some r \<Rightarrow> map_cron_job_row C r)"

definition list_jobs :: "cron_codec \<Rightarrow> cron_db \<Rightarrow> string + cron_job list" where
  "list_jobs C db = collect (map_cron_job_row C) (sort_key cr_next_run (db_jobs db))"

definition due_rows :: "cron_codec \<Rightarrow> int \<Rightarrow> cron_db \<Rightarrow> cron_row list" where
  "due_rows C now db =
     sort_key cr_next_run (filter (\<lambda>r. cr_enabled r = 1 \<and> cr_next_run r \<le> show_ts C now) (db_jobs db))"

definition due_jobs :: "cron_codec \<Rightarrow> nat \<Rightarrow> int \<Rightarrow> cron_db \<Rightarrow> string + cron_job list" where
  "due_jobs C max_tasks now db =
     (let lim = max max_tasks 1
      in if 2 ^ 63 \<le> lim then Inl ''Scheduler max_tasks overflows i64''
         else collect (map_cron_job_row C) (take lim (due_rows C now db)))"

section \<open>Adding and removing\<close>

definition ids :: "cron_db \<Rightarrow> string list" where
  "ids db = map cr_id (db_jobs db)"

definition insert_row :: "string \<Rightarrow> cron_row \<Rightarrow> cron_db \<Rightarrow> (string + unit) \<times> cron_db" where
  "insert_row ctxt r db =
     (if cr_id r \<in> set (ids db) then (Inl ctxt, db)
      else (Inr (), db\<lparr>db_jobs := db_jobs db @ [r]\<rparr>))"

definition expression_of :: "schedule \<Rightarrow> string" where
  "expression_of s = (case schedule_cron_expression s of None \<Rightarrow> [] | Some e \<Rightarrow> e)"

definition shell_row ::
    "cron_codec \<Rightarrow> string \<Rightarrow> int \<Rightarrow> int \<Rightarrow> string option \<Rightarrow> schedule \<Rightarrow> string \<Rightarrow> cron_row" where
  "shell_row C uuid now next name sched command =
     \<lparr>cr_id = uuid, cr_expression = expression_of sched, cr_command = command,
      cr_schedule = Some (cj_text C (schedule_to_json C sched)), cr_job_type = ''shell'',
      cr_prompt = None, cr_name = name, cr_session_target = ''isolated'', cr_model = None,
      cr_enabled = 1, cr_delivery = Some (cj_text C (delivery_to_json default_delivery)),
      cr_delete_after_run = 0, cr_created_at = show_ts C now, cr_next_run = show_ts C next,
      cr_last_run = None, cr_last_status = None, cr_last_output = None, cr_agent_id = None\<rparr>"

definition add_shell_job ::
    "('c, 'z) time_lib \<Rightarrow> cron_codec \<Rightarrow> string \<Rightarrow> int \<Rightarrow> string option \<Rightarrow> schedule \<Rightarrow> string \<Rightarrow> cron_db \<Rightarrow>
     (string + cron_job) \<times> cron_db" where
  "add_shell_job L C uuid now name sched command db =
     (case validate_schedule L sched now of
        Inl e \<Rightarrow> (Inl (schedule_error_text e), db)
      | Inr _ \<Rightarrow>
          (case next_run_for_schedule L sched now of
             Inl e \<Rightarrow> (Inl (schedule_error_text e), db)
           | Inr next \<Rightarrow>
               (case insert_row ''Failed to insert cron shell job''
                       (shell_row C uuid now next name sched command) db of
                  (Inl e, db') \<Rightarrow> (Inl e, db')
                | (Inr _, db') \<Rightarrow> (get_cron_job C uuid db', db'))))"

definition add_job ::
    "('c, 'z) time_lib \<Rightarrow> cron_codec \<Rightarrow> string \<Rightarrow> int \<Rightarrow> string \<Rightarrow> string \<Rightarrow> cron_db \<Rightarrow>
     (string + cron_job) \<times> cron_db" where
  "add_job L C uuid now expression command db =
     add_shell_job L C uuid now None (Sched_Cron expression None None) command db"

record agent_job_spec =
  aj_name :: "string option"
  aj_schedule :: schedule
  aj_prompt :: string
  aj_session_target :: session_target
  aj_model :: "string option"
  aj_delivery :: "delivery_config option"
  aj_delete_after_run :: bool
  aj_agent_id :: "string option"

definition agent_row :: "cron_codec \<Rightarrow> string \<Rightarrow> int \<Rightarrow> int \<Rightarrow> agent_job_spec \<Rightarrow> cron_row" where
  "agent_row C uuid now next spec =
     \<lparr>cr_id = uuid, cr_expression = expression_of (aj_schedule spec), cr_command = [],
      cr_schedule = Some (cj_text C (schedule_to_json C (aj_schedule spec))), cr_job_type = ''agent'',
      cr_prompt = Some (aj_prompt spec), cr_name = aj_name spec,
      cr_session_target = session_target_as_str (aj_session_target spec), cr_model = aj_model spec,
      cr_enabled = 1,
      cr_delivery = Some (cj_text C (delivery_to_json
        (case aj_delivery spec of None \<Rightarrow> default_delivery | Some d \<Rightarrow> d))),
      cr_delete_after_run = (if aj_delete_after_run spec then 1 else 0),
      cr_created_at = show_ts C now, cr_next_run = show_ts C next,
      cr_last_run = None, cr_last_status = None, cr_last_output = None,
      cr_agent_id = aj_agent_id spec\<rparr>"

definition add_agent_job_with_definition ::
    "('c, 'z) time_lib \<Rightarrow> cron_codec \<Rightarrow> string \<Rightarrow> int \<Rightarrow> agent_job_spec \<Rightarrow> cron_db \<Rightarrow>
     (string + cron_job) \<times> cron_db" where
  "add_agent_job_with_definition L C uuid now spec db =
     (case validate_schedule L (aj_schedule spec) now of
        Inl e \<Rightarrow> (Inl (schedule_error_text e), db)
      | Inr _ \<Rightarrow>
          (case next_run_for_schedule L (aj_schedule spec) now of
             Inl e \<Rightarrow> (Inl (schedule_error_text e), db)
           | Inr next \<Rightarrow>
               (case insert_row ''Failed to insert cron agent job'' (agent_row C uuid now next spec) db of
                  (Inl e, db') \<Rightarrow> (Inl e, db')
                | (Inr _, db') \<Rightarrow> (get_cron_job C uuid db', db'))))"

definition add_agent_job ::
    "('c, 'z) time_lib \<Rightarrow> cron_codec \<Rightarrow> string \<Rightarrow> int \<Rightarrow> agent_job_spec \<Rightarrow> cron_db \<Rightarrow>
     (string + cron_job) \<times> cron_db" where
  "add_agent_job L C uuid now spec db =
     add_agent_job_with_definition L C uuid now (spec\<lparr>aj_agent_id := None\<rparr>) db"

text \<open>\<open>DELETE\<close> of jobs, with the cascade to their runs.\<close>

definition delete_jobs :: "(cron_row \<Rightarrow> bool) \<Rightarrow> cron_db \<Rightarrow> nat \<times> cron_db" where
  "delete_jobs p db =
     (let gone = filter p (db_jobs db)
      in (length gone,
          db\<lparr>db_jobs := filter (\<lambda>r. \<not> p r) (db_jobs db),
             db_runs := filter (\<lambda>x. rr_job_id x \<notin> set (map cr_id gone)) (db_runs db)\<rparr>))"

definition remove_job :: "string \<Rightarrow> cron_db \<Rightarrow> (string + unit) \<times> cron_db" where
  "remove_job jid db =
     (let (changed, db') = delete_jobs (\<lambda>r. cr_id r = jid) db
      in (if changed = 0 then Inl (not_found_text jid) else Inr (), db'))"

definition clear_all_jobs :: "cron_db \<Rightarrow> nat \<times> cron_db" where
  "clear_all_jobs db = delete_jobs (\<lambda>_. True) db"

section \<open>Duplicates by name\<close>

definition run_count :: "cron_db \<Rightarrow> string \<Rightarrow> nat" where
  "run_count db jid = length (filter (\<lambda>x. rr_job_id x = jid) (db_runs db))"

definition duplicated_names :: "cron_db \<Rightarrow> string list" where
  "duplicated_names db =
     (let names = List.map_filter cr_name (db_jobs db)
      in sort (remdups (filter (\<lambda>n. 1 < count_list names n) names)))"

definition canonical_id :: "cron_db \<Rightarrow> string \<Rightarrow> string option" where
  "canonical_id db name =
     map_option cr_id (first (sort_key (\<lambda>r. (- int (run_count db (cr_id r)), cr_created_at r, cr_id r))
       (filter (\<lambda>r. cr_name r = Some name) (db_jobs db))))"

definition dedup_step :: "nat \<times> cron_db \<Rightarrow> string \<Rightarrow> nat \<times> cron_db" where
  "dedup_step = (\<lambda>(removed, db) name.
     (case canonical_id db name of
        None \<Rightarrow> (removed, db)
      | Some keep_id \<Rightarrow>
          (let (n, db') = delete_jobs (\<lambda>r. cr_name r = Some name \<and> cr_id r \<noteq> keep_id) db
           in (removed + n, db'))))"

definition dedup_named_jobs :: "cron_db \<Rightarrow> nat \<times> cron_db" where
  "dedup_named_jobs db = foldl dedup_step (0, db) (duplicated_names db)"

section \<open>Updating\<close>

record cron_patch =
  cp_schedule :: "schedule option"
  cp_command :: "string option"
  cp_prompt :: "string option"
  cp_name :: "string option"
  cp_enabled :: "bool option"
  cp_delivery :: "delivery_config option"
  cp_model :: "string option"
  cp_session_target :: "session_target option"
  cp_delete_after_run :: "bool option"
  cp_agent_id :: "string option option"

definition empty_cron_patch :: cron_patch where
  "empty_cron_patch = \<lparr>cp_schedule = None, cp_command = None, cp_prompt = None, cp_name = None,
     cp_enabled = None, cp_delivery = None, cp_model = None, cp_session_target = None,
     cp_delete_after_run = None, cp_agent_id = None\<rparr>"

definition or_keep :: "'a option \<Rightarrow> 'a \<Rightarrow> 'a" where
  "or_keep x old = (case x of None \<Rightarrow> old | Some new \<Rightarrow> new)"

text \<open>The clock is read for the validation and again for the next run.\<close>

definition patched_job ::
    "('c, 'z) time_lib \<Rightarrow> int \<Rightarrow> int \<Rightarrow> cron_patch \<Rightarrow> cron_job \<Rightarrow> string + cron_job" where
  "patched_job L now1 now2 patch job =
     (case (case cp_schedule patch of None \<Rightarrow> Inr () | Some s \<Rightarrow> validate_schedule L s now1) of
        Inl e \<Rightarrow> Inl (schedule_error_text e)
      | Inr _ \<Rightarrow>
          (let sched = or_keep (cp_schedule patch) (cj_schedule job);
               job' = job\<lparr>cj_schedule := sched,
                 cj_expression := (if cp_schedule patch = None then cj_expression job else expression_of sched),
                 cj_command := or_keep (cp_command patch) (cj_command job),
                 cj_prompt := (case cp_prompt patch of None \<Rightarrow> cj_prompt job | Some p \<Rightarrow> Some p),
                 cj_name := (case cp_name patch of None \<Rightarrow> cj_name job | Some n \<Rightarrow> Some n),
                 cj_enabled := or_keep (cp_enabled patch) (cj_enabled job),
                 cj_delivery := or_keep (cp_delivery patch) (cj_delivery job),
                 cj_model := (case cp_model patch of None \<Rightarrow> cj_model job | Some m \<Rightarrow> Some m),
                 cj_session_target := or_keep (cp_session_target patch) (cj_session_target job),
                 cj_delete_after_run := or_keep (cp_delete_after_run patch) (cj_delete_after_run job),
                 cj_agent_id := or_keep (cp_agent_id patch) (cj_agent_id job)\<rparr>
           in if cp_schedule patch = None then Inr job'
              else (case next_run_for_schedule L sched now2 of
                      Inl e \<Rightarrow> Inl (schedule_error_text e)
                    | Inr next \<Rightarrow> Inr (job'\<lparr>cj_next_run := next\<rparr>))))"

definition update_cron_rows :: "string \<Rightarrow> (cron_row \<Rightarrow> cron_row) \<Rightarrow> cron_db \<Rightarrow> cron_db" where
  "update_cron_rows jid f db =
     db\<lparr>db_jobs := map (\<lambda>r. if cr_id r = jid then f r else r) (db_jobs db)\<rparr>"

text \<open>The one \<open>UPDATE\<close> of \<open>update_job\<close>, which writes every column a patch could change.\<close>

definition save_job :: "cron_codec \<Rightarrow> cron_job \<Rightarrow> cron_db \<Rightarrow> cron_db" where
  "save_job C job db = update_cron_rows (cj_id job) (\<lambda>r. r\<lparr>cr_expression := cj_expression job,
     cr_command := cj_command job, cr_schedule := Some (cj_text C (schedule_to_json C (cj_schedule job))),
     cr_job_type := job_type_as_str (cj_job_type job), cr_prompt := cj_prompt job, cr_name := cj_name job,
     cr_session_target := session_target_as_str (cj_session_target job), cr_model := cj_model job,
     cr_enabled := (if cj_enabled job then 1 else 0),
     cr_delivery := Some (cj_text C (delivery_to_json (cj_delivery job))),
     cr_delete_after_run := (if cj_delete_after_run job then 1 else 0),
     cr_next_run := show_ts C (cj_next_run job), cr_agent_id := cj_agent_id job\<rparr>) db"

definition update_job ::
    "('c, 'z) time_lib \<Rightarrow> cron_codec \<Rightarrow> int \<Rightarrow> int \<Rightarrow> string \<Rightarrow> cron_patch \<Rightarrow> cron_db \<Rightarrow>
     (string + cron_job) \<times> cron_db" where
  "update_job L C now1 now2 jid patch db =
     (case get_cron_job C jid db of
        Inl e \<Rightarrow> (Inl e, db)
      | Inr job \<Rightarrow>
          (case patched_job L now1 now2 patch job of
             Inl e \<Rightarrow> (Inl e, db)
           | Inr job' \<Rightarrow> (let db' = save_job C job' db in (get_cron_job C jid db', db'))))"

section \<open>Runs\<close>

definition MAX_CRON_OUTPUT_BYTES :: nat where "MAX_CRON_OUTPUT_BYTES = 16 * 1024"

definition TRUNCATED_OUTPUT_MARKER :: string where
  "TRUNCATED_OUTPUT_MARKER = CHR 0x0A # ''...[truncated]''"

definition truncate_cron_output :: "string \<Rightarrow> string" where
  "truncate_cron_output output =
     (if length output \<le> MAX_CRON_OUTPUT_BYTES then output
      else if MAX_CRON_OUTPUT_BYTES \<le> length TRUNCATED_OUTPUT_MARKER then TRUNCATED_OUTPUT_MARKER
      else take (back_to_boundary output (MAX_CRON_OUTPUT_BYTES - length TRUNCATED_OUTPUT_MARKER)) output
           @ TRUNCATED_OUTPUT_MARKER)"

definition status_text :: "bool \<Rightarrow> string" where
  "status_text success = (if success then ''ok'' else ''error'')"

definition record_last_run :: "cron_codec \<Rightarrow> string \<Rightarrow> int \<Rightarrow> bool \<Rightarrow> string \<Rightarrow> cron_db \<Rightarrow> cron_db" where
  "record_last_run C jid finished success output db =
     update_cron_rows jid (\<lambda>r. r\<lparr>cr_last_run := Some (show_ts C finished),
       cr_last_status := Some (status_text success),
       cr_last_output := Some (truncate_cron_output output)\<rparr>) db"

definition reschedule_after_run ::
    "('c, 'z) time_lib \<Rightarrow> cron_codec \<Rightarrow> int \<Rightarrow> cron_job \<Rightarrow> bool \<Rightarrow> string \<Rightarrow> cron_db \<Rightarrow>
     (string + unit) \<times> cron_db" where
  "reschedule_after_run L C now job success output db =
     (case next_run_for_schedule L (cj_schedule job) now of
        Inl e \<Rightarrow> (Inl (schedule_error_text e), db)
      | Inr next \<Rightarrow>
          (Inr (), update_cron_rows (cj_id job) (\<lambda>r. r\<lparr>cr_next_run := show_ts C next,
             cr_last_run := Some (show_ts C now), cr_last_status := Some (status_text success),
             cr_last_output := Some (truncate_cron_output output)\<rparr>) db))"

text \<open>Newest first: by start, then by number.\<close>

definition newest_runs :: "string \<Rightarrow> run_row list \<Rightarrow> run_row list" where
  "newest_runs jid runs =
     rev (sort_key (\<lambda>x. (rr_started_at x, rr_id x)) (filter (\<lambda>x. rr_job_id x = jid) runs))"

definition prune_runs :: "string \<Rightarrow> nat \<Rightarrow> run_row list \<Rightarrow> run_row list" where
  "prune_runs jid keep runs =
     (let kept = map rr_id (take keep (newest_runs jid runs))
      in filter (\<lambda>x. \<not> (rr_job_id x = jid \<and> rr_id x \<notin> set kept)) runs)"

definition record_run ::
    "cron_codec \<Rightarrow> nat \<Rightarrow> string \<Rightarrow> int \<Rightarrow> int \<Rightarrow> string \<Rightarrow> string option \<Rightarrow> int \<Rightarrow> cron_db \<Rightarrow>
     (string + unit) \<times> cron_db" where
  "record_run C max_run_history jid started finished status output duration_ms db =
     (if jid \<notin> set (ids db) then (Inl ''Failed to insert cron run'', db)
      else
        (let run = \<lparr>rr_id = db_next_run_id db, rr_job_id = jid, rr_started_at = show_ts C started,
                    rr_finished_at = show_ts C finished, rr_status = status,
                    rr_output = map_option truncate_cron_output output,
                    rr_duration_ms = Some duration_ms\<rparr>
         in (Inr (), db\<lparr>db_runs := prune_runs jid (max max_run_history 1) (db_runs db @ [run]),
                        db_next_run_id := Suc (db_next_run_id db)\<rparr>)))"

definition delete_queued_runs :: "string \<Rightarrow> cron_db \<Rightarrow> nat \<times> cron_db" where
  "delete_queued_runs jid db =
     (let queued = (\<lambda>x. rr_job_id x = jid \<and> rr_status x = ''queued'')
      in (length (filter queued (db_runs db)),
          db\<lparr>db_runs := filter (\<lambda>x. \<not> queued x) (db_runs db)\<rparr>))"

record cron_run =
  run_id :: nat
  run_job_id :: string
  run_started_at :: int
  run_finished_at :: int
  run_status :: string
  run_output :: "string option"
  run_duration_ms :: "int option"

definition map_run_row :: "cron_codec \<Rightarrow> run_row \<Rightarrow> string + cron_run" where
  "map_run_row C x =
     (case parse_rfc3339 C (rr_started_at x) of
        Inl e \<Rightarrow> Inl e
      | Inr started \<Rightarrow>
          (case parse_rfc3339 C (rr_finished_at x) of
             Inl e \<Rightarrow> Inl e
           | Inr finished \<Rightarrow>
               Inr \<lparr>run_id = rr_id x, run_job_id = rr_job_id x, run_started_at = started,
                    run_finished_at = finished, run_status = rr_status x, run_output = rr_output x,
                    run_duration_ms = rr_duration_ms x\<rparr>))"

definition list_runs :: "cron_codec \<Rightarrow> string \<Rightarrow> nat \<Rightarrow> cron_db \<Rightarrow> string + cron_run list" where
  "list_runs C jid limit db =
     (let lim = max limit 1
      in if 2 ^ 63 \<le> lim then Inl ''Run history limit overflow''
         else collect (map_run_row C) (take lim (newest_runs jid (db_runs db))))"

end
