(* ===== verification/Cron_Store_Facts.thy ===== *)
theory Cron_Store_Facts
  imports Cron_Store
begin

text \<open>
  What the tables of cron jobs guarantee: what is written is read back, keys and references stay
  sound, histories stay short, due jobs come first and duplicates by name collapse to one.
\<close>

section \<open>Texts and values\<close>

text \<open>What the JSON library promises of a schedule and a delivery it writes.\<close>

definition json_read_back :: "cron_codec \<Rightarrow> json \<Rightarrow> bool" where
  "json_read_back C j = (trim (cj_text C j) \<noteq> [] \<and> cj_parse C (trim (cj_text C j)) = Some j)"

definition json_ok :: "cron_codec \<Rightarrow> schedule \<Rightarrow> delivery_config \<Rightarrow> bool" where
  "json_ok C sched delivery = (json_read_back C (schedule_to_json C sched) \<and>
     json_read_back C (delivery_to_json delivery) \<and>
     (case sched of Sched_At due \<Rightarrow> read_at C (show_at C due) = Some due | _ \<Rightarrow> True))"

text \<open>
  What the RFC 3339 texts promise: on the instants \<open>T\<close> (years 0 to 9999) they are read back, and
  their order is the order of time.
\<close>

definition ts_ok :: "cron_codec \<Rightarrow> int set \<Rightarrow> bool" where
  "ts_ok C T = ((\<forall>a \<in> T. parse_ts C (show_ts C a) = Some a) \<and>
     (\<forall>a \<in> T. \<forall>b \<in> T. a < b \<longrightarrow> show_ts C a < show_ts C b))"

lemma ts_okD:
  assumes "ts_ok C T"
  shows "a \<in> T \<Longrightarrow> parse_ts C (show_ts C a) = Some a"
    "a \<in> T \<Longrightarrow> b \<in> T \<Longrightarrow> show_ts C a \<le> show_ts C b \<longleftrightarrow> a \<le> b"
proof -
  show "a \<in> T \<Longrightarrow> parse_ts C (show_ts C a) = Some a" using assms by (simp add: ts_ok_def)
  assume "a \<in> T" "b \<in> T"
  with assms have "a < b \<Longrightarrow> show_ts C a < show_ts C b" "b < a \<Longrightarrow> show_ts C b < show_ts C a"
    by (simp_all add: ts_ok_def)
  then show "show_ts C a \<le> show_ts C b \<longleftrightarrow> a \<le> b"
    by (cases a b rule: linorder_cases) auto
qed

lemma optional_string_roundtrip [simp]: "optional_string (Some (json_of_option x)) = Some x"
  by (cases x) auto

lemma optional_hours_roundtrip [simp]: "optional_hours (Some (active_hours_to_json x)) = Some x"
  by (cases x) (auto simp: string_field_def)

lemma schedule_json_roundtrip:
  assumes "case s of Sched_At due \<Rightarrow> read_at C (show_at C due) = Some due | _ \<Rightarrow> True"
  shows "schedule_of_json C (schedule_to_json C s) = Some s"
proof (cases s)
  case (Sched_Every m)
  have "unat m < 2 ^ 64" using unsigned_less[of m] by simp
  then have "parse_u64 (dec_nat (unat m)) = Some (unat m)" by (rule parse_u64_dec_nat)
  then show ?thesis using Sched_Every by (simp add: string_field_def number_field_def)
qed (use assms in \<open>auto simp: string_field_def\<close>)

lemma delivery_json_roundtrip: "delivery_of_json (delivery_to_json d) = Some d"
  by (cases d) (simp add: delivery_to_json_def)

lemma decode_written:
  assumes "json_ok C s d"
  shows "decode_schedule C (Some (cj_text C (schedule_to_json C s))) e = Inr s"
    "decode_delivery C (Some (cj_text C (delivery_to_json d))) = Inr d"
  using assms unfolding json_ok_def json_read_back_def
  by (simp_all add: decode_schedule_def decode_delivery_def schedule_json_roundtrip delivery_json_roundtrip)

lemma find_update_cron_rows:
  assumes "\<And>r. cr_id (f r) = cr_id r"
  shows "find (\<lambda>r. cr_id r = jid) (db_jobs (update_cron_rows jid f db)) =
    map_option f (find (\<lambda>r. cr_id r = jid) (db_jobs db))"
proof -
  have "find (\<lambda>r. cr_id r = jid) (map (\<lambda>r. if cr_id r = jid then f r else r) rs) =
      map_option f (find (\<lambda>r. cr_id r = jid) rs)" for rs
    using assms by (induction rs) auto
  then show ?thesis by (simp add: update_cron_rows_def)
qed

lemma map_row_Inr:
  assumes "map_cron_job_row C r = Inr job"
  shows "cj_id job = cr_id r" "parse_ts C (cr_created_at r) = Some (cj_created_at job)"
    "parse_ts C (cr_next_run r) = Some (cj_next_run job)"
    "cr_last_run r = None \<and> cj_last_run job = None \<or>
       (\<exists>raw t. cr_last_run r = Some raw \<and> parse_ts C raw = Some t \<and> cj_last_run job = Some t)"
    "cj_last_status job = cr_last_status r" "cj_last_output job = cr_last_output r"
    "cj_schedule job = projr (decode_schedule C (cr_schedule r) (cr_expression r))"
  using assms by (auto simp: map_cron_job_row_def parse_rfc3339_def split: sum.splits option.splits)

lemma patched_job_keeps:
  assumes "patched_job L now1 now2 patch job = Inr job'"
  shows "cj_id job' = cj_id job" "cj_created_at job' = cj_created_at job"
    "cj_last_run job' = cj_last_run job" "cj_last_status job' = cj_last_status job"
    "cj_last_output job' = cj_last_output job" "cj_job_type job' = cj_job_type job"
    "cp_schedule patch = None \<Longrightarrow> cj_next_run job' = cj_next_run job"
  using assms by (auto simp: patched_job_def Let_def split: sum.splits if_splits)

text \<open>C31. An update of a job answers exactly the job it read with the patch applied: the columns that
  are written are read back as what was written, the others as they were.  The next run must be
  in the range of the texts.
\<close>

theorem update_reads_back:
  assumes "json_ok C (cj_schedule job') (cj_delivery job')" and "ts_ok C T"
    and "get_cron_job C jid db = Inr job" and "patched_job L now1 now2 patch job = Inr job'"
    and "cj_next_run job' \<in> T"
  shows "fst (update_job L C now1 now2 jid patch db) = Inr job'"
proof -
  obtain r where r: "find (\<lambda>r. cr_id r = jid) (db_jobs db) = Some r" "map_cron_job_row C r = Inr job"
    using assms(3) by (auto simp: get_cron_job_def split: option.splits)
  have "cr_id r = jid" using r(1) by (auto simp: find_Some_iff)
  then have id: "cj_id job' = jid" using map_row_Inr(1)[OF r(2)] patched_job_keeps(1)[OF assms(4)] by simp
  note keeps = patched_job_keeps[OF assms(4)] and row = map_row_Inr[OF r(2)]
  have "get_cron_job C jid (save_job C job' db) = Inr job'"
    unfolding get_cron_job_def save_job_def id
    using r(1) \<open>cr_id r = jid\<close> keeps row ts_okD(1)[OF assms(2,5)] decode_written[OF assms(1)]
    by (subst find_update_cron_rows) (auto simp: map_cron_job_row_def parse_rfc3339_def id)
  then show ?thesis using assms(3,4) by (simp add: update_job_def Let_def)
qed

text \<open>
  Texts for examples: a time is that many strokes, and a JSON text is one letter, which is read as
  the default delivery or as an interval of a second.
\<close>

definition demo_cron_codec :: cron_codec where
  "demo_cron_codec = \<lparr>cj_parse = (\<lambda>s. Some (if s = ''d'' then delivery_to_json default_delivery
       else Json_Object [(''kind'', Json_String ''every''), (''every_ms'', Json_Number ''1000'')])),
     cj_text = (\<lambda>j. if j = delivery_to_json default_delivery then ''d'' else ''s''),
     show_ts = (\<lambda>t. replicate (nat t) (CHR ''1'')), parse_ts = (\<lambda>s. Some (int (length s))),
     show_at = (\<lambda>t. replicate (nat t) (CHR ''1'')), read_at = (\<lambda>s. Some (int (length s)))\<rparr>"

definition empty_cron_db :: cron_db where
  "empty_cron_db = \<lparr>db_jobs = [], db_runs = [], db_next_run_id = 1\<rparr>"

definition demo_row :: "string \<Rightarrow> int \<Rightarrow> cron_row" where
  "demo_row jid next = shell_row demo_cron_codec jid 0 next None (Sched_Every 1000) ''ls''"

definition demo_db :: cron_db where
  "demo_db = empty_cron_db\<lparr>db_jobs := [demo_row ''a'' 7, demo_row ''b'' 5]\<rparr>"

lemma strokes_ordered: "i < j \<Longrightarrow> replicate i (CHR ''1'') < replicate j (CHR ''1'')"
proof (induction i arbitrary: j)
  case 0
  then show ?case by (cases j) auto
next
  case (Suc i)
  then show ?case by (cases j) auto
qed

lemma demo_ts_ok: "ts_ok demo_cron_codec {0..}"
  by (simp add: ts_ok_def demo_cron_codec_def strokes_ordered)

lemma demo_json_ok: "json_ok demo_cron_codec (Sched_Every 1000) default_delivery"
  by code_simp

definition demo_job :: "string \<Rightarrow> int \<Rightarrow> cron_job" where
  "demo_job jid next = \<lparr>cj_id = jid, cj_expression = [], cj_schedule = Sched_Every 1000, cj_command = ''ls'',
     cj_prompt = None, cj_name = None, cj_job_type = Job_Shell, cj_session_target = Target_Isolated,
     cj_model = None, cj_agent_id = None, cj_enabled = True, cj_delivery = default_delivery,
     cj_delete_after_run = False, cj_created_at = 0, cj_next_run = next, cj_last_run = None,
     cj_last_status = None, cj_last_output = None\<rparr>"

lemma demo_texts [simp]:
  "parse_ts demo_cron_codec (show_ts demo_cron_codec t) = Some (int (nat t))"
  by (simp add: demo_cron_codec_def)

lemma demo_row_reads:
  assumes "0 \<le> next"
  shows "map_cron_job_row demo_cron_codec (demo_row jid next) = Inr (demo_job jid next)"
  using assms decode_written[OF demo_json_ok] job_type_roundtrip[of Job_Shell]
    session_target_roundtrip[of Target_Isolated]
  by (simp add: map_cron_job_row_def demo_row_def demo_job_def shell_row_def parse_rfc3339_def
      expression_of_def schedule_cron_expression_def)

theorem update_reads_back_witness:
  "fst (update_job demo_lib demo_cron_codec 0 0 ''b'' (empty_cron_patch\<lparr>cp_enabled := Some False\<rparr>) demo_db) =
     Inr (demo_job ''b'' 5\<lparr>cj_enabled := False\<rparr>)"
proof -
  have get: "get_cron_job demo_cron_codec ''b'' demo_db = Inr (demo_job ''b'' 5)"
    using demo_row_reads[of 5 "''b''"]
    by (simp add: get_cron_job_def demo_db_def demo_row_def shell_row_def)
  have "patched_job demo_lib 0 0 (empty_cron_patch\<lparr>cp_enabled := Some False\<rparr>) (demo_job ''b'' 5) =
      Inr (demo_job ''b'' 5\<lparr>cj_enabled := False\<rparr>)"
    by (simp add: patched_job_def empty_cron_patch_def or_keep_def demo_job_def)
  from update_reads_back[OF _ demo_ts_ok get this] show ?thesis
    using demo_json_ok by (simp add: demo_job_def)
qed

section \<open>Keys and references\<close>

definition cron_ok :: "cron_db \<Rightarrow> bool" where
  "cron_ok db = (distinct (ids db) \<and> distinct (map rr_id (db_runs db)) \<and>
     (\<forall>x \<in> set (db_runs db). rr_id x < db_next_run_id db \<and> rr_job_id x \<in> set (ids db)))"

text \<open>Everything the store can do to its tables.\<close>

inductive cron_reach :: "('c, 'z) time_lib \<Rightarrow> nat \<Rightarrow> cron_db \<Rightarrow> bool"
  for L :: "('c, 'z) time_lib" and history :: nat where
  empty: "cron_reach L history empty_cron_db"
| shell: "cron_reach L history db \<Longrightarrow> cron_reach L history (snd (add_shell_job L C uuid now name sched cmd db))"
| agent: "cron_reach L history db \<Longrightarrow> cron_reach L history (snd (add_agent_job_with_definition L C uuid now spec db))"
| remove: "cron_reach L history db \<Longrightarrow> cron_reach L history (snd (remove_job jid db))"
| clear: "cron_reach L history db \<Longrightarrow> cron_reach L history (snd (clear_all_jobs db))"
| dedup: "cron_reach L history db \<Longrightarrow> cron_reach L history (snd (dedup_named_jobs db))"
| save: "cron_reach L history db \<Longrightarrow> cron_reach L history (save_job C job db)"
| last_run: "cron_reach L history db \<Longrightarrow> cron_reach L history (record_last_run C jid fin ok out db)"
| reschedule: "cron_reach L history db \<Longrightarrow> cron_reach L history (snd (reschedule_after_run L C now job ok out db))"
| recorded: "cron_reach L history db \<Longrightarrow> cron_reach L history (snd (record_run C history jid st fin status out dur db))"
| queued: "cron_reach L history db \<Longrightarrow> cron_reach L history (snd (delete_queued_runs jid db))"

definition history_bounded :: "nat \<Rightarrow> cron_db \<Rightarrow> bool" where
  "history_bounded history db = (\<forall>jid. run_count db jid \<le> max history 1)"

lemma ids_update_cron_rows [simp]: "(\<And>r. cr_id (f r) = cr_id r) \<Longrightarrow> ids (update_cron_rows jid f db) = ids db"
  by (auto simp: ids_def update_cron_rows_def)

lemma runs_update_rows [simp]:
  "db_runs (update_cron_rows jid f db) = db_runs db" "db_next_run_id (update_cron_rows jid f db) = db_next_run_id db"
  by (simp_all add: update_cron_rows_def)

lemma update_rows_inv:
  assumes "\<And>r. cr_id (f r) = cr_id r"
  shows "cron_ok (update_cron_rows jid f db) = cron_ok db"
    "history_bounded h (update_cron_rows jid f db) = history_bounded h db"
  using assms by (simp_all add: cron_ok_def history_bounded_def run_count_def)

lemma insert_row_inv:
  "cron_ok db \<Longrightarrow> cron_ok (snd (insert_row ctxt r db))"
  "history_bounded h db \<Longrightarrow> history_bounded h (snd (insert_row ctxt r db))"
  by (auto simp: insert_row_def cron_ok_def ids_def history_bounded_def run_count_def)

lemma add_shell_db:
  "snd (add_shell_job L C uuid now name sched cmd db) = db \<or>
   (\<exists>r. snd (add_shell_job L C uuid now name sched cmd db) = snd (insert_row ''Failed to insert cron shell job'' r db))"
  by (auto simp: add_shell_job_def split: sum.splits prod.splits) (metis snd_conv)+

lemma add_agent_db:
  "snd (add_agent_job_with_definition L C uuid now spec db) = db \<or>
   (\<exists>r. snd (add_agent_job_with_definition L C uuid now spec db) = snd (insert_row ''Failed to insert cron agent job'' r db))"
  by (auto simp: add_agent_job_with_definition_def split: sum.splits prod.splits) (metis snd_conv)+

lemma filter_runs_inv:
  assumes "cron_ok db" and "history_bounded h db"
  shows "cron_ok (db\<lparr>db_runs := filter p (db_runs db)\<rparr>)" "history_bounded h (db\<lparr>db_runs := filter p (db_runs db)\<rparr>)"
proof -
  have "distinct (map rr_id (filter p (db_runs db)))"
    using assms(1) by (simp add: cron_ok_def distinct_map_filter)
  then show "cron_ok (db\<lparr>db_runs := filter p (db_runs db)\<rparr>)"
    using assms(1) by (auto simp: cron_ok_def ids_def)
  have "length (filter (\<lambda>x. rr_job_id x = jid) (filter p xs)) \<le> length (filter (\<lambda>x. rr_job_id x = jid) xs)" for jid xs
    by (induction xs) auto
  then show "history_bounded h (db\<lparr>db_runs := filter p (db_runs db)\<rparr>)"
    using assms(2) unfolding history_bounded_def run_count_def by (simp, meson order_trans)
qed

lemma delete_jobs_inv:
  assumes "cron_ok db" and "history_bounded h db"
  shows "cron_ok (snd (delete_jobs p db))" "history_bounded h (snd (delete_jobs p db))"
proof -
  let ?runs = "filter (\<lambda>x. rr_job_id x \<notin> set (map cr_id (filter p (db_jobs db)))) (db_runs db)"
  note f = filter_runs_inv[OF assms, of "\<lambda>x. rr_job_id x \<notin> set (map cr_id (filter p (db_jobs db)))"]
  have "distinct (map cr_id (filter (\<lambda>r. \<not> p r) (db_jobs db)))"
    using assms(1) by (simp add: cron_ok_def ids_def distinct_map_filter)
  moreover have "rr_job_id x \<in> set (map cr_id (filter (\<lambda>r. \<not> p r) (db_jobs db)))" if "x \<in> set ?runs" for x
    using that assms(1) by (fastforce simp: cron_ok_def ids_def)
  ultimately show "cron_ok (snd (delete_jobs p db))"
    using f(1) unfolding cron_ok_def by (auto simp: delete_jobs_def Let_def ids_def)
  show "history_bounded h (snd (delete_jobs p db))"
    using f(2) by (simp add: history_bounded_def run_count_def delete_jobs_def Let_def)
qed

lemma dedup_inv:
  assumes "cron_ok db" and "history_bounded h db"
  shows "cron_ok (snd (dedup_named_jobs db)) \<and> history_bounded h (snd (dedup_named_jobs db))"
proof -
  have step: "cron_ok (snd (dedup_step s n)) \<and> history_bounded h (snd (dedup_step s n))"
    if "cron_ok (snd s) \<and> history_bounded h (snd s)" for s n
    using that delete_jobs_inv[of "snd s" h]
    by (auto simp: dedup_step_def case_prod_beta split: option.splits)
  have "cron_ok (snd (foldl dedup_step s ns)) \<and> history_bounded h (snd (foldl dedup_step s ns))"
    if "cron_ok (snd s) \<and> history_bounded h (snd s)" for s ns
    using that by (induction ns arbitrary: s) (simp_all add: step)
  then show ?thesis using assms by (simp add: dedup_named_jobs_def)
qed

lemma newest_runs_set: "set (newest_runs jid runs) = {x \<in> set runs. rr_job_id x = jid}"
  by (auto simp: newest_runs_def)

lemma prune_runs_count:
  assumes "distinct (map rr_id runs)"
  shows "length (filter (\<lambda>x. rr_job_id x = jid) (prune_runs jid keep runs)) \<le> keep"
    "other \<noteq> jid \<Longrightarrow> filter (\<lambda>x. rr_job_id x = other) (prune_runs jid keep runs) =
       filter (\<lambda>x. rr_job_id x = other) runs"
proof -
  let ?kept = "map rr_id (take keep (newest_runs jid runs))"
  let ?f = "filter (\<lambda>x. rr_job_id x = jid) (prune_runs jid keep runs)"
  have "set (map rr_id ?f) \<subseteq> set ?kept" by (auto simp: prune_runs_def Let_def)
  moreover have "distinct (map rr_id ?f)"
    using assms by (simp add: prune_runs_def Let_def distinct_map_filter)
  ultimately have "length (map rr_id ?f) \<le> length ?kept"
    by (metis card_length card_mono distinct_card finite_set le_trans)
  then show "length ?f \<le> keep" by simp
  show "other \<noteq> jid \<Longrightarrow> filter (\<lambda>x. rr_job_id x = other) (prune_runs jid keep runs) =
       filter (\<lambda>x. rr_job_id x = other) runs"
    by (auto simp: prune_runs_def Let_def intro: filter_cong)
qed

lemma record_run_inv:
  assumes "cron_ok db" and "history_bounded h db"
  shows "cron_ok (snd (record_run C h jid st fin status out dur db)) \<and>
    history_bounded h (snd (record_run C h jid st fin status out dur db))"
proof (cases "jid \<in> set (ids db)")
  case True
  define run where "run = \<lparr>rr_id = db_next_run_id db, rr_job_id = jid, rr_started_at = show_ts C st,
    rr_finished_at = show_ts C fin, rr_status = status,
    rr_output = map_option truncate_cron_output out, rr_duration_ms = Some dur\<rparr>"
  let ?runs = "db_runs db @ [run]"
  have d: "distinct (map rr_id ?runs)"
    using assms(1) by (auto simp: cron_ok_def run_def)
  have db: "snd (record_run C h jid st fin status out dur db) =
      db\<lparr>db_runs := prune_runs jid (max h 1) ?runs, db_next_run_id := Suc (db_next_run_id db)\<rparr>"
    using True by (simp add: record_run_def run_def Let_def)
  have "set (prune_runs jid (max h 1) ?runs) \<subseteq> set ?runs" by (auto simp: prune_runs_def Let_def)
  moreover have "distinct (map rr_id (prune_runs jid (max h 1) ?runs))"
    unfolding prune_runs_def Let_def by (rule distinct_map_filter[OF d])
  moreover have "\<forall>x \<in> set ?runs. rr_id x < Suc (db_next_run_id db) \<and> rr_job_id x \<in> set (ids db)"
    using assms(1) True by (auto simp: cron_ok_def run_def)
  ultimately have "cron_ok (snd (record_run C h jid st fin status out dur db))"
    using assms(1) unfolding db by (auto simp: cron_ok_def ids_def)
  moreover have "run_count (snd (record_run C h jid st fin status out dur db)) other \<le> max h 1" for other
  proof (cases "other = jid")
    case True
    then show ?thesis using prune_runs_count(1)[OF d, of jid "max h 1"] by (simp add: db run_count_def)
  next
    case False
    then have "run_count (snd (record_run C h jid st fin status out dur db)) other = run_count db other"
      using prune_runs_count(2)[OF d] by (simp add: db run_count_def run_def)
    then show ?thesis using assms(2) by (simp add: history_bounded_def)
  qed
  ultimately show ?thesis by (simp add: history_bounded_def)
next
  case False
  then show ?thesis using assms by (simp add: record_run_def)
qed

text \<open>C28. Whatever is done to the tables, job identifiers and run numbers stay unique, every run
  belongs to a job, and no job has more runs in its history than the configured number, at
  least one.
\<close>

theorem cron_tables_stay_sound:
  assumes "cron_reach L history db"
  shows "cron_ok db \<and> (\<forall>jid. run_count db jid \<le> max history 1)"
proof -
  have "cron_ok db \<and> history_bounded history db"
    using assms
  proof induction
    case empty
    then show ?case by (simp add: cron_ok_def empty_cron_db_def ids_def history_bounded_def run_count_def)
  next
    case (shell db C uuid now name sched cmd)
    then show ?case using add_shell_db[of L C uuid now name sched cmd db] insert_row_inv by (metis (no_types))
  next
    case (agent db C uuid now spec)
    then show ?case using add_agent_db[of L C uuid now spec db] insert_row_inv by (metis (no_types))
  next
    case (remove db jid)
    then show ?case using delete_jobs_inv[of db history] by (simp add: remove_job_def case_prod_beta)
  next
    case (clear db)
    then show ?case using delete_jobs_inv[of db history] by (simp add: clear_all_jobs_def)
  next
    case (queued db jid)
    then show ?case using filter_runs_inv[of db history] by (simp add: delete_queued_runs_def Let_def)
  next
    case (reschedule db C now job ok out)
    then show ?case by (auto simp: reschedule_after_run_def update_rows_inv split: sum.splits)
  next
    case (dedup db)
    then show ?case by (simp add: dedup_inv[of db history])
  next
    case (recorded db C jid st fin status out dur)
    then show ?case by (simp add: record_run_inv[of db history])
  qed (simp_all add: save_job_def record_last_run_def update_rows_inv)
  then show ?thesis by (simp add: history_bounded_def)
qed

theorem cron_tables_stay_sound_witness:
  "cron_ok (snd (add_shell_job demo_lib demo_cron_codec ''j'' 0 None (Sched_Every 1000) ''ls'' empty_cron_db))"
  using cron_tables_stay_sound[OF cron_reach.shell[OF cron_reach.empty[of demo_lib 3]]] by blast

section \<open>Due jobs\<close>

lemma sort_key_le: "i < j \<Longrightarrow> j < length (sort_key f xs) \<Longrightarrow> f (sort_key f xs ! i) \<le> f (sort_key f xs ! j)"
  using sorted_nth_mono[OF sorted_sort_key[of f xs], of i j] by simp

lemma collect_list_all2: "collect f xs = Inr ys \<longleftrightarrow> list_all2 (\<lambda>x y. f x = Inr y) xs ys"
proof (induction xs arbitrary: ys)
  case (Cons x xs)
  show ?case by (cases ys) (auto simp: Cons.IH[symmetric] split: sum.splits)
qed auto

lemma collect_Inr: "collect f xs = Inr ys \<longleftrightarrow> length xs = length ys \<and> (\<forall>i < length xs. f (xs ! i) = Inr (ys ! i))"
  by (simp add: collect_list_all2 list_all2_conv_all_nth)

text \<open>When every row can be read and all its times are in the range of the texts, a poll returns
  enabled jobs whose time has come, no more than the limit, those with the earliest times, and
  all of them when they are within the limit.
\<close>

theorem due_jobs_are_earliest:
  assumes "ts_ok C T" and "now \<in> T"
    and "\<forall>r \<in> set (db_jobs db). \<exists>job. map_cron_job_row C r = Inr job \<and> cj_next_run job \<in> T \<and> cr_next_run r = show_ts C (cj_next_run job)"
    and "due_jobs C max_tasks now db = Inr jobs"
  shows "length jobs \<le> max max_tasks 1
    \<and> (\<forall>job \<in> set jobs. \<exists>r \<in> set (db_jobs db). map_cron_job_row C r = Inr job \<and> cr_enabled r = 1 \<and> cj_next_run job \<le> now)
    \<and> (\<forall>r \<in> set (db_jobs db). \<forall>job. map_cron_job_row C r = Inr job \<and> cr_enabled r = 1 \<and> cj_next_run job \<le> now \<longrightarrow>
         job \<in> set jobs \<or> length jobs = max max_tasks 1 \<and> (\<forall>job' \<in> set jobs. cj_next_run job' \<le> cj_next_run job))"
proof -
  let ?lim = "max max_tasks 1" and ?rows = "due_rows C now db"
  have col: "collect (map_cron_job_row C) (take ?lim ?rows) = Inr jobs"
    using assms(4) by (simp add: due_jobs_def Let_def split: if_splits)
  then have len: "length jobs = min (length ?rows) ?lim" by (simp add: collect_Inr)
  have nth: "map_cron_job_row C (?rows ! i) = Inr (jobs ! i)" if i: "i < length jobs" for i
  proof -
    have "map_cron_job_row C (take ?lim ?rows ! i) = Inr (jobs ! i)"
      using col i len unfolding collect_Inr by simp
    then show ?thesis using i len by simp
  qed
  have rows: "r \<in> set ?rows \<longleftrightarrow> r \<in> set (db_jobs db) \<and> cr_enabled r = 1 \<and> cr_next_run r \<le> show_ts C now" for r
    by (auto simp: due_rows_def)
  have time: "cr_next_run r = show_ts C (cj_next_run job)" "cj_next_run job \<in> T"
    if "r \<in> set (db_jobs db)" "map_cron_job_row C r = Inr job" for r job
    using assms(3) that by fastforce+
  have due: "cr_next_run r \<le> show_ts C now \<longleftrightarrow> cj_next_run job \<le> now"
    if "r \<in> set (db_jobs db)" "map_cron_job_row C r = Inr job" for r job
    using time[OF that] ts_okD(2)[OF assms(1) _ assms(2)] by simp
  have "\<exists>r \<in> set (db_jobs db). map_cron_job_row C r = Inr job \<and> cr_enabled r = 1 \<and> cj_next_run job \<le> now"
    if job: "job \<in> set jobs" for job
  proof -
    obtain i where i: "i < length jobs" "jobs ! i = job" using job by (auto simp: in_set_conv_nth)
    then have "?rows ! i \<in> set ?rows" using len by simp
    then show ?thesis using nth[OF i(1)] i(2) due rows by blast
  qed
  moreover have "job \<in> set jobs \<or> length jobs = ?lim \<and> (\<forall>job' \<in> set jobs. cj_next_run job' \<le> cj_next_run job)"
    if r: "r \<in> set (db_jobs db)" "map_cron_job_row C r = Inr job" "cr_enabled r = 1" "cj_next_run job \<le> now" for r job
  proof -
    have "r \<in> set ?rows" using r due rows by blast
    then obtain j where j: "j < length ?rows" "?rows ! j = r" by (auto simp: in_set_conv_nth)
    show ?thesis
    proof (cases "j < length jobs")
      case True
      then have "jobs ! j = job" using nth[OF True] j(2) r(2) by simp
      with True show ?thesis by auto
    next
      case False
      have "cj_next_run (jobs ! i) \<le> cj_next_run job" if i: "i < length jobs" for i
      proof -
        have mem: "?rows ! i \<in> set (db_jobs db)" using i len rows[of "?rows ! i"] by simp
        have "i < j" using i False by simp
        then have "cr_next_run (?rows ! i) \<le> cr_next_run (?rows ! j)"
          using sort_key_le[of i j cr_next_run] j(1) by (simp add: due_rows_def)
        then show ?thesis
          using time[OF mem nth[OF i]] time[OF r(1,2)] j(2) ts_okD(2)[OF assms(1)] by simp
      qed
      then have "\<forall>job' \<in> set jobs. cj_next_run job' \<le> cj_next_run job" by (auto simp: in_set_conv_nth)
      moreover have "length jobs = ?lim" using False j(1) len by simp
      ultimately show ?thesis by blast
    qed
  qed
  ultimately show ?thesis using len by auto
qed

theorem due_jobs_are_earliest_witness:
  "due_jobs demo_cron_codec 1 8 demo_db = Inr [demo_job ''b'' 5] \<and> cj_next_run (demo_job ''b'' 5) \<le> 7"
proof -
  have rows: "\<forall>r \<in> set (db_jobs demo_db). \<exists>job. map_cron_job_row demo_cron_codec r = Inr job
      \<and> cj_next_run job \<in> {0..} \<and> cr_next_run r = show_ts demo_cron_codec (cj_next_run job)"
    using demo_row_reads[of 7 "''a''"] demo_row_reads[of 5 "''b''"]
    by (simp add: demo_db_def demo_job_def) (simp add: demo_row_def shell_row_def)
  have "due_rows demo_cron_codec 8 demo_db = [demo_row ''b'' 5, demo_row ''a'' 7]"
    by code_simp
  then have due: "due_jobs demo_cron_codec 1 8 demo_db = Inr [demo_job ''b'' 5]"
    using demo_row_reads[of 5 "''b''"] by (simp add: due_jobs_def)
  have "demo_row ''a'' 7 \<in> set (db_jobs demo_db)" "cr_enabled (demo_row ''a'' 7) = 1"
    by (simp_all add: demo_db_def demo_row_def shell_row_def)
  then have "cj_next_run (demo_job ''b'' 5) \<le> 7"
    using due_jobs_are_earliest[OF demo_ts_ok _ rows due] demo_row_reads[of 7 "''a''"]
    by (simp add: demo_job_def)
  then show ?thesis using due by blast
qed

text \<open>One row that cannot be read makes the whole poll fail, whichever jobs are due besides it.\<close>

theorem unreadable_row_blocks_poll:
  assumes "r \<in> set (take (max max_tasks 1) (due_rows C now db))" and "map_cron_job_row C r = Inl e"
  shows "\<exists>e'. due_jobs C max_tasks now db = Inl e'"
proof (cases "due_jobs C max_tasks now db")
  case (Inr jobs)
  then have "collect (map_cron_job_row C) (take (max max_tasks 1) (due_rows C now db)) = Inr jobs"
    by (simp add: due_jobs_def Let_def split: if_splits)
  moreover obtain i where "i < length (take (max max_tasks 1) (due_rows C now db))"
    "take (max max_tasks 1) (due_rows C now db) ! i = r"
    using assms(1) unfolding in_set_conv_nth by blast
  ultimately show ?thesis using assms(2) unfolding collect_Inr by force
qed blast

text \<open>
  Adding a job whose first run lies beyond the range of the texts (the year 9999) fails, but the
  row stays: from then on the jobs cannot be listed.
\<close>

theorem far_future_job_stays:
  assumes "validate_schedule L sched now = Inr ()" and "next_run_for_schedule L sched now = Inr next"
    and "parse_ts C (show_ts C next) = None" and "uuid \<notin> set (ids db)" and "json_ok C sched default_delivery"
    and "parse_ts C (show_ts C now) = Some now"
  shows "\<exists>e db' r. add_shell_job L C uuid now name sched cmd db = (Inl e, db') \<and> r \<in> set (db_jobs db')
    \<and> cr_id r = uuid \<and> (\<exists>e. list_jobs C db' = Inl e)"
proof -
  let ?r = "shell_row C uuid now next name sched cmd"
  let ?db = "db\<lparr>db_jobs := db_jobs db @ [?r]\<rparr>"
  have bad: "map_cron_job_row C ?r = Inl (bad_timestamp (show_ts C next))"
    using assms(3,6) decode_written[OF assms(5)] by (simp add: map_cron_job_row_def shell_row_def parse_rfc3339_def)
  have "find (\<lambda>r. cr_id r = uuid) (rs @ [?r]) = Some ?r" if "uuid \<notin> set (map cr_id rs)" for rs
    using that by (induction rs) (auto simp: shell_row_def)
  then have "find (\<lambda>r. cr_id r = uuid) (db_jobs ?db) = Some ?r"
    using assms(4) by (simp add: ids_def)
  then have "add_shell_job L C uuid now name sched cmd db = (Inl (bad_timestamp (show_ts C next)), ?db)"
    using assms(1,2,4) bad by (simp add: add_shell_job_def insert_row_def get_cron_job_def shell_row_def)
  moreover have "\<exists>e. list_jobs C ?db = Inl e"
  proof (cases "list_jobs C ?db")
    case (Inr jobs)
    have "?r \<in> set (sort_key cr_next_run (db_jobs ?db))" by simp
    then obtain i where i: "i < length (sort_key cr_next_run (db_jobs ?db))" "sort_key cr_next_run (db_jobs ?db) ! i = ?r"
      unfolding in_set_conv_nth by blast
    have "map_cron_job_row C ?r = Inr (jobs ! i)"
      using Inr[unfolded list_jobs_def collect_Inr] i by metis
    then show ?thesis using bad by simp
  qed blast
  ultimately show ?thesis by (intro exI[of _ "bad_timestamp (show_ts C next)"] exI[of _ ?db] exI[of _ ?r])
      (simp add: shell_row_def)
qed

end
