(* ===== verification/Cron_Dedup.thy ===== *)
theory Cron_Dedup
  imports Cron_Store_Facts
begin

text \<open>
  Deduplication of jobs by name: the loop over the duplicated names has a closed form, and what it
  keeps is one job of each name, the one with the longest history.
\<close>

section \<open>Duplicates\<close>

lemma sort_key_cong: "(\<And>x. x \<in> set xs \<Longrightarrow> f x = g x) \<Longrightarrow> sort_key f xs = sort_key g xs"
proof (induction xs)
  case (Cons x xs)
  have "insort_key f x ys = insort_key g x ys" if "set ys \<subseteq> set xs" for ys
    using that Cons.prems by (induction ys) auto
  then show ?case using Cons by simp
qed simp

definition named :: "cron_db \<Rightarrow> string \<Rightarrow> cron_row list" where
  "named db n = filter (\<lambda>r. cr_name r = Some n) (db_jobs db)"

lemma count_names: "count_list (List.map_filter cr_name (db_jobs db)) n = length (named db n)"
proof -
  have "count_list (List.map_filter cr_name rs) n = length (filter (\<lambda>r. cr_name r = Some n) rs)"
    for rs :: "cron_row list" by (induction rs) (auto simp: List.map_filter_def)
  then show ?thesis by (simp add: named_def)
qed

text \<open>A job that has one of the names survives as the chosen one of that name.\<close>

definition survives :: "cron_db \<Rightarrow> string set \<Rightarrow> cron_row \<Rightarrow> bool" where
  "survives db names r = (case cr_name r of None \<Rightarrow> True | Some n \<Rightarrow> n \<in> names \<longrightarrow> canonical_id db n = Some (cr_id r))"

definition pruned :: "cron_db \<Rightarrow> string set \<Rightarrow> cron_db" where
  "pruned db names = db\<lparr>db_jobs := filter (survives db names) (db_jobs db),
     db_runs := filter (\<lambda>x. rr_job_id x \<in> set (map cr_id (filter (survives db names) (db_jobs db)))) (db_runs db)\<rparr>"

definition rank :: "cron_db \<Rightarrow> cron_row \<Rightarrow> int \<times> string \<times> string" where
  "rank db r = (- int (run_count db (cr_id r)), cr_created_at r, cr_id r)"

lemma canonical_id_rank: "canonical_id db n = map_option cr_id (first (sort_key (rank db) (named db n)))"
  by (simp add: canonical_id_def named_def rank_def[abs_def])

lemma canonical_cases:
  "named db n = [] \<and> canonical_id db n = None \<or>
   (\<exists>k \<in> set (named db n). canonical_id db n = Some (cr_id k) \<and>
      (\<forall>r \<in> set (named db n). run_count db (cr_id r) \<le> run_count db (cr_id k)))"
proof (cases "sort_key (rank db) (named db n)")
  case Nil
  then have "named db n = []" by (metis set_empty set_sort)
  with Nil show ?thesis by (simp add: canonical_id_rank)
next
  case (Cons k ks)
  then have "k \<in> set (named db n)" by (metis list.set_intros(1) set_sort)
  moreover have "canonical_id db n = Some (cr_id k)" using Cons by (simp add: canonical_id_rank)
  moreover have "run_count db (cr_id r) \<le> run_count db (cr_id k)" if r: "r \<in> set (named db n)" for r
  proof -
    have "r \<in> set (k # ks)" using r Cons by (metis set_sort)
    moreover have "sorted (map (rank db) (k # ks))" using Cons by (metis sorted_sort_key)
    ultimately have "rank db k \<le> rank db r" by auto
    then show ?thesis by (auto simp: less_eq_prod_def rank_def)
  qed
  ultimately show ?thesis by blast
qed

lemma canonical_pruned:
  assumes "n \<notin> names"
  shows "canonical_id (pruned db names) n = canonical_id db n" "named (pruned db names) n = named db n"
proof -
  show eq: "named (pruned db names) n = named db n"
    using assms by (auto simp: named_def pruned_def survives_def intro!: filter_cong)
  have "run_count (pruned db names) (cr_id r) = run_count db (cr_id r)" if "r \<in> set (named db n)" for r
  proof -
    have "cr_id r \<in> set (map cr_id (filter (survives db names) (db_jobs db)))"
      using that assms by (auto simp: named_def survives_def)
    then show ?thesis by (auto simp: run_count_def pruned_def intro!: arg_cong[of _ _ length] filter_cong)
  qed
  then have "sort_key (rank (pruned db names)) (named db n) = sort_key (rank db) (named db n)"
    by (intro sort_key_cong) (simp add: rank_def)
  then show "canonical_id (pruned db names) n = canonical_id db n"
    by (simp add: canonical_id_rank eq)
qed

lemma distinct_singleton:
  assumes "set xs = {k}" and "distinct xs"
  shows "xs = [k]"
proof -
  have "length xs = 1" using distinct_card[OF assms(2)] assms(1) by simp
  then obtain a where "xs = [a]" by (auto simp: length_Suc_conv)
  with assms(1) show ?thesis by simp
qed

lemma distinct_ids_eq:
  assumes "cron_ok db" and "r \<in> set (db_jobs db)" and "r' \<in> set (db_jobs db)" and "cr_id r = cr_id r'"
  shows "r = r'"
  using assms by (auto simp: cron_ok_def ids_def distinct_map inj_on_def)

lemma dedup_step_pruned:
  assumes "cron_ok db" and "n \<notin> names"
  shows "dedup_step (length (db_jobs db) - length (db_jobs (pruned db names)), pruned db names) n =
    (length (db_jobs db) - length (db_jobs (pruned db (insert n names))), pruned db (insert n names))"
proof (cases "named db n = []")
  case True
  then have "r \<in> set (db_jobs db) \<Longrightarrow> cr_name r \<noteq> Some n" for r by (auto simp: named_def filter_empty_conv)
  then have "filter (survives db (insert n names)) (db_jobs db) = filter (survives db names) (db_jobs db)"
    by (auto simp: survives_def split: option.splits intro!: filter_cong)
  then have "pruned db (insert n names) = pruned db names" by (simp add: pruned_def)
  then show ?thesis using True canonical_cases[of db n] canonical_pruned(1)[OF assms(2), of db]
    by (simp add: dedup_step_def)
next
  case False
  then obtain k where k: "k \<in> set (named db n)" "canonical_id db n = Some (cr_id k)"
    using canonical_cases[of db n] by auto
  let ?p = "\<lambda>r. cr_name r = Some n \<and> cr_id r \<noteq> cr_id k"
  have surv: "survives db (insert n names) r \<longleftrightarrow> survives db names r \<and> \<not> ?p r" for r
    using assms(2) k(2) by (auto simp: survives_def split: option.splits)
  let ?jobs = "filter (survives db names) (db_jobs db)"
  have jobs: "filter (survives db (insert n names)) (db_jobs db) = filter (\<lambda>r. \<not> ?p r) ?jobs"
    by (auto simp: surv intro!: filter_cong)
  have member: "i \<in> cr_id ` set ?jobs \<and> i \<notin> cr_id ` set (filter ?p ?jobs) \<longleftrightarrow>
      i \<in> cr_id ` set (filter (\<lambda>r. \<not> ?p r) ?jobs)" for i
    using distinct_ids_eq[OF assms(1)] by auto
  have "snd (delete_jobs ?p (pruned db names)) = pruned db (insert n names)"
    using member unfolding pruned_def delete_jobs_def Let_def jobs
    by (auto simp: pruned_def intro!: filter_cong)
  moreover have "fst (delete_jobs ?p (pruned db names)) = length (filter ?p ?jobs)"
    by (simp add: delete_jobs_def pruned_def)
  moreover have "length (filter ?p ?jobs) + length (filter (\<lambda>r. \<not> ?p r) ?jobs) = length ?jobs"
    using sum_length_filter_compl[of ?p ?jobs] by simp
  moreover have "length ?jobs \<le> length (db_jobs db)" by simp
  ultimately show ?thesis
    using k(2) canonical_pruned(1)[OF assms(2), of db] jobs
    by (auto simp: dedup_step_def case_prod_beta pruned_def)
qed

lemma dedup_pruned:
  assumes "cron_ok db"
  shows "dedup_named_jobs db = (length (db_jobs db) - length (db_jobs (pruned db UNIV)), pruned db UNIV)"
proof -
  have fold: "foldl dedup_step (length (db_jobs db) - length (db_jobs (pruned db names)), pruned db names) ns =
      (length (db_jobs db) - length (db_jobs (pruned db (names \<union> set ns))), pruned db (names \<union> set ns))"
    if "distinct ns" "set ns \<inter> names = {}" for ns names
    using that by (induction ns arbitrary: names) (simp_all add: dedup_step_pruned[OF assms])
  have all: "filter (survives db {}) (db_jobs db) = db_jobs db"
    by (simp add: survives_def split: option.splits)
  have "pruned db {} = db"
    using assms unfolding pruned_def all by (simp add: cron_ok_def ids_def)
  then have dedup: "dedup_named_jobs db = (length (db_jobs db) - length (db_jobs (pruned db (set (duplicated_names db)))),
      pruned db (set (duplicated_names db)))"
    using fold[of "duplicated_names db" "{}"] by (simp add: dedup_named_jobs_def duplicated_names_def Let_def)
  have "survives db UNIV r = survives db (set (duplicated_names db)) r" if r: "r \<in> set (db_jobs db)" for r
  proof (cases "cr_name r")
    case (Some n)
    show ?thesis
    proof (cases "n \<in> set (duplicated_names db)")
      case False
      have "n \<notin> set (List.map_filter cr_name (db_jobs db)) \<or> length (named db n) \<le> 1"
        using False by (auto simp: duplicated_names_def Let_def count_names)
      moreover have mem: "r \<in> set (named db n)" using r Some by (simp add: named_def)
      moreover have "n \<in> set (List.map_filter cr_name (db_jobs db))"
        using r Some by (force simp: List.map_filter_def)
      ultimately have "named db n = [r]" by (cases "named db n") auto
      then show ?thesis using canonical_cases[of db n] Some by (auto simp: survives_def)
    qed (simp add: survives_def Some)
  qed (simp add: survives_def)
  then have "filter (survives db UNIV) (db_jobs db) = filter (survives db (set (duplicated_names db))) (db_jobs db)"
    by (rule filter_cong[OF refl])
  then have "pruned db UNIV = pruned db (set (duplicated_names db))" by (simp add: pruned_def)
  then show ?thesis using dedup by simp
qed

lemma dedup_collapses:
  assumes "cron_ok db" and "dedup_named_jobs db = (removed, db')"
  shows "removed + length (db_jobs db') = length (db_jobs db) \<and> set (db_jobs db') \<subseteq> set (db_jobs db)
    \<and> (\<forall>r \<in> set (db_jobs db). cr_name r = None \<longrightarrow> r \<in> set (db_jobs db'))
    \<and> (\<forall>r \<in> set (db_jobs db). \<forall>n. cr_name r = Some n \<longrightarrow>
         (\<exists>k. filter (\<lambda>r. cr_name r = Some n) (db_jobs db') = [k] \<and> run_count db' (cr_id k) = run_count db (cr_id k)
            \<and> run_count db (cr_id r) \<le> run_count db (cr_id k)))
    \<and> dedup_named_jobs db' = (0, db')"
proof -
  have db': "db' = pruned db UNIV" "removed = length (db_jobs db) - length (db_jobs db')"
    using assms dedup_pruned[OF assms(1)] by auto
  have jobs: "db_jobs db' = filter (survives db UNIV) (db_jobs db)" by (simp add: db'(1) pruned_def)
  have one: "\<exists>k. named db' n = [k] \<and> k \<in> set (db_jobs db) \<and> run_count db' (cr_id k) = run_count db (cr_id k)
      \<and> (\<forall>r \<in> set (named db n). run_count db (cr_id r) \<le> run_count db (cr_id k))"
    if r: "r \<in> set (db_jobs db)" "cr_name r = Some n" for r n
  proof -
    have "named db n \<noteq> []" using r by (auto simp: named_def filter_empty_conv)
    then obtain k where k: "k \<in> set (named db n)" "canonical_id db n = Some (cr_id k)"
      "\<forall>r \<in> set (named db n). run_count db (cr_id r) \<le> run_count db (cr_id k)"
      using canonical_cases[of db n] by auto
    have mem: "k \<in> set (db_jobs db)" "cr_name k = Some n" using k(1) by (simp_all add: named_def)
    have "x \<in> set (named db' n) \<longleftrightarrow> x = k" for x
      using k(2) mem distinct_ids_eq[OF assms(1)] by (auto simp: named_def jobs survives_def)
    then have "set (named db' n) = {k}" by blast
    moreover have "distinct (named db' n)"
      using assms(1) by (simp add: named_def jobs cron_ok_def ids_def distinct_map)
    ultimately have "named db' n = [k]"
      by (rule distinct_singleton)
    moreover have "survives db UNIV k" using k(2) mem(2) by (simp add: survives_def)
    then have "run_count db' (cr_id k) = run_count db (cr_id k)"
      using mem(1) by (auto simp: run_count_def db'(1) pruned_def intro!: arg_cong[of _ _ length] filter_cong)
    ultimately show ?thesis using k(3) mem(1) by blast
  qed
  have "named db' n = [] \<or> (\<exists>k. named db' n = [k])" for n
  proof (cases "named db' n")
    case (Cons r rs)
    then have "r \<in> set (named db' n)" by simp
    then have "r \<in> set (db_jobs db)" "cr_name r = Some n" by (simp_all add: named_def jobs)
    then show ?thesis using one by blast
  qed simp
  then have few: "length (named db' n) \<le> 1" for n by (metis One_nat_def le_refl length_Cons list.size(3) zero_le)
  have "filter (\<lambda>n. 1 < count_list (List.map_filter cr_name (db_jobs db')) n) (List.map_filter cr_name (db_jobs db')) = []"
    using few by (simp add: filter_empty_conv not_less count_names)
  then have "duplicated_names db' = []" by (simp add: duplicated_names_def Let_def)
  then have "dedup_named_jobs db' = (0, db')" by (simp add: dedup_named_jobs_def)
  moreover have "removed + length (db_jobs db') = length (db_jobs db)" using db' jobs by simp
  moreover have "r \<in> set (db_jobs db')" if "r \<in> set (db_jobs db)" "cr_name r = None" for r
    using that by (simp add: jobs survives_def)
  moreover have "\<exists>k. filter (\<lambda>r. cr_name r = Some n) (db_jobs db') = [k] \<and> run_count db' (cr_id k) = run_count db (cr_id k)
      \<and> run_count db (cr_id r) \<le> run_count db (cr_id k)" if "r \<in> set (db_jobs db)" "cr_name r = Some n" for r n
    using one[OF that] that unfolding named_def by auto
  ultimately show ?thesis using jobs by auto
qed

text \<open>Deduplication keeps every job without a name, and of the jobs of each name exactly one, whose
  history is the longest and stays; it counts the jobs it removed, and a second time it changes nothing.
\<close>

theorem duplicates_collapse:
  assumes "cron_ok db" and "dedup_named_jobs db = (removed, db')"
  shows "removed + length (db_jobs db') = length (db_jobs db) \<and> set (db_jobs db') \<subseteq> set (db_jobs db)
    \<and> (\<forall>r \<in> set (db_jobs db). cr_name r = None \<longrightarrow> r \<in> set (db_jobs db'))
    \<and> (\<forall>r \<in> set (db_jobs db). \<forall>n. cr_name r = Some n \<longrightarrow>
         (\<exists>k. filter (\<lambda>r. cr_name r = Some n) (db_jobs db') = [k] \<and> run_count db' (cr_id k) = run_count db (cr_id k)
            \<and> run_count db (cr_id r) \<le> run_count db (cr_id k)))
    \<and> dedup_named_jobs db' = (0, db')"
  using assms by (rule dedup_collapses)

theorem duplicates_collapse_witness:
  "let r = \<lambda>jid. demo_row jid 5\<lparr>cr_name := Some ''n''\<rparr>; db = empty_cron_db\<lparr>db_jobs := [r ''a'', r ''b'', demo_row ''c'' 7]\<rparr>;
       (removed, db') = dedup_named_jobs db
   in removed = 1 \<and> removed + length (db_jobs db') = 3 \<and> dedup_named_jobs db' = (0, db')"
proof -
  let ?r = "\<lambda>jid. demo_row jid 5\<lparr>cr_name := Some ''n''\<rparr>"
  let ?db = "empty_cron_db\<lparr>db_jobs := [?r ''a'', ?r ''b'', demo_row ''c'' 7]\<rparr>"
  have ok: "cron_ok ?db"
    by (simp add: cron_ok_def ids_def empty_cron_db_def demo_row_def shell_row_def)
  obtain removed db' where d: "dedup_named_jobs ?db = (removed, db')" by fastforce
  have "fst (dedup_named_jobs ?db) = 1" by code_simp
  with d duplicates_collapse[OF ok d] show ?thesis by (simp add: Let_def)
qed

end
