(* ===== verification/Cron_Ops.thy ===== *)
theory Cron_Ops
  imports Cron_Dedup Command_Checks
begin

text \<open>
  The operations on cron jobs that a user reaches (\<open>cron/ops.rs\<close>) and the jobs every installation
  gets (\<open>cron/seed.rs\<close>).  A clock read is an argument, in the order of the reads.
\<close>

section \<open>One-shot jobs, pausing, editing\<close>

definition add_once_at ::
    "('c, 'z) time_lib \<Rightarrow> cron_codec \<Rightarrow> string \<Rightarrow> int \<Rightarrow> int \<Rightarrow> string \<Rightarrow> cron_db \<Rightarrow> (string + cron_job) \<times> cron_db" where
  "add_once_at L C uuid now due command db = add_shell_job L C uuid now None (Sched_At due) command db"

fun delay_error_text :: "delay_error \<Rightarrow> string" where
  "delay_error_text Delay_Empty = ''delay must not be empty''"
| "delay_error_text (Delay_Number n) =
     (if n = [] then ''cannot parse integer from empty string'' else ''number too large to fit in target type'')"
| "delay_error_text (Delay_Unit u) = ''unsupported delay unit '' @ [CHR 0x27] @ u @ [CHR 0x27] @ '', use s/m/h/d''"
| "delay_error_text Delay_Panic = ''panic''"

text \<open>Adding a duration beyond the last instant of the calendar panics as well.\<close>

definition add_once ::
    "('c, 'z) time_lib \<Rightarrow> cron_codec \<Rightarrow> string \<Rightarrow> int \<Rightarrow> int \<Rightarrow> string \<Rightarrow> string \<Rightarrow> cron_db \<Rightarrow>
     (delay_error + (string + cron_job)) \<times> cron_db" where
  "add_once L C uuid now1 now2 delay command db =
     (case parse_human_delay delay of
        Inl e \<Rightarrow> (Inl e, db)
      | Inr millis \<Rightarrow>
          (let due = now1 + millis * NANOS_PER_MS
           in if max_utc L < due then (Inl Delay_Panic, db)
              else (let (r, db') = add_once_at L C uuid now2 due command db in (Inr r, db'))))"

definition pause_job ::
    "('c, 'z) time_lib \<Rightarrow> cron_codec \<Rightarrow> string \<Rightarrow> cron_db \<Rightarrow> (string + cron_job) \<times> cron_db" where
  "pause_job L C jid db = update_job L C 0 0 jid (empty_cron_patch\<lparr>cp_enabled := Some False\<rparr>) db"

definition resume_job ::
    "('c, 'z) time_lib \<Rightarrow> cron_codec \<Rightarrow> string \<Rightarrow> cron_db \<Rightarrow> (string + cron_job) \<times> cron_db" where
  "resume_job L C jid db = update_job L C 0 0 jid (empty_cron_patch\<lparr>cp_enabled := Some True\<rparr>) db"

definition nothing_given_text :: string where
  "nothing_given_text = ''At least one of --expression, --tz, --command, or --name must be provided''"

definition non_cron_text :: string where
  "non_cron_text = ''Cannot update expression/tz on a non-cron schedule''"

definition command_blocked_text :: "string \<Rightarrow> string" where
  "command_blocked_text cmd = ''Command blocked by security policy: '' @ cmd"

text \<open>The schedule of an edit: what is given, and the rest of the schedule the job has.\<close>

definition merged_schedule ::
    "cron_codec \<Rightarrow> string \<Rightarrow> string option \<Rightarrow> string option \<Rightarrow> cron_db \<Rightarrow> string + schedule option" where
  "merged_schedule C jid expression tz db =
     (if expression = None \<and> tz = None then Inr None
      else case get_cron_job C jid db of
             Inl e \<Rightarrow> Inl e
           | Inr job \<Rightarrow>
               (case cj_schedule job of
                  Sched_Cron expr old_tz ah \<Rightarrow>
                    Inr (Some (Sched_Cron (or_keep expression expr) (if tz = None then old_tz else tz) ah))
                | _ \<Rightarrow> Inl non_cron_text))"

definition update_cron_job ::
    "('c, 'z) time_lib \<Rightarrow> cron_codec \<Rightarrow> security_policy \<Rightarrow> int \<Rightarrow> int \<Rightarrow> string \<Rightarrow> string option \<Rightarrow> string option \<Rightarrow>
     string option \<Rightarrow> string option \<Rightarrow> cron_db \<Rightarrow> (string + cron_job) \<times> cron_db" where
  "update_cron_job L C policy now1 now2 jid expression tz command name db =
     (if expression = None \<and> tz = None \<and> command = None \<and> name = None then (Inl nothing_given_text, db)
      else
        (case merged_schedule C jid expression tz db of
           Inl e \<Rightarrow> (Inl e, db)
         | Inr sched \<Rightarrow>
             (if is_some_and command (\<lambda>c. \<not> is_command_allowed policy c)
              then (Inl (command_blocked_text (the command)), db)
              else update_job L C now1 now2 jid
                     (empty_cron_patch\<lparr>cp_schedule := sched, cp_command := command, cp_name := name\<rparr>) db)))"

section \<open>The remote calls\<close>

definition cron_disabled_text :: string where
  "cron_disabled_text = ''cron is disabled by config (cron.enabled=false)''"

definition missing_id_text :: string where
  "missing_id_text = ''Missing '' @ [CHR 0x27] @ ''job_id'' @ [CHR 0x27] @ '' parameter''"

definition cron_list :: "cron_codec \<Rightarrow> bool \<Rightarrow> cron_db \<Rightarrow> string + cron_job list" where
  "cron_list C enabled db = (if \<not> enabled then Inl cron_disabled_text else list_jobs C db)"

definition cron_update ::
    "('c, 'z) time_lib \<Rightarrow> cron_codec \<Rightarrow> security_policy \<Rightarrow> bool \<Rightarrow> int \<Rightarrow> int \<Rightarrow> string \<Rightarrow> cron_patch \<Rightarrow> cron_db \<Rightarrow>
     (string + cron_job) \<times> cron_db" where
  "cron_update L C policy enabled now1 now2 jid patch db =
     (if trim jid = [] then (Inl missing_id_text, db)
      else if \<not> enabled then (Inl cron_disabled_text, db)
      else if is_some_and (cp_command patch) (\<lambda>c. \<not> is_command_allowed policy c)
      then (Inl (command_blocked_text (the (cp_command patch))), db)
      else update_job L C now1 now2 (trim jid) patch db)"

definition cron_remove :: "bool \<Rightarrow> string \<Rightarrow> cron_db \<Rightarrow> (string + unit) \<times> cron_db" where
  "cron_remove enabled jid db =
     (if trim jid = [] then (Inl missing_id_text, db)
      else if \<not> enabled then (Inl cron_disabled_text, db)
      else remove_job (trim jid) db)"

definition cron_runs :: "cron_codec \<Rightarrow> bool \<Rightarrow> string \<Rightarrow> nat option \<Rightarrow> cron_db \<Rightarrow> string + cron_run list" where
  "cron_runs C enabled jid limit db =
     (if trim jid = [] then Inl missing_id_text
      else if \<not> enabled then Inl cron_disabled_text
      else list_runs C (trim jid) (max (or_keep limit 20) 1) db)"

section \<open>Run now\<close>

text \<open>
  The identifiers in \<open>ACTIVE_RUNS\<close>, the tables, and the background tasks: the identifier a task's
  guard releases, and the job it was started with.
\<close>

record run_world =
  rw_active :: "string list"
  rw_db :: cron_db
  rw_tasks :: "(string \<times> cron_job) list"

definition already_running_text :: "string \<Rightarrow> string" where
  "already_running_text jid = ''cron job '' @ [CHR 0x27] @ jid @ [CHR 0x27] @ '' is already running''"

definition cron_run_call ::
    "cron_codec \<Rightarrow> nat \<Rightarrow> bool \<Rightarrow> int \<Rightarrow> string \<Rightarrow> run_world \<Rightarrow> (string + unit) \<times> run_world" where
  "cron_run_call C history enabled queued_at raw_id w =
     (let jid = trim raw_id
      in if jid = [] then (Inl missing_id_text, w)
         else if \<not> enabled then (Inl cron_disabled_text, w)
         else if jid \<in> set (rw_active w) then (Inl (already_running_text jid), w)
         else
           (let w' = w\<lparr>rw_active := jid # rw_active w\<rparr>
            in case get_cron_job C jid (rw_db w') of
                 Inl e \<Rightarrow> (Inl e, w'\<lparr>rw_active := removeAll jid (rw_active w')\<rparr>)
               | Inr job \<Rightarrow>
                   (Inr (), w'\<lparr>rw_db := snd (record_run C history (cj_id job) queued_at queued_at ''queued'' None 0 (rw_db w')),
                               rw_tasks := rw_tasks w' @ [(jid, job)]\<rparr>)))"

text \<open>
  What a task writes when its job has run; between the three writes other operations may
  happen, and the guard is dropped after the delivery.
\<close>

definition finish_run ::
    "cron_codec \<Rightarrow> nat \<Rightarrow> int \<Rightarrow> int \<Rightarrow> int \<Rightarrow> bool \<Rightarrow> string \<Rightarrow> cron_job \<Rightarrow> cron_db \<Rightarrow> cron_db" where
  "finish_run C history started finished duration_ms success output job db =
     (let db1 = snd (delete_queued_runs (cj_id job) db);
          db2 = snd (record_run C history (cj_id job) started finished (status_text success) (Some output) duration_ms db1)
      in record_last_run C (cj_id job) finished success output db2)"

definition drop_guard :: "string \<Rightarrow> run_world \<Rightarrow> run_world" where
  "drop_guard jid w = w\<lparr>rw_active := removeAll jid (rw_active w)\<rparr>"

text \<open>
  The steps: a call; a task that ends, in any order, with any result or by a panic; and
  everything else that touches the tables.
\<close>

inductive run_step :: "cron_codec \<Rightarrow> nat \<Rightarrow> run_world \<Rightarrow> run_world \<Rightarrow> bool" for C history where
  call: "run_step C history w (snd (cron_run_call C history enabled t raw_id w))"
| finished: "rw_tasks w = ts @ (jid, job) # us \<Longrightarrow>
    run_step C history w (drop_guard jid (w\<lparr>rw_tasks := ts @ us,
      rw_db := finish_run C history st fin ms ok out job (rw_db w)\<rparr>))"
| aborted: "rw_tasks w = ts @ (jid, job) # us \<Longrightarrow>
    run_step C history w (drop_guard jid (w\<lparr>rw_tasks := ts @ us\<rparr>))"
| other: "run_step C history w (w\<lparr>rw_db := db\<rparr>)"

section \<open>The jobs of every installation\<close>

definition MORNING_BRIEFING_JOB_NAME :: string where "MORNING_BRIEFING_JOB_NAME = ''morning_briefing''"
definition LEGACY_WELCOME_JOB_NAME :: string where "LEGACY_WELCOME_JOB_NAME = ''welcome''"

definition proactive_delivery :: delivery_config where
  "proactive_delivery = \<lparr>dc_mode = ''proactive'', dc_channel = None, dc_to = None, dc_best_effort = True\<rparr>"

definition briefing_prompt :: string where
  "briefing_prompt =
     ''You are the morning briefing agent. Prepare a concise morning '' @
     ''summary for the user. Review their calendar, tasks, emails, and '' @
     ''any relevant context from connected integrations. Deliver a warm, '' @
     ''efficient briefing they can scan in 30 seconds over coffee.''"

definition briefing_spec :: agent_job_spec where
  "briefing_spec =
     \<lparr>aj_name = Some MORNING_BRIEFING_JOB_NAME, aj_schedule = Sched_Cron ''0 7 * * *'' None None,
      aj_prompt = briefing_prompt, aj_session_target = Target_Isolated, aj_model = None,
      aj_delivery = Some proactive_delivery, aj_delete_after_run = False,
      aj_agent_id = Some MORNING_BRIEFING_JOB_NAME\<rparr>"

definition seed_morning_briefing ::
    "('c, 'z) time_lib \<Rightarrow> cron_codec \<Rightarrow> string \<Rightarrow> int \<Rightarrow> cron_db \<Rightarrow> (string + unit) \<times> cron_db" where
  "seed_morning_briefing L C uuid now db =
     (case add_agent_job_with_definition L C uuid now briefing_spec db of
        (Inl e, db') \<Rightarrow> (Inl e, db')
      | (Inr _, db') \<Rightarrow> (Inr (), db'))"

definition prune_legacy_welcome :: "cron_job list \<Rightarrow> cron_db \<Rightarrow> cron_db" where
  "prune_legacy_welcome existing db =
     foldl (\<lambda>db jid. snd (remove_job jid db)) db
       (map cj_id (filter (\<lambda>j. cj_name j = Some LEGACY_WELCOME_JOB_NAME) existing))"

definition seed_proactive_agents ::
    "('c, 'z) time_lib \<Rightarrow> cron_codec \<Rightarrow> string \<Rightarrow> int \<Rightarrow> cron_db \<Rightarrow> (string + unit) \<times> cron_db" where
  "seed_proactive_agents L C uuid now db =
     (let db1 = snd (dedup_named_jobs db)
      in case list_jobs C db1 of
           Inl e \<Rightarrow> (Inl e, db1)
         | Inr existing \<Rightarrow>
             (let db2 = prune_legacy_welcome existing db1
              in if list_ex (\<lambda>j. cj_name j = Some MORNING_BRIEFING_JOB_NAME) existing then (Inr (), db2)
                 else seed_morning_briefing L C uuid now db2))"

end
