(* ===== verification/Cron_Ops_Facts.thy ===== *)
theory Cron_Ops_Facts
  imports Cron_Ops
begin

text \<open>
  What the operations on cron jobs guarantee: a job runs at most once at a time on request, and
  seeding leaves exactly one briefing, however often it is done.
\<close>

section \<open>Run now\<close>

inductive run_reach :: "cron_codec \<Rightarrow> nat \<Rightarrow> run_world \<Rightarrow> bool" for C history where
  start: "run_reach C history \<lparr>rw_active = [], rw_db = db, rw_tasks = []\<rparr>"
| step: "run_reach C history w \<Longrightarrow> run_step C history w w' \<Longrightarrow> run_reach C history w'"

definition guarded :: "run_world \<Rightarrow> bool" where
  "guarded w = (distinct (map fst (rw_tasks w)) \<and> set (rw_active w) = fst ` set (rw_tasks w)
     \<and> (\<forall>(jid, job) \<in> set (rw_tasks w). jid \<noteq> [] \<and> cj_id job = jid))"

lemma get_cron_job_id: "get_cron_job C jid db = Inr job \<Longrightarrow> cj_id job = jid"
  by (auto simp: get_cron_job_def map_row_Inr(1) find_Some_iff split: option.splits)

lemma cron_run_call_guarded:
  assumes "guarded w"
  shows "guarded (snd (cron_run_call C history enabled t raw_id w))"
proof -
  have "removeAll jid (rw_active w) = rw_active w" if "jid \<notin> set (rw_active w)" for jid
    using that by (simp add: removeAll_id)
  then show ?thesis
    using assms get_cron_job_id by (auto simp: cron_run_call_def guarded_def Let_def split: sum.splits)
qed

lemma drop_guard_guarded:
  assumes "guarded w" and "rw_tasks w = ts @ (jid, job) # us"
  shows "guarded (drop_guard jid (w\<lparr>rw_tasks := ts @ us, rw_db := db\<rparr>))"
  using assms unfolding guarded_def drop_guard_def by (simp add: image_Un)

lemma run_step_guarded: "run_step C history w w' \<Longrightarrow> guarded w \<Longrightarrow> guarded w'"
proof (induction rule: run_step.induct)
  case (call w enabled t raw_id)
  then show ?case by (rule cron_run_call_guarded)
next
  case (finished w ts jid job us st fin ms ok out)
  then show ?case by (intro drop_guard_guarded)
next
  case (aborted w ts jid job us)
  then show ?case using drop_guard_guarded[of w ts jid job us "rw_db w"] by simp
next
  case (other w db)
  then show ?case by (simp add: guarded_def)
qed

text \<open>C26. However calls, ends of tasks, panics and other writes interleave, at most one background run
  of a job is under way, the job it was asked for; while it is, a further call is refused and
  changes nothing; and once none is, no identifier stays locked.
\<close>

theorem run_now_is_exclusive:
  assumes "run_reach C history w"
  shows "distinct (map (cj_id \<circ> snd) (rw_tasks w)) \<and> set (rw_active w) = cj_id ` snd ` set (rw_tasks w)
    \<and> (\<forall>job \<in> snd ` set (rw_tasks w). \<forall>raw_id t. trim raw_id = cj_id job \<longrightarrow>
         cron_run_call C history True t raw_id w = (Inl (already_running_text (cj_id job)), w))"
proof -
  have g: "guarded w" using assms
  proof induction
    case (start db)
    show ?case by (simp add: guarded_def)
  next
    case (step w w')
    then show ?case by (blast intro: run_step_guarded)
  qed
  have eq: "map (cj_id \<circ> snd) (rw_tasks w) = map fst (rw_tasks w)"
    using g by (auto simp: guarded_def)
  then have set_eq: "cj_id ` snd ` set (rw_tasks w) = fst ` set (rw_tasks w)"
    by (metis image_comp image_set list.set_map)
  have "cron_run_call C history True t raw_id w = (Inl (already_running_text (cj_id job)), w)"
    if job: "job \<in> snd ` set (rw_tasks w)" "trim raw_id = cj_id job" for job raw_id t
  proof -
    obtain jid where task: "(jid, job) \<in> set (rw_tasks w)" using job(1) by auto
    have active: "set (rw_active w) = fst ` set (rw_tasks w)"
      and all: "\<forall>(jid, job) \<in> set (rw_tasks w). jid \<noteq> [] \<and> cj_id job = jid"
      using g unfolding guarded_def by blast+
    have "cj_id job = jid" "jid \<noteq> []" using bspec[OF all task] by simp_all
    moreover have "jid \<in> set (rw_active w)" unfolding active using task by (rule image_eqI[rotated]) simp
    ultimately have "cj_id job \<in> set (rw_active w)" "cj_id job \<noteq> []" by simp_all
    then show ?thesis using job(2) by (simp add: cron_run_call_def)
  qed
  moreover have "distinct (map (cj_id \<circ> snd) (rw_tasks w))"
    unfolding eq using g unfolding guarded_def by blast
  moreover have "set (rw_active w) = cj_id ` snd ` set (rw_tasks w)"
    unfolding set_eq using g unfolding guarded_def by blast
  ultimately show ?thesis by blast
qed

theorem run_now_is_exclusive_witness:
  "let w = snd (cron_run_call demo_cron_codec 3 True 9 ''b'' \<lparr>rw_active = [], rw_db = demo_db, rw_tasks = []\<rparr>)
   in set (rw_active w) = {''b''} \<and>
      cron_run_call demo_cron_codec 3 True 9 ''b'' w = (Inl (already_running_text ''b''), w)"
proof -
  let ?w0 = "\<lparr>rw_active = [], rw_db = demo_db, rw_tasks = []\<rparr>"
  let ?w = "snd (cron_run_call demo_cron_codec 3 True 9 ''b'' ?w0)"
  have "run_reach demo_cron_codec 3 ?w"
    by (rule run_reach.step[OF run_reach.start[of _ _ demo_db] run_step.call])
  note x = run_now_is_exclusive[OF this]
  have t: "trim ''b'' = ''b''" by code_simp
  have get: "get_cron_job demo_cron_codec ''b'' demo_db = Inr (demo_job ''b'' 5)"
    using demo_row_reads[of 5 "''b''"] by (simp add: get_cron_job_def demo_db_def demo_row_def shell_row_def)
  then have "rw_tasks ?w = [(''b'', demo_job ''b'' 5)]"
    by (simp add: cron_run_call_def t Let_def)
  with x t show ?thesis by (simp add: demo_job_def Let_def)
qed

section \<open>Seeding\<close>

lemma list_jobs_rows:
  assumes "list_jobs C db = Inr jobs"
  shows "\<And>r. r \<in> set (db_jobs db) \<Longrightarrow> \<exists>job \<in> set jobs. map_cron_job_row C r = Inr job"
    "\<And>job. job \<in> set jobs \<Longrightarrow> \<exists>r \<in> set (db_jobs db). map_cron_job_row C r = Inr job"
proof -
  have all: "list_all2 (\<lambda>r job. map_cron_job_row C r = Inr job) (sort_key cr_next_run (db_jobs db)) jobs"
    using assms by (simp add: list_jobs_def collect_list_all2)
  have len: "length (sort_key cr_next_run (db_jobs db)) = length jobs" using all by (rule list_all2_lengthD)
  show "\<exists>job \<in> set jobs. map_cron_job_row C r = Inr job" if r: "r \<in> set (db_jobs db)" for r
  proof -
    have "r \<in> set (sort_key cr_next_run (db_jobs db))" using r by simp
    then obtain i where i: "i < length jobs" "sort_key cr_next_run (db_jobs db) ! i = r"
      unfolding in_set_conv_nth len by blast
    then show ?thesis using list_all2_nthD2[OF all i(1)] by (intro bexI[of _ "jobs ! i"]) auto
  qed
  show "\<exists>r \<in> set (db_jobs db). map_cron_job_row C r = Inr job" if job: "job \<in> set jobs" for job
  proof -
    obtain i where i: "i < length jobs" "jobs ! i = job" using job unfolding in_set_conv_nth by blast
    have "sort_key cr_next_run (db_jobs db) ! i \<in> set (sort_key cr_next_run (db_jobs db))"
      using i(1) len by (intro nth_mem) simp
    then have "sort_key cr_next_run (db_jobs db) ! i \<in> set (db_jobs db)" by simp
    then show ?thesis using list_all2_nthD2[OF all i(1)] i(2) by blast
  qed
qed

lemma list_jobs_ok:
  assumes "\<And>r. r \<in> set (db_jobs db) \<Longrightarrow> \<exists>job. map_cron_job_row C r = Inr job"
  shows "\<exists>jobs. list_jobs C db = Inr jobs"
proof -
  have "\<exists>jobs. collect (map_cron_job_row C) rs = Inr jobs" if "set rs \<subseteq> set (db_jobs db)" for rs
    using that
  proof (induction rs)
    case (Cons r rs)
    then show ?case using assms[of r] by auto
  qed simp
  then show ?thesis by (simp add: list_jobs_def)
qed

lemma map_row_name: "map_cron_job_row C r = Inr job \<Longrightarrow> cj_name job = cr_name r"
  by (auto simp: map_cron_job_row_def split: sum.splits option.splits)

lemma prune_rows:
  "db_jobs (foldl (\<lambda>db jid. snd (remove_job jid db)) db jids) = filter (\<lambda>r. cr_id r \<notin> set jids) (db_jobs db)"
  by (induction jids arbitrary: db)
    (auto simp: remove_job_def delete_jobs_def Let_def intro!: filter_cong)

lemma dedup_few: "(\<And>n. length (named db n) \<le> 1) \<Longrightarrow> dedup_named_jobs db = (0, db)"
  by (simp add: dedup_named_jobs_def duplicated_names_def Let_def count_names not_less filter_empty_conv)

lemma dedup_names:
  assumes "cron_ok db"
  shows "length (named (snd (dedup_named_jobs db)) n) \<le> 1"
proof -
  let ?db = "snd (dedup_named_jobs db)"
  obtain removed where d: "dedup_named_jobs db = (removed, ?db)" by (metis prod.collapse)
  note c = dedup_collapses[OF assms d]
  show ?thesis
  proof (cases "named ?db n")
    case (Cons r rs)
    then have "r \<in> set (named ?db n)" by simp
    then have "r \<in> set (db_jobs db)" "cr_name r = Some n" using c by (auto simp: named_def)
    then obtain k where "named ?db n = [k]" using c unfolding named_def by blast
    then show ?thesis by simp
  qed simp
qed

lemma prune_legacy_rows:
  assumes "cron_ok db" and "list_jobs C db = Inr existing"
  shows "db_jobs (prune_legacy_welcome existing db) =
    filter (\<lambda>r. cr_name r \<noteq> Some LEGACY_WELCOME_JOB_NAME) (db_jobs db)"
proof -
  let ?stale = "set (map cj_id (filter (\<lambda>j. cj_name j = Some LEGACY_WELCOME_JOB_NAME) existing))"
  have "cr_id r \<in> ?stale \<longleftrightarrow> cr_name r = Some LEGACY_WELCOME_JOB_NAME" if r: "r \<in> set (db_jobs db)" for r
  proof
    assume "cr_id r \<in> ?stale"
    then obtain job where job: "job \<in> set existing" "cj_name job = Some LEGACY_WELCOME_JOB_NAME" "cj_id job = cr_id r"
      by auto
    then obtain r' where r': "r' \<in> set (db_jobs db)" "map_cron_job_row C r' = Inr job"
      using list_jobs_rows(2)[OF assms(2)] by blast
    then have "r = r'" using distinct_ids_eq[OF assms(1) r r'(1)] job(3) map_row_Inr(1) by metis
    then show "cr_name r = Some LEGACY_WELCOME_JOB_NAME" using map_row_name[OF r'(2)] job(2) by simp
  next
    assume name: "cr_name r = Some LEGACY_WELCOME_JOB_NAME"
    obtain job where "job \<in> set existing" "map_cron_job_row C r = Inr job"
      using list_jobs_rows(1)[OF assms(2) r] by blast
    then show "cr_id r \<in> ?stale" using name map_row_name[of C r job] map_row_Inr(1)[of C r job] by force
  qed
  then show ?thesis unfolding prune_legacy_welcome_def prune_rows by (intro filter_cong refl) blast
qed

lemma seed_again:
  assumes "\<And>n. length (named db n) \<le> 1" and "\<And>r. r \<in> set (db_jobs db) \<Longrightarrow> \<exists>job. map_cron_job_row C r = Inr job"
    and "named db LEGACY_WELCOME_JOB_NAME = []" and "named db MORNING_BRIEFING_JOB_NAME = [k]"
  shows "seed_proactive_agents L C uuid now db = (Inr (), db)"
proof -
  obtain jobs where jobs: "list_jobs C db = Inr jobs" using list_jobs_ok[OF assms(2)] by blast
  have "cj_name job \<noteq> Some LEGACY_WELCOME_JOB_NAME" if "job \<in> set jobs" for job
    using list_jobs_rows(2)[OF jobs that] assms(3) map_row_name by (fastforce simp: named_def filter_empty_conv)
  then have "filter (\<lambda>j. cj_name j = Some LEGACY_WELCOME_JOB_NAME) jobs = []" by (simp add: filter_empty_conv)
  then have "prune_legacy_welcome jobs db = db" by (simp add: prune_legacy_welcome_def)
  moreover have "k \<in> set (named db MORNING_BRIEFING_JOB_NAME)" using assms(4) by simp
  then have "k \<in> set (db_jobs db)" "cr_name k = Some MORNING_BRIEFING_JOB_NAME" by (simp_all add: named_def)
  then have "list_ex (\<lambda>j. cj_name j = Some MORNING_BRIEFING_JOB_NAME) jobs"
    using list_jobs_rows(1)[OF jobs] map_row_name by (fastforce simp: list_ex_iff)
  ultimately show ?thesis
    using jobs by (simp add: seed_proactive_agents_def dedup_few[OF assms(1)])
qed

lemma seeded_rows:
  assumes "cron_ok db" and "seed_proactive_agents L C uuid now db = (Inr (), db')"
  shows "(\<forall>n. length (named db' n) \<le> 1) \<and> (\<forall>r \<in> set (db_jobs db'). \<exists>job. map_cron_job_row C r = Inr job)
    \<and> named db' LEGACY_WELCOME_JOB_NAME = [] \<and> (\<exists>k. named db' MORNING_BRIEFING_JOB_NAME = [k])"
proof -
  define db1 where "db1 = snd (dedup_named_jobs db)"
  have ok1: "cron_ok db1" unfolding db1_def dedup_pruned[OF assms(1)]
    using assms(1) by (auto simp: cron_ok_def pruned_def ids_def distinct_map_filter)
  have few1: "length (named db1 n) \<le> 1" for n unfolding db1_def by (rule dedup_names[OF assms(1)])
  obtain jobs where jobs: "list_jobs C db1 = Inr jobs"
    using assms(2) by (auto simp: seed_proactive_agents_def Let_def db1_def split: sum.splits)
  define db2 where "db2 = prune_legacy_welcome jobs db1"
  have rows2: "db_jobs db2 = filter (\<lambda>r. cr_name r \<noteq> Some LEGACY_WELCOME_JOB_NAME) (db_jobs db1)"
    unfolding db2_def by (rule prune_legacy_rows[OF ok1 jobs])
  have named2: "named db2 n = (if n = LEGACY_WELCOME_JOB_NAME then [] else named db1 n)" for n
    by (auto simp: named_def rows2 filter_empty_conv intro!: filter_cong)
  have read2: "\<exists>job. map_cron_job_row C r = Inr job" if "r \<in> set (db_jobs db2)" for r
    using list_jobs_rows(1)[OF jobs, of r] that by (auto simp: rows2)
  have neq: "MORNING_BRIEFING_JOB_NAME \<noteq> LEGACY_WELCOME_JOB_NAME"
    by (simp add: MORNING_BRIEFING_JOB_NAME_def LEGACY_WELCOME_JOB_NAME_def)
  show ?thesis
  proof (cases "list_ex (\<lambda>j. cj_name j = Some MORNING_BRIEFING_JOB_NAME) jobs")
    case True
    then have db': "db' = db2"
      using assms(2) jobs by (simp add: seed_proactive_agents_def db1_def db2_def)
    obtain job where job: "job \<in> set jobs" "cj_name job = Some MORNING_BRIEFING_JOB_NAME"
      using True by (auto simp: list_ex_iff)
    obtain r where r: "r \<in> set (db_jobs db1)" "map_cron_job_row C r = Inr job"
      using list_jobs_rows(2)[OF jobs job(1)] by blast
    have "cr_name r = Some MORNING_BRIEFING_JOB_NAME" using map_row_name[OF r(2)] job(2) by simp
    then have "named db1 MORNING_BRIEFING_JOB_NAME \<noteq> []" using r(1) by (auto simp: named_def filter_empty_conv)
    then obtain k where "named db1 MORNING_BRIEFING_JOB_NAME = [k]"
      using few1[of MORNING_BRIEFING_JOB_NAME] by (cases "named db1 MORNING_BRIEFING_JOB_NAME") auto
    then show ?thesis using few1 read2 neq by (simp add: db' named2)
  next
    case False
    then have "seed_morning_briefing L C uuid now db2 = (Inr (), db')"
      using assms(2) jobs by (simp add: seed_proactive_agents_def db1_def db2_def)
    then obtain job nxt where add: "db' = db2\<lparr>db_jobs := db_jobs db2 @ [agent_row C uuid now nxt briefing_spec]\<rparr>"
      and get: "get_cron_job C uuid db' = Inr job" and new: "uuid \<notin> set (ids db2)"
      by (auto simp: seed_morning_briefing_def add_agent_job_with_definition_def insert_row_def agent_row_def
          split: prod.splits sum.splits if_splits)
    let ?r = "agent_row C uuid now nxt briefing_spec"
    have r: "cr_id ?r = uuid" "cr_name ?r = Some MORNING_BRIEFING_JOB_NAME"
      by (simp_all add: agent_row_def briefing_spec_def)
    have "find (\<lambda>r. cr_id r = uuid) (rs @ [?r]) = Some ?r" if "uuid \<notin> set (map cr_id rs)" for rs
      using that r(1) by (induction rs) auto
    then have read: "\<exists>job. map_cron_job_row C ?r = Inr job"
      using get new by (simp add: get_cron_job_def add ids_def)
    have none: "named db1 MORNING_BRIEFING_JOB_NAME = []"
    proof (rule ccontr)
      assume "named db1 MORNING_BRIEFING_JOB_NAME \<noteq> []"
      then obtain k where k: "k \<in> set (db_jobs db1)" "cr_name k = Some MORNING_BRIEFING_JOB_NAME"
        by (auto simp: named_def filter_empty_conv)
      obtain job where "job \<in> set jobs" "map_cron_job_row C k = Inr job" using list_jobs_rows(1)[OF jobs k(1)] by blast
      then show False using False map_row_name[of C k job] k(2) by (auto simp: list_ex_iff)
    qed
    have named': "named db' n = named db2 n @ (if n = MORNING_BRIEFING_JOB_NAME then [?r] else [])" for n
      using r(2) by (simp add: named_def add)
    show ?thesis using few1 read2 read none neq by (simp add: named' named2) (simp add: add)
  qed
qed

text \<open>Seeding that succeeds leaves exactly one morning briefing and no legacy welcome job, whatever
  duplicates and leftovers there were; seeding again succeeds and changes nothing.
\<close>

theorem seeding_is_idempotent:
  assumes "cron_ok db" and "seed_proactive_agents L C uuid now db = (Inr (), db')"
  shows "length (filter (\<lambda>r. cr_name r = Some MORNING_BRIEFING_JOB_NAME) (db_jobs db')) = 1
    \<and> filter (\<lambda>r. cr_name r = Some LEGACY_WELCOME_JOB_NAME) (db_jobs db') = []
    \<and> seed_proactive_agents L C uuid' now' db' = (Inr (), db')"
proof -
  note s = seeded_rows[OF assms]
  then obtain k where "named db' MORNING_BRIEFING_JOB_NAME = [k]" by blast
  then show ?thesis using s seed_again[of db' C k] by (simp add: named_def)
qed

theorem seeding_is_idempotent_witness:
  "let r = \<lambda>jid name. demo_row jid 5\<lparr>cr_name := Some name\<rparr>;
       db = empty_cron_db\<lparr>db_jobs := [r ''a'' ''welcome'', r ''b'' ''morning_briefing'']\<rparr>;
       db' = snd (seed_proactive_agents demo_lib demo_cron_codec ''u'' 0 db)
   in length (filter (\<lambda>r. cr_name r = Some MORNING_BRIEFING_JOB_NAME) (db_jobs db')) = 1
    \<and> seed_proactive_agents demo_lib demo_cron_codec ''v'' 9 db' = (Inr (), db')"
proof -
  let ?r = "\<lambda>jid name. demo_row jid 5\<lparr>cr_name := Some name\<rparr>"
  let ?db = "empty_cron_db\<lparr>db_jobs := [?r ''a'' ''welcome'', ?r ''b'' ''morning_briefing'']\<rparr>"
  let ?s = "seed_proactive_agents demo_lib demo_cron_codec ''u'' 0 ?db"
  have ok: "cron_ok ?db"
    by (simp add: cron_ok_def ids_def empty_cron_db_def demo_row_def shell_row_def)
  have read: "map_cron_job_row demo_cron_codec (?r jid name) = Inr (demo_job jid 5\<lparr>cj_name := Some name\<rparr>)" for jid name
    using demo_row_reads[of 5 jid] by (auto simp: map_cron_job_row_def demo_job_def split: sum.splits)
  then have jobs: "list_jobs demo_cron_codec ?db =
      Inr [demo_job ''a'' 5\<lparr>cj_name := Some ''welcome''\<rparr>, demo_job ''b'' 5\<lparr>cj_name := Some ''morning_briefing''\<rparr>]"
    by (simp add: list_jobs_def demo_row_def shell_row_def)
  have "dedup_named_jobs ?db = (0, ?db)" by (rule dedup_few) (auto simp: named_def)
  then have "fst ?s = Inr ()"
    using jobs by (simp add: seed_proactive_agents_def MORNING_BRIEFING_JOB_NAME_def demo_job_def)
  then have "?s = (Inr (), snd ?s)" by (metis prod.collapse)
  from seeding_is_idempotent[OF ok this, of "''v''" 9] show ?thesis by (simp add: Let_def)
qed

end
