(* ===== verification/Provider_Errors.thy ===== *)
theory Provider_Errors
  imports Rust_Text Conversation
begin

text \<open>
  The errors of inference providers: what is scrubbed from their text
  (\<open>inference/provider/ops/sanitize.rs\<close>), how a response with an error status is reported
  (\<open>ops/http_error.rs\<close>, \<open>error_code.rs\<close>, \<open>config_rejection.rs\<close>, \<open>billing_error.rs\<close>), and how the
  reliable provider tells errors that a retry may help from those it cannot (the classifiers of
  \<open>reliable.rs\<close>).  The Unicode case table and the regular expression of the structured status are
  parameters.
\<close>

section \<open>Scrubbing\<close>

definition MAX_API_ERROR_CHARS :: nat where "MAX_API_ERROR_CHARS = 200"
definition TRANSPORT_ERROR_MAX_CHARS :: nat where "TRANSPORT_ERROR_MAX_CHARS = 1200"

definition is_secret_char :: "char \<Rightarrow> bool" where
  "is_secret_char c = (is_ascii_alphanumeric c \<or> c \<in> set ''-_.:'')"

definition SECRET_PREFIXES :: "string list" where
  "SECRET_PREFIXES = [''sk-'', ''xoxb-'', ''xoxp-'', ''ghp_'', ''gho_'', ''ghu_'', ''github_pat_'']"

definition REDACTED :: string where "REDACTED = ''[REDACTED]''"

text \<open>The loop over the occurrences of one prefix, from the end of the last one on.\<close>

function scrub_prefix :: "string \<Rightarrow> string \<Rightarrow> string" where
  "scrub_prefix p s =
     (if p = [] then s
      else case split_at_sub p s of
             None \<Rightarrow> s
           | Some (before, rest) \<Rightarrow>
               (let token = takeWhile is_secret_char rest
                in if token = [] then before @ p @ scrub_prefix p rest
                   else before @ REDACTED @ scrub_prefix p (dropWhile is_secret_char rest)))"
  by pat_completeness auto
termination
proof (relation "measure (\<lambda>(p, s). length s)", simp, goal_cases)
  case (1 p s x before rest token)
  then show ?case by (auto dest!: split_at_sub_Some)
next
  case (2 p s x before rest token)
  then have "length rest < length s" by (auto dest!: split_at_sub_Some)
  then show ?case using length_dropWhile_le[of is_secret_char rest] by simp
qed

declare scrub_prefix.simps [simp del]

definition scrub_secret_patterns :: "string \<Rightarrow> string" where
  "scrub_secret_patterns input = foldl (\<lambda>s p. scrub_prefix p s) input SECRET_PREFIXES"

definition sanitize_api_error :: "string \<Rightarrow> string" where
  "sanitize_api_error input = truncate_with_ellipsis (scrub_secret_patterns input) MAX_API_ERROR_CHARS"

text \<open>The messages of an error and of its sources, outermost first.\<close>

definition format_chain :: "string list \<Rightarrow> string" where
  "format_chain messages =
     truncate_with_suffix (scrub_secret_patterns (join_with '' | '' messages)) TRANSPORT_ERROR_MAX_CHARS ellipsis"

section \<open>Phrases in a body\<close>

definition lower_mentions :: "string list \<Rightarrow> string \<Rightarrow> bool" where
  "lower_mentions phrases body = list_ex (\<lambda>p. sublist p (to_ascii_lowercase body)) phrases"

definition is_budget_exhausted_message :: "string \<Rightarrow> bool" where
  "is_budget_exhausted_message =
     lower_mentions [''insufficient budget'', ''budget exceeded'', ''add credits'', ''insufficient balance'']"

definition CONFIG_REJECTION_PHRASES :: "string list" where
  "CONFIG_REJECTION_PHRASES =
     [''supported api model names are'', ''/openai/v1/models'', ''does not exist or you do not have access'',
      ''model_not_found'', ''invalid temperature'', ''only 1 is allowed for this model'', ''is an abstract tier'',
      ''not available in your region'', ''modelnotallowed'', ''invalid_authentication_error'',
      ''requires more credits'', ''insufficient balance'', ''invalid model name passed in model='',
      ''no active credentials for provider'', ''litellm.badrequesterror'', ''not_found_error'',
      ''model field is required'', ''thinking mode must be passed back'',
      ''requires a subscription, upgrade for access'', ''may not be available on your provider'',
      ''reliability.model_fallbacks'', ''does not support tools'', ''does not support chat'']"

definition is_provider_config_rejection_message :: "string \<Rightarrow> bool" where
  "is_provider_config_rejection_message = lower_mentions CONFIG_REJECTION_PHRASES"

definition is_openai_compatible_unknown_model_message :: "string \<Rightarrow> bool" where
  "is_openai_compatible_unknown_model_message = lower_mentions [''/openai/v1/models'']"

definition CONTEXT_HINTS :: "string list" where
  "CONTEXT_HINTS =
     [''exceeds the context window'', ''context window of this model'', ''maximum context length'',
      ''context length exceeded'', ''context size has been exceeded'', ''prompt is too long'', ''input is too long'']"

definition TOKEN_HINTS :: "string list" where
  "TOKEN_HINTS = [''too many tokens'', ''token limit exceeded'']"

definition RATE_LIMIT_MARKERS :: "string list" where
  "RATE_LIMIT_MARKERS =
     [''per minute'', ''per min'', ''rate limit'', ''rate_limit'', ''tpm'', ''requests per'', ''retry after'', ''try again in'']"

definition is_context_window_exceeded_message :: "string \<Rightarrow> bool" where
  "is_context_window_exceeded_message body =
     (if lower_mentions CONTEXT_HINTS body then True
      else if lower_mentions TOKEN_HINTS body then \<not> lower_mentions RATE_LIMIT_MARKERS body
      else False)"

definition is_session_expired_message :: "string \<Rightarrow> bool" where
  "is_session_expired_message msg =
     (let lower = to_ascii_lowercase msg;
          invalid = [CHR 0x22] @ ''error'' @ [CHR 0x22, CHR '':'', CHR 0x22] @ ''Invalid token'' @ [CHR 0x22]
      in sublist ''session expired'' lower \<or> sublist ''no backend session token'' lower
         \<or> sublist ''session jwt required'' lower \<or> sublist ''SESSION_EXPIRED'' msg
         \<or> (sublist ''OpenHuman API error (401'' msg \<and> sublist invalid msg)
         \<or> (sublist ''Embedding API error (401'' msg \<and> sublist invalid msg)
         \<or> (sublist ''OpenHuman streaming API error (401'' msg \<and> sublist invalid msg))"

section \<open>The backend's error codes\<close>

definition PROVIDER_LABEL :: string where "PROVIDER_LABEL = ''OpenHuman''"

datatype backend_error_code =
  Rate_Limited | User_Insufficient_Credits | Upstream_Unavailable | Model_Unavailable | Payload_Too_Large
| Context_Length_Exceeded | Bad_Request | Internal_Error

definition error_code_from_token :: "string \<Rightarrow> backend_error_code option" where
  "error_code_from_token = map_of
     [(''RATE_LIMITED'', Rate_Limited), (''USER_INSUFFICIENT_CREDITS'', User_Insufficient_Credits),
      (''UPSTREAM_UNAVAILABLE'', Upstream_Unavailable), (''MODEL_UNAVAILABLE'', Model_Unavailable),
      (''PAYLOAD_TOO_LARGE'', Payload_Too_Large), (''CONTEXT_LENGTH_EXCEEDED'', Context_Length_Exceeded),
      (''BAD_REQUEST'', Bad_Request), (''INTERNAL_ERROR'', Internal_Error)]"

definition json_quoted :: "string \<Rightarrow> string" where "json_quoted s = CHR 0x22 # s @ [CHR 0x22]"

definition is_ascii_whitespace :: "char \<Rightarrow> bool" where
  "is_ascii_whitespace c = (byte c \<in> {0x20, 0x09, 0x0A, 0x0C, 0x0D})"

text \<open>
  What follows a key in a body: the text after its first occurrence, in whatever case, without
  the blanks and colons.  Lowering ASCII letters keeps the positions.
\<close>

definition after_key :: "string \<Rightarrow> string \<Rightarrow> string option" where
  "after_key key body =
     map_option (\<lambda>(before, _). dropWhile (\<lambda>c. is_ascii_whitespace c \<or> c = CHR '':'') (drop (length before + length key) body))
       (split_at_sub key (to_ascii_lowercase body))"

definition extract_backend_error_code_token :: "string \<Rightarrow> string option" where
  "extract_backend_error_code_token err =
     (case after_key (json_quoted ''errorcode'') err of
        Some (CHR 0x22 # stripped) \<Rightarrow>
          (case split_once (CHR 0x22) stripped of
             None \<Rightarrow> None
           | Some (value, _) \<Rightarrow>
               (let token = to_ascii_uppercase (trim value) in if token = [] then None else Some token))
      | _ \<Rightarrow> None)"

definition extract_backend_error_code :: "string \<Rightarrow> backend_error_code option" where
  "extract_backend_error_code err = Option.bind (extract_backend_error_code_token err) error_code_from_token"

definition is_managed_backend_envelope :: "string \<Rightarrow> bool" where
  "is_managed_backend_envelope err =
     (let label = to_ascii_lowercase PROVIDER_LABEL; lower = to_ascii_lowercase err
      in sublist (label @ '' api error'') lower \<or> sublist (label @ '' streaming api error'') lower)"

definition body_flags_malformed :: "string \<Rightarrow> bool" where
  "body_flags_malformed err =
     is_some_and (after_key (json_quoted ''malformed'') err) (\<lambda>rest. prefix ''true'' (to_ascii_lowercase rest))"

definition is_backend_malformed_bad_request :: "string \<Rightarrow> bool" where
  "is_backend_malformed_bad_request err =
     (extract_backend_error_code err = Some Bad_Request \<and> body_flags_malformed err)"

definition is_backend_client_guard_leak :: "string \<Rightarrow> bool" where
  "is_backend_client_guard_leak err =
     (extract_backend_error_code err \<in> {Some Payload_Too_Large, Some Context_Length_Exceeded})"

definition backend_error_code_skips_sentry :: "string \<Rightarrow> bool" where
  "backend_error_code_skips_sentry err =
     (extract_backend_error_code_token err \<noteq> None \<and> \<not> is_backend_malformed_bad_request err
      \<and> \<not> is_backend_client_guard_leak err)"

definition managed_error_skips_sentry :: "string \<Rightarrow> bool" where
  "managed_error_skips_sentry err = (is_managed_backend_envelope err \<and> backend_error_code_skips_sentry err)"

section \<open>Reporting a response with an error status\<close>

definition TRANSIENT_PROVIDER_HTTP_STATUSES :: "nat list" where
  "TRANSIENT_PROVIDER_HTTP_STATUSES = [408, 429, 502, 503, 504, 520]"

definition should_report_provider_http_failure :: "nat \<Rightarrow> bool" where
  "should_report_provider_http_failure status = (status \<notin> set TRANSIENT_PROVIDER_HTTP_STATUSES)"

definition is_budget_exhausted_http_400 :: "nat \<Rightarrow> string \<Rightarrow> bool" where
  "is_budget_exhausted_http_400 status body = (status = 400 \<and> is_budget_exhausted_message body)"

definition is_custom_openai_upstream_bad_request_http_400 :: "string \<Rightarrow> nat \<Rightarrow> string \<Rightarrow> bool" where
  "is_custom_openai_upstream_bad_request_http_400 provider status body =
     (if provider \<noteq> ''custom_openai'' \<or> status \<noteq> 400 then False
      else lower_mentions [''bad request to upstream provider''] body \<and> lower_mentions [''upstream_error''] body)"

definition is_provider_access_policy_denied_http_403 :: "nat \<Rightarrow> string \<Rightarrow> bool" where
  "is_provider_access_policy_denied_http_403 status body =
     (if status \<noteq> 403 then False
      else lower_mentions [''access_terminated_error'', ''currently only available for coding agents''] body)"

definition body_indicates_insufficient_credits :: "string \<Rightarrow> bool" where
  "body_indicates_insufficient_credits =
     lower_mentions [''requires more credits'', ''more credits'', ''can only afford'', ''insufficient credit'',
       ''insufficient balance'', ''insufficient funds'', ''payment required'']"

definition is_provider_insufficient_credits_402 :: "nat \<Rightarrow> string \<Rightarrow> bool" where
  "is_provider_insufficient_credits_402 status body = (status = 402 \<and> body_indicates_insufficient_credits body)"

definition is_provider_config_rejection_http :: "nat \<Rightarrow> string \<Rightarrow> string \<Rightarrow> bool" where
  "is_provider_config_rejection_http status provider body =
     (if status \<notin> {400, 403, 404, 422} then False
      else if \<not> is_provider_config_rejection_message body then False
      else if is_openai_compatible_unknown_model_message body then True
      else provider \<noteq> PROVIDER_LABEL)"

definition is_backend_error_code_owned :: "string \<Rightarrow> string \<Rightarrow> bool" where
  "is_backend_error_code_owned provider body = (provider = PROVIDER_LABEL \<and> backend_error_code_skips_sentry body)"

definition is_backend_auth_failure :: "string \<Rightarrow> nat \<Rightarrow> bool" where
  "is_backend_auth_failure provider status = (status \<in> {401, 403} \<and> provider = PROVIDER_LABEL)"

definition is_byo_provider_auth_failure_http :: "string \<Rightarrow> nat \<Rightarrow> string \<Rightarrow> bool" where
  "is_byo_provider_auth_failure_http provider status body =
     (if status \<notin> {401, 403} then False
      else if provider = PROVIDER_LABEL then False
      else lower_mentions [''authentication_error'', ''invalid_api_key'', ''invalid api key'', ''invalid or missing api key'',
             ''missing api key'', ''no api key supplied'', ''incorrect api key'', ''invalid authentication''] body)"

text \<open>What \<open>api_error\<close> does besides returning the error.\<close>

datatype error_report =
  Session_Expired_Event string
| Logged string
| Reported string
| Nothing_Reported

text \<open>\<open>status_text\<close> is the status with its reason phrase.\<close>

definition api_error_message :: "string \<Rightarrow> string \<Rightarrow> string \<Rightarrow> string" where
  "api_error_message provider status_text body =
     provider @ '' API error ('' @ status_text @ ''): '' @ sanitize_api_error body"

definition api_error_report :: "string \<Rightarrow> nat \<Rightarrow> string \<Rightarrow> string \<Rightarrow> error_report" where
  "api_error_report provider status status_text body =
     (let message = api_error_message provider status_text body
      in if status \<in> {401, 403} \<and> provider = PROVIDER_LABEL then Session_Expired_Event (sanitize_api_error message)
         else if is_budget_exhausted_http_400 status body then Logged ''budget''
         else if is_custom_openai_upstream_bad_request_http_400 provider status body then Logged ''upstream_bad_request''
         else if is_provider_access_policy_denied_http_403 status body then Logged ''provider_access_policy''
         else if is_provider_config_rejection_http status provider body then Logged ''provider_config_rejection''
         else if is_context_window_exceeded_message body then Logged ''context_window_exceeded''
         else if is_backend_error_code_owned provider body then Logged ''backend_error_code''
         else if is_byo_provider_auth_failure_http provider status body then Logged ''byo_provider_auth_failure''
         else if should_report_provider_http_failure status then Reported message
         else Nothing_Reported)"

section \<open>Which errors a retry may help\<close>

text \<open>
  An \<open>anyhow::Error\<close>: its text, the texts of its chain of sources (its own first), and the
  status when it is a \<open>reqwest::Error\<close> that carries one.
\<close>

record provider_error =
  pe_text :: string
  pe_sources :: "string list"
  pe_status :: "nat option"

text \<open>The case table of Unicode, and the code that the pattern of a structured status captures.\<close>

record text_lib =
  tl_lower :: "string \<Rightarrow> string"
  tl_http_4xx :: "string \<Rightarrow> string option"

abbreviation lowercase :: "text_lib \<Rightarrow> string \<Rightarrow> string" where
  "lowercase L \<equiv> str_to_lowercase (tl_lower L)"

definition parse_u16 :: "string \<Rightarrow> nat option" where
  "parse_u16 ds =
     (if ds \<noteq> [] \<and> list_all is_ascii_digit ds \<and> dec_value ds < 2 ^ 16 then Some (dec_value ds) else None)"

definition structured_http_4xx :: "text_lib \<Rightarrow> string \<Rightarrow> nat option" where
  "structured_http_4xx L msg = Option.bind (tl_http_4xx L msg) parse_u16"

definition contains_any :: "string list \<Rightarrow> string \<Rightarrow> bool" where
  "contains_any phrases s = list_ex (\<lambda>p. sublist p s) phrases"

definition AUTH_FAILURE_HINTS :: "string list" where
  "AUTH_FAILURE_HINTS =
     [''invalid api key'', ''incorrect api key'', ''missing api key'', ''api key not set'', ''authentication failed'',
      ''auth failed'', ''unauthorized'', ''forbidden'', ''permission denied'', ''access denied'', ''invalid token'']"

definition is_client_error :: "nat \<Rightarrow> bool" where
  "is_client_error status = (400 \<le> status \<and> status < 500)"

definition is_non_retryable :: "text_lib \<Rightarrow> provider_error \<Rightarrow> bool" where
  "is_non_retryable L err =
     (let msg = pe_text err
      in if is_context_window_exceeded_message msg then True
         else if is_session_expired_message msg then True
         else case pe_status err of
                Some code \<Rightarrow> is_client_error code \<and> code \<noteq> 429 \<and> code \<noteq> 408
              | None \<Rightarrow>
                  (case structured_http_4xx L msg of
                     Some code \<Rightarrow> code \<noteq> 429 \<and> code \<noteq> 408
                   | None \<Rightarrow>
                       (let lower = lowercase L msg
                        in if contains_any AUTH_FAILURE_HINTS lower then True
                           else sublist ''model'' lower \<and>
                                contains_any [''not found'', ''unknown'', ''unsupported'', ''does not exist'', ''invalid''] lower)))"

definition is_upstream_unhealthy :: "text_lib \<Rightarrow> provider_error \<Rightarrow> bool" where
  "is_upstream_unhealthy L err =
     (if is_some_and (pe_status err) (\<lambda>s. s \<in> {408, 502, 503, 504}) then True
      else contains_any [''no healthy upstream'', ''upstream unavailable'', ''service unavailable'',
             ''503 service unavailable'', ''408 request timeout'', ''502 bad gateway'', ''504 gateway timeout'']
             (lowercase L (pe_text err)))"

definition is_rate_limited_error :: "provider_error \<Rightarrow> bool" where
  "is_rate_limited_error err =
     (case pe_status err of
        Some status \<Rightarrow> status = 429
      | None \<Rightarrow> sublist ''429'' (pe_text err) \<and> contains_any [''Too Many'', ''rate'', ''limit''] (pe_text err))"

definition BUSINESS_HINTS :: "string list" where
  "BUSINESS_HINTS =
     [''plan does not include'', ''doesn'' @ [CHR 0x27] @ ''t include'', ''not include'', ''insufficient balance'',
      ''insufficient_balance'', ''insufficient quota'', ''insufficient_quota'', ''quota exhausted'', ''out of credits'',
      ''no available package'', ''package not active'', ''purchase package'', ''model not available for your plan'']"

definition is_non_retryable_rate_limit :: "text_lib \<Rightarrow> provider_error \<Rightarrow> bool" where
  "is_non_retryable_rate_limit L err =
     (if \<not> is_rate_limited_error err then False
      else
        (let lower = lowercase L (pe_text err)
         in if contains_any BUSINESS_HINTS lower then True
            else list_ex (\<lambda>token. parse_u16 token \<in> {Some 1113, Some 1311}) (split_on (\<lambda>c. \<not> is_ascii_digit c) lower)))"

section \<open>Retry-After\<close>

text \<open>An operation that may panic.\<close>

datatype 'a may_panic = Panics | Done 'a

text \<open>
  \<open>parse::<f64>\<close> of a run of digits and points: it needs a digit and at most one point, and
  from \<open>2 ^ 1024 - 2 ^ 970\<close> on the result is the infinity, here \<open>None\<close> within \<open>Some\<close>.
\<close>

definition f64_finite :: "rat \<Rightarrow> rat option" where
  "f64_finite q = (if q < 2 ^ 1024 - 2 ^ 970 then Some (f64_round q) else None)"

definition parse_f64 :: "string \<Rightarrow> rat option option" where
  "parse_f64 s =
     (case split_once (CHR ''.'') s of
        None \<Rightarrow> if s \<noteq> [] \<and> list_all is_ascii_digit s then Some (f64_finite (of_nat (dec_value s))) else None
      | Some (whole, fraction) \<Rightarrow>
          if list_all is_ascii_digit (whole @ fraction) \<and> whole @ fraction \<noteq> []
          then Some (f64_finite (of_nat (dec_value (whole @ fraction)) / 10 ^ length fraction))
          else None)"

text \<open>
  \<open>Duration::from_secs_f64\<close> panics when the seconds do not fit in 64 bits; it rounds to the
  nearest nanosecond, and \<open>as_millis\<close> truncates.
\<close>

definition secs_to_millis :: "rat \<Rightarrow> int may_panic" where
  "secs_to_millis secs =
     (if 2 ^ 64 \<le> secs then Panics else Done (round_ties_even (secs * 10 ^ 9) div 10 ^ 6))"

definition RETRY_AFTER_PREFIXES :: "string list" where
  "RETRY_AFTER_PREFIXES = [''retry-after:'', ''retry_after:'', ''retry-after '', ''retry_after '']"

text \<open>The position is one of the lowered text; slicing the original there may miss a character boundary.\<close>

definition retry_after_at :: "string \<Rightarrow> nat \<Rightarrow> nat option may_panic" where
  "retry_after_at msg i =
     (if length msg < i \<or> \<not> is_char_boundary msg i then Panics
      else
        (case parse_f64 (takeWhile (\<lambda>c. is_ascii_digit c \<or> c = CHR ''.'') (trim (drop i msg))) of
           Some (Some secs) \<Rightarrow>
             (case secs_to_millis secs of
                Panics \<Rightarrow> Panics
              | Done ms \<Rightarrow> Done (if ms < 2 ^ 64 then Some (nat ms) else None))
         | _ \<Rightarrow> Done None))"

fun retry_after_from :: "string list \<Rightarrow> string \<Rightarrow> string \<Rightarrow> nat option may_panic" where
  "retry_after_from [] lower msg = Done None"
| "retry_after_from (p # ps) lower msg =
     (case split_at_sub p lower of
        None \<Rightarrow> retry_after_from ps lower msg
      | Some (before, _) \<Rightarrow>
          (case retry_after_at msg (length before + length p) of
             Panics \<Rightarrow> Panics
           | Done (Some ms) \<Rightarrow> Done (Some ms)
           | Done None \<Rightarrow> retry_after_from ps lower msg))"

definition parse_retry_after_ms :: "text_lib \<Rightarrow> provider_error \<Rightarrow> nat option may_panic" where
  "parse_retry_after_ms L err = retry_after_from RETRY_AFTER_PREFIXES (lowercase L (pe_text err)) (pe_text err)"

section \<open>The report of a failed attempt\<close>

definition failure_reason :: "bool \<Rightarrow> bool \<Rightarrow> bool \<Rightarrow> string" where
  "failure_reason rate_limited non_retryable upstream_unhealthy =
     (if upstream_unhealthy then ''upstream_unhealthy''
      else if rate_limited \<and> non_retryable then ''rate_limited_non_retryable''
      else if rate_limited then ''rate_limited''
      else if non_retryable then ''non_retryable''
      else ''retryable'')"

definition compact_error_detail :: "provider_error \<Rightarrow> string" where
  "compact_error_detail err =
     join_with '' '' (split_whitespace (sanitize_api_error (format_chain (pe_sources err))))"

definition failure_line :: "string \<Rightarrow> string \<Rightarrow> nat \<Rightarrow> nat \<Rightarrow> string \<Rightarrow> string \<Rightarrow> string" where
  "failure_line provider_name model attempt max_attempts reason error_detail =
     ''provider='' @ provider_name @ '' model='' @ model @ '' attempt '' @ dec_nat attempt @ ''/'' @ dec_nat max_attempts
     @ '': '' @ reason @ ''; error='' @ error_detail"

definition newline :: string where "newline = [CHR 0x0A]"

text \<open>The bytes of the arrow in the settings path.\<close>

definition settings_arrow :: string where "settings_arrow = [CHR 0xE2, CHR 0x86, CHR 0x92]"

definition format_failure_aggregate :: "string \<Rightarrow> string list \<Rightarrow> bool \<Rightarrow> string" where
  "format_failure_aggregate model failures has_configured_fallbacks =
     (let attempts = ''All providers/models failed. Attempts:'' @ newline @ join_with newline failures
      in if has_configured_fallbacks then attempts
         else ''The model `'' @ model @ ''` may not be available on your provider. '' @
              ''Configure a fallback chain via `reliability.model_fallbacks` in your '' @
              ''OpenHuman config, or change your default model in Settings '' @ settings_arrow @ '' AI.'' @ newline @ newline @ attempts)"

end
