(* ===== verification/Cron_Scheduler.thy ===== *)
theory Cron_Scheduler
  imports Cron_Store Enforcement Command_Checks Path_Policy Provider_Errors
begin

text \<open>
  The scheduler of cron jobs (\<open>cron/scheduler.rs\<close>): the gate and the run of a shell job, the
  retries, what is delivered and recorded, and the health it reports.  What the operating system
  and the agent do with a job is an argument, one answer for each attempt.
\<close>

section \<open>Texts\<close>

definition AGENT_JOB_USER_FAILURE_MESSAGE :: string where
  "AGENT_JOB_USER_FAILURE_MESSAGE =
     ''Something went wrong. Please try again. Check Marvi'' @ [CHR 0x27] @
     ''s local logs for details if the problem continues.''"

definition MORNING_BRIEFING_AGENT_ID :: string where
  "MORNING_BRIEFING_AGENT_ID = ''morning_briefing''"

definition MORNING_BRIEFING_FAILURE_NOTIFICATION :: string where
  "MORNING_BRIEFING_FAILURE_NOTIFICATION =
     ''Morning briefing could not run. Check your AI provider, API key, and connected apps, then run it again from Settings > Cron Jobs.''"

definition right_arrow :: string where
  "right_arrow = [CHR 0xE2, CHR 0x86, CHR 0x92]"

datatype agent_error =
    Provider_Error string bool
  | Context_Limit_Exceeded nat
  | Tool_Execution_Error string string
  | Cost_Budget_Exceeded nat nat
  | Max_Iterations_Exceeded nat
  | Empty_Provider_Response nat
  | Compaction_Failed string nat
  | Permission_Denied string string string
  | Other_Error string

fun agent_error_to_user_message :: "agent_error \<Rightarrow> string" where
  "agent_error_to_user_message (Provider_Error m True) =
     ''The model provider is temporarily unavailable. The next run will retry automatically.''"
| "agent_error_to_user_message (Provider_Error m False) =
     ''The model provider rejected the request. Check your provider credentials in Settings '' @ right_arrow @
     '' AI '' @ right_arrow @ '' LLM.''"
| "agent_error_to_user_message (Context_Limit_Exceeded n) =
     ''The conversation grew too long for the model. Start a new session or pick a model with a larger context window.''"
| "agent_error_to_user_message (Cost_Budget_Exceeded s b) =
     ''You'' @ [CHR 0x27] @ ''ve reached the daily cost budget for this agent. Raise it in Settings '' @ right_arrow @
     '' Billing or wait for the next budget window.''"
| "agent_error_to_user_message (Max_Iterations_Exceeded n) =
     ''The agent stopped after too many tool iterations. Raise the iteration cap in Settings '' @ right_arrow @
     '' AI '' @ right_arrow @ '' LLM or simplify the task.''"
| "agent_error_to_user_message (Empty_Provider_Response n) =
     ''The model returned an empty response. Try a different model or check your local provider in Settings '' @
     right_arrow @ '' AI '' @ right_arrow @ '' LLM.''"
| "agent_error_to_user_message (Compaction_Failed m n) =
     ''Automatic history compaction failed. The next run will start with a fresh context.''"
| "agent_error_to_user_message (Permission_Denied t r c) =
     ''The agent needs a tool that isn'' @ [CHR 0x27] @
     ''t allowed on this channel. Adjust the permissions in Settings.''"
| "agent_error_to_user_message (Tool_Execution_Error t m) = AGENT_JOB_USER_FAILURE_MESSAGE"
| "agent_error_to_user_message (Other_Error e) = AGENT_JOB_USER_FAILURE_MESSAGE"

text \<open>An error of the agent's loop has a type of its own; any other error is only a text.\<close>

fun classify_agent_anyhow_for_user :: "agent_error + string \<Rightarrow> string" where
  "classify_agent_anyhow_for_user (Inl e) = agent_error_to_user_message e"
| "classify_agent_anyhow_for_user (Inr e) = AGENT_JOB_USER_FAILURE_MESSAGE"

definition is_morning_briefing_job :: "cron_job \<Rightarrow> bool" where
  "is_morning_briefing_job job =
     (cj_name job = Some MORNING_BRIEFING_AGENT_ID \<or> cj_agent_id job = Some MORNING_BRIEFING_AGENT_ID)"

definition LINK_OPEN_TAG :: string where "LINK_OPEN_TAG = ''<openhuman-link''"
definition LINK_CLOSE_TAG :: string where "LINK_CLOSE_TAG = ''</openhuman-link>''"

function strip_openhuman_link_markup :: "string \<Rightarrow> string" where
  "strip_openhuman_link_markup rest =
     (case split_at_sub LINK_OPEN_TAG rest of
        None \<Rightarrow> rest
      | Some (before, after) \<Rightarrow>
          (case split_once (CHR ''>'') after of
             None \<Rightarrow> before @ LINK_OPEN_TAG @ after
           | Some (attrs, label_and_after) \<Rightarrow>
               (case split_at_sub LINK_CLOSE_TAG label_and_after of
                  None \<Rightarrow> before @ LINK_OPEN_TAG @ after
                | Some (label, rest') \<Rightarrow> before @ label @ strip_openhuman_link_markup rest')))"
  by pat_completeness auto
termination
proof (relation "measure length", simp)
  fix rest before after attrs label_and_after label rest' and x y z :: "string \<times> string"
  assume "split_at_sub LINK_OPEN_TAG rest = Some x" "(before, after) = x"
    "split_once (CHR ''>'') after = Some y" "(attrs, label_and_after) = y"
    "split_at_sub LINK_CLOSE_TAG label_and_after = Some z" "(label, rest') = z"
  then have "rest = before @ LINK_OPEN_TAG @ after" "label_and_after = label @ LINK_CLOSE_TAG @ rest'"
    "after = attrs @ CHR ''>'' # label_and_after"
    by (auto dest: split_at_sub_Some simp: split_once_Some)
  then show "(rest', rest) \<in> measure length" by (simp add: LINK_OPEN_TAG_def)
qed

declare strip_openhuman_link_markup.simps [simp del]

definition cron_alert_body :: "cron_job \<Rightarrow> string \<Rightarrow> string" where
  "cron_alert_body job output =
     (if cj_job_type job = Job_Agent \<and> trim output = AGENT_JOB_USER_FAILURE_MESSAGE \<and> is_morning_briefing_job job
      then MORNING_BRIEFING_FAILURE_NOTIFICATION
      else truncate_with_ellipsis (strip_openhuman_link_markup output) 512)"

section \<open>The gate of a shell job\<close>

definition is_env_assignment :: "string \<Rightarrow> bool" where
  "is_env_assignment word =
     (CHR ''='' \<in> set word \<and> is_some_and (first word) (\<lambda>c. is_ascii_alphabetic c \<or> c = CHR ''_''))"

definition is_quote :: "char \<Rightarrow> bool" where
  "is_quote c = (c = CHR 0x22 \<or> c = CHR 0x27)"

definition strip_wrapping_quotes :: "string \<Rightarrow> string" where
  "strip_wrapping_quotes token = rev (dropWhile is_quote (rev (dropWhile is_quote token)))"

text \<open>\<open>str::replace\<close>: occurrences from the left, without overlap.\<close>

function replace_sub :: "string \<Rightarrow> string \<Rightarrow> string \<Rightarrow> string" where
  "replace_sub pat new [] = []"
| "replace_sub pat new (c # cs) =
     (if pat \<noteq> [] \<and> prefix pat (c # cs) then new @ replace_sub pat new (drop (length pat - 1) cs)
      else c # replace_sub pat new cs)"
  by pat_completeness auto
termination by (relation "measure (\<lambda>(pat, new, s). length s)") auto

definition command_segments :: "string \<Rightarrow> string list" where
  "command_segments command =
     (let nul = CHR 0x00;
          twice = replace_sub ''||'' [nul] (replace_sub ''&&'' [nul] command);
          once = map (\<lambda>c. if c = CHR 0x0A \<or> c = CHR '';'' \<or> c = CHR ''|'' then nul else c) twice
      in split_on (\<lambda>c. c = nul) once)"

text \<open>The tokens after the assignments and the executable.\<close>

definition segment_arguments :: "string \<Rightarrow> string list" where
  "segment_arguments segment = drop 1 (dropWhile is_env_assignment (split_whitespace segment))"

definition looks_like_path :: "string \<Rightarrow> bool" where
  "looks_like_path candidate =
     (prefix ''/'' candidate \<or> prefix ''./'' candidate \<or> prefix ''../'' candidate \<or> prefix ''~/'' candidate
      \<or> CHR ''/'' \<in> set candidate)"

definition forbidden_argument :: "file_system \<Rightarrow> security_policy \<Rightarrow> string \<Rightarrow> bool" where
  "forbidden_argument fs policy token =
     (let candidate = strip_wrapping_quotes token
      in if candidate = [] \<or> prefix ''-'' candidate \<or> sublist ''://'' candidate then False
         else looks_like_path candidate \<and> \<not> is_path_string_allowed fs policy candidate)"

definition forbidden_path_argument :: "file_system \<Rightarrow> security_policy \<Rightarrow> string \<Rightarrow> string option" where
  "forbidden_path_argument fs policy command =
     map_option strip_wrapping_quotes
       (find (forbidden_argument fs policy) (concat (map segment_arguments (command_segments command))))"

definition BLOCKED_PREFIX :: string where "BLOCKED_PREFIX = ''blocked by security policy:''"

text \<open>
  What the operating system does with a spawned command: it fails to start, waiting for it fails,
  it exceeds its time, or it exits with a status and the texts of its two streams.
\<close>

datatype shell_outcome =
    Shell_Spawn_Error string
  | Shell_Exited bool string string string
  | Shell_Timed_Out

definition shell_text :: "string \<Rightarrow> string \<Rightarrow> string \<Rightarrow> string" where
  "shell_text status out err =
     ''status='' @ status @ [CHR 0x0A] @ ''stdout:'' @ [CHR 0x0A] @ trim out @ [CHR 0x0A] @
     ''stderr:'' @ [CHR 0x0A] @ trim err"

fun shell_result :: "shell_outcome \<Rightarrow> bool \<times> string" where
  "shell_result (Shell_Spawn_Error e) = (False, ''spawn error: '' @ e)"
| "shell_result (Shell_Exited ok status out err) = (ok, shell_text status out err)"
| "shell_result Shell_Timed_Out = (False, ''job timed out after 120s'')"

text \<open>An attempt reads the clock for the rate check and for the record, and has an outcome.\<close>

record shell_attempt =
  sa_limit :: reads
  sa_record :: reads
  sa_outcome :: shell_outcome

text \<open>The result, the commands that were spawned, and the policy with its tracker.\<close>

definition run_job_command ::
    "instant \<Rightarrow> file_system \<Rightarrow> shell_attempt \<Rightarrow> string \<Rightarrow> security_policy \<Rightarrow>
     (bool \<times> string) \<times> string list \<times> security_policy" where
  "run_job_command lo fs a command p =
     (if \<not> can_act p then ((False, BLOCKED_PREFIX @ '' autonomy is read-only''), [], p)
      else
        (let (limited, p1) = is_rate_limited lo (sa_limit a) p
         in if limited then ((False, BLOCKED_PREFIX @ '' rate limit exceeded''), [], p1)
            else if \<not> is_command_allowed p1 command
            then ((False, BLOCKED_PREFIX @ '' command not allowed: '' @ command), [], p1)
            else case forbidden_path_argument fs p1 command of
                   Some path \<Rightarrow> ((False, BLOCKED_PREFIX @ '' forbidden path argument: '' @ path), [], p1)
                 | None \<Rightarrow>
                     (let (recorded, p2) = record_action lo (sa_record a) p1
                      in if \<not> recorded then ((False, BLOCKED_PREFIX @ '' action budget exhausted''), [], p2)
                         else (shell_result (sa_outcome a), [command], p2))))"

section \<open>Agent jobs\<close>

definition EMPTY_AGENT_OUTPUT :: string where "EMPTY_AGENT_OUTPUT = ''agent job executed''"

text \<open>What the turn of the agent answers, and with an error its text for the logs.\<close>

type_synonym agent_turn = "((agent_error + string) \<times> string) + string"

fun run_agent_job :: "agent_turn \<Rightarrow> bool \<times> string \<times> string option" where
  "run_agent_job (Inr response) =
     (True, (if trim response = [] then EMPTY_AGENT_OUTPUT else response), None)"
| "run_agent_job (Inl (e, e_text)) = (False, classify_agent_anyhow_for_user e, Some e_text)"

definition is_session_expired_failure :: "job_type \<Rightarrow> string option \<Rightarrow> string \<Rightarrow> bool" where
  "is_session_expired_failure jt agent_error last_output =
     (if jt \<noteq> Job_Agent then False
      else is_session_expired_message (case agent_error of None \<Rightarrow> last_output | Some e \<Rightarrow> e))"

section \<open>Retries\<close>

text \<open>What one attempt gets from outside: the answers for a shell job and for an agent job, and the
  milliseconds of the clock for the wait after it.\<close>

record attempt_env =
  ae_shell :: shell_attempt
  ae_agent :: agent_turn
  ae_subsec_millis :: nat

definition one_attempt ::
    "instant \<Rightarrow> file_system \<Rightarrow> cron_job \<Rightarrow> attempt_env \<Rightarrow> security_policy \<Rightarrow>
     (bool \<times> string \<times> string option) \<times> string list \<times> security_policy" where
  "one_attempt lo fs job env p =
     (case cj_job_type job of
        Job_Shell \<Rightarrow>
          (let ((ok, out), spawned, p') = run_job_command lo fs (ae_shell env) (cj_command job) p
           in ((ok, out, None), spawned, p'))
      | Job_Agent \<Rightarrow> (run_agent_job (ae_agent env), [], p))"

text \<open>
  The outcome of the retries: success and output; the commands spawned; the waits in milliseconds;
  the number of attempts; the error reported to the operators, if any; and the policy.
\<close>

record retry_outcome =
  ro_success :: bool
  ro_output :: string
  ro_spawned :: "string list"
  ro_waits :: "64 word list"
  ro_attempts :: nat
  ro_report :: "string option"
  ro_policy :: security_policy

definition next_backoff :: "64 word \<Rightarrow> 64 word" where
  "next_backoff b = min (if unat b * 2 < 2 ^ 64 then b * 2 else - 1) 30000"

text \<open>\<open>left\<close> attempts may still follow this one.\<close>

fun attempts_from ::
    "instant \<Rightarrow> file_system \<Rightarrow> cron_job \<Rightarrow> (nat \<Rightarrow> attempt_env) \<Rightarrow> nat \<Rightarrow> nat \<Rightarrow> 64 word \<Rightarrow> string option \<Rightarrow>
     security_policy \<Rightarrow> retry_outcome" where
  "attempts_from lo fs job envs i left backoff agent_error p =
     (let ((ok, out, err), spawned, p') = one_attempt lo fs job (envs i) p;
          agent_error' = (if err = None then agent_error else err);
          stop = \<lparr>ro_success = ok, ro_output = out, ro_spawned = spawned, ro_waits = [], ro_attempts = 1,
                  ro_report = None, ro_policy = p'\<rparr>
      in if ok then stop
         else if prefix BLOCKED_PREFIX out then stop
         else if is_session_expired_failure (cj_job_type job) agent_error' out then stop
         else (case left of
                 0 \<Rightarrow> stop\<lparr>ro_report := (if cj_job_type job = Job_Agent
                        then Some (case agent_error' of None \<Rightarrow> out | Some e \<Rightarrow> e) else None)\<rparr>
               | Suc n \<Rightarrow>
                   (let wait = backoff + of_nat (ae_subsec_millis (envs i) mod 250);
                        later = attempts_from lo fs job envs (Suc i) n (next_backoff backoff) agent_error' p'
                    in later\<lparr>ro_spawned := spawned @ ro_spawned later, ro_waits := wait # ro_waits later,
                             ro_attempts := Suc (ro_attempts later)\<rparr>)))"

declare attempts_from.simps [simp del]

definition execute_job_with_retry ::
    "instant \<Rightarrow> file_system \<Rightarrow> 32 word \<Rightarrow> 64 word \<Rightarrow> cron_job \<Rightarrow> (nat \<Rightarrow> attempt_env) \<Rightarrow> security_policy \<Rightarrow>
     retry_outcome" where
  "execute_job_with_retry lo fs retries backoff_ms job envs p =
     attempts_from lo fs job envs 0 (unat retries) (max backoff_ms 200) None p"

text \<open>\<open>execute_job_now\<close> builds a policy of its own from the configuration.\<close>

definition execute_job_now ::
    "instant \<Rightarrow> file_system \<Rightarrow> 32 word \<Rightarrow> 64 word \<Rightarrow> string \<Rightarrow> scratch_probe \<Rightarrow> autonomy_config \<Rightarrow> string \<Rightarrow> string \<Rightarrow>
     cron_job \<Rightarrow> (nat \<Rightarrow> attempt_env) \<Rightarrow> bool \<times> string" where
  "execute_job_now lo fs retries backoff_ms projects probe cfg workspace action job envs =
     (let r = execute_job_with_retry lo fs retries backoff_ms job envs (from_config projects probe cfg workspace action)
      in (ro_success r, ro_output r))"

section \<open>Delivery\<close>

datatype cron_event =
    Ev_Health bool "string option"
  | Ev_Triggered string string job_type
  | Ev_Completed string bool string
  | Ev_Proactive string string "string option"
  | Ev_Delivery string string string string
  | Ev_Alert string string string

definition cron_output_is_empty :: "string \<Rightarrow> bool" where
  "cron_output_is_empty output = (trim output = [] \<or> output = EMPTY_AGENT_OUTPUT)"

definition should_deliver_cron_output_to_chat :: "bool \<Rightarrow> string \<Rightarrow> bool" where
  "should_deliver_cron_output_to_chat success output = (success \<and> \<not> cron_output_is_empty output)"

definition cron_result_should_alert :: "bool \<Rightarrow> string \<Rightarrow> bool" where
  "cron_result_should_alert success output = (\<not> success \<or> \<not> cron_output_is_empty output)"

definition push_cron_alert :: "cron_job \<Rightarrow> string \<Rightarrow> cron_event" where
  "push_cron_alert job output =
     Ev_Alert (cj_id job) (or_keep (cj_name job) ''Cron job'') (cron_alert_body job output)"

definition no_channel_text :: string where
  "no_channel_text = ''delivery.channel is required for announce mode''"

definition no_target_text :: string where
  "no_target_text = ''delivery.to is required for announce mode''"

definition deliver_if_configured :: "cron_job \<Rightarrow> string \<Rightarrow> bool \<Rightarrow> (string + unit) \<times> cron_event list" where
  "deliver_if_configured job output success =
     (let to_chat = should_deliver_cron_output_to_chat success output;
          alert_body = (if cron_output_is_empty output then ''Scheduled job failed without output.'' else output);
          alerts = (if cron_result_should_alert success output then [push_cron_alert job alert_body] else []);
          mode = to_ascii_lowercase (trim (dc_mode (cj_delivery job)))
      in if mode = ''proactive'' then
           (Inr (), (if to_chat then [Ev_Proactive (''cron:'' @ cj_id job) output (cj_name job)] else []) @ alerts)
         else if mode = ''announce'' then
           (if \<not> to_chat then (Inr (), alerts)
            else case dc_channel (cj_delivery job) of
                   None \<Rightarrow> (Inl no_channel_text, [])
                 | Some channel \<Rightarrow>
                     (case dc_to (cj_delivery job) of
                        None \<Rightarrow> (Inl no_target_text, [])
                      | Some target \<Rightarrow> (Inr (), Ev_Delivery (cj_id job) channel target output # alerts)))
         else (Inr (), []))"

section \<open>Recording a result\<close>

text \<open>A duration in coarser units, as \<open>num_milliseconds\<close> and \<open>num_minutes\<close> give it: towards zero.\<close>

definition whole :: "int \<Rightarrow> int \<Rightarrow> int" where
  "whole unit d = (if 0 \<le> d then d div unit else - ((- d) div unit))"

text \<open>
  The writes that follow a run, each on its own: the tables of other jobs may change between
  them.  A failed write is only logged.
\<close>

datatype persist_op =
    Persist_Record string int int string "string option" int
  | Persist_Remove string
  | Persist_Last string int bool string
  | Persist_Disable string
  | Persist_Reschedule cron_job int bool string

fun persist_op_job :: "persist_op \<Rightarrow> string" where
  "persist_op_job (Persist_Record jid s f st out ms) = jid"
| "persist_op_job (Persist_Remove jid) = jid"
| "persist_op_job (Persist_Last jid f ok out) = jid"
| "persist_op_job (Persist_Disable jid) = jid"
| "persist_op_job (Persist_Reschedule job now ok out) = cj_id job"

fun apply_persist_op :: "('c, 'z) time_lib \<Rightarrow> cron_codec \<Rightarrow> nat \<Rightarrow> cron_db \<Rightarrow> persist_op \<Rightarrow> cron_db" where
  "apply_persist_op L C history db (Persist_Record jid s f st out ms) = snd (record_run C history jid s f st out ms db)"
| "apply_persist_op L C history db (Persist_Remove jid) = snd (remove_job jid db)"
| "apply_persist_op L C history db (Persist_Last jid f ok out) = record_last_run C jid f ok out db"
| "apply_persist_op L C history db (Persist_Disable jid) =
     snd (update_job L C 0 0 jid (empty_cron_patch\<lparr>cp_enabled := Some False\<rparr>) db)"
| "apply_persist_op L C history db (Persist_Reschedule job now ok out) = snd (reschedule_after_run L C now job ok out db)"

definition is_one_shot_auto_delete :: "cron_job \<Rightarrow> bool" where
  "is_one_shot_auto_delete job =
     (cj_delete_after_run job \<and> (case cj_schedule job of Sched_At due \<Rightarrow> True | _ \<Rightarrow> False))"

text \<open>The final success, the writes in order, and the events; \<open>now\<close> is the clock of the rescheduling.\<close>

definition persist_job_result ::
    "cron_job \<Rightarrow> bool \<Rightarrow> string \<Rightarrow> int \<Rightarrow> int \<Rightarrow> int \<Rightarrow> bool \<times> persist_op list \<times> cron_event list" where
  "persist_job_result job success output started finished now =
     (let (delivered, events) = deliver_if_configured job output success;
          ok = (if delivered \<noteq> Inr () \<and> \<not> dc_best_effort (cj_delivery job) then False else success);
          run = Persist_Record (cj_id job) started finished (status_text ok) (Some output)
                  (whole NANOS_PER_MS (finished - started))
      in if is_one_shot_auto_delete job then
           (ok, run # (if ok then [Persist_Remove (cj_id job)]
                       else [Persist_Last (cj_id job) finished False output, Persist_Disable (cj_id job)]), events)
         else (ok, [run, Persist_Reschedule job now ok output], events))"

definition execute_and_persist_job ::
    "instant \<Rightarrow> file_system \<Rightarrow> 32 word \<Rightarrow> 64 word \<Rightarrow> cron_job \<Rightarrow> (nat \<Rightarrow> attempt_env) \<Rightarrow> int \<Rightarrow> int \<Rightarrow> int \<Rightarrow>
     security_policy \<Rightarrow> (string \<times> bool \<times> string option) \<times> persist_op list \<times> cron_event list \<times> security_policy" where
  "execute_and_persist_job lo fs retries backoff job envs started finished now p =
     (let r = execute_job_with_retry lo fs retries backoff job envs p;
          (success, writes, events) = persist_job_result job (ro_success r) (ro_output r) started finished now;
          triggered = Ev_Triggered (cj_id job) (or_keep (cj_name job) []) (cj_job_type job);
          completed = Ev_Completed (cj_id job) success (truncate_with_ellipsis (ro_output r) 512)
      in ((cj_id job, success, (if success then None else Some (truncate_with_ellipsis (ro_output r) 256))),
          writes, triggered # events @ [completed], ro_policy r))"

text \<open>The health event of a finished job.\<close>

fun job_health :: "string \<times> bool \<times> string option \<Rightarrow> cron_event" where
  "job_health (jid, success, failure) =
     (if success then Ev_Health True None
      else Ev_Health False (Some (or_keep failure (''job '' @ jid @ '' failed''))))"

definition warn_if_high_frequency_agent_job :: "('c, 'z) time_lib \<Rightarrow> int \<Rightarrow> cron_job \<Rightarrow> bool" where
  "warn_if_high_frequency_agent_job L now job =
     (if cj_job_type job \<noteq> Job_Agent then False
      else (case cj_schedule job of
              Sched_Every every_ms \<Rightarrow> every_ms < 5 * 60 * 1000
            | Sched_Cron expr tz ah \<Rightarrow>
                (case (next_run_for_schedule L (cj_schedule job) now,
                       next_run_for_schedule L (cj_schedule job) (now + 1000000000)) of
                   (Inr a, Inr b) \<Rightarrow> whole minute (b - a) < 5
                 | _ \<Rightarrow> False)
            | Sched_At due \<Rightarrow> False))"

section \<open>A tick\<close>

text \<open>
  What a tick does to the scheduler's memory of the health it last reported, and the events it
  publishes itself; the jobs' own events follow.  The input is the answer of the store.
\<close>

definition tick_once :: "bool option \<Rightarrow> string + cron_job list \<Rightarrow> bool option \<times> cron_event list \<times> cron_job list" where
  "tick_once reported due =
     (case due of
        Inl e \<Rightarrow>
          (if reported \<noteq> Some False then (Some False, [Ev_Health False (Some e)], []) else (reported, [], []))
      | Inr jobs \<Rightarrow>
          (let events = (if reported \<noteq> Some True then [Ev_Health True None] else [])
           in if jobs = [] then (Some True, events, [])
              else (None, events, jobs)))"

text \<open>The jobs of a tick, at most \<open>max_concurrent\<close> at once, in the order of the queue.\<close>

record job_pool =
  jp_waiting :: "cron_job list"
  jp_running :: "cron_job list"
  jp_done :: "cron_job list"
  jp_events :: "cron_event list"

definition pool_limit :: "nat \<Rightarrow> nat" where "pool_limit max_concurrent = max max_concurrent 1"

inductive pool_step :: "nat \<Rightarrow> job_pool \<Rightarrow> job_pool \<Rightarrow> bool" for max_concurrent where
  start: "jp_waiting w = job # rest \<Longrightarrow> length (jp_running w) < pool_limit max_concurrent \<Longrightarrow>
    pool_step max_concurrent w (w\<lparr>jp_waiting := rest, jp_running := jp_running w @ [job]\<rparr>)"
| finish: "jp_running w = xs @ job # ys \<Longrightarrow>
    pool_step max_concurrent w (w\<lparr>jp_running := xs @ ys, jp_done := jp_done w @ [job],
      jp_events := jp_events w @ [job_health (cj_id job, success, failure)]\<rparr>)"

end
