(* ===== verification/Cron_Scheduler_Facts.thy ===== *)
theory Cron_Scheduler_Facts
  imports Cron_Scheduler Cron_Store_Facts "HOL-Library.Multiset"
begin

text \<open>
  What the scheduler of cron jobs guarantees: no command is spawned that the policy forbids or the
  hourly budget does not cover, retries are bounded, results are delivered and recorded where they
  belong, every job of a tick is run, and the health recovers.
\<close>

section \<open>The gate\<close>

lemma tracker_keeps:
  "autonomy (p\<lparr>tracker := t\<rparr>) = autonomy p" "workspace_dir (p\<lparr>tracker := t\<rparr>) = workspace_dir p"
  "workspace_only (p\<lparr>tracker := t\<rparr>) = workspace_only p" "allowed_commands (p\<lparr>tracker := t\<rparr>) = allowed_commands p"
  "forbidden_paths (p\<lparr>tracker := t\<rparr>) = forbidden_paths p" "trusted_roots (p\<lparr>tracker := t\<rparr>) = trusted_roots p"
  by simp_all

lemma policy_ignores_tracker [simp]:
  "can_act (p\<lparr>tracker := t\<rparr>) = can_act p"
  "is_command_allowed (p\<lparr>tracker := t\<rparr>) = is_command_allowed p"
  "is_path_string_allowed fs (p\<lparr>tracker := t\<rparr>) = is_path_string_allowed fs p"
proof -
  show "can_act (p\<lparr>tracker := t\<rparr>) = can_act p" by (simp add: can_act_def)
  have "segment_allowed (p\<lparr>tracker := t\<rparr>) = segment_allowed p"
    unfolding segment_allowed_def[abs_def] tracker_keeps by (rule refl)
  then show "is_command_allowed (p\<lparr>tracker := t\<rparr>) = is_command_allowed p"
    unfolding is_command_allowed_def[abs_def] tracker_keeps by simp
  have within: "is_within_trusted_root fs (p\<lparr>tracker := t\<rparr>) = is_within_trusted_root fs p"
    unfolding is_within_trusted_root_def[abs_def] tracker_keeps by (rule refl)
  have internal: "is_workspace_internal_path fs (p\<lparr>tracker := t\<rparr>) = is_workspace_internal_path fs p"
    unfolding is_workspace_internal_path_def[abs_def] tracker_keeps by (rule refl)
  have canon: "try_canonicalize_under_workspace fs (p\<lparr>tracker := t\<rparr>) = try_canonicalize_under_workspace fs p"
    unfolding try_canonicalize_under_workspace_def[abs_def] tracker_keeps by (rule refl)
  have allowed: "canonical_allowed fs (p\<lparr>tracker := t\<rparr>) = canonical_allowed fs p"
    unfolding canonical_allowed_def[abs_def] is_resolved_path_allowed_for_def[abs_def]
      is_resolved_path_allowed_def[abs_def] within internal tracker_keeps by (rule refl)
  show "is_path_string_allowed fs (p\<lparr>tracker := t\<rparr>) = is_path_string_allowed fs p"
    unfolding is_path_string_allowed_def[abs_def] within internal canon allowed tracker_keeps by (rule refl)
qed

lemma forbidden_ignores_tracker [simp]:
  "forbidden_path_argument fs (p\<lparr>tracker := t\<rparr>) = forbidden_path_argument fs p"
  by (simp add: forbidden_path_argument_def[abs_def] forbidden_argument_def[abs_def])

definition permitted :: "file_system \<Rightarrow> security_policy \<Rightarrow> string \<Rightarrow> bool" where
  "permitted fs p command =
     (can_act p \<and> is_command_allowed p command \<and> forbidden_path_argument fs p command = None)"

lemma limited_tracker: "is_rate_limited lo r p = (b, p') \<Longrightarrow> \<exists>t. p' = p\<lparr>tracker := t\<rparr>"
  by (auto simp: is_rate_limited_def Let_def case_prod_beta)

lemma record_tracker: "record_action lo r p = (b, p') \<Longrightarrow> \<exists>t. p' = p\<lparr>tracker := t\<rparr>"
  by (auto simp: record_action_def Let_def case_prod_beta)

text \<open>The ways an attempt can go: what it does to the policy is a sequence of calls on it.\<close>

lemma run_job_command_cases:
  obtains (read_only) "\<not> can_act p" "run_job_command lo fs a c p = ((False, BLOCKED_PREFIX @ '' autonomy is read-only''), [], p)"
  | (refused) out where "can_act p" "run_job_command lo fs a c p = ((False, BLOCKED_PREFIX @ out), [], run_calls lo p [Call_Limited (sa_limit a)])"
  | (exhausted) out where "permitted fs p c"
      "run_job_command lo fs a c p = ((False, BLOCKED_PREFIX @ out), [],
         run_calls lo p [Call_Limited (sa_limit a), Call_Enforce Op_Act ''cron'' (sa_record a) None])"
      "accepted lo p [Call_Limited (sa_limit a), Call_Enforce Op_Act ''cron'' (sa_record a) None] = []"
  | (spawned) "permitted fs p c"
      "run_job_command lo fs a c p = (shell_result (sa_outcome a), [c],
         run_calls lo p [Call_Limited (sa_limit a), Call_Enforce Op_Act ''cron'' (sa_record a) None])"
      "accepted lo p [Call_Limited (sa_limit a), Call_Enforce Op_Act ''cron'' (sa_record a) None] = [pushed_at (sa_record a)]"
proof (cases "can_act p")
  case False
  then show thesis by (intro read_only) (simp_all add: run_job_command_def)
next
  case True
  obtain limited p1 where lim: "is_rate_limited lo (sa_limit a) p = (limited, p1)" by fastforce
  obtain t where t: "p1 = p\<lparr>tracker := t\<rparr>" using limited_tracker[OF lim] by blast
  obtain recorded p2 where rec: "record_action lo (sa_record a) p1 = (recorded, p2)" by fastforce
  have calls: "run_calls lo p [Call_Limited (sa_limit a)] = p1" using lim by (simp add: run_calls_def)
  have calls2: "run_calls lo p [Call_Limited (sa_limit a), Call_Enforce Op_Act ''cron'' (sa_record a) None] = p2"
    using lim rec True t by (simp add: run_calls_def)
  have acc: "accepted lo p [Call_Limited (sa_limit a), Call_Enforce Op_Act ''cron'' (sa_record a) None] =
      (if recorded then [pushed_at (sa_record a)] else [])"
    using lim rec True t by simp
  show thesis
  proof (cases "limited \<or> \<not> is_command_allowed p c \<or> forbidden_path_argument fs p c \<noteq> None")
    case True
    then consider "limited" | "\<not> limited" "\<not> is_command_allowed p c"
      | path where "\<not> limited" "is_command_allowed p c" "forbidden_path_argument fs p c = Some path" by blast
    then obtain out where "run_job_command lo fs a c p = ((False, BLOCKED_PREFIX @ out), [], p1)"
    proof cases
      case 1
      then show thesis using that[of "'' rate limit exceeded''"] \<open>can_act p\<close> lim by (simp add: run_job_command_def)
    next
      case 2
      then show thesis using that[of "'' command not allowed: '' @ c"] \<open>can_act p\<close> lim t by (simp add: run_job_command_def)
    next
      case (3 path)
      then show thesis using that[of "'' forbidden path argument: '' @ path"] \<open>can_act p\<close> lim t by (simp add: run_job_command_def)
    qed
    then show thesis using refused[of out] calls \<open>can_act p\<close> by simp
  next
    case False
    then have ok: "permitted fs p c" "\<not> limited" using True by (simp_all add: permitted_def)
    show thesis
    proof (cases recorded)
      case True
      then show thesis using spawned ok calls2 acc False lim rec t \<open>can_act p\<close> by (simp add: run_job_command_def)
    next
      case False
      then show thesis using exhausted[of "'' action budget exhausted''"] ok calls2 acc lim rec t
        by (simp add: run_job_command_def permitted_def)
    qed
  qed
qed








section \<open>Retries\<close>

text \<open>A policy that differs at most in its tracker.\<close>

definition same_but_tracker :: "security_policy \<Rightarrow> security_policy \<Rightarrow> bool" where
  "same_but_tracker p q = (\<exists>t. q = p\<lparr>tracker := t\<rparr>)"

lemma same_but_tracker_refl [simp]: "same_but_tracker p p"
proof -
  have "p = p\<lparr>tracker := tracker p\<rparr>" by simp
  then show ?thesis unfolding same_but_tracker_def by (rule exI)
qed

lemma same_but_tracker_trans: "same_but_tracker p q \<Longrightarrow> same_but_tracker q r \<Longrightarrow> same_but_tracker p r"
  by (auto simp: same_but_tracker_def)

lemma same_but_tracker_permitted: "same_but_tracker p q \<Longrightarrow> permitted fs q c = permitted fs p c"
  by (auto simp: same_but_tracker_def permitted_def)

lemma run_call_same: "same_but_tracker p (run_call lo p c)"
proof (cases c)
  case (Call_Limited r)
  then show ?thesis by (auto simp: is_rate_limited_def Let_def case_prod_beta same_but_tracker_def)
next
  case (Call_Enforce op name r dbg)
  show ?thesis
  proof (cases op)
    case Op_Read
    then show ?thesis using Call_Enforce by simp
  next
    case Op_Act
    show ?thesis
    proof (cases "can_act p")
      case True
      then show ?thesis using Call_Enforce Op_Act
        by (cases dbg) (auto simp: record_action_def Let_def case_prod_beta same_but_tracker_def)
    qed (use Call_Enforce Op_Act in simp)
  qed
qed

lemma run_calls_same: "same_but_tracker p (run_calls lo p cs)"
  by (induction cs rule: rev_induct) (auto intro: same_but_tracker_trans run_call_same)

lemma one_attempt_sound:
  "(\<forall>c \<in> set (fst (snd (one_attempt lo fs job env p))). c = cj_command job \<and> cj_job_type job = Job_Shell \<and> permitted fs p c)
   \<and> length (fst (snd (one_attempt lo fs job env p))) \<le> 1 \<and> same_but_tracker p (snd (snd (one_attempt lo fs job env p)))
   \<and> (cj_job_type job = Job_Shell \<and> \<not> permitted fs p (cj_command job) \<longrightarrow>
        (\<exists>out. fst (one_attempt lo fs job env p) = (False, BLOCKED_PREFIX @ out, None)))"
proof (cases "cj_job_type job")
  case Job_Agent
  then show ?thesis by (simp add: one_attempt_def)
next
  case Job_Shell
  then show ?thesis
    by (cases rule: run_job_command_cases[of p lo fs "ae_shell env" "cj_command job"])
       (auto simp: one_attempt_def case_prod_beta run_calls_same simp del: run_calls_simps)
qed

lemma attempts_from_sound:
  "let r = attempts_from lo fs job envs i n b err p in
     1 \<le> ro_attempts r \<and> ro_attempts r \<le> Suc n \<and> Suc (length (ro_waits r)) = ro_attempts r
   \<and> length (ro_spawned r) \<le> ro_attempts r
   \<and> (\<forall>c \<in> set (ro_spawned r). c = cj_command job \<and> cj_job_type job = Job_Shell \<and> permitted fs p c)
   \<and> (cj_job_type job = Job_Shell \<and> \<not> permitted fs p (cj_command job) \<longrightarrow>
        ro_attempts r = 1 \<and> \<not> ro_success r \<and> prefix BLOCKED_PREFIX (ro_output r))
   \<and> (unat b \<le> 30000 \<longrightarrow> (\<forall>w \<in> set (ro_waits r). unat w < 30250))"
proof (induction n arbitrary: i b err p)
  case 0
  show ?case using one_attempt_sound[of lo fs job "envs i" p]
    by (subst attempts_from.simps) (auto simp: Let_def case_prod_beta)
next
  case (Suc n)
  obtain ok out e spawned p' where att: "one_attempt lo fs job (envs i) p = ((ok, out, e), spawned, p')"
    by (metis prod.collapse)
  note sound = one_attempt_sound[of lo fs job "envs i" p, unfolded att]
  let ?e = "if e = None then err else e"
  let ?w = "b + of_nat (ae_subsec_millis (envs i) mod 250)"
  let ?later = "attempts_from lo fs job envs (Suc i) n (next_backoff b) ?e p'"
  have perm: "permitted fs p' c = permitted fs p c" for c
    using sound same_but_tracker_permitted by auto
  have nb: "unat (next_backoff b) \<le> 30000"
  proof -
    have "next_backoff b \<le> 30000" by (simp add: next_backoff_def)
    then show ?thesis by (simp add: word_le_nat_alt)
  qed
  have w: "unat ?w < 30250" if "unat b \<le> 30000"
  proof -
    have m: "ae_subsec_millis (envs i) mod 250 < 250" by simp
    then have "unat (of_nat (ae_subsec_millis (envs i) mod 250) :: 64 word) = ae_subsec_millis (envs i) mod 250"
      by (simp add: unat_of_nat take_bit_nat_eq_self_iff less_trans[OF m])
    then show ?thesis using that m
      by (subst unat_word_ariths) (auto simp: intro: order.strict_trans1[OF mod_less_eq_dividend])
  qed
  show ?case
  proof (cases "ok \<or> prefix BLOCKED_PREFIX out \<or> is_session_expired_failure (cj_job_type job) ?e out")
    case True
    then show ?thesis using sound att
      by (subst attempts_from.simps) (auto simp: Let_def)
  next
    case False
    then have eq: "attempts_from lo fs job envs i (Suc n) b err p =
        ?later\<lparr>ro_spawned := spawned @ ro_spawned ?later, ro_waits := ?w # ro_waits ?later,
          ro_attempts := Suc (ro_attempts ?later)\<rparr>"
      by (subst attempts_from.simps) (simp add: att Let_def)
    have ok: "\<not> (cj_job_type job = Job_Shell \<and> \<not> permitted fs p (cj_command job))"
      using sound False by auto
    show ?thesis
      using Suc.IH[of "Suc i" "next_backoff b" ?e p'] sound nb w ok unfolding eq Let_def perm by auto
  qed
qed

text \<open>C24. A job is attempted at most once more than the configured number of retries, with a wait between
  attempts, each at most 30.25 seconds when the configured one is at most 30; a shell job spawns
  its own command only, at most once in an attempt and only when the policy permits it; one that
  is not permitted is tried once and answers that it was blocked.
\<close>

theorem retries_are_bounded_and_permitted:
  "let r = execute_job_with_retry lo fs retries backoff job envs p in
     1 \<le> ro_attempts r \<and> ro_attempts r \<le> Suc (unat retries) \<and> Suc (length (ro_waits r)) = ro_attempts r
   \<and> length (ro_spawned r) \<le> ro_attempts r
   \<and> (\<forall>c \<in> set (ro_spawned r). c = cj_command job \<and> cj_job_type job = Job_Shell
        \<and> can_act p \<and> is_command_allowed p c \<and> forbidden_path_argument fs p c = None)
   \<and> (cj_job_type job = Job_Shell \<and> \<not> is_command_allowed p (cj_command job) \<longrightarrow>
        ro_attempts r = 1 \<and> \<not> ro_success r \<and> prefix BLOCKED_PREFIX (ro_output r))
   \<and> (unat backoff \<le> 30000 \<longrightarrow> (\<forall>w \<in> set (ro_waits r). unat w < 30250))"
proof -
  have "unat (max backoff 200) \<le> 30000" if "unat backoff \<le> 30000"
    using that by (auto simp: max_def)
  then show ?thesis
    using attempts_from_sound[of lo fs job envs 0 "unat retries" "max backoff 200" None p]
    unfolding execute_job_with_retry_def Let_def permitted_def by blast
qed

text \<open>For examples: a file system in which no path has a canonical form, and an attempt that succeeds.\<close>

definition bare_fs :: file_system where
  "bare_fs = \<lparr>fs_canon = (\<lambda>_. Inl ''no such file''), fs_exists = (\<lambda>_. False), fs_home_dir = None, fs_home_var = None\<rparr>"

definition demo_attempt :: "instant \<Rightarrow> shell_attempt" where
  "demo_attempt t = \<lparr>sa_limit = (t, t, t), sa_record = (t, t, t), sa_outcome = Shell_Exited True ''exit status: 0'' [] []\<rparr>"

definition demo_env :: "nat \<Rightarrow> attempt_env" where
  "demo_env i = \<lparr>ae_shell = demo_attempt (int i), ae_agent = Inr ''hi'', ae_subsec_millis = 999\<rparr>"


theorem retries_are_bounded_and_permitted_witness:
  "let job = demo_job ''b'' 5; p = default_policy\<lparr>autonomy := ReadOnly\<rparr>;
       r = execute_job_with_retry 0 bare_fs 2 500 job demo_env p
   in ro_attempts r = 1 \<and> \<not> ro_success r \<and> ro_spawned r = []"
proof -
  have "\<not> is_command_allowed (default_policy\<lparr>autonomy := ReadOnly\<rparr>) c" for c
    by (simp add: is_command_allowed_def)
  moreover have "cj_job_type (demo_job ''b'' 5) = Job_Shell" by (simp add: demo_job_def)
  ultimately show ?thesis
    using retries_are_bounded_and_permitted[of 0 bare_fs 2 500 "demo_job ''b'' 5" demo_env "default_policy\<lparr>autonomy := ReadOnly\<rparr>"]
    by (auto simp: Let_def)
qed

text \<open>
  A job run on request has a policy of its own, with an empty record of actions: however much of
  the hourly budget the scheduler has used, its first attempt is spawned.
\<close>

theorem run_now_has_its_own_budget:
  assumes "permitted fs (from_config projects probe cfg workspace action) c" and "cfg_max_actions_per_hour cfg \<noteq> 0"
  shows "fst (snd (run_job_command lo fs a c (from_config projects probe cfg workspace action))) = [c]"
proof -
  let ?p = "from_config projects probe cfg workspace action"
  have p: "tracker ?p = []" "max_actions_per_hour ?p = cfg_max_actions_per_hour cfg"
    by (simp_all add: from_config_def Let_def)
  have "0 < unat (cfg_max_actions_per_hour cfg)" using assms(2) by (simp add: unat_gt_0)
  then have "is_rate_limited lo (sa_limit a) ?p = (False, ?p\<lparr>tracker := []\<rparr>)"
    and "fst (record_action lo (sa_record a) (?p\<lparr>tracker := []\<rparr>))"
    using p by (simp_all add: is_rate_limited_def record_action_def tracker_count_def tracker_record_def
        tracker_retain_def Let_def)
  then show ?thesis using assms(1) by (simp add: run_job_command_def permitted_def case_prod_beta)
qed

text \<open>
  The check of path arguments reads a token only as a path: a redirection or the value of an
  option hides the file it names, and the command runs.
\<close>

text \<open>
  The check of path arguments reads a token only as a path: a redirection or the value of an
  option hides the file it names, and the command runs.
\<close>

lemma forbidden_none:
  assumes "command_segments command = [s]" and "segment_arguments s = args"
    and "list_all (\<lambda>a. \<not> forbidden_argument fs policy a) args"
  shows "forbidden_path_argument fs policy command = None"
  using assms by (simp add: forbidden_path_argument_def find_None_iff list_all_iff)

lemma replace_absent: "\<not> sublist pat s \<Longrightarrow> replace_sub pat new s = s"
  by (induction pat new s rule: replace_sub.induct) (auto simp: sublist_Cons_right)

lemma one_segment:
  assumes "\<not> sublist ''&&'' s" and "\<not> sublist ''||'' s" and "list_all (\<lambda>c. c \<notin> {CHR 0x0A, CHR '';'', CHR ''|'', CHR 0x00}) s"
  shows "command_segments s = [s]"
proof -
  have "map (\<lambda>c. if c = CHR 0x0A \<or> c = CHR '';'' \<or> c = CHR ''|'' then CHR 0x00 else c) s = s"
    using assms(3) by (induction s) auto
  moreover have "split_on (\<lambda>c. c = CHR 0x00) s = [s]"
    using assms(3) by (induction s) auto
  ultimately show ?thesis using assms(1,2) by (simp add: command_segments_def replace_absent)
qed

theorem path_check_misses_redirections:
  "forbidden_path_argument bare_fs default_policy ''cat /etc/passwd'' \<noteq> None
   \<and> permitted bare_fs default_policy ''cat </etc/passwd''
   \<and> permitted bare_fs default_policy ''grep -f/etc/passwd a''"
proof -
  have act: "can_act default_policy" by (simp add: can_act_def default_policy_def)
  have "segment_arguments ''cat /etc/passwd'' = [''/etc/passwd'']"
    "forbidden_argument bare_fs default_policy ''/etc/passwd''" by code_simp+
  moreover have "command_segments ''cat /etc/passwd'' = [''cat /etc/passwd'']" by (rule one_segment; code_simp)
  ultimately have "forbidden_path_argument bare_fs default_policy ''cat /etc/passwd'' \<noteq> None"
    by (simp add: forbidden_path_argument_def find_None_iff)
  moreover have "forbidden_path_argument bare_fs default_policy ''cat </etc/passwd'' = None"
  proof (rule forbidden_none)
    show "command_segments ''cat </etc/passwd'' = [''cat </etc/passwd'']" by (rule one_segment; code_simp)
    show "segment_arguments ''cat </etc/passwd'' = [''</etc/passwd'']" by code_simp
    show "list_all (\<lambda>a. \<not> forbidden_argument bare_fs default_policy a) [''</etc/passwd'']" by code_simp
  qed
  moreover have "is_command_allowed default_policy ''cat </etc/passwd''" by code_simp
  moreover have "forbidden_path_argument bare_fs default_policy ''grep -f/etc/passwd a'' = None"
  proof (rule forbidden_none)
    show "command_segments ''grep -f/etc/passwd a'' = [''grep -f/etc/passwd a'']" by (rule one_segment; code_simp)
    show "segment_arguments ''grep -f/etc/passwd a'' = [''-f/etc/passwd'', ''a'']" by code_simp
    show "list_all (\<lambda>a. \<not> forbidden_argument bare_fs default_policy a) [''-f/etc/passwd'', ''a'']" by code_simp
  qed
  moreover have "is_command_allowed default_policy ''grep -f/etc/passwd a''" by code_simp
  ultimately show ?thesis using act by (simp add: permitted_def)
qed

section \<open>Delivery\<close>

text \<open>The addressee of a message in the chat, and what it says.\<close>

fun chat_message_of :: "cron_event \<Rightarrow> string option" where
  "chat_message_of (Ev_Proactive source message name) = Some message"
| "chat_message_of (Ev_Delivery jid channel target output) = Some output"
| "chat_message_of _ = None"

fun is_alert :: "cron_event \<Rightarrow> bool" where
  "is_alert (Ev_Alert jid title body) = True"
| "is_alert _ = False"

text \<open>Only a successful run with an output reaches the chat, once and with exactly its output; and a
  failed run of a job that is delivered raises exactly one alert.
\<close>

theorem chat_gets_successes_only:
  assumes "deliver_if_configured job output success = (r, events)"
  shows "length (filter (\<lambda>e. chat_message_of e \<noteq> None) events) \<le> 1
    \<and> (\<forall>e \<in> set events. \<forall>m. chat_message_of e = Some m \<longrightarrow>
         success \<and> m = output \<and> trim output \<noteq> [] \<and> output \<noteq> EMPTY_AGENT_OUTPUT)
    \<and> (\<not> success \<and> to_ascii_lowercase (trim (dc_mode (cj_delivery job))) \<in> {''proactive'', ''announce''} \<longrightarrow>
         r = Inr () \<and> (\<exists>jid title body. events = [Ev_Alert jid title body]))"
  using assms
  by (auto simp: deliver_if_configured_def Let_def push_cron_alert_def should_deliver_cron_output_to_chat_def
      cron_result_should_alert_def cron_output_is_empty_def split: if_splits option.splits)

theorem chat_gets_successes_only_witness:
  "let job = demo_job ''b'' 5\<lparr>cj_delivery := \<lparr>dc_mode = ''proactive'', dc_channel = None, dc_to = None, dc_best_effort = True\<rparr>\<rparr>
   in \<exists>jid title body. snd (deliver_if_configured job ''x'' False) = [Ev_Alert jid title body]"
proof -
  let ?job = "demo_job ''b'' 5\<lparr>cj_delivery := \<lparr>dc_mode = ''proactive'', dc_channel = None, dc_to = None, dc_best_effort = True\<rparr>\<rparr>"
  obtain r events where d: "deliver_if_configured ?job ''x'' False = (r, events)" by fastforce
  have "to_ascii_lowercase (trim ''proactive'') = ''proactive''" by code_simp
  then show ?thesis using chat_gets_successes_only[OF d] d by (simp add: Let_def)
qed

text \<open>
  A job that announces but names no channel loses the alert of its success too: the error comes
  before it, and with best effort the run still counts as one that went well.
\<close>

theorem missing_channel_drops_alert:
  assumes "cj_delivery job = \<lparr>dc_mode = ''announce'', dc_channel = None, dc_to = t, dc_best_effort = True\<rparr>"
    and "trim output \<noteq> []" and "output \<noteq> EMPTY_AGENT_OUTPUT"
  shows "deliver_if_configured job output True = (Inl no_channel_text, [])
    \<and> (\<exists>writes. persist_job_result job True output s f now = (True, writes, []))"
proof -
  have "to_ascii_lowercase (trim ''announce'') = ''announce''" by code_simp
  then have d: "deliver_if_configured job output True = (Inl no_channel_text, [])"
    using assms by (simp add: deliver_if_configured_def should_deliver_cron_output_to_chat_def cron_output_is_empty_def)
  then show ?thesis using assms(1) by (simp add: persist_job_result_def Let_def)
qed

end
