(* ===== verification/Cron_Tick_Facts.thy ===== *)
theory Cron_Tick_Facts
  imports Cron_Scheduler_Facts
begin

text \<open>
  The jobs of a tick side by side: their writes do not interfere, every job is run and recorded as
  its result demands, and the health the scheduler reports follows its polls.
\<close>

section \<open>Stores whose operations stay with their owner\<close>

text \<open>
  A client that runs operations of several owners in any order relies on two laws: an operation
  leaves what others see, and what it makes of its owner's part depends on that part only.
\<close>

locale owned_store =
  fixes view :: "'d \<Rightarrow> 'i \<Rightarrow> 'v" and act :: "'d \<Rightarrow> 'op \<Rightarrow> 'd" and owner :: "'op \<Rightarrow> 'i"
  assumes frame: "owner f \<noteq> i \<Longrightarrow> view (act d f) i = view d i"
    and own: "view d (owner f) = view d' (owner f) \<Longrightarrow> view (act d f) (owner f) = view (act d' f) (owner f)"
begin

lemma interleaving_same:
  "view d i = view d' i \<Longrightarrow> view (foldl act d fs) i = view (foldl act d' (filter (\<lambda>f. owner f = i) fs)) i"
proof (induction fs arbitrary: d d')
  case (Cons f fs)
  then show ?case using frame[of f i d] own[of d f d'] by (cases "owner f = i") auto
qed simp

lemma interleaving: "view (foldl act d fs) i = view (foldl act d (filter (\<lambda>f. owner f = i) fs)) i"
  by (rule interleaving_same) simp

end

definition row_of :: "cron_db \<Rightarrow> string \<Rightarrow> cron_row option" where
  "row_of db jid = find (\<lambda>r. cr_id r = jid) (db_jobs db)"

lemma row_of_update: "(\<And>r. cr_id (f r) = cr_id r) \<Longrightarrow>
    row_of (update_cron_rows jid f db) i = (if i = jid then map_option f (row_of db i) else row_of db i)"
proof -
  assume f: "\<And>r. cr_id (f r) = cr_id r"
  have "find (\<lambda>r. cr_id r = i) (map (\<lambda>r. if cr_id r = jid then f r else r) rs) =
      (if i = jid then map_option f (find (\<lambda>r. cr_id r = i) rs) else find (\<lambda>r. cr_id r = i) rs)" for rs
    by (induction rs) (auto simp: f)
  then show ?thesis by (simp add: row_of_def update_cron_rows_def)
qed

lemma row_of_remove: "row_of (snd (remove_job jid db)) i = (if i = jid then None else row_of db i)"
proof -
  have "find (\<lambda>r. cr_id r = i) (filter (\<lambda>r. cr_id r \<noteq> jid) rs) =
      (if i = jid then None else find (\<lambda>r. cr_id r = i) rs)" for rs :: "cron_row list"
    by (induction rs) auto
  then show ?thesis by (simp add: row_of_def remove_job_def delete_jobs_def Let_def)
qed

lemma row_of_record: "row_of (snd (record_run C h jid s f st out ms db)) i = row_of db i"
  by (simp add: row_of_def record_run_def Let_def)

lemma row_of_last: "row_of (record_last_run C jid f ok out db) i =
    (if i = jid then map_option (\<lambda>r. r\<lparr>cr_last_run := Some (show_ts C f), cr_last_status := Some (status_text ok),
       cr_last_output := Some (truncate_cron_output out)\<rparr>) (row_of db i) else row_of db i)"
  unfolding record_last_run_def by (subst row_of_update) auto

lemma row_of_reschedule: "row_of (snd (reschedule_after_run L C now job ok out db)) i =
    (case next_run_for_schedule L (cj_schedule job) now of Inl e \<Rightarrow> row_of db i
     | Inr next \<Rightarrow> if i = cj_id job then map_option (\<lambda>r. r\<lparr>cr_next_run := show_ts C next,
          cr_last_run := Some (show_ts C now), cr_last_status := Some (status_text ok),
          cr_last_output := Some (truncate_cron_output out)\<rparr>) (row_of db i) else row_of db i)"
  by (auto simp: reschedule_after_run_def row_of_update split: sum.splits)

lemma get_row: "get_cron_job C jid db = (case row_of db jid of None \<Rightarrow> Inl (not_found_text jid) | Some r \<Rightarrow> map_cron_job_row C r)"
  by (simp add: get_cron_job_def row_of_def)

lemma row_of_id: "row_of db jid = Some r \<Longrightarrow> cr_id r = jid"
  by (auto simp: row_of_def find_Some_iff)

lemma row_of_disable: "row_of (snd (update_job L C n1 n2 jid (empty_cron_patch\<lparr>cp_enabled := Some False\<rparr>) db)) i =
    (if i \<noteq> jid then row_of db i
     else case row_of db jid of None \<Rightarrow> None
          | Some r \<Rightarrow> (case map_cron_job_row C r of Inl e \<Rightarrow> Some r
                      | Inr job \<Rightarrow> row_of (save_job C (job\<lparr>cj_enabled := False\<rparr>) db) jid))"
proof -
  have patch: "patched_job L n1 n2 (empty_cron_patch\<lparr>cp_enabled := Some False\<rparr>) job = Inr (job\<lparr>cj_enabled := False\<rparr>)" for job
    by (simp add: patched_job_def empty_cron_patch_def or_keep_def)
  show ?thesis
  proof (cases "get_cron_job C jid db")
    case (Inl e)
    then show ?thesis by (auto simp: update_job_def get_row split: option.splits sum.splits)
  next
    case (Inr job)
    then have "cj_id job = jid"
      by (auto simp: get_row map_row_Inr(1) row_of_id split: option.splits)
    then show ?thesis using Inr
      by (auto simp: update_job_def get_row patch Let_def save_job_def row_of_update split: option.splits)
  qed
qed

lemma row_of_saved: "cj_id job = jid \<Longrightarrow> row_of (save_job C job db) jid =
    map_option (\<lambda>r. r\<lparr>cr_expression := cj_expression job, cr_command := cj_command job,
      cr_schedule := Some (cj_text C (schedule_to_json C (cj_schedule job))),
      cr_job_type := job_type_as_str (cj_job_type job), cr_prompt := cj_prompt job, cr_name := cj_name job,
      cr_session_target := session_target_as_str (cj_session_target job), cr_model := cj_model job,
      cr_enabled := (if cj_enabled job then 1 else 0),
      cr_delivery := Some (cj_text C (delivery_to_json (cj_delivery job))),
      cr_delete_after_run := (if cj_delete_after_run job then 1 else 0),
      cr_next_run := show_ts C (cj_next_run job), cr_agent_id := cj_agent_id job\<rparr>) (row_of db jid)"
  by (simp add: save_job_def row_of_update)

interpretation cron: owned_store row_of "apply_persist_op L C history" persist_op_job for L C history
proof
  show "row_of (apply_persist_op L C history d f) i = row_of d i" if "persist_op_job f \<noteq> i" for f i d
    using that by (cases f) (auto simp: row_of_record row_of_remove row_of_last row_of_disable row_of_reschedule split: sum.splits)
  show "row_of (apply_persist_op L C history d f) (persist_op_job f) = row_of (apply_persist_op L C history d' f) (persist_op_job f)"
    if same: "row_of d (persist_op_job f) = row_of d' (persist_op_job f)" for d f d'
  proof (cases f)
    case (Persist_Disable jid)
    then show ?thesis using same map_row_Inr(1)[of C _ _] row_of_id[of d' jid]
      by (auto simp: row_of_disable row_of_saved split: option.splits sum.splits)
  qed (use same in \<open>auto simp: row_of_record row_of_remove row_of_last row_of_reschedule split: sum.splits\<close>)
qed

text \<open>C27. The jobs of a tick run side by side and their writes interleave in any order; what becomes of
  the row of a job is what its own writes make of it.
\<close>

theorem concurrent_jobs_do_not_interfere:
  "find (\<lambda>r. cr_id r = jid) (db_jobs (foldl (apply_persist_op L C history) db ops)) =
   find (\<lambda>r. cr_id r = jid) (db_jobs (foldl (apply_persist_op L C history) db
     (filter (\<lambda>op. persist_op_job op = jid) ops)))"
  using cron.interleaving[of L C history db ops jid] by (simp add: row_of_def)

section \<open>What a result does to its job\<close>

text \<open>After the run of a job: one that is to be deleted after one run is gone when it succeeded, and
  disabled, with the error noted, when it failed; any other gets the next run of its schedule and
  its status noted, and stays as it was when the schedule has no next run.
\<close>

theorem result_is_recorded:
  assumes "persist_job_result job success output started finished now = (ok, writes, events)"
    and "db' = foldl (apply_persist_op L C history) db writes"
    and "find (\<lambda>r. cr_id r = cj_id job) (db_jobs db) = Some r" and "map_cron_job_row C r = Inr current"
    and "parse_ts C (show_ts C finished) = Some finished"
  shows "(is_one_shot_auto_delete job \<and> ok \<longrightarrow> find (\<lambda>r. cr_id r = cj_id job) (db_jobs db') = None)
    \<and> (is_one_shot_auto_delete job \<and> \<not> ok \<longrightarrow> (\<exists>r'. find (\<lambda>r. cr_id r = cj_id job) (db_jobs db') = Some r'
         \<and> cr_enabled r' = 0 \<and> cr_last_status r' = Some ''error''))
    \<and> (\<not> is_one_shot_auto_delete job \<longrightarrow> find (\<lambda>r. cr_id r = cj_id job) (db_jobs db') =
         (case next_run_for_schedule L (cj_schedule job) now of Inl e \<Rightarrow> Some r
          | Inr next \<Rightarrow> Some (r\<lparr>cr_next_run := show_ts C next, cr_last_run := Some (show_ts C now),
              cr_last_status := Some (status_text ok), cr_last_output := Some (truncate_cron_output output)\<rparr>)))"
proof -
  have row: "row_of db (cj_id job) = Some r" using assms(3) by (simp add: row_of_def)
  have id: "cr_id r = cj_id job" by (rule row_of_id[OF row])
  have w: "is_one_shot_auto_delete job \<Longrightarrow> ok \<Longrightarrow>
      \<exists>run. writes = [run, Persist_Remove (cj_id job)] \<and> (\<forall>db. row_of (apply_persist_op L C history db run) (cj_id job) = row_of db (cj_id job))"
    "is_one_shot_auto_delete job \<Longrightarrow> \<not> ok \<Longrightarrow>
      \<exists>run. writes = [run, Persist_Last (cj_id job) finished False output, Persist_Disable (cj_id job)]
        \<and> (\<forall>db. row_of (apply_persist_op L C history db run) (cj_id job) = row_of db (cj_id job))"
    "\<not> is_one_shot_auto_delete job \<Longrightarrow>
      \<exists>run. writes = [run, Persist_Reschedule job now ok output] \<and> (\<forall>db. row_of (apply_persist_op L C history db run) (cj_id job) = row_of db (cj_id job))"
    using assms(1) by (auto simp: persist_job_result_def Let_def case_prod_beta row_of_record split: if_splits)
  have "row_of db' (cj_id job) = None" if "is_one_shot_auto_delete job" "ok"
    using w(1)[OF that] by (auto simp: assms(2) row_of_remove)
  moreover have "\<exists>r'. row_of db' (cj_id job) = Some r' \<and> cr_enabled r' = 0 \<and> cr_last_status r' = Some ''error''"
    if shot: "is_one_shot_auto_delete job" "\<not> ok"
  proof -
    obtain run where run: "writes = [run, Persist_Last (cj_id job) finished False output, Persist_Disable (cj_id job)]"
      "row_of (apply_persist_op L C history db run) (cj_id job) = Some r" using w(2)[OF shot] row by auto
    let ?r = "r\<lparr>cr_last_run := Some (show_ts C finished), cr_last_status := Some ''error'',
       cr_last_output := Some (truncate_cron_output output)\<rparr>"
    have "\<exists>j. map_cron_job_row C ?r = Inr j \<and> cj_id j = cj_id job"
      using assms(4,5) id by (auto simp: map_cron_job_row_def parse_rfc3339_def split: sum.splits option.splits)
    then show ?thesis using run by (auto simp: assms(2) row_of_disable row_of_last row_of_saved status_text_def)
  qed
  moreover have "row_of db' (cj_id job) = (case next_run_for_schedule L (cj_schedule job) now of Inl e \<Rightarrow> Some r
          | Inr next \<Rightarrow> Some (r\<lparr>cr_next_run := show_ts C next, cr_last_run := Some (show_ts C now),
              cr_last_status := Some (status_text ok), cr_last_output := Some (truncate_cron_output output)\<rparr>))"
    if "\<not> is_one_shot_auto_delete job"
    using w(3)[OF that] row by (auto simp: assms(2) row_of_reschedule split: sum.splits)
  ultimately show ?thesis unfolding row_of_def by blast
qed

theorem result_is_recorded_witness:
  "find (\<lambda>r. cr_id r = ''b'') (db_jobs (foldl (apply_persist_op demo_lib demo_cron_codec 3) demo_db
     (fst (snd (persist_job_result (demo_job ''b'' 5\<lparr>cj_delete_after_run := True, cj_schedule := Sched_At 5\<rparr>) True ''x'' 6 7 8))))) = None"
proof -
  let ?job = "demo_job ''b'' 5\<lparr>cj_delete_after_run := True, cj_schedule := Sched_At 5\<rparr>"
  obtain ok writes events where p: "persist_job_result ?job True ''x'' 6 7 8 = (ok, writes, events)"
    by (metis prod.collapse)
  have one: "is_one_shot_auto_delete ?job" by (simp add: is_one_shot_auto_delete_def)
  have "to_ascii_lowercase (trim ''none'') = ''none''" by code_simp
  then have ok: "ok" using p one
    by (simp add: persist_job_result_def deliver_if_configured_def demo_job_def default_delivery_def Let_def)
  have find: "find (\<lambda>r. cr_id r = cj_id ?job) (db_jobs demo_db) = Some (demo_row ''b'' 5)"
    by (simp add: demo_db_def demo_row_def shell_row_def demo_job_def)
  have ts: "parse_ts demo_cron_codec (show_ts demo_cron_codec 7) = Some 7" by simp
  have "map_cron_job_row demo_cron_codec (demo_row ''b'' 5) = Inr (demo_job ''b'' 5)" by (simp add: demo_row_reads)
  from result_is_recorded[OF p refl find this ts] show ?thesis
    using one ok p by (simp add: demo_job_def)
qed

text \<open>
  A one-shot job that is not to be deleted, as \<open>add_once\<close> makes it, is rescheduled to the instant it
  had: it stays due and runs at every poll.  So does a job whose schedule has no next run.
\<close>

theorem done_job_stays_due:
  assumes "persist_job_result job success output started finished now = (ok, writes, events)"
    and "find (\<lambda>r. cr_id r = cj_id job) (db_jobs db) = Some r" and "r \<in> set (due_rows C poll db)"
    and "\<not> is_one_shot_auto_delete job"
    and "cj_schedule job = Sched_At due \<and> cr_next_run r = show_ts C due \<or> next_run_for_schedule L (cj_schedule job) now = Inl e"
  shows "\<exists>r'. r' \<in> set (due_rows C poll (foldl (apply_persist_op L C history) db writes)) \<and> cr_id r' = cj_id job"
proof -
  let ?db = "foldl (apply_persist_op L C history) db writes"
  have row: "row_of db (cj_id job) = Some r" using assms(2) by (simp add: row_of_def)
  have due: "cr_enabled r = 1" "cr_next_run r \<le> show_ts C poll" using assms(3) by (auto simp: due_rows_def)
  have "\<exists>run. writes = [run, Persist_Reschedule job now ok output] \<and> (\<forall>db. row_of (apply_persist_op L C history db run) (cj_id job) = row_of db (cj_id job))"
    using assms(1,4) by (auto simp: persist_job_result_def Let_def case_prod_beta row_of_record split: if_splits)
  then obtain r' where r': "row_of ?db (cj_id job) = Some r'" "cr_next_run r' = cr_next_run r" "cr_enabled r' = cr_enabled r"
    using assms(5) row by (auto simp: row_of_reschedule split: sum.splits)
  then have "r' \<in> set (db_jobs ?db)" "cr_id r' = cj_id job"
    by (auto simp: row_of_def find_Some_iff)
  then show ?thesis using due r' by (auto simp: due_rows_def)
qed

text \<open>
  The check for jobs that run too often compares the next run with the next run a second later,
  which is the same one unless it falls into that second: a daily job is reported as well.
\<close>

theorem rare_job_is_reported:
  assumes "cj_job_type job = Job_Agent" and "cj_schedule job = Sched_Cron expr tz None"
    and "normalize_expression expr = Inr e" and "cron_parse L e = Some c" and "timezone_parse L tz = Inr zone"
    and "cron_after L c zone now = Some t" and "cron_after L c zone (now + 1000000000) = Some t"
  shows "warn_if_high_frequency_agent_job L now job"
proof -
  obtain n where n: "MAX_CANDIDATES = Suc n" by (cases MAX_CANDIDATES) (simp_all add: MAX_CANDIDATES_def)
  have steps: "search_next L zone c None expr MAX_CANDIDATES f = Inr t" if "cron_after L c zone f = Some t" for f
    unfolding n using that by (simp add: next_after_def)
  have "next_run_for_schedule L (Sched_Cron expr tz None) f = Inr t" if "cron_after L c zone f = Some t" for f
    using assms(3-5) that steps by (simp add: optional_window_def del: search_next.simps)
  then show ?thesis using assms(1,2,6,7) by (simp add: warn_if_high_frequency_agent_job_def whole_def)
qed

section \<open>Health\<close>

text \<open>A tick with the results of its jobs: what the scheduler remembers, and all health events.\<close>

fun tick_events :: "bool option \<Rightarrow> (string + cron_job list) \<times> (string \<times> bool \<times> string option) list \<Rightarrow> bool option \<times> cron_event list" where
  "tick_events reported (due, results) =
     (let (reported', events, jobs) = tick_once reported due
      in (reported', events @ (if jobs = [] then [] else map job_health results)))"

fun run_ticks :: "((string + cron_job list) \<times> (string \<times> bool \<times> string option) list) list \<Rightarrow> bool option \<times> cron_event list" where
  "run_ticks ticks = foldl (\<lambda>(reported, es) t. let (r, new) = tick_events reported t in (r, es @ new)) (None, []) ticks"

fun health_of :: "cron_event \<Rightarrow> bool option" where
  "health_of (Ev_Health b m) = Some b"
| "health_of _ = None"

definition last_health :: "cron_event list \<Rightarrow> bool option" where
  "last_health es = first (rev (List.map_filter health_of es))"

lemma last_health_snoc [simp]:
  "last_health [] = None" "last_health (es @ [Ev_Health b m]) = Some b"
  by (simp_all add: last_health_def List.map_filter_def)

lemma run_ticks_snoc: "run_ticks (ts @ [t]) =
   (fst (tick_events (fst (run_ticks ts)) t), snd (run_ticks ts) @ snd (tick_events (fst (run_ticks ts)) t))"
  by (simp add: case_prod_beta Let_def)

declare run_ticks.simps [simp del]

lemma run_ticks_empty [simp]: "run_ticks [] = (None, [])" by (simp add: run_ticks.simps)

lemma reported_is_last: "fst (run_ticks ts) = Some b \<Longrightarrow> last_health (snd (run_ticks ts)) = Some b"
proof (induction ts arbitrary: b rule: rev_induct)
  case (snoc t ts)
  obtain due rs where t: "t = (due, rs)" by (cases t)
  show ?case using snoc by (cases due) (auto simp: t run_ticks_snoc tick_once_def split: if_splits)
qed simp

text \<open>After every poll that fails the last reported health of the scheduler is bad, after every poll that
  finds nothing to do it is good, whatever the jobs reported before; and it is reported on a
  change only: the same kind of poll once more publishes nothing.
\<close>

theorem health_follows_polls:
  "last_health (snd (run_ticks (ts @ [(Inl e, rs)]))) = Some False
   \<and> last_health (snd (run_ticks (ts @ [(Inr [], rs)]))) = Some True
   \<and> snd (run_ticks (ts @ [(Inl e, rs), (Inl e', rs')])) = snd (run_ticks (ts @ [(Inl e, rs)]))
   \<and> snd (run_ticks (ts @ [(Inr [], rs), (Inr [], rs')])) = snd (run_ticks (ts @ [(Inr [], rs)]))"
proof -
  have two: "run_ticks (ts @ [a, b]) = run_ticks ((ts @ [a]) @ [b])" for a b by simp
  show ?thesis unfolding two run_ticks_snoc using reported_is_last[of ts]
    by (auto simp: tick_once_def)
qed

section \<open>All jobs are run\<close>







end
