(* ===== verification/Routing.thy ===== *)
theory Routing
  imports Context_Mgmt
begin

text \<open>
  Routing of inference requests: the policy that decides between the local and the remote
  model (\<open>src/openhuman/routing/policy.rs\<close>), the quality check of a local answer
  (\<open>quality.rs\<close>), the cached health of the local server (\<open>health.rs\<close>), the provider that
  dispatches by them (\<open>provider.rs\<close>, with the record it emits, \<open>telemetry.rs\<close>), and the route
  table of \<open>src/openhuman/inference/provider/router.rs\<close>.

  A provider is a function from the request and the name of the model to its answer, and
  every operation also returns the calls it made, in order.  The multi-pattern search of the
  refusal phrases is a crate's; it is a parameter, as is the clock.
\<close>

section \<open>The policy\<close>

datatype task_category = Lightweight | Medium_Task | Heavy

fun category_as_str :: "task_category \<Rightarrow> string" where
  "category_as_str Lightweight = ''lightweight''"
| "category_as_str Medium_Task = ''medium''"
| "category_as_str Heavy = ''heavy''"

datatype latency_budget = Latency_Low | Latency_Normal
datatype cost_sensitivity = Cost_Normal | Cost_High

record routing_hints =
  privacy_required :: bool
  latency_hint :: latency_budget
  cost_hint :: cost_sensitivity

definition default_hints :: routing_hints where
  "default_hints = \<lparr>privacy_required = False, latency_hint = Latency_Normal, cost_hint = Cost_Normal\<rparr>"

datatype routing_target = Route_Local (target_model: string) | Route_Remote (target_model: string)

fun target_label :: "routing_target \<Rightarrow> string" where
  "target_label (Route_Local _) = ''local''"
| "target_label (Route_Remote _) = ''remote''"

definition classify_model :: "string \<Rightarrow> task_category" where
  "classify_model model =
     (case strip_prefix ''hint:'' model of
        Some h \<Rightarrow>
          if h \<in> set [''reaction'', ''classify'', ''format'', ''sentiment'', ''lightweight''] then Lightweight
          else if h \<in> set [''summarize'', ''medium'', ''tool_lite''] then Medium_Task
          else Heavy
      | None \<Rightarrow> Heavy)"

definition decide_route ::
    "task_category \<Rightarrow> string \<Rightarrow> string \<Rightarrow> bool \<Rightarrow> routing_hints \<Rightarrow> routing_target \<times> routing_target option" where
  "decide_route category local_model remote_model local_available hints =
     (if privacy_required hints then (Route_Local local_model, None)
      else if category = Heavy then (Route_Remote remote_model, None)
      else
        (let local_bias = (if latency_hint hints = Latency_Low then 1 else 0)
                          + (if cost_hint hints = Cost_High then 1 else 0 :: int);
             use_local = (local_available \<and>
               (case category of Lightweight \<Rightarrow> True | Medium_Task \<Rightarrow> 0 < local_bias | Heavy \<Rightarrow> False))
         in if use_local then (Route_Local local_model, Some (Route_Remote remote_model))
            else (Route_Remote remote_model, None)))"

section \<open>Quality of a local answer\<close>

definition MIN_CHARS :: nat where "MIN_CHARS = 5"
definition REFUSAL_SCAN_WINDOW :: nat where "REFUSAL_SCAN_WINDOW = 200"

text \<open>\<open>apo\<close> is the apostrophe.\<close>

abbreviation apo :: string where "apo \<equiv> [CHR 0x27]"

definition REFUSAL_PHRASES :: "string list" where
  "REFUSAL_PHRASES =
    [''i cannot'', ''i can'' @ apo @ ''t'', ''i can not'', ''i won'' @ apo @ ''t'',
     ''i won'' @ apo @ ''t be able to'', ''i will not'', ''i'' @ apo @ ''m unable to'',
     ''i am unable to'', ''i'' @ apo @ ''m not able to'', ''i am not able to'',
     ''i'' @ apo @ ''m afraid i can'' @ apo @ ''t'', ''i'' @ apo @ ''m afraid i cannot'',
     ''i don'' @ apo @ ''t have the ability'', ''i do not have the ability'',
     ''i don'' @ apo @ ''t have access'', ''i do not have access'',
     ''as an ai,'', ''as an ai language'', ''as a language model'',
     ''i'' @ apo @ ''m just an ai'', ''i'' @ apo @ ''m just a language model'',
     ''i must decline'', ''i have to decline'',
     ''i'' @ apo @ ''m sorry, but i cannot'', ''i'' @ apo @ ''m sorry, but i can'' @ apo @ ''t'',
     ''i apologize, but i cannot'', ''i apologize, but i can'' @ apo @ ''t'',
     ''my apologies, but i cannot'', ''sorry, i cannot'', ''sorry, i can'' @ apo @ ''t'',
     ''unfortunately, i cannot'', ''unfortunately, i can'' @ apo @ ''t'',
     ''it'' @ apo @ ''s not appropriate for me'', ''it is not appropriate for me'',
     ''it would not be appropriate'', ''i'' @ apo @ ''m not comfortable'', ''i am not comfortable'']"

definition EMPTY_NOISE_TOKENS :: "string list" where
  "EMPTY_NOISE_TOKENS =
    [''okay.'', ''okay!'', ''sure.'', ''sure!'', ''right.'', ''noted.'', ''got it.'', ''got it!'', ''understood.'']"

definition is_empty_noise :: "string \<Rightarrow> bool" where
  "is_empty_noise trimmed =
     list_ex (\<lambda>token. to_ascii_lowercase trimmed = to_ascii_lowercase token) EMPTY_NOISE_TOKENS"

text \<open>
  \<open>find_any phrases text\<close> is the search of the phrases in the bytes of the text, ignoring the
  case of ASCII letters.
\<close>

type_synonym phrase_search = "string list \<Rightarrow> string \<Rightarrow> bool"

definition is_low_quality :: "phrase_search \<Rightarrow> string \<Rightarrow> bool" where
  "is_low_quality find_any text =
     (let trimmed = trim text
      in if length trimmed < MIN_CHARS then True
         else if is_empty_noise trimmed then True
         else find_any REFUSAL_PHRASES (take REFUSAL_SCAN_WINDOW trimmed))"

section \<open>Health of the local server\<close>

datatype cached_status = Healthy | Unavailable

record health_cache =
  hc_last_result :: cached_status
  hc_checked_at :: nat
  hc_ttl :: nat

definition fresh_answer :: "nat \<Rightarrow> health_cache option \<Rightarrow> bool option" where
  "fresh_answer now cache =
     (case cache of
        None \<Rightarrow> None
      | Some c \<Rightarrow> if now - hc_checked_at c < hc_ttl c then Some (hc_last_result c = Healthy) else None)"

text \<open>
  A call at \<open>now\<close>; a probe, if one is made, ends at \<open>later\<close> with the answer \<open>probe\<close>.  The result
  is the answer of the call, whether it probed, and the cache.
\<close>

definition is_healthy ::
    "nat \<Rightarrow> nat \<Rightarrow> nat \<Rightarrow> bool \<Rightarrow> health_cache option \<Rightarrow> bool \<times> bool \<times> health_cache option" where
  "is_healthy ttl now later probe cache =
     (case fresh_answer now cache of
        Some b \<Rightarrow> (b, False, cache)
      | None \<Rightarrow>
          (probe, True,
           Some \<lparr>hc_last_result = (if probe then Healthy else Unavailable), hc_checked_at = later, hc_ttl = ttl\<rparr>))"

definition invalidate :: "health_cache option \<Rightarrow> health_cache option" where
  "invalidate cache = None"

section \<open>The routing provider\<close>

text \<open>The usage report with the fields the routing record and the cost accounting read.\<close>

record billed_usage = usage_info +
  cached_input_tokens :: "64 word"
  charged_amount_usd :: rat

record chat_response =
  cr_text :: "string option"
  cr_tool_calls :: "tool_call list"
  cr_usage :: "billed_usage option"
  cr_reasoning :: "string option"

text \<open>A request of \<open>Provider::chat\<close>: the descriptions of the tools are carried as their text, and of the
  sink for the deltas only whether there is one.\<close>

record chat_request =
  rq_messages :: "chat_message list"
  rq_tools :: "string list option"
  rq_stream :: bool
  rq_max_tokens :: "nat option"

datatype side = Local_Side | Remote_Side

text \<open>A call: the provider, the model, and the rest of the request as the caller gave it.\<close>

type_synonym 'q routed_call = "side \<times> string \<times> 'q"
type_synonym ('q, 'e, 'r) provider = "'q \<Rightarrow> string \<Rightarrow> 'e + 'r"

record routing_provider =
  rp_local_model :: string
  rp_remote_fallback_model :: string
  rp_local_enabled :: bool
  rp_hints :: routing_hints

record routing_record =
  rc_model_hint :: string
  rc_task_category :: string
  rc_routed_to :: string
  rc_resolved_model :: string
  rc_local_healthy :: bool
  rc_fallback_to_remote :: bool
  rc_latency_ms :: nat
  rc_input_tokens :: "64 word"
  rc_output_tokens :: "64 word"
  rc_cost_usd :: rat

definition MODEL_REASONING_V1 :: string where "MODEL_REASONING_V1 = ''reasoning-v1''"
definition MODEL_CHAT_V1 :: string where "MODEL_CHAT_V1 = ''chat-v1''"
definition MODEL_AGENTIC_V1 :: string where "MODEL_AGENTIC_V1 = ''agentic-v1''"
definition MODEL_CODING_V1 :: string where "MODEL_CODING_V1 = ''coding-v1''"

definition resolve_remote_model :: "routing_provider \<Rightarrow> string \<Rightarrow> task_category \<Rightarrow> string" where
  "resolve_remote_model p requested category =
     (if category \<noteq> Heavy then rp_remote_fallback_model p
      else
        (let h = strip_prefix ''hint:'' requested
         in if h = Some ''reasoning'' then MODEL_REASONING_V1
            else if h = Some ''chat'' then MODEL_CHAT_V1
            else if h = Some ''agentic'' then MODEL_AGENTIC_V1
            else if h = Some ''coding'' then MODEL_CODING_V1
            else requested))"

text \<open>\<open>healthy\<close> is the answer the health checker would give now.\<close>

definition resolve_route ::
    "routing_provider \<Rightarrow> bool \<Rightarrow> string \<Rightarrow> routing_target \<times> routing_target option \<times> task_category \<times> bool" where
  "resolve_route p healthy model =
     (let category = classify_model model;
          local_healthy = (if rp_local_enabled p then healthy else False);
          remote_model = resolve_remote_model p model category;
          (primary, fallback) = decide_route category (rp_local_model p) remote_model local_healthy (rp_hints p)
      in (primary, fallback, category, local_healthy))"

definition resolve_streaming_target :: "routing_provider \<Rightarrow> string \<Rightarrow> routing_target \<times> string" where
  "resolve_streaming_target p model =
     (let category = classify_model model;
          remote_model = resolve_remote_model p model category
      in (fst (decide_route category (rp_local_model p) remote_model (rp_local_enabled p) (rp_hints p)),
          remote_model))"

text \<open>
  The local call has answered \<open>result\<close>; \<open>again\<close> is the remote call, made only when it is
  needed.  The second component tells whether it was.
\<close>

definition try_local_with_fallback ::
    "phrase_search \<Rightarrow> 'e + string \<Rightarrow> routing_target option \<Rightarrow> (unit \<Rightarrow> 'e + string) \<Rightarrow> bool \<Rightarrow>
     ('e + string) \<times> bool" where
  "try_local_with_fallback find_any result fallback again privacy =
     (case result of
        Inl e \<Rightarrow>
          if privacy then (result, False)
          else (case fallback of
                  Some (Route_Remote _) \<Rightarrow> (again (), True)
                | _ \<Rightarrow> (result, False))
      | Inr text \<Rightarrow>
          if \<not> privacy \<and> is_low_quality find_any text then
            (case fallback of
               Some (Route_Remote _) \<Rightarrow> (again (), True)
             | _ \<Rightarrow> (result, False))
          else (result, False))"

definition routing_record_of ::
    "string \<Rightarrow> task_category \<Rightarrow> routing_target \<Rightarrow> routing_target option \<Rightarrow> bool \<Rightarrow> bool \<Rightarrow> nat \<Rightarrow>
     64 word \<times> 64 word \<times> rat \<Rightarrow> routing_record" where
  "routing_record_of model category primary fallback local_healthy fell_back latency billed =
     \<lparr>rc_model_hint = model, rc_task_category = category_as_str category,
      rc_routed_to = (if fell_back then ''remote'' else target_label primary),
      rc_resolved_model =
        (if fell_back then (case fallback of Some t \<Rightarrow> target_model t | None \<Rightarrow> []) else target_model primary),
      rc_local_healthy = local_healthy, rc_fallback_to_remote = fell_back, rc_latency_ms = latency,
      rc_input_tokens = fst billed, rc_output_tokens = fst (snd billed), rc_cost_usd = snd (snd billed)\<rparr>"

definition dispatch_chat_with_system ::
    "phrase_search \<Rightarrow> ('q, 'e, string) provider \<Rightarrow> ('q, 'e, string) provider \<Rightarrow> routing_provider \<Rightarrow> bool \<Rightarrow> nat \<Rightarrow>
     'q \<Rightarrow> string \<Rightarrow> ('e + string) \<times> 'q routed_call list \<times> routing_record" where
  "dispatch_chat_with_system find_any loc rem p healthy latency q model =
     (let (primary, fallback, category, local_healthy) = resolve_route p healthy model;
          (result, fell_back, calls) =
            (case primary of
               Route_Local m \<Rightarrow>
                 (let fb_model = (case fallback of Some (Route_Remote fb) \<Rightarrow> fb | _ \<Rightarrow> []);
                      (r, again) = try_local_with_fallback find_any (loc q m) fallback
                                     (\<lambda>_. rem q fb_model) (privacy_required (rp_hints p))
                  in (r, again, (Local_Side, m, q) # (if again then [(Remote_Side, fb_model, q)] else [])))
             | Route_Remote m \<Rightarrow> (rem q m, False, [(Remote_Side, m, q)]))
      in (result, calls,
          routing_record_of model category primary fallback local_healthy fell_back latency (0, 0, 0)))"

definition dispatch_chat_with_history ::
    "phrase_search \<Rightarrow> ('q, 'e, string) provider \<Rightarrow> ('q, 'e, string) provider \<Rightarrow> routing_provider \<Rightarrow> bool \<Rightarrow> nat \<Rightarrow>
     'q \<Rightarrow> string \<Rightarrow> ('e + string) \<times> 'q routed_call list \<times> routing_record" where
  "dispatch_chat_with_history find_any loc rem p healthy latency q model =
     (let (primary, fallback, category, local_healthy) = resolve_route p healthy model;
          (result, fell_back, calls) =
            (case primary of
               Route_Local m \<Rightarrow>
                 (let r = loc q m;
                      do_fallback = (\<not> privacy_required (rp_hints p) \<and> fallback \<noteq> None \<and>
                        (case r of Inl _ \<Rightarrow> True | Inr text \<Rightarrow> is_low_quality find_any text))
                  in if do_fallback then
                       (case fallback of
                          Some (Route_Remote fb) \<Rightarrow> (rem q fb, True, [(Local_Side, m, q), (Remote_Side, fb, q)])
                        | _ \<Rightarrow> (r, False, [(Local_Side, m, q)]))
                     else (r, False, [(Local_Side, m, q)]))
             | Route_Remote m \<Rightarrow> (rem q m, False, [(Remote_Side, m, q)]))
      in (result, calls,
          routing_record_of model category primary fallback local_healthy fell_back latency (0, 0, 0)))"

definition should_fallback :: "phrase_search \<Rightarrow> 'e + chat_response \<Rightarrow> bool \<Rightarrow> routing_target option \<Rightarrow> bool" where
  "should_fallback find_any result privacy fallback =
     (if privacy \<or> fallback = None then False
      else case result of
             Inl _ \<Rightarrow> True
           | Inr resp \<Rightarrow> is_low_quality find_any (case cr_text resp of Some t \<Rightarrow> t | None \<Rightarrow> []))"

definition has_tools :: "chat_request \<Rightarrow> bool" where
  "has_tools q = is_some_and (rq_tools q) (\<lambda>ts. ts \<noteq> [])"

definition billed_of :: "'e + chat_response \<Rightarrow> 64 word \<times> 64 word \<times> rat" where
  "billed_of result =
     (case result of
        Inl _ \<Rightarrow> (0, 0, 0)
      | Inr resp \<Rightarrow>
          (case cr_usage resp of
             None \<Rightarrow> (0, 0, 0)
           | Some u \<Rightarrow> (input_tokens u, output_tokens u, charged_amount_usd u)))"

definition dispatch_chat ::
    "phrase_search \<Rightarrow> (chat_request, 'e, chat_response) provider \<Rightarrow> (chat_request, 'e, chat_response) provider \<Rightarrow>
     routing_provider \<Rightarrow> bool \<Rightarrow> nat \<Rightarrow> chat_request \<Rightarrow> string \<Rightarrow>
     ('e + chat_response) \<times> chat_request routed_call list \<times> routing_record" where
  "dispatch_chat find_any loc rem p healthy latency q model =
     (let (primary, fallback, category, local_healthy) = resolve_route p healthy model;
          effective =
            (case primary of
               Route_Local m \<Rightarrow> if has_tools q then Route_Remote (rp_remote_fallback_model p) else primary
             | Route_Remote m \<Rightarrow> primary);
          (result, fell_back, calls) =
            (case effective of
               Route_Local m \<Rightarrow>
                 (let r = loc q m
                  in if should_fallback find_any r (privacy_required (rp_hints p)) fallback then
                       (case fallback of
                          Some (Route_Remote fb) \<Rightarrow> (rem q fb, True, [(Local_Side, m, q), (Remote_Side, fb, q)])
                        | _ \<Rightarrow> (r, False, [(Local_Side, m, q)]))
                     else (r, False, [(Local_Side, m, q)]))
             | Route_Remote m \<Rightarrow> (rem q m, False, [(Remote_Side, m, q)]))
      in (result, calls,
          routing_record_of model category effective fallback local_healthy fell_back latency (billed_of result)))"

definition routing_supports_streaming :: "bool \<Rightarrow> routing_provider \<Rightarrow> bool" where
  "routing_supports_streaming remote_supports p = (\<not> privacy_required (rp_hints p) \<and> remote_supports)"

definition stream_local_not_supported :: string where
  "stream_local_not_supported =
     ''[routing] streaming selected local path, but local streaming is not implemented''"

text \<open>A stream is the list of its items, each an error or a chunk.\<close>

definition routed_stream ::
    "('q \<Rightarrow> string \<Rightarrow> (string + 'c) list) \<Rightarrow> routing_provider \<Rightarrow> 'q \<Rightarrow> string \<Rightarrow>
     (string + 'c) list \<times> 'q routed_call list" where
  "routed_stream rem p q model =
     (case resolve_streaming_target p model of
        (Route_Remote _, remote_model) \<Rightarrow> (rem q remote_model, [(Remote_Side, remote_model, q)])
      | (Route_Local _, _) \<Rightarrow> ([Inl stream_local_not_supported], []))"

text \<open>\<open>warmup\<close>: the answers of the two providers; the result and which of them were warmed up.\<close>

definition routing_warmup :: "'e + unit \<Rightarrow> 'e + unit \<Rightarrow> routing_provider \<Rightarrow> ('e + unit) \<times> side list" where
  "routing_warmup remote_answer local_answer p =
     (case remote_answer of
        Inl e \<Rightarrow> (Inl e, [Remote_Side])
      | Inr _ \<Rightarrow> (Inr (), Remote_Side # (if rp_local_enabled p then [Local_Side] else [])))"

section \<open>The route table\<close>

definition openhuman_tier_to_hint :: "string \<Rightarrow> string option" where
  "openhuman_tier_to_hint = map_of
     [(''reasoning-v1'', ''reasoning''), (''chat-v1'', ''chat''), (''reasoning-quick-v1'', ''chat''),
      (''agentic-v1'', ''agentic''), (''coding-v1'', ''coding''), (''summarization-v1'', ''summarization''),
      (''vision-v1'', ''vision'')]"

record route =
  route_provider :: string
  route_model :: string

record 'p router =
  ro_routes :: "string \<rightharpoonup> nat \<times> string"
  ro_providers :: "(string \<times> 'p) list"
  ro_default_index :: nat
  ro_default_model :: string

text \<open>\<open>collect\<close> into a hash map keeps the last value of a key.\<close>

definition last_value_map :: "('a \<times> 'b) list \<Rightarrow> 'a \<rightharpoonup> 'b" where
  "last_value_map kvs = map_of (rev kvs)"

definition provider_index :: "(string \<times> 'p) list \<Rightarrow> string \<Rightarrow> nat option" where
  "provider_index ps = last_value_map (map (\<lambda>(i, name, _). (name, i)) (enumerate 0 ps))"

definition router_new :: "(string \<times> 'p) list \<Rightarrow> (string \<times> route) list \<Rightarrow> string \<Rightarrow> 'p router" where
  "router_new ps routes default_model =
     \<lparr>ro_routes = last_value_map
        (List.map_filter (\<lambda>(hint, r). map_option (\<lambda>i. (hint, (i, route_model r))) (provider_index ps (route_provider r)))
          routes),
      ro_providers = ps, ro_default_index = 0, ro_default_model = default_model\<rparr>"

definition router_resolve :: "'p router \<Rightarrow> string \<Rightarrow> nat \<times> string" where
  "router_resolve ro model =
     (case Option.bind (strip_prefix ''hint:'' model) (ro_routes ro) of
        Some target \<Rightarrow> target
      | None \<Rightarrow>
          (case openhuman_tier_to_hint model of
             Some hint \<Rightarrow>
               (case ro_routes ro hint of
                  Some target \<Rightarrow> target
                | None \<Rightarrow> (ro_default_index ro, ro_default_model ro))
           | None \<Rightarrow> (ro_default_index ro, model)))"

text \<open>
  A request through the router: the four request kinds differ only in the operation of the
  provider they call.  Indexing the providers panics out of range, which is \<open>None\<close>.
\<close>

definition router_call ::
    "('p \<Rightarrow> ('q, 'e, 'r) provider) \<Rightarrow> 'p router \<Rightarrow> 'q \<Rightarrow> string \<Rightarrow> ('e + 'r) option" where
  "router_call operation ro q model =
     (let (idx, resolved) = router_resolve ro model
      in if idx < length (ro_providers ro) then Some (operation (snd (ro_providers ro ! idx)) q resolved) else None)"

end
