(* ===== verification/Routing_Facts.thy ===== *)
theory Routing_Facts
  imports Routing
begin

text \<open>
  Facts about the routing of requests: one reference for what the three dispatchers do, stated
  as an interface (\<open>routed_dispatch\<close>) that each of them implements; privacy, the agreement of the
  record with the calls, the spacing of the health probes, and the route table.
\<close>

section \<open>The reference\<close>

lemma decide_route_cases:
  obtains (only_local) m where "decide_route c l r a h = (Route_Local m, None)" "privacy_required h" "m = l"
  | (with_fallback) "decide_route c l r a h = (Route_Local l, Some (Route_Remote r))" "\<not> privacy_required h" "a"
      "c \<noteq> Heavy"
  | (remote) "decide_route c l r a h = (Route_Remote r, None)" "\<not> privacy_required h"
proof -
  have "decide_route c l r a h = (Route_Local l, None) \<and> privacy_required h
      \<or> decide_route c l r a h = (Route_Local l, Some (Route_Remote r)) \<and> \<not> privacy_required h \<and> a \<and> c \<noteq> Heavy
      \<or> decide_route c l r a h = (Route_Remote r, None) \<and> \<not> privacy_required h"
    by (cases c) (simp_all add: decide_route_def Let_def)
  with only_local with_fallback remote show thesis by blast
qed

definition usable_answer :: "('r \<Rightarrow> bool) \<Rightarrow> 'e + 'r \<Rightarrow> bool" where
  "usable_answer poor answer = (case answer of Inl _ \<Rightarrow> False | Inr r \<Rightarrow> \<not> poor r)"

definition route_reference ::
    "('r \<Rightarrow> bool) \<Rightarrow> ('q, 'e, 'r) provider \<Rightarrow> ('q, 'e, 'r) provider \<Rightarrow> routing_provider \<Rightarrow> bool \<Rightarrow>
     'q \<Rightarrow> string \<Rightarrow> ('e + 'r) \<times> 'q routed_call list" where
  "route_reference poor loc rem p healthy q model =
     (case resolve_route p healthy model of
        (Route_Remote m, _, _) \<Rightarrow> (rem q m, [(Remote_Side, m, q)])
      | (Route_Local m, None, _) \<Rightarrow> (loc q m, [(Local_Side, m, q)])
      | (Route_Local m, Some t, _) \<Rightarrow>
          if usable_answer poor (loc q m) then (loc q m, [(Local_Side, m, q)])
          else (rem q (target_model t), [(Local_Side, m, q), (Remote_Side, target_model t, q)]))"

text \<open>
  The interface: for the requests it treats as ordinary, a dispatcher makes the calls of the
  reference, gives its answer, and records it.
\<close>

locale routed_dispatch =
  fixes run :: "routing_provider \<Rightarrow> bool \<Rightarrow> 'q \<Rightarrow> string \<Rightarrow> ('e + 'r) \<times> 'q routed_call list \<times> routing_record"
    and poor :: "'r \<Rightarrow> bool"
    and loc :: "('q, 'e, 'r) provider"
    and rem :: "('q, 'e, 'r) provider"
    and ordinary :: "'q \<Rightarrow> bool"
  assumes run_route:
      "ordinary q \<Longrightarrow> run p healthy q model = (r, calls, rec) \<Longrightarrow>
         (r, calls) = route_reference poor loc rem p healthy q model"
    and run_record:
      "ordinary q \<Longrightarrow> run p healthy q model = (r, calls, rec) \<Longrightarrow>
         (rc_fallback_to_remote rec \<longleftrightarrow> length calls = 2) \<and>
         rc_resolved_model rec = fst (snd (last calls)) \<and>
         rc_routed_to rec = (case fst (last calls) of Local_Side \<Rightarrow> ''local'' | Remote_Side \<Rightarrow> ''remote'')"
begin

lemma private_calls:
  assumes "ordinary q" and "privacy_required (rp_hints p)"
  shows "fst (snd (run p healthy q model)) = [(Local_Side, rp_local_model p, q)]"
proof (cases "run p healthy q model")
  case (fields r calls rec)
  then show ?thesis
    using run_route[OF assms(1) fields] assms(2)
    by (simp add: route_reference_def resolve_route_def decide_route_def Let_def)
qed

lemma answered_by_last_call:
  assumes "ordinary q" and "run p healthy q model = (r, calls, rec)"
  shows "calls \<noteq> [] \<and> length calls \<le> 2 \<and> snd (snd (last calls)) = q \<and>
         r = (case fst (last calls) of Local_Side \<Rightarrow> loc | Remote_Side \<Rightarrow> rem) q (fst (snd (last calls)))"
  using run_route[OF assms]
  by (auto simp: route_reference_def split: prod.splits routing_target.splits option.splits if_splits)

lemma second_call:
  assumes "ordinary q" and "run p healthy q model = (r, calls, rec)" and "length calls = 2"
  shows "\<not> usable_answer poor (loc q (rp_local_model p)) \<and>
         calls = [(Local_Side, rp_local_model p, q), (Remote_Side, resolve_remote_model p model (classify_model model), q)]"
proof -
  let ?c = "classify_model model"
  let ?r = "resolve_remote_model p model ?c"
  let ?a = "rp_local_enabled p \<and> healthy"
  show ?thesis
    using run_route[OF assms(1,2)] assms(3)
    by (rule_tac c = ?c and l = "rp_local_model p" and r = ?r and a = ?a and h = "rp_hints p" in decide_route_cases)
       (auto simp: route_reference_def resolve_route_def Let_def split: if_splits)
qed

end

lemma resolve_route_cases:
  obtains (only_local) c b where "resolve_route p healthy model = (Route_Local (rp_local_model p), None, c, b)"
      "privacy_required (rp_hints p)"
  | (with_fallback) fb c b where
      "resolve_route p healthy model = (Route_Local (rp_local_model p), Some (Route_Remote fb), c, b)"
      "\<not> privacy_required (rp_hints p)"
  | (remote) m c b where "resolve_route p healthy model = (Route_Remote m, None, c, b)"
      "\<not> privacy_required (rp_hints p)"
proof -
  let ?c = "classify_model model"
  show thesis
    by (rule decide_route_cases[of ?c "rp_local_model p" "resolve_remote_model p model ?c"
          "if rp_local_enabled p then healthy else False" "rp_hints p"])
       (auto simp: resolve_route_def Let_def intro: that)
qed

lemmas dispatch_defs = route_reference_def usable_answer_def routing_record_of_def

lemma history_is_system:
  "dispatch_chat_with_history fa loc rem p healthy latency q model =
   dispatch_chat_with_system fa loc rem p healthy latency q model"
  by (rule resolve_route_cases[of p healthy model])
     (auto simp: dispatch_chat_with_history_def dispatch_chat_with_system_def try_local_with_fallback_def
       split: sum.splits)

interpretation one_shot: routed_dispatch
  "\<lambda>p healthy q model. dispatch_chat_with_system fa loc rem p healthy latency q model"
  "is_low_quality fa" loc rem "\<lambda>_. True" for fa loc rem latency
proof unfold_locales
  fix q p healthy model r calls rec
  assume "dispatch_chat_with_system fa loc rem p healthy latency q model = (r, calls, rec)"
  then show "(r, calls) = route_reference (is_low_quality fa) loc rem p healthy q model"
    by (rule_tac resolve_route_cases[of p healthy model])
       (auto simp: dispatch_chat_with_system_def try_local_with_fallback_def dispatch_defs
         split: sum.splits if_splits)
next
  fix q p healthy model r calls rec
  assume "dispatch_chat_with_system fa loc rem p healthy latency q model = (r, calls, rec)"
  then show "(rc_fallback_to_remote rec \<longleftrightarrow> length calls = 2) \<and>
      rc_resolved_model rec = fst (snd (last calls)) \<and>
      rc_routed_to rec = (case fst (last calls) of Local_Side \<Rightarrow> ''local'' | Remote_Side \<Rightarrow> ''remote'')"
    by (rule_tac resolve_route_cases[of p healthy model])
       (auto simp: dispatch_chat_with_system_def try_local_with_fallback_def dispatch_defs
         split: sum.splits if_splits)
qed

interpretation multi_turn: routed_dispatch
  "\<lambda>p healthy q model. dispatch_chat_with_history fa loc rem p healthy latency q model"
  "is_low_quality fa" loc rem "\<lambda>_. True" for fa loc rem latency
  unfolding history_is_system by (rule one_shot.routed_dispatch_axioms)

definition poor_response :: "phrase_search \<Rightarrow> chat_response \<Rightarrow> bool" where
  "poor_response fa r = is_low_quality fa (case cr_text r of Some t \<Rightarrow> t | None \<Rightarrow> [])"

interpretation structured: routed_dispatch
  "\<lambda>p healthy q model. dispatch_chat fa loc rem p healthy latency q model"
  "poor_response fa" loc rem "\<lambda>q. \<not> has_tools q" for fa loc rem latency
proof unfold_locales
  fix q p healthy model r calls rec
  assume "\<not> has_tools q" "dispatch_chat fa loc rem p healthy latency q model = (r, calls, rec)"
  then show "(r, calls) = route_reference (poor_response fa) loc rem p healthy q model"
    by (rule_tac resolve_route_cases[of p healthy model])
       (auto simp: dispatch_chat_def should_fallback_def poor_response_def dispatch_defs
         split: sum.splits if_splits)
next
  fix q p healthy model r calls rec
  assume "\<not> has_tools q" "dispatch_chat fa loc rem p healthy latency q model = (r, calls, rec)"
  then show "(rc_fallback_to_remote rec \<longleftrightarrow> length calls = 2) \<and>
      rc_resolved_model rec = fst (snd (last calls)) \<and>
      rc_routed_to rec = (case fst (last calls) of Local_Side \<Rightarrow> ''local'' | Remote_Side \<Rightarrow> ''remote'')"
    by (rule_tac resolve_route_cases[of p healthy model])
       (auto simp: dispatch_chat_def should_fallback_def dispatch_defs Let_def split: sum.splits if_splits)
qed

section \<open>Privacy\<close>

lemma private_stream:
  "privacy_required (rp_hints p) \<Longrightarrow> routed_stream remote p q model = ([Inl stream_local_not_supported], [])"
  by (simp add: routed_stream_def resolve_streaming_target_def decide_route_def Let_def)

text \<open>C13. With privacy required, no request in text and no request without tools reaches the remote
  provider, in whatever state the local server is: one-shot and multi-turn chat and a structured request
  call the local model once and nothing else, a stream is refused without a call, and streaming is not
  announced.\<close>

theorem private_requests_stay_local:
  assumes "privacy_required (rp_hints p)" and "\<not> has_tools cq"
  shows "fst (snd (dispatch_chat_with_system fa loc rem p healthy latency q model)) = [(Local_Side, rp_local_model p, q)]
    \<and> fst (snd (dispatch_chat_with_history fa loc rem p healthy latency q model)) = [(Local_Side, rp_local_model p, q)]
    \<and> fst (snd (dispatch_chat fa cloc crem p healthy latency cq model)) = [(Local_Side, rp_local_model p, cq)]
    \<and> snd (routed_stream stream p q model) = [] \<and> \<not> routing_supports_streaming remote_streams p"
  using assms one_shot.private_calls[of p fa loc rem healthy latency q model]
    multi_turn.private_calls[of p fa loc rem healthy latency q model]
    structured.private_calls[of cq p fa cloc crem healthy latency model]
  by (simp add: private_stream routing_supports_streaming_def)

definition private_routing :: routing_provider where
  "private_routing =
     \<lparr>rp_local_model = ''gemma'', rp_remote_fallback_model = ''reasoning-v1'', rp_local_enabled = True,
      rp_hints = default_hints\<lparr>privacy_required := True\<rparr>\<rparr>"

definition plain_request :: chat_request where
  "plain_request = \<lparr>rq_messages = [user_message ''hi''], rq_tools = None, rq_stream = False, rq_max_tokens = None\<rparr>"

definition remote_ok :: "('q, string, string) provider" where
  "remote_ok q m = Inr (''the answer of '' @ m)"

definition local_down :: "('q, string, string) provider" where
  "local_down q m = Inl ''connection refused''"

definition response_of :: "('q, string, string) provider \<Rightarrow> ('q, string, chat_response) provider" where
  "response_of f q m = map_sum id (\<lambda>t. \<lparr>cr_text = Some t, cr_tool_calls = [], cr_usage = None, cr_reasoning = None\<rparr>) (f q m)"

definition scan_all :: phrase_search where
  "scan_all phrases text = list_ex (\<lambda>p. sublist (to_ascii_lowercase p) (to_ascii_lowercase text)) phrases"

theorem private_requests_stay_local_witness:
  "fst (snd (dispatch_chat_with_system scan_all local_down remote_ok private_routing True 7 ''hi'' ''hint:reasoning''))
     = [(Local_Side, ''gemma'', ''hi'')]
   \<and> fst (snd (dispatch_chat scan_all (response_of local_down) (response_of remote_ok) private_routing True 7
        plain_request ''hint:reasoning'')) = [(Local_Side, ''gemma'', plain_request)]"
proof -
  have "privacy_required (rp_hints private_routing)" "\<not> has_tools plain_request"
    "rp_local_model private_routing = ''gemma''"
    by (simp_all add: private_routing_def plain_request_def has_tools_def)
  with private_requests_stay_local[of private_routing plain_request scan_all local_down remote_ok True 7 "''hi''"
      "''hint:reasoning''" "response_of local_down" "response_of remote_ok"]
  show ?thesis by auto
qed

text \<open>A request with tools goes to the remote provider whatever the hints say.\<close>

lemma tools_always_go_remote:
  assumes "has_tools q"
  shows "\<exists>m. fst (snd (dispatch_chat fa loc rem p healthy latency q model)) = [(Remote_Side, m, q)]"
  by (rule resolve_route_cases[of p healthy model])
     (use assms in \<open>auto simp: dispatch_chat_def Let_def\<close>)

lemma private_tool_request_leaves:
  "fst (snd (dispatch_chat scan_all (response_of local_down) (response_of remote_ok) private_routing True 7
     (plain_request\<lparr>rq_tools := Some [''shell'']\<rparr>) ''hint:reaction''))
   = [(Remote_Side, ''reasoning-v1'', plain_request\<lparr>rq_tools := Some [''shell'']\<rparr>)]"
  by (simp add: dispatch_chat_def resolve_route_def decide_route_def private_routing_def plain_request_def
      has_tools_def default_hints_def Let_def)

section \<open>Agreement\<close>

text \<open>C19. The three request kinds are routed by one rule.  A one-shot and a multi-turn request give the same
  answer, the same calls and the same record; and a structured request without tools makes the same
  calls when the providers answer it with the same texts.  At most two calls are made, the second only after
  the local answer was an error or of low quality, and the answer is that of the last call, which is
  also the one the record names.\<close>

theorem requests_are_routed_alike:
  fixes loc rem :: "('q, 'e, string) provider"
  assumes "dispatch_chat_with_system fa loc rem p healthy latency q model = (r, calls, rec)"
  shows "dispatch_chat_with_history fa loc rem p healthy latency q model = (r, calls, rec)
    \<and> calls \<noteq> [] \<and> length calls \<le> 2
    \<and> r = (case fst (last calls) of Local_Side \<Rightarrow> loc | Remote_Side \<Rightarrow> rem) q (fst (snd (last calls)))
    \<and> rc_resolved_model rec = fst (snd (last calls))
    \<and> (rc_fallback_to_remote rec \<longleftrightarrow> length calls = 2)
    \<and> (length calls = 2 \<longrightarrow> \<not> usable_answer (is_low_quality fa) (loc q (rp_local_model p))
        \<and> fst (hd calls) = Local_Side \<and> \<not> privacy_required (rp_hints p))"
proof -
  have "\<not> privacy_required (rp_hints p)" if two: "length calls = 2"
    using one_shot.private_calls[of p fa loc rem healthy latency q model] assms two by auto
  moreover have "fst (hd calls) = Local_Side" if two: "length calls = 2"
    using one_shot.second_call[OF TrueI assms two] by (metis fst_conv list.sel(1))
  ultimately show ?thesis using one_shot.answered_by_last_call[OF TrueI assms] one_shot.run_record[OF TrueI assms]
    one_shot.second_call[OF TrueI assms] assms
    by (auto simp: history_is_system)
qed

definition open_routing :: routing_provider where
  "open_routing = private_routing\<lparr>rp_hints := default_hints\<rparr>"

theorem requests_are_routed_alike_witness:
  "dispatch_chat_with_history scan_all local_down remote_ok open_routing True 7 ''hi'' ''hint:reaction'' =
     dispatch_chat_with_system scan_all local_down remote_ok open_routing True 7 ''hi'' ''hint:reaction''
   \<and> fst (dispatch_chat_with_system scan_all local_down remote_ok open_routing True 7 ''hi'' ''hint:reaction'')
     = Inr ''the answer of reasoning-v1''"
proof -
  obtain r calls rec where run:
    "dispatch_chat_with_system scan_all local_down remote_ok open_routing True 7 ''hi'' ''hint:reaction'' = (r, calls, rec)"
    by (metis prod_cases3)
  moreover have "r = Inr ''the answer of reasoning-v1''"
    using run by (simp add: dispatch_chat_with_system_def try_local_with_fallback_def resolve_route_def
        classify_model_def strip_prefix_def decide_route_def open_routing_def private_routing_def
        default_hints_def local_down_def remote_ok_def resolve_remote_model_def Let_def)
  ultimately show ?thesis
    using requests_are_routed_alike[OF run] by simp
qed

text \<open>With a structured request without tools the calls are those of a text request.\<close>

lemma structured_calls_agree:
  assumes "\<not> has_tools q"
    and "\<And>m. cloc q m = response_of loc q m" and "\<And>m. crem q m = response_of rem q m"
  shows "fst (snd (dispatch_chat fa cloc crem p healthy latency q model)) =
         fst (snd (dispatch_chat_with_system fa loc rem p healthy latency q model))"
proof -
  obtain r calls rec where one: "dispatch_chat fa cloc crem p healthy latency q model = (r, calls, rec)"
    by (metis prod_cases3)
  obtain r' calls' rec' where two: "dispatch_chat_with_system fa loc rem p healthy latency q model = (r', calls', rec')"
    by (metis prod_cases3)
  have "usable_answer (poor_response fa) (cloc q m) = usable_answer (is_low_quality fa) (loc q m)" for m
    by (simp add: assms response_of_def usable_answer_def poor_response_def split: sum.splits)
  then have "calls = calls'"
    using structured.run_route[OF assms(1) one] one_shot.run_route[OF TrueI two]
    by (auto simp: route_reference_def split: prod.splits routing_target.splits option.splits if_splits)
  with one two show ?thesis by simp
qed

section \<open>Streaming\<close>

text \<open>The target of a stream is chosen by whether the local runtime is enabled, not by its health.\<close>

lemma lightweight_streams_fail:
  assumes "rp_local_enabled p" and "classify_model model = Lightweight"
  shows "routed_stream remote p q model = ([Inl stream_local_not_supported], [])"
  using assms by (simp add: routed_stream_def resolve_streaming_target_def decide_route_def Let_def)

lemma lightweight_chat_goes_remote_when_unhealthy:
  "\<not> privacy_required (rp_hints p) \<Longrightarrow>
   fst (dispatch_chat_with_system fa loc rem p False latency q model)
     = rem q (resolve_remote_model p model (classify_model model))"
  by (cases "classify_model model")
     (simp_all add: dispatch_chat_with_system_def resolve_route_def decide_route_def Let_def)

section \<open>Health probes\<close>

text \<open>A run of calls, one after the other: the times at which a probe ended.\<close>

fun probe_times :: "nat \<Rightarrow> health_cache option \<Rightarrow> (nat \<times> nat \<times> bool) list \<Rightarrow> nat list" where
  "probe_times ttl cache [] = []"
| "probe_times ttl cache ((now, later, probe) # calls) =
     (let (_, probed, cache') = is_healthy ttl now later probe cache
      in (if probed then [later] else []) @ probe_times ttl cache' calls)"

fun in_order :: "nat \<Rightarrow> (nat \<times> nat \<times> bool) list \<Rightarrow> bool" where
  "in_order t [] = True"
| "in_order t ((now, later, _) # calls) = (t \<le> now \<and> now \<le> later \<and> in_order later calls)"

definition next_probe :: "nat \<Rightarrow> nat \<Rightarrow> health_cache option \<Rightarrow> nat" where
  "next_probe ttl t cache = (case cache of None \<Rightarrow> t | Some c \<Rightarrow> hc_checked_at c + ttl)"

lemma probe_times_after:
  assumes "in_order t calls" and "\<And>c. cache = Some c \<Longrightarrow> hc_ttl c = ttl \<and> hc_checked_at c \<le> t"
  shows "sorted_wrt (\<lambda>a b. a + ttl \<le> b) (probe_times ttl cache calls)
    \<and> (\<forall>b \<in> set (probe_times ttl cache calls). next_probe ttl t cache \<le> b)"
  using assms
proof (induction calls arbitrary: t cache)
  case (Cons call calls)
  obtain now later probe where call: "call = (now, later, probe)" by (cases call)
  with Cons.prems(1) have ord: "t \<le> now" "now \<le> later" "in_order later calls" by auto
  show ?case
  proof (cases "fresh_answer now cache")
    case None
    let ?c = "\<lparr>hc_last_result = (if probe then Healthy else Unavailable), hc_checked_at = later, hc_ttl = ttl\<rparr>"
    have "sorted_wrt (\<lambda>a b. a + ttl \<le> b) (probe_times ttl (Some ?c) calls)
        \<and> (\<forall>b \<in> set (probe_times ttl (Some ?c) calls). later + ttl \<le> b)"
      using Cons.IH[OF ord(3), of "Some ?c"] by (simp add: next_probe_def)
    moreover have "next_probe ttl t cache \<le> later"
      using None ord Cons.prems(2) by (cases cache) (auto simp: fresh_answer_def next_probe_def split: if_splits)
    ultimately show ?thesis using None call by (fastforce simp: is_healthy_def)
  next
    case (Some b)
    then obtain c where c: "cache = Some c" by (cases cache) (auto simp: fresh_answer_def)
    then have "\<And>c'. cache = Some c' \<Longrightarrow> hc_ttl c' = ttl \<and> hc_checked_at c' \<le> later"
      using Cons.prems(2) ord by fastforce
    from Cons.IH[OF ord(3), of cache, OF this] c Some call show ?thesis
      by (simp add: is_healthy_def next_probe_def)
  qed
qed simp

text \<open>Probes are at least the time to live apart, so the local server is asked at most once in any shorter span.\<close>

lemma probes_are_spaced:
  "in_order 0 calls \<Longrightarrow> sorted_wrt (\<lambda>a b. a + ttl \<le> b) (probe_times ttl None calls)"
  using probe_times_after[of 0 calls None ttl] by simp

section \<open>The route table\<close>

lemma map_of_rev_mem: "map_of (rev kvs) k = Some v \<Longrightarrow> (k, v) \<in> set kvs"
  using map_of_SomeD[of "rev kvs" k v] by simp

lemma provider_index_less: "provider_index ps name = Some i \<Longrightarrow> i < length ps"
  by (force simp: provider_index_def last_value_map_def in_set_enumerate_eq dest!: map_of_rev_mem)

definition router_ok :: "'p router \<Rightarrow> bool" where
  "router_ok ro \<longleftrightarrow>
     ro_default_index ro < length (ro_providers ro) \<and>
     (\<forall>hint i m. ro_routes ro hint = Some (i, m) \<longrightarrow> i < length (ro_providers ro))"

lemma set_map_filter: "set (List.map_filter f xs) = {y. \<exists>x \<in> set xs. f x = Some y}"
  by (force simp: map_filter_def)

lemma router_new_ok: "ps \<noteq> [] \<Longrightarrow> router_ok (router_new ps routes default_model)"
  by (auto simp: router_ok_def router_new_def last_value_map_def set_map_filter
      dest!: map_of_rev_mem provider_index_less split: option.splits)

lemma router_resolve_less: "router_ok ro \<Longrightarrow> fst (router_resolve ro model) < length (ro_providers ro)"
  by (cases "strip_prefix ''hint:'' model"; cases "openhuman_tier_to_hint model")
     (fastforce simp: router_ok_def router_resolve_def split: option.splits)+

text \<open>C3. A router over at least one provider never indexes out of range: every request reaches a provider.
  An abstract tier name is never sent on as it is: the provider gets the model of the route for
  the tier's hint or, when there is none, the default model.\<close>

theorem router_always_dispatches:
  assumes "ps \<noteq> []" and ro: "ro = router_new ps routes default_model"
    and "openhuman_tier_to_hint model = Some hint"
  shows "(\<exists>name provider. (name, provider) \<in> set ps \<and>
            router_call operation ro q model = Some (operation provider q (snd (router_resolve ro model))))
    \<and> (case ro_routes ro hint of
          Some (i, m) \<Rightarrow> snd (router_resolve ro model) = m
        | None \<Rightarrow> router_resolve ro model = (0, default_model))"
proof -
  have less: "fst (router_resolve ro model) < length ps"
    using router_resolve_less[OF router_new_ok[OF assms(1)]] by (simp add: ro router_new_def)
  have "strip_prefix ''hint:'' model = None"
    using assms(3) by (auto simp: openhuman_tier_to_hint_def strip_prefix_def prefix_def split: if_splits)
  then have "case ro_routes ro hint of
      Some (i, m) \<Rightarrow> snd (router_resolve ro model) = m
    | None \<Rightarrow> router_resolve ro model = (0, default_model)"
    using assms(3) by (auto simp: router_resolve_def ro router_new_def split: option.splits)
  moreover have "router_call operation ro q model =
      Some (operation (snd (ps ! fst (router_resolve ro model))) q (snd (router_resolve ro model)))"
    using less by (simp add: router_call_def case_prod_beta Let_def ro) (simp add: router_new_def)
  moreover have "ps ! fst (router_resolve ro model) \<in> set ps" using less by simp
  ultimately show ?thesis by (metis prod.collapse)
qed

theorem router_always_dispatches_witness:
  "router_resolve (router_new [(''openai'', 1 :: nat), (''local'', 2)] [(''chat'', \<lparr>route_provider = ''local'', route_model = ''gemma''\<rparr>)]
     ''gpt'') ''reasoning-v1'' = (0, ''gpt'')"
proof -
  let ?ps = "[(''openai'', 1 :: nat), (''local'', 2)]"
  let ?ro = "router_new ?ps [(''chat'', \<lparr>route_provider = ''local'', route_model = ''gemma''\<rparr>)] ''gpt''"
  have "openhuman_tier_to_hint ''reasoning-v1'' = Some ''reasoning''" by (simp add: openhuman_tier_to_hint_def)
  with router_always_dispatches[where ro = ?ro and ps = ?ps and default_model = "''gpt''" and hint = "''reasoning''"
      and routes = "[(''chat'', \<lparr>route_provider = ''local'', route_model = ''gemma''\<rparr>)]" and model = "''reasoning-v1''"]
  have "case ro_routes ?ro ''reasoning'' of
      Some (i, m) \<Rightarrow> snd (router_resolve ?ro ''reasoning-v1'') = m
    | None \<Rightarrow> router_resolve ?ro ''reasoning-v1'' = (0, ''gpt'')"
    by (metis list.distinct(1))
  moreover have "ro_routes ?ro ''reasoning'' = None"
    by (simp add: router_new_def last_value_map_def provider_index_def map_filter_def)
  ultimately show ?thesis by simp
qed

end
