(* ===== verification/Provider_Error_Facts.thy ===== *)
theory Provider_Error_Facts
  imports Provider_Errors
begin

text \<open>
  Facts about the errors of providers: no key or token with a known prefix survives the
  scrubbing, the shortening or the joining of an error text; and what the parser of
  Retry-After does with a number that is too large.
\<close>

section \<open>Occurrences that cannot cross a character\<close>

lemma sublist_across:
  assumes "list_all P w" and "\<not> P x" and "w \<noteq> []"
  shows "sublist w (a @ x # b) \<longleftrightarrow> sublist w a \<or> sublist w b"
proof
  assume "sublist w (a @ x # b)"
  then obtain u v where eq: "a @ x # b = u @ w @ v" by (auto simp: sublist_def)
  have no: "x \<notin> set w" using assms(1,2) by (auto simp: list_all_iff)
  consider (left) t where "a = u @ t" "t @ x # b = w @ v" | (right) t where "a @ t = u" "x # b = t @ w @ v"
    using eq by (auto simp: append_eq_append_conv2)
  then show "sublist w a \<or> sublist w b"
  proof cases
    case left
    then consider t' where "t = w @ t'" | t' where "w = t @ t'" "t' @ v = x # b"
      by (auto simp: append_eq_append_conv2)
    then show ?thesis
    proof cases
      case 1
      with left show ?thesis by (auto simp: sublist_def)
    next
      case 2
      with no have "t' = []" by (cases t') auto
      with 2 left have "a = u @ w @ []" by simp
      then show ?thesis unfolding sublist_def by blast
    qed
  next
    case right
    then show ?thesis
      using no assms(3) by (cases t; cases w) (auto simp: sublist_def)
  qed
next
  assume "sublist w a \<or> sublist w b"
  then show "sublist w (a @ x # b)"
    by (metis (no_types, lifting) append_Cons append_Nil sublist_appendI sublist_append_leftI sublist_append_rightI
        sublist_order.order.trans)
qed

lemma split_at_sub_first:
  assumes "split_at_sub p s = Some (before, rest)" and "p \<noteq> []"
  shows "\<not> sublist p (before @ butlast p)"
  using assms
proof (induction p s arbitrary: before rest rule: split_at_sub.induct)
  case (2 p c cs)
  show ?case
  proof (cases "prefix p (c # cs)")
    case True
    with 2 have "before = []" by auto
    moreover have "\<not> sublist p (butlast p)"
      using \<open>p \<noteq> []\<close> by (metis diff_less length_butlast length_greater_0_conv less_numeral_extra(1) linorder_not_le sublist_length_le)
    ultimately show ?thesis by simp
  next
    case False
    with 2 obtain before' where b: "before = c # before'" "split_at_sub p cs = Some (before', rest)"
      by (auto split: option.splits)
    with 2 False have ih: "\<not> sublist p (before' @ butlast p)" by blast
    have "cs = before' @ p @ rest" using split_at_sub_Some[OF b(2)] .
    then have "prefix (c # before' @ butlast p) (c # cs)"
      using \<open>p \<noteq> []\<close> by (simp add: butlast_conv_take take_is_prefix)
    with False have "\<not> prefix p (c # before' @ butlast p)" using prefix_order.trans by blast
    with ih b show ?thesis by (simp add: sublist_Cons_right)
  qed
qed simp

section \<open>Scrubbing leaves no secret\<close>

lemma secret_prefix_chars: "p \<in> set SECRET_PREFIXES \<Longrightarrow> p \<noteq> [] \<and> list_all is_secret_char p"
  by (auto simp: SECRET_PREFIXES_def is_secret_char_def byte_simps)

lemma redacted_across:
  assumes "list_all is_secret_char w" and "w \<noteq> []"
  shows "sublist w (a @ REDACTED @ b) \<longleftrightarrow> sublist w a \<or> sublist w ''REDACTED'' \<or> sublist w b"
proof -
  have br: "\<not> is_secret_char (CHR ''['')" "\<not> is_secret_char (CHR '']'')"
    by (simp_all add: is_secret_char_def byte_simps)
  have "a @ REDACTED @ b = a @ CHR ''['' # (''REDACTED'' @ CHR '']'' # b)"
    by (simp add: REDACTED_def)
  then show ?thesis
    using sublist_across[OF assms(1) br(1) assms(2)] sublist_across[OF assms(1) br(2) assms(2)] by metis
qed

lemma not_in_redacted:
  "p \<in> set SECRET_PREFIXES \<Longrightarrow> \<not> sublist (p @ [c]) ''REDACTED''"
  by (auto simp: SECRET_PREFIXES_def sublist_Cons_right)

lemma scrub_prefix_head:
  assumes "p \<noteq> []" and "\<not> prefix p (c # cs)"
  shows "scrub_prefix p (c # cs) = c # scrub_prefix p cs"
  using assms by (subst (1 2) scrub_prefix.simps) (auto simp: Let_def split: option.splits)

lemma scrub_after_token:
  assumes "list_all is_secret_char p" and "p \<noteq> []" and "takeWhile is_secret_char rest = []"
  shows "rest = [] \<and> scrub_prefix p rest = [] \<or>
         (\<exists>x r. rest = x # r \<and> \<not> is_secret_char x \<and> scrub_prefix p rest = x # scrub_prefix p r)"
proof (cases rest)
  case Nil
  with assms show ?thesis by (simp add: scrub_prefix.simps)
next
  case (Cons x r)
  with assms(3) have x: "\<not> is_secret_char x" by (simp split: if_splits)
  with assms(1,2) have "\<not> prefix p (x # r)" by (cases p) auto
  with x Cons scrub_prefix_head[OF assms(2)] show ?thesis by simp
qed

text \<open>No occurrence is introduced: neither of the prefix itself nor of another.\<close>

lemma scrub_prefix_keeps_clean:
  assumes "list_all is_secret_char p" and "p \<noteq> []" and "list_all is_secret_char w" and "w \<noteq> []"
    and "\<not> sublist w ''REDACTED''" and "\<not> sublist w s"
  shows "\<not> sublist w (scrub_prefix p s)"
  using assms
proof (induction p s rule: scrub_prefix.induct)
  case (1 p s)
  show ?case
  proof (cases "split_at_sub p s")
    case None
    with 1 show ?thesis by (simp add: scrub_prefix.simps)
  next
    case (Some br)
    then obtain before rest where br: "split_at_sub p s = Some (before, rest)" by (cases br) auto
    have s: "s = before @ p @ rest" using split_at_sub_Some[OF br] .
    let ?rest' = "dropWhile is_secret_char rest"
    have "\<not> sublist w before" "\<not> sublist w (before @ p)" "\<not> sublist w rest"
      using 1(8) s by (metis append.assoc sublist_appendI sublist_append_leftI sublist_append_rightI sublist_order.order.trans)+
    show ?thesis
    proof (cases "takeWhile is_secret_char rest = []")
      case True
      have ih: "\<not> sublist w (scrub_prefix p rest)"
        using 1(1)[OF _ br refl refl True] 1(3-7) \<open>\<not> sublist w rest\<close> by simp
      have eq: "scrub_prefix p s = (before @ p) @ scrub_prefix p rest"
        using True br 1(4) by (subst scrub_prefix.simps) simp
      from scrub_after_token[OF 1(3,4) True] show ?thesis
      proof (elim disjE exE conjE)
        fix x r assume r: "rest = x # r" "\<not> is_secret_char x" "scrub_prefix p rest = x # scrub_prefix p r"
        with ih have "\<not> sublist w (scrub_prefix p r)" by (simp add: sublist_Cons_right)
        with sublist_across[OF 1(5) r(2) 1(6)] \<open>\<not> sublist w (before @ p)\<close> eq r(3) show ?thesis by metis
      qed (use eq \<open>\<not> sublist w (before @ p)\<close> in simp)
    next
      case False
      have "\<not> sublist w ?rest'"
        using \<open>\<not> sublist w rest\<close> by (metis suffix_dropWhile suffix_imp_sublist sublist_order.order.trans)
      then have ih: "\<not> sublist w (scrub_prefix p ?rest')"
        using 1(2)[OF _ br refl refl False] 1(3-7) by simp
      have "scrub_prefix p s = before @ REDACTED @ scrub_prefix p ?rest'"
        using False br 1(4) by (subst scrub_prefix.simps) simp
      with ih redacted_across[OF 1(5,6)] 1(7) \<open>\<not> sublist w before\<close> show ?thesis by metis
    qed
  qed
qed

lemma first_occurrence_clean:
  assumes "split_at_sub p s = Some (before, rest)" and "p \<noteq> []"
  shows "\<not> sublist (p @ [c]) (before @ p)" and "\<not> sublist (p @ [c]) before"
proof -
  show "\<not> sublist (p @ [c]) (before @ p)"
  proof
    assume "sublist (p @ [c]) (before @ p)"
    then obtain u v where "before @ p = (u @ p) @ (c # v)" by (auto simp: sublist_def)
    then have "butlast (before @ p) = (u @ p) @ butlast (c # v)" by (metis butlast_append list.distinct(1))
    then have "before @ butlast p = u @ p @ butlast (c # v)" using assms(2) by (simp add: butlast_append)
    then have "sublist p (before @ butlast p)" unfolding sublist_def by blast
    with split_at_sub_first[OF assms] show False by contradiction
  qed
  then show "\<not> sublist (p @ [c]) before"
    by (metis sublist_append_rightI sublist_order.order.trans)
qed

lemma scrub_prefix_cleans:
  assumes "p \<in> set SECRET_PREFIXES" and "is_secret_char c"
  shows "\<not> sublist (p @ [c]) (scrub_prefix p s)"
  using assms
proof (induction p s rule: scrub_prefix.induct)
  case (1 p s)
  note p = secret_prefix_chars[OF 1(3)]
  then have w: "list_all is_secret_char (p @ [c])" "p @ [c] \<noteq> []" using 1(4) by auto
  show ?case
  proof (cases "split_at_sub p s")
    case None
    then have "\<not> sublist p s" by (simp add: split_at_sub_None)
    then have "\<not> sublist (p @ [c]) s" by (metis sublist_append_rightI sublist_order.order.trans)
    with None p show ?thesis by (simp add: scrub_prefix.simps)
  next
    case (Some br)
    then obtain before rest where br: "split_at_sub p s = Some (before, rest)" by (cases br) auto
    note clean = first_occurrence_clean[OF br conjunct1[OF p], of c]
    show ?thesis
    proof (cases "takeWhile is_secret_char rest = []")
      case True
      have ih: "\<not> sublist (p @ [c]) (scrub_prefix p rest)"
        using 1(1)[OF _ br refl refl True] 1(3,4) p by simp
      have eq: "scrub_prefix p s = (before @ p) @ scrub_prefix p rest"
        using True br p by (subst scrub_prefix.simps) simp
      from scrub_after_token[OF conjunct2[OF p] conjunct1[OF p] True] show ?thesis
      proof (elim disjE exE conjE)
        fix x r assume r: "rest = x # r" "\<not> is_secret_char x" "scrub_prefix p rest = x # scrub_prefix p r"
        with ih have "\<not> sublist (p @ [c]) (scrub_prefix p r)" by (simp add: sublist_Cons_right)
        with sublist_across[OF w(1) r(2) w(2)] clean(1) eq r(3) show ?thesis by metis
      qed (use eq clean in simp)
    next
      case False
      have ih: "\<not> sublist (p @ [c]) (scrub_prefix p (dropWhile is_secret_char rest))"
        using 1(2)[OF _ br refl refl False] 1(3,4) p by simp
      have "scrub_prefix p s = before @ REDACTED @ scrub_prefix p (dropWhile is_secret_char rest)"
        using False br p by (subst scrub_prefix.simps) simp
      with ih redacted_across[OF w] not_in_redacted[OF 1(3)] clean(2) show ?thesis by metis
    qed
  qed
qed

lemma scrub_all_clean:
  assumes "list_all (\<lambda>q. q \<in> set SECRET_PREFIXES) ps" and "p \<in> set SECRET_PREFIXES" and "is_secret_char c"
    and "p \<in> set ps \<or> \<not> sublist (p @ [c]) s"
  shows "\<not> sublist (p @ [c]) (foldl (\<lambda>s q. scrub_prefix q s) s ps)"
  using assms
proof (induction ps arbitrary: s)
  case (Cons q ps)
  have w: "list_all is_secret_char (p @ [c])" using secret_prefix_chars[OF Cons.prems(2)] Cons.prems(3) by simp
  have "p \<in> set ps \<or> \<not> sublist (p @ [c]) (scrub_prefix q s)"
  proof (cases "p = q")
    case True
    then show ?thesis using scrub_prefix_cleans[OF Cons.prems(2,3)] by simp
  next
    case False
    then show ?thesis
      using Cons.prems(1,4) secret_prefix_chars[of q] scrub_prefix_keeps_clean[OF _ _ w _ not_in_redacted[OF Cons.prems(2)]]
      by auto
  qed
  with Cons show ?case by simp
qed simp

text \<open>\<open>exposes p s\<close>: a token with the prefix \<open>p\<close> starts somewhere in \<open>s\<close>.\<close>

definition exposes :: "string \<Rightarrow> string \<Rightarrow> bool" where
  "exposes p s \<longleftrightarrow> (\<exists>c. is_ascii_alphanumeric c \<and> sublist (p @ [c]) s)"

lemma alphanumeric_is_secret: "is_ascii_alphanumeric c \<Longrightarrow> is_secret_char c"
  by (simp add: is_secret_char_def)

lemma scrubbed_not_exposed: "p \<in> set SECRET_PREFIXES \<Longrightarrow> \<not> exposes p (scrub_secret_patterns s)"
  unfolding exposes_def scrub_secret_patterns_def
  using scrub_all_clean[of SECRET_PREFIXES p _ s] alphanumeric_is_secret by (auto simp: list_all_iff)

lemma exposes_sublist: "exposes p s \<Longrightarrow> sublist s t \<Longrightarrow> exposes p t"
  unfolding exposes_def using sublist_order.order.trans by blast

lemma take_chars_prefix: "prefix (take_chars n s) s"
  by (induction n s rule: take_chars.induct) (auto split: nat.splits)

lemma truncated_not_exposed:
  assumes "p \<in> set SECRET_PREFIXES" and "\<not> exposes p s"
  shows "\<not> exposes p (truncate_with_ellipsis s n)"
proof (cases "char_count s \<le> n")
  case False
  let ?t = "trim_end (take_chars n s)"
  have "prefix ?t s" using trim_end_prefix take_chars_prefix prefix_order.trans by blast
  then have t: "\<not> exposes p ?t" using assms(2) exposes_sublist prefix_imp_sublist by blast
  have "sublist (p @ [c]) ?t" if "is_ascii_alphanumeric c" "sublist (p @ [c]) (?t @ ''...'')" for c
  proof -
    have "list_all (\<lambda>x. x \<noteq> CHR ''.'') (p @ [c])"
      using assms(1) that(1) by (auto simp: SECRET_PREFIXES_def byte_simps)
    from sublist_across[OF this, of "CHR ''.''" ?t "''..''"] that(2)
    have "sublist (p @ [c]) ?t \<or> sublist (p @ [c]) ''..''" by simp
    moreover have "\<not> sublist (p @ [c]) ''..''"
      using assms(1) by (auto simp: SECRET_PREFIXES_def sublist_Cons_right)
    ultimately show ?thesis by blast
  qed
  with t False show ?thesis
    by (auto simp: exposes_def truncate_with_ellipsis_def truncate_with_suffix_def)
qed (use assms in \<open>simp add: truncate_with_ellipsis_def truncate_with_suffix_def\<close>)

lemma sanitized_not_exposed: "p \<in> set SECRET_PREFIXES \<Longrightarrow> \<not> exposes p (sanitize_api_error s)"
  unfolding sanitize_api_error_def using truncated_not_exposed scrubbed_not_exposed by blast

lemma split_whitespace_sublist: "w \<in> set (split_whitespace s) \<Longrightarrow> sublist w s"
proof (induction s rule: split_whitespace.induct)
  case (1 s)
  let ?t = "trim_start s"
  have t: "sublist ?t s" by (simp add: trim_start_suffix suffix_imp_sublist)
  show ?case
  proof (cases "?t = []")
    case False
    then have "w = take_word ?t \<or> w \<in> set (split_whitespace (drop (length (take_word ?t)) ?t))"
      using 1(2) by (subst (asm) split_whitespace.simps) (simp add: Let_def)
    then have "sublist w ?t"
    proof
      assume "w \<in> set (split_whitespace (drop (length (take_word ?t)) ?t))"
      from 1(1)[OF refl False this] show ?thesis
        using suffix_drop suffix_imp_sublist sublist_order.order.trans by blast
    qed (simp add: take_word_prefix prefix_imp_sublist)
    with t show ?thesis using sublist_order.order.trans by blast
  qed (use 1(2) in \<open>simp add: split_whitespace.simps\<close>)
qed

lemma sublist_join:
  assumes "list_all (\<lambda>x. x \<noteq> c) w" and "w \<noteq> []" and "sublist w (join_with [c] ws)"
  shows "\<exists>x \<in> set ws. sublist w x"
  using assms(3)
proof (induction "[c]" ws rule: join_with.induct)
  case (3 x y ys)
  then have "sublist w (x @ c # join_with [c] (y # ys))" by simp
  with sublist_across[OF assms(1) _ assms(2)] 3(1) show ?case by auto
qed (use assms in auto)

lemma joined_words_not_exposed:
  assumes "p \<in> set SECRET_PREFIXES" and "\<not> exposes p s"
  shows "\<not> exposes p (join_with '' '' (split_whitespace s))"
proof
  assume "exposes p (join_with '' '' (split_whitespace s))"
  then obtain c where c: "is_ascii_alphanumeric c" "sublist (p @ [c]) (join_with '' '' (split_whitespace s))"
    by (auto simp: exposes_def)
  have "list_all (\<lambda>x. x \<noteq> CHR '' '') (p @ [c])"
    using assms(1) c(1) by (auto simp: SECRET_PREFIXES_def byte_simps)
  from sublist_join[OF this _ c(2)] obtain w where "w \<in> set (split_whitespace s)" "sublist (p @ [c]) w" by auto
  with c(1) assms(2) split_whitespace_sublist sublist_order.order.trans show False
    unfolding exposes_def by blast
qed

text \<open>C14. Whatever an upstream service or the transport puts into an error, no key or token with one of the known
  prefixes reaches the text that is kept: not the detail of a failed attempt, not the body of the
  error message, and not the reason of a published session expiry.\<close>

theorem error_texts_hide_secrets:
  assumes "p \<in> set SECRET_PREFIXES"
  shows "\<not> exposes p (compact_error_detail err) \<and> \<not> exposes p (sanitize_api_error body)
    \<and> (case api_error_report provider status status_text body of
          Session_Expired_Event reason \<Rightarrow> \<not> exposes p reason
        | Reported message \<Rightarrow> message = provider @ '' API error ('' @ status_text @ ''): '' @ sanitize_api_error body
        | _ \<Rightarrow> True)"
  using sanitized_not_exposed[OF assms] joined_words_not_exposed[OF assms]
  by (auto simp: compact_error_detail_def api_error_report_def api_error_message_def Let_def)

theorem error_texts_hide_secrets_witness:
  "\<not> exposes ''sk-'' (sanitize_api_error ''Incorrect API key provided: sk-abc123'')
   \<and> sanitize_api_error ''key sk-abc123 refused'' = ''key [REDACTED] refused''"
proof -
  have "''sk-'' \<in> set SECRET_PREFIXES" by (simp add: SECRET_PREFIXES_def)
  from error_texts_hide_secrets[OF this, of undefined "''Incorrect API key provided: sk-abc123''"]
  have "\<not> exposes ''sk-'' (sanitize_api_error ''Incorrect API key provided: sk-abc123'')" by blast
  moreover have "sanitize_api_error ''key sk-abc123 refused'' = ''key [REDACTED] refused''"
    by code_simp
  ultimately show ?thesis by simp
qed

section \<open>Retry-After\<close>

definition ascii_lib :: text_lib where
  "ascii_lib = \<lparr>tl_lower = to_ascii_lowercase, tl_http_4xx = (\<lambda>_. None)\<rparr>"

definition error_text :: "string \<Rightarrow> provider_error" where
  "error_text s = \<lparr>pe_text = s, pe_sources = [s], pe_status = None\<rparr>"

lemma retry_after_parsed:
  "parse_retry_after_ms ascii_lib (error_text ''429, Retry-After: 2.5 s'') = Done (Some 2500)"
  by code_simp

lemma two_e19: "f64_finite 20000000000000000000 = Some 20000000000000000000"
  by (simp add: f64_finite_def f64_round_def rat_exponent_def bit_count.simps pow2_def round_ties_even_def
      quotient_of_number Let_def)

text \<open>A number of seconds that does not fit in 64 bits stops the task that reads it.\<close>

lemma retry_after_panics:
  "parse_retry_after_ms ascii_lib (error_text ''Retry-After: 20000000000000000000'') = Panics"
proof -
  have "to_ascii_lowercase ''Retry-After: 20000000000000000000'' = ''retry-after: 20000000000000000000''"
    by code_simp
  moreover have "trim '' 20000000000000000000'' = ''20000000000000000000''"
    by code_simp
  moreover have "parse_f64 ''20000000000000000000'' = Some (Some 20000000000000000000)"
    using two_e19 by (simp add: parse_f64_def dec_value_def byte_simps)
  ultimately show ?thesis
    by (simp add: parse_retry_after_ms_def error_text_def ascii_lib_def str_to_lowercase_def retry_after_at_def
        RETRY_AFTER_PREFIXES_def is_char_boundary_def is_continuation_def secs_to_millis_def byte_simps)
qed

section \<open>Reports\<close>

definition overflow_body :: string where
  "overflow_body = CHR ''{'' # json_quoted ''message'' @ '':'' @ json_quoted ''maximum context length reached'' @ '',''
     @ json_quoted ''errorCode'' @ '':'' @ json_quoted ''CONTEXT_LENGTH_EXCEEDED'' @ ''}''"

text \<open>The code of a context overflow is one the client has to report, but the text of the body is looked at first.\<close>

lemma overflow_code_not_reported:
  "is_backend_client_guard_leak overflow_body \<and>
   api_error_report PROVIDER_LABEL 400 ''400 Bad Request'' overflow_body = Logged ''context_window_exceeded''"
  by code_simp

text \<open>A status that is not reported because it is transient, and that is not taken for an unhealthy upstream.\<close>

lemma status_520:
  "\<not> should_report_provider_http_failure 520
   \<and> \<not> is_upstream_unhealthy ascii_lib \<lparr>pe_text = ''520'', pe_sources = [], pe_status = Some 520\<rparr>"
  by code_simp

end
