(* ===== verification/Reliable.thy ===== *)
theory Reliable
  imports Provider_Errors Routing
begin

text \<open>
  The provider with retries, backoff and failover (\<open>src/openhuman/inference/provider/reliable.rs\<close>).
  The providers behind it are the environment: a function from the calls made so far and the
  next call to its answer.  An operation returns its outcome and a log of what it did: the calls and
  the waits in order, the lines of the failed attempts, and the rotation index of the keys.
\<close>

section \<open>State\<close>

record 'p reliable =
  rl_providers :: "(string \<times> 'p) list"
  rl_max_retries :: nat
  rl_base_backoff_ms :: nat
  rl_api_keys :: "string list"
  rl_model_fallbacks :: "string \<rightharpoonup> string list"

definition reliable_new :: "(string \<times> 'p) list \<Rightarrow> nat \<Rightarrow> nat \<Rightarrow> 'p reliable" where
  "reliable_new providers max_retries base_backoff_ms =
     \<lparr>rl_providers = providers, rl_max_retries = max_retries, rl_base_backoff_ms = max base_backoff_ms 50,
      rl_api_keys = [], rl_model_fallbacks = Map.empty\<rparr>"

definition with_api_keys :: "string list \<Rightarrow> 'p reliable \<Rightarrow> 'p reliable" where
  "with_api_keys keys R = R\<lparr>rl_api_keys := keys\<rparr>"

definition with_model_fallbacks :: "(string \<rightharpoonup> string list) \<Rightarrow> 'p reliable \<Rightarrow> 'p reliable" where
  "with_model_fallbacks fallbacks R = R\<lparr>rl_model_fallbacks := fallbacks\<rparr>"

type_synonym ('p, 'q) provider_call = "'p \<times> string \<times> 'q"
type_synonym ('p, 'q, 'a) upstream = "('p, 'q) provider_call list \<Rightarrow> ('p, 'q) provider_call \<Rightarrow> 'a"

record 'c call_log =
  al_calls :: "'c list"
  al_waits :: "nat list"
  al_failures :: "string list"
  al_key_index :: nat

definition log_start :: "nat \<Rightarrow> 'c call_log" where
  "log_start key_index = \<lparr>al_calls = [], al_waits = [], al_failures = [], al_key_index = key_index\<rparr>"

datatype 'r outcome = Answered 'r | Failed string | Panicked

section \<open>Chains, keys and waits\<close>

definition model_chain :: "'p reliable \<Rightarrow> string \<Rightarrow> string list" where
  "model_chain R model =
     model # (case rl_model_fallbacks R model of None \<Rightarrow> [] | Some fallbacks \<Rightarrow> fallbacks)"

text \<open>The counter is a machine word.\<close>

definition rotate_key :: "'p reliable \<Rightarrow> nat \<Rightarrow> string option \<times> nat" where
  "rotate_key R key_index =
     (if rl_api_keys R = [] then (None, key_index)
      else (Some (rl_api_keys R ! (key_index mod length (rl_api_keys R))), Suc key_index mod 2 ^ 64))"

definition rotated_key_slot :: "nat \<Rightarrow> nat \<Rightarrow> nat" where
  "rotated_key_slot after_rotate_index keys =
     (if keys = 0 then 0 else (after_rotate_index - 1) mod keys + 1)"

definition compute_backoff :: "text_lib \<Rightarrow> nat \<Rightarrow> provider_error \<Rightarrow> nat may_panic" where
  "compute_backoff L base err =
     (case parse_retry_after_ms L err of
        Panics \<Rightarrow> Panics
      | Done (Some retry_after) \<Rightarrow> Done (max (min retry_after 30000) base)
      | Done None \<Rightarrow> Done base)"

section \<open>Attempts, providers, models\<close>

text \<open>What a loop hands to the loop around it: leave with an outcome, or go on with the next candidate.\<close>

datatype 'r control = Leave "'r outcome" | Go_On

definition overflow_text :: "string list \<Rightarrow> string" where
  "overflow_text failures =
     ''Request exceeds model context window; retries and fallbacks were skipped. Attempts:'' @ newline @
     join_with newline failures"

text \<open>
  The attempts at one provider with one model.  \<open>request\<close> is the request as the attempt with that
  number sends it, \<open>left\<close> the attempts that are left; the saturation of the doubled backoff is far above
  its cap.
\<close>

fun try_provider ::
    "'p reliable \<Rightarrow> text_lib \<Rightarrow> ('p, 'q, provider_error + 'r) upstream \<Rightarrow> (nat \<Rightarrow> 'q) \<Rightarrow> string \<Rightarrow> string \<Rightarrow> 'p \<Rightarrow>
     nat \<Rightarrow> nat \<Rightarrow> nat \<Rightarrow> ('p, 'q) provider_call call_log \<Rightarrow> 'r control \<times> ('p, 'q) provider_call call_log" where
  "try_provider R L W request model name p attempt backoff 0 st = (Go_On, st)"
| "try_provider R L W request model name p attempt backoff (Suc left) st =
     (let call = (p, model, request attempt);
          st1 = st\<lparr>al_calls := al_calls st @ [call]\<rparr>
      in case W (al_calls st) call of
           Inr response \<Rightarrow> (Leave (Answered response), st1)
         | Inl e \<Rightarrow>
             (let non_retryable_rate_limit = is_non_retryable_rate_limit L e;
                  non_retryable = (is_non_retryable L e \<or> non_retryable_rate_limit);
                  rate_limited = is_rate_limited_error e;
                  reason = failure_reason rate_limited non_retryable (is_upstream_unhealthy L e);
                  line = failure_line name model (attempt + 1) (rl_max_retries R + 1) reason (compact_error_detail e);
                  st2 = st1\<lparr>al_failures := al_failures st1 @ [line]\<rparr>;
                  st3 = (if rate_limited \<and> \<not> non_retryable_rate_limit
                         then st2\<lparr>al_key_index := snd (rotate_key R (al_key_index st2))\<rparr> else st2)
              in if non_retryable then
                   (if is_context_window_exceeded_message (pe_text e)
                    then (Leave (Failed (overflow_text (al_failures st3))), st3) else (Go_On, st3))
                 else if attempt < rl_max_retries R then
                   (case compute_backoff L backoff e of
                      Panics \<Rightarrow> (Leave Panicked, st3)
                    | Done wait \<Rightarrow>
                        try_provider R L W request model name p (attempt + 1) (min (backoff * 2) 10000) left
                          (st3\<lparr>al_waits := al_waits st3 @ [wait]\<rparr>))
                 else (Go_On, st3)))"

fun try_providers ::
    "'p reliable \<Rightarrow> text_lib \<Rightarrow> ('p, 'q, provider_error + 'r) upstream \<Rightarrow> (nat \<Rightarrow> 'q) \<Rightarrow> string \<Rightarrow>
     (string \<times> 'p) list \<Rightarrow> ('p, 'q) provider_call call_log \<Rightarrow> 'r control \<times> ('p, 'q) provider_call call_log" where
  "try_providers R L W request model [] st = (Go_On, st)"
| "try_providers R L W request model ((name, p) # ps) st =
     (case try_provider R L W request model name p 0 (rl_base_backoff_ms R) (Suc (rl_max_retries R)) st of
        (Leave out, st') \<Rightarrow> (Leave out, st')
      | (Go_On, st') \<Rightarrow> try_providers R L W request model ps st')"

fun try_models ::
    "'p reliable \<Rightarrow> text_lib \<Rightarrow> ('p, 'q, provider_error + 'r) upstream \<Rightarrow> (nat \<Rightarrow> 'q) \<Rightarrow> string list \<Rightarrow>
     ('p, 'q) provider_call call_log \<Rightarrow> 'r control \<times> ('p, 'q) provider_call call_log" where
  "try_models R L W request [] st = (Go_On, st)"
| "try_models R L W request (m # ms) st =
     (case try_providers R L W request m (rl_providers R) st of
        (Leave out, st') \<Rightarrow> (Leave out, st')
      | (Go_On, st') \<Rightarrow> try_models R L W request ms st')"

definition reliable_run ::
    "'p reliable \<Rightarrow> text_lib \<Rightarrow> ('p, 'q, provider_error + 'r) upstream \<Rightarrow> (nat \<Rightarrow> 'q) \<Rightarrow> string \<Rightarrow> nat \<Rightarrow>
     'r outcome \<times> ('p, 'q) provider_call call_log" where
  "reliable_run R L W request model key_index =
     (case try_models R L W request (model_chain R model) (log_start key_index) of
        (Leave out, st) \<Rightarrow> (out, st)
      | (Go_On, st) \<Rightarrow>
          (Failed (format_failure_aggregate model (al_failures st)
             (is_some_and (rl_model_fallbacks R model) (\<lambda>chain. chain \<noteq> []))), st))"

section \<open>The operations\<close>

text \<open>The text operations and the one with native tools send the request as it is on every attempt.\<close>

definition reliable_chat_with_system ::
    "'p reliable \<Rightarrow> text_lib \<Rightarrow> ('p, 'q, provider_error + string) upstream \<Rightarrow> 'q \<Rightarrow> string \<Rightarrow> nat \<Rightarrow>
     string outcome \<times> ('p, 'q) provider_call call_log" where
  "reliable_chat_with_system R L W q model k = reliable_run R L W (\<lambda>_. q) model k"

definition reliable_chat_with_history ::
    "'p reliable \<Rightarrow> text_lib \<Rightarrow> ('p, 'q, provider_error + string) upstream \<Rightarrow> 'q \<Rightarrow> string \<Rightarrow> nat \<Rightarrow>
     string outcome \<times> ('p, 'q) provider_call call_log" where
  "reliable_chat_with_history R L W q model k = reliable_run R L W (\<lambda>_. q) model k"

definition reliable_chat_with_tools ::
    "'p reliable \<Rightarrow> text_lib \<Rightarrow> ('p, 'q, provider_error + chat_response) upstream \<Rightarrow> 'q \<Rightarrow> string \<Rightarrow> nat \<Rightarrow>
     chat_response outcome \<times> ('p, 'q) provider_call call_log" where
  "reliable_chat_with_tools R L W q model k = reliable_run R L W (\<lambda>_. q) model k"

text \<open>A structured request forwards the sink for the deltas on the first attempt at a provider only.\<close>

definition attempt_request :: "chat_request \<Rightarrow> nat \<Rightarrow> chat_request" where
  "attempt_request q attempt = q\<lparr>rq_stream := (if attempt = 0 then rq_stream q else False)\<rparr>"

definition reliable_chat ::
    "'p reliable \<Rightarrow> text_lib \<Rightarrow> ('p, chat_request, provider_error + chat_response) upstream \<Rightarrow> chat_request \<Rightarrow> string \<Rightarrow> nat \<Rightarrow>
     chat_response outcome \<times> ('p, chat_request) provider_call call_log" where
  "reliable_chat R L W q model k = reliable_run R L W (attempt_request q) model k"

definition reliable_supports_native_tools :: "('p \<Rightarrow> bool) \<Rightarrow> 'p reliable \<Rightarrow> bool" where
  "reliable_supports_native_tools native R = is_some_and (first (rl_providers R)) (\<lambda>(_, p). native p)"

definition reliable_supports_vision :: "('p \<Rightarrow> bool) \<Rightarrow> 'p reliable \<Rightarrow> bool" where
  "reliable_supports_vision vision R = list_ex (\<lambda>(_, p). vision p) (rl_providers R)"

definition reliable_supports_streaming :: "('p \<Rightarrow> bool) \<Rightarrow> 'p reliable \<Rightarrow> bool" where
  "reliable_supports_streaming streaming R = list_ex (\<lambda>(_, p). streaming p) (rl_providers R)"

section \<open>Streaming\<close>

datatype stream_error =
  Stream_Http "nat option"
| Stream_Json
| Stream_Invalid_Sse string
| Stream_Provider string
| Stream_Io

fun is_stream_error_non_retryable :: "text_lib \<Rightarrow> stream_error \<Rightarrow> bool" where
  "is_stream_error_non_retryable L (Stream_Http status) =
     is_some_and status (\<lambda>code. is_client_error code \<and> code \<noteq> 429 \<and> code \<noteq> 408)"
| "is_stream_error_non_retryable L (Stream_Provider msg) =
     (if is_session_expired_message msg then True
      else
        (let lower = lowercase L msg
         in contains_any [''invalid api key'', ''unauthorized'', ''forbidden''] lower
            \<or> (sublist ''model'' lower \<and> contains_any [''not found'', ''unsupported''] lower)))"
| "is_stream_error_non_retryable L Stream_Json = True"
| "is_stream_error_non_retryable L (Stream_Invalid_Sse _) = True"
| "is_stream_error_non_retryable L Stream_Io = False"

text \<open>
  One candidate: its stream is created, and the first item decides.  A chunk commits to the stream,
  whose items are then all forwarded; \<open>left\<close> is the number of retries that are left.
\<close>

fun stream_candidate ::
    "text_lib \<Rightarrow> ('p, 'q, (stream_error + 'c) list) upstream \<Rightarrow> 'q \<Rightarrow> 'p \<Rightarrow> string \<Rightarrow> nat \<Rightarrow> nat \<Rightarrow>
     ('p, 'q) provider_call call_log \<Rightarrow> (stream_error + 'c) list option \<times> ('p, 'q) provider_call call_log" where
  "stream_candidate L W q p model backoff left st =
     (let call = (p, model, q);
          st1 = st\<lparr>al_calls := al_calls st @ [call]\<rparr>
      in case W (al_calls st) call of
           Inr chunk # items \<Rightarrow> (Some (Inr chunk # items), st1)
         | Inl e # _ \<Rightarrow>
             if is_stream_error_non_retryable L e then (None, st1)
             else (case left of
                     0 \<Rightarrow> (None, st1)
                   | Suc left' \<Rightarrow>
                       stream_candidate L W q p model (min (backoff * 2) 10000) left'
                         (st1\<lparr>al_waits := al_waits st1 @ [backoff]\<rparr>))
         | [] \<Rightarrow> (None, st1))"

fun stream_candidates ::
    "'p reliable \<Rightarrow> text_lib \<Rightarrow> ('p, 'q, (stream_error + 'c) list) upstream \<Rightarrow> 'q \<Rightarrow> ('p \<times> string) list \<Rightarrow>
     ('p, 'q) provider_call call_log \<Rightarrow> (stream_error + 'c) list \<times> ('p, 'q) provider_call call_log" where
  "stream_candidates R L W q [] st = ([Inl (Stream_Provider ''All streaming providers/models failed'')], st)"
| "stream_candidates R L W q ((p, model) # rest) st =
     (case stream_candidate L W q p model (rl_base_backoff_ms R) (rl_max_retries R) st of
        (Some items, st') \<Rightarrow> (items, st')
      | (None, st') \<Rightarrow> stream_candidates R L W q rest st')"

definition candidate_list :: "('p \<Rightarrow> bool) \<Rightarrow> 'p reliable \<Rightarrow> string \<Rightarrow> ('p \<times> string) list" where
  "candidate_list streaming R model =
     concat (map (\<lambda>m. map (\<lambda>(_, p). (p, m)) (filter (\<lambda>(_, p). streaming p) (rl_providers R))) (model_chain R model))"

declare stream_candidate.simps [simp del]

text \<open>The items the consumer receives, if it stays to the end.\<close>

definition reliable_stream ::
    "('p \<Rightarrow> bool) \<Rightarrow> 'p reliable \<Rightarrow> text_lib \<Rightarrow> ('p, 'q, (stream_error + 'c) list) upstream \<Rightarrow> bool \<Rightarrow> 'q \<Rightarrow> string \<Rightarrow>
     (stream_error + 'c) list \<times> ('p, 'q) provider_call call_log" where
  "reliable_stream streaming R L W enabled q model =
     (if \<not> enabled then ([Inl (Stream_Provider ''Streaming disabled'')], log_start 0)
      else if filter (\<lambda>(_, p). streaming p) (rl_providers R) = []
      then ([Inl (Stream_Provider ''No provider supports streaming'')], log_start 0)
      else stream_candidates R L W q (candidate_list streaming R model) (log_start 0))"

end
