(* ===== verification/Reliable_Facts.thy ===== *)
theory Reliable_Facts
  imports Reliable Provider_Error_Facts Routing_Facts
begin

text \<open>
  Facts about the provider with retries: one contract for its four request operations (the
  locale \<open>failover\<close>), the coverage of the candidates, the bounds of calls and waits, what the
  rotation of the keys changes, and the streams.
\<close>

section \<open>Runs of failures\<close>

definition overflows :: "provider_error \<Rightarrow> bool" where
  "overflows e \<longleftrightarrow> is_context_window_exceeded_message (pe_text e)"

text \<open>The calls \<open>cs\<close>, made after \<open>base\<close>, all failed, and not because the request is too long.\<close>

fun all_failed :: "('c list \<Rightarrow> 'c \<Rightarrow> provider_error + 'r) \<Rightarrow> 'c list \<Rightarrow> 'c list \<Rightarrow> bool" where
  "all_failed W base [] = True"
| "all_failed W base (c # cs) =
     ((case W base c of Inl e \<Rightarrow> \<not> overflows e | Inr _ \<Rightarrow> False) \<and> all_failed W (base @ [c]) cs)"

lemma all_failed_append:
  "all_failed W base (xs @ ys) \<longleftrightarrow> all_failed W base xs \<and> all_failed W (base @ xs) ys"
  by (induction xs arbitrary: base) auto

text \<open>How a run of calls ends with an outcome.\<close>

definition ended :: "text_lib \<Rightarrow> ('c list \<Rightarrow> 'c \<Rightarrow> provider_error + 'r) \<Rightarrow> 'c list \<Rightarrow> 'r outcome \<Rightarrow> 'c list \<Rightarrow> bool" where
  "ended L W base out cs \<longleftrightarrow>
     (\<exists>init c. cs = init @ [c] \<and> all_failed W base init \<and>
        (case W (base @ init) c of
           Inr r \<Rightarrow> out = Answered r
         | Inl e \<Rightarrow> if overflows e then \<exists>t. out = Failed t
                     else out = Panicked \<and> parse_retry_after_ms L e = Panics))"

lemma endedE:
  assumes "ended L W base out cs"
  obtains (answer) init c r where "cs = init @ [c]" "all_failed W base init" "W (base @ init) c = Inr r" "out = Answered r"
  | (overflow) init c e t where "cs = init @ [c]" "all_failed W base init" "W (base @ init) c = Inl e" "overflows e"
      "out = Failed t"
  | (panic) init c e where "cs = init @ [c]" "all_failed W base init" "W (base @ init) c = Inl e" "\<not> overflows e"
      "out = Panicked" "parse_retry_after_ms L e = Panics"
proof -
  from assms obtain init c where i: "cs = init @ [c]" "all_failed W base init"
    "case W (base @ init) c of Inr r \<Rightarrow> out = Answered r
     | Inl e \<Rightarrow> if overflows e then \<exists>t. out = Failed t else out = Panicked \<and> parse_retry_after_ms L e = Panics"
    by (auto simp: ended_def)
  show thesis
  proof (cases "W (base @ init) c")
    case (Inl e)
    with i overflow panic show thesis by (cases "overflows e") auto
  next
    case (Inr r)
    with i answer show thesis by auto
  qed
qed

definition run_of :: "text_lib \<Rightarrow> ('c list \<Rightarrow> 'c \<Rightarrow> provider_error + 'r) \<Rightarrow> 'c list \<Rightarrow> 'r control \<Rightarrow> 'c list \<Rightarrow> bool" where
  "run_of L W base ctl cs \<longleftrightarrow> (case ctl of Go_On \<Rightarrow> all_failed W base cs | Leave out \<Rightarrow> ended L W base out cs)"

lemma run_of_append:
  assumes "all_failed W base xs" and "run_of L W (base @ xs) ctl ys"
  shows "run_of L W base ctl (xs @ ys)"
proof (cases ctl)
  case (Leave out)
  with assms(2) obtain init c where i: "ys = init @ [c]" "all_failed W (base @ xs) init"
    "case W ((base @ xs) @ init) c of Inr r \<Rightarrow> out = Answered r
     | Inl e \<Rightarrow> if overflows e then \<exists>t. out = Failed t
                else out = Panicked \<and> parse_retry_after_ms L e = Panics"
    by (auto simp: run_of_def ended_def)
  with assms(1) Leave show ?thesis
    by (auto simp: run_of_def ended_def all_failed_append intro!: exI[of _ "xs @ init"])
qed (use assms in \<open>simp add: run_of_def all_failed_append\<close>)

lemma run_of_single:
  "W base c = Inr r \<Longrightarrow> run_of L W base (Leave (Answered r)) [c]"
  "W base c = Inl e \<Longrightarrow> overflows e \<Longrightarrow> run_of L W base (Leave (Failed t)) [c]"
  "W base c = Inl e \<Longrightarrow> \<not> overflows e \<Longrightarrow> parse_retry_after_ms L e = Panics \<Longrightarrow> run_of L W base (Leave Panicked) [c]"
  "W base c = Inl e \<Longrightarrow> \<not> overflows e \<Longrightarrow> run_of L W base Go_On [c]"
  by (simp_all add: run_of_def ended_def)

lemma overflow_not_retryable: "overflows e \<Longrightarrow> is_non_retryable L e"
  by (simp add: overflows_def is_non_retryable_def)

section \<open>The three loops\<close>

lemma try_provider_run:
  assumes "try_provider R L W request model name p attempt backoff left st = (ctl, st')"
  shows "\<exists>cs. al_calls st' = al_calls st @ cs \<and> run_of L W (al_calls st) ctl cs
      \<and> subseq cs (map (\<lambda>a. (p, model, request a)) [attempt..<attempt + left]) \<and> (0 < left \<longrightarrow> cs \<noteq> [])"
  using assms
proof (induction left arbitrary: attempt backoff st)
  case (Suc left)
  let ?c = "(p, model, request attempt)"
  let ?rest = "map (\<lambda>a. (p, model, request a)) [Suc attempt..<Suc attempt + left]"
  have plan: "map (\<lambda>a. (p, model, request a)) [attempt..<attempt + Suc left] = ?c # ?rest"
    by (simp add: upt_conv_Cons del: upt_Suc)
  show ?case
  proof (cases "W (al_calls st) ?c")
    case (Inr r)
    with Suc.prems show ?thesis
      unfolding plan by (auto simp: Let_def intro!: exI[of _ "[?c]"] run_of_single)
  next
    case (Inl e)
    show ?thesis
    proof (cases "is_non_retryable L e \<or> is_non_retryable_rate_limit L e")
      case True
      with Inl Suc.prems show ?thesis
        unfolding plan
        by (auto simp: Let_def overflows_def[symmetric] intro!: exI[of _ "[?c]"] run_of_single split: if_splits)
    next
      case False
      then have no: "\<not> overflows e" using overflow_not_retryable by blast
      show ?thesis
      proof (cases "attempt < rl_max_retries R \<and> (\<exists>w. compute_backoff L backoff e = Done w)")
        case True
        then obtain w where w: "compute_backoff L backoff e = Done w" by blast
        from Suc.prems Inl False True w obtain stx where
          rec: "try_provider R L W request model name p (Suc attempt) (min (backoff * 2) 10000) left stx = (ctl, st')"
          and calls: "al_calls stx = al_calls st @ [?c]"
          by (simp add: Let_def split: if_splits)
        from Suc.IH[OF rec] obtain cs where cs: "al_calls st' = al_calls stx @ cs" "run_of L W (al_calls stx) ctl cs"
          "subseq cs ?rest" by auto
        have "run_of L W (al_calls st) ctl ([?c] @ cs)"
          by (rule run_of_append) (use cs(2) calls Inl no in auto)
        with cs calls show ?thesis
          unfolding plan by (intro exI[of _ "?c # cs"]) auto
      next
        case stop: False
        with Inl Suc.prems False no show ?thesis
          unfolding plan
          by (auto simp: Let_def compute_backoff_def intro!: exI[of _ "[?c]"] run_of_single
              split: if_splits may_panic.splits option.splits)
      qed
    qed
  qed
qed (simp add: run_of_def)

text \<open>The calls in the order in which they would all be made.\<close>

definition provider_plan :: "'p reliable \<Rightarrow> (nat \<Rightarrow> 'q) \<Rightarrow> string \<Rightarrow> (string \<times> 'p) list \<Rightarrow> ('p, 'q) provider_call list" where
  "provider_plan R request model ps =
     concat (map (\<lambda>(_, p). map (\<lambda>a. (p, model, request a)) [0..<Suc (rl_max_retries R)]) ps)"

definition call_plan :: "'p reliable \<Rightarrow> (nat \<Rightarrow> 'q) \<Rightarrow> string list \<Rightarrow> ('p, 'q) provider_call list" where
  "call_plan R request ms = concat (map (\<lambda>m. provider_plan R request m (rl_providers R)) ms)"

definition tried :: "(nat \<Rightarrow> 'q) \<Rightarrow> string \<Rightarrow> (string \<times> 'p) list \<Rightarrow> ('p, 'q) provider_call list \<Rightarrow> bool" where
  "tried request m ps cs \<longleftrightarrow> (\<forall>(name, p) \<in> set ps. \<exists>a. (p, m, request a) \<in> set cs)"

lemma tried_Nil: "tried request m [] cs"
  by (simp add: tried_def)

lemma tried_Cons: "tried request m ((name, p) # ps) cs \<longleftrightarrow> (\<exists>a. (p, m, request a) \<in> set cs) \<and> tried request m ps cs"
  by (simp add: tried_def)

lemma tried_mono: "tried request m ps cs \<Longrightarrow> set cs \<subseteq> set ds \<Longrightarrow> tried request m ps ds"
  unfolding tried_def by blast

lemma try_providers_run:
  assumes "try_providers R L W request model ps st = (ctl, st')"
  shows "\<exists>cs. al_calls st' = al_calls st @ cs \<and> run_of L W (al_calls st) ctl cs
      \<and> subseq cs (provider_plan R request model ps)
      \<and> (ctl = Go_On \<longrightarrow> tried request model ps cs)"
  using assms
proof (induction ps arbitrary: st)
  case (Cons np ps)
  obtain name p where np: "np = (name, p)" by (cases np)
  obtain ctl1 st1 where one:
    "try_provider R L W request model name p 0 (rl_base_backoff_ms R) (Suc (rl_max_retries R)) st = (ctl1, st1)"
    by fastforce
  from try_provider_run[OF one] obtain cs where cs: "al_calls st1 = al_calls st @ cs" "run_of L W (al_calls st) ctl1 cs"
    "subseq cs (map (\<lambda>a. (p, model, request a)) [0..<Suc (rl_max_retries R)])" "cs \<noteq> []" by (auto simp del: upt_Suc)
  have plan: "provider_plan R request model (np # ps) =
      map (\<lambda>a. (p, model, request a)) [0..<Suc (rl_max_retries R)] @ provider_plan R request model ps"
    by (simp add: provider_plan_def np del: upt_Suc)
  show ?case
  proof (cases ctl1)
    case (Leave out)
    with one Cons.prems np have "ctl = Leave out" "st' = st1" by auto
    with cs Leave show ?thesis
      unfolding plan by (intro exI[of _ cs]) (auto intro: list_emb_prefix simp del: upt_Suc)
  next
    case Go_On
    with one Cons.prems np have "try_providers R L W request model ps st1 = (ctl, st')" by simp
    from Cons.IH[OF this] obtain ds where ds: "al_calls st' = al_calls st1 @ ds" "run_of L W (al_calls st1) ctl ds"
      "subseq ds (provider_plan R request model ps)"
      "ctl = Go_On \<longrightarrow> tried request model ps ds" by auto
    have "run_of L W (al_calls st) ctl (cs @ ds)"
      using run_of_append[of W "al_calls st" cs L ctl ds] cs Go_On ds(1,2) by (simp add: run_of_def)
    moreover have "subseq (cs @ ds) (provider_plan R request model (np # ps))"
      unfolding plan using cs(3) ds(3) by (rule list_emb_append_mono)
    moreover have "\<exists>a. (p, model, request a) \<in> set cs"
    proof -
      have hd: "hd cs \<in> set cs" using cs(4) by simp
      from list_emb_set[OF cs(3) hd] obtain a where "hd cs = (p, model, request a)"
        by (auto simp del: upt_Suc)
      with hd show ?thesis by metis
    qed
    then have "ctl = Go_On \<longrightarrow> tried request model (np # ps) (cs @ ds)"
      using ds(4) tried_mono[of request model ps ds "cs @ ds"] by (auto simp: np tried_Cons)
    ultimately show ?thesis
      using cs(1) ds(1) by (intro exI[of _ "cs @ ds"]) simp
  qed
qed (auto simp: run_of_def tried_Nil)

lemma try_models_run:
  assumes "try_models R L W request ms st = (ctl, st')"
  shows "\<exists>cs. al_calls st' = al_calls st @ cs \<and> run_of L W (al_calls st) ctl cs \<and> subseq cs (call_plan R request ms)
      \<and> (ctl = Go_On \<longrightarrow> (\<forall>m \<in> set ms. tried request m (rl_providers R) cs))"
  using assms
proof (induction ms arbitrary: st)
  case (Cons m ms)
  obtain ctl1 st1 where one: "try_providers R L W request m (rl_providers R) st = (ctl1, st1)" by fastforce
  from try_providers_run[OF one] obtain cs where cs: "al_calls st1 = al_calls st @ cs" "run_of L W (al_calls st) ctl1 cs"
    "subseq cs (provider_plan R request m (rl_providers R))"
    "ctl1 = Go_On \<longrightarrow> tried request m (rl_providers R) cs" by auto
  have plan: "call_plan R request (m # ms) = provider_plan R request m (rl_providers R) @ call_plan R request ms"
    by (simp add: call_plan_def)
  show ?case
  proof (cases ctl1)
    case (Leave out)
    with one Cons.prems have "ctl = Leave out" "st' = st1" by auto
    with cs Leave show ?thesis
      unfolding plan by (intro exI[of _ cs]) (auto intro: list_emb_prefix)
  next
    case Go_On
    with one Cons.prems have "try_models R L W request ms st1 = (ctl, st')" by simp
    from Cons.IH[OF this] obtain ds where ds: "al_calls st' = al_calls st1 @ ds" "run_of L W (al_calls st1) ctl ds"
      "subseq ds (call_plan R request ms)"
      "ctl = Go_On \<longrightarrow> (\<forall>m \<in> set ms. tried request m (rl_providers R) ds)" by auto
    have "run_of L W (al_calls st) ctl (cs @ ds)"
      using run_of_append[of W "al_calls st" cs L ctl ds] cs Go_On ds(1,2) by (simp add: run_of_def)
    moreover have "subseq (cs @ ds) (call_plan R request (m # ms))"
      unfolding plan using cs(3) ds(3) by (rule list_emb_append_mono)
    moreover have "ctl = Go_On \<longrightarrow> (\<forall>m' \<in> set (m # ms). tried request m' (rl_providers R) (cs @ ds))"
      using cs(4) Go_On ds(4) tried_mono[of request _ "rl_providers R" cs "cs @ ds"]
        tried_mono[of request _ "rl_providers R" ds "cs @ ds"] by auto
    ultimately show ?thesis
      using cs(1) ds(1) by (intro exI[of _ "cs @ ds"]) simp
  qed
qed (auto simp: run_of_def)

section \<open>The contract\<close>

definition aggregate_of :: "'p reliable \<Rightarrow> string \<Rightarrow> 'c call_log \<Rightarrow> string" where
  "aggregate_of R model st =
     format_failure_aggregate model (al_failures st) (is_some_and (rl_model_fallbacks R model) (\<lambda>chain. chain \<noteq> []))"

definition contract ::
    "'p reliable \<Rightarrow> text_lib \<Rightarrow> ('p, 'q, provider_error + 'r) upstream \<Rightarrow> (nat \<Rightarrow> 'q) \<Rightarrow> string \<Rightarrow> 'r outcome \<Rightarrow>
     ('p, 'q) provider_call call_log \<Rightarrow> bool" where
  "contract R L W request model out st \<longleftrightarrow>
     subseq (al_calls st) (call_plan R request (model_chain R model)) \<and>
     (ended L W [] out (al_calls st) \<or>
      all_failed W [] (al_calls st) \<and> out = Failed (aggregate_of R model st) \<and>
      (\<forall>m \<in> set (model_chain R model). tried request m (rl_providers R) (al_calls st)))"

lemma reliable_run_contract:
  assumes "reliable_run R L W request model k = (out, st)"
  shows "contract R L W request model out st"
proof -
  obtain ctl st' where run: "try_models R L W request (model_chain R model) (log_start k) = (ctl, st')" by fastforce
  from try_models_run[OF run] have
    "run_of L W [] ctl (al_calls st')" "subseq (al_calls st') (call_plan R request (model_chain R model))"
    "ctl = Go_On \<Longrightarrow> \<forall>m \<in> set (model_chain R model). tried request m (rl_providers R) (al_calls st')"
    by (auto simp: log_start_def)
  with run assms show ?thesis
    by (cases ctl) (auto simp: reliable_run_def contract_def run_of_def aggregate_of_def)
qed

locale failover =
  fixes op :: "'p reliable \<Rightarrow> text_lib \<Rightarrow> ('p, 'q, provider_error + 'r) upstream \<Rightarrow> 'q \<Rightarrow> string \<Rightarrow> nat \<Rightarrow>
      'r outcome \<times> ('p, 'q) provider_call call_log"
    and request :: "'q \<Rightarrow> nat \<Rightarrow> 'q"
  assumes op_contract: "op R L W q model k = (out, st) \<Longrightarrow> contract R L W (request q) model out st"
begin

lemma first_answer:
  assumes "op R L W q model k = (Answered r, st)"
  shows "\<exists>cs c. al_calls st = cs @ [c] \<and> W cs c = Inr r \<and> all_failed W [] cs"
  using op_contract[OF assms] by (fastforce simp: contract_def elim: endedE)

lemma calls_in_plan:
  "op R L W q model k = (out, st) \<Longrightarrow> subseq (al_calls st) (call_plan R (request q) (model_chain R model))"
  using op_contract by (auto simp: contract_def)

lemma overflow_is_last:
  assumes "op R L W q model k = (out, st)" and "al_calls st = cs @ c # ds" and "W cs c = Inl e" and "overflows e"
  shows "ds = [] \<and> (\<exists>t. out = Failed t)"
proof -
  have no: "\<not> all_failed W [] (cs @ c # ds)" using assms(3,4) by (simp add: all_failed_append)
  with op_contract[OF assms(1)] assms(2) have "ended L W [] out (cs @ c # ds)" by (auto simp: contract_def)
  moreover have "ds = [] \<and> init = cs \<and> d = c" if "cs @ c # ds = init @ [d]" "all_failed W [] init" for init d
  proof (cases ds rule: rev_cases)
    case (snoc ds' x)
    with that(1) have "init = cs @ c # ds'" by simp
    with that(2) assms(3,4) show ?thesis by (simp add: all_failed_append)
  qed (use that in simp)
  ultimately show ?thesis using assms(3,4) by (fastforce elim!: endedE)
qed

lemma working_provider_answers:
  assumes "op R L W q model k = (out, st)" and "(name, p) \<in> set (rl_providers R)"
    and works: "\<And>h m a. \<exists>r. W h (p, m, request q a) = Inr r"
    and plain: "\<And>h c e. W h c = Inl e \<Longrightarrow> \<not> overflows e \<and> parse_retry_after_ms L e \<noteq> Panics"
  shows "\<exists>r. out = Answered r"
proof -
  have "\<not> (\<exists>a. (p, model, request q a) \<in> set cs)" if "all_failed W base cs" for base cs
    using that
  proof (induction cs arbitrary: base)
    case (Cons c cs)
    then have "\<exists>e. W base c = Inl e" by (auto split: sum.splits)
    then have "c \<noteq> (p, model, request q a)" for a using works[of base model a] by auto
    with Cons show ?case by auto
  qed simp
  then have "\<not> all_failed W [] (al_calls st) \<or>
      \<not> tried (request q) model (rl_providers R) (al_calls st)"
    using assms(2) by (fastforce simp: tried_def)
  with op_contract[OF assms(1)] have "ended L W [] out (al_calls st)" by (auto simp: contract_def model_chain_def)
  with plain show ?thesis by (fastforce elim!: endedE)
qed

end

interpretation one_shot_calls: failover reliable_chat_with_system "\<lambda>q _. q"
  by unfold_locales (auto simp: reliable_chat_with_system_def intro: reliable_run_contract)


interpretation tool_calls: failover reliable_chat_with_tools "\<lambda>q _. q"
  by unfold_locales (auto simp: reliable_chat_with_tools_def intro: reliable_run_contract)

interpretation chat_calls: failover reliable_chat attempt_request
  by unfold_locales (auto simp: reliable_chat_def intro: reliable_run_contract)

section \<open>Bounds\<close>

lemma length_call_plan:
  "length (call_plan R request ms) = length ms * (length (rl_providers R) * Suc (rl_max_retries R))"
proof -
  have "length (provider_plan R request m ps) = length ps * Suc (rl_max_retries R)" for m ps
    by (induction ps) (auto simp: provider_plan_def simp del: upt_Suc)
  then show ?thesis by (induction ms) (auto simp: call_plan_def)
qed

text \<open>\<open>paused lo hi n ws\<close>: at most \<open>n\<close> waits, each between the two bounds.\<close>

definition paused :: "nat \<Rightarrow> nat \<Rightarrow> nat \<Rightarrow> nat list \<Rightarrow> bool" where
  "paused lo hi n ws \<longleftrightarrow> length ws \<le> n \<and> (\<forall>w \<in> set ws. lo \<le> w \<and> w \<le> hi)"

lemma paused_Nil [simp]: "paused lo hi n []"
  by (simp add: paused_def)

lemma paused_append: "paused lo hi m xs \<Longrightarrow> paused lo hi n ys \<Longrightarrow> paused lo hi (m + n) (xs @ ys)"
  by (auto simp: paused_def)

lemma compute_backoff_bounds:
  "compute_backoff L base e = Done w \<Longrightarrow> base \<le> w \<and> w \<le> max 30000 base"
  by (auto simp: compute_backoff_def split: may_panic.splits option.splits)

lemma try_provider_waits:
  assumes "try_provider R L W request model name p attempt backoff left st = (ctl, st')"
    and "attempt + left = Suc (rl_max_retries R)" and "lo \<le> backoff" and "lo \<le> 10000" and "max 30000 backoff \<le> hi"
  shows "\<exists>ws. al_waits st' = al_waits st @ ws \<and> paused lo hi (left - 1) ws"
  using assms
proof (induction left arbitrary: attempt backoff st)
  case (Suc left)
  let ?c = "(p, model, request attempt)"
  show ?case
  proof (cases "W (al_calls st) ?c")
    case (Inl e)
    show ?thesis
    proof (cases "\<not> is_non_retryable L e \<and> \<not> is_non_retryable_rate_limit L e \<and> attempt < rl_max_retries R
        \<and> (\<exists>w. compute_backoff L backoff e = Done w)")
      case True
      then obtain w where w: "compute_backoff L backoff e = Done w" by blast
      from Suc.prems(1) Inl True w obtain stx where
        rec: "try_provider R L W request model name p (Suc attempt) (min (backoff * 2) 10000) left stx = (ctl, st')"
        and waits: "al_waits stx = al_waits st @ [w]"
        by (simp add: Let_def split: if_splits)
      have "\<exists>ws. al_waits st' = al_waits stx @ ws \<and> paused lo hi (left - 1) ws"
        by (rule Suc.IH[OF rec]) (use Suc.prems in auto)
      then obtain ws where ws: "al_waits st' = al_waits stx @ ws" "paused lo hi (left - 1) ws" by blast
      have "0 < left" using True Suc.prems(2) by simp
      moreover have "paused lo hi 1 [w]"
        using compute_backoff_bounds[OF w] Suc.prems(3,5) by (auto simp: paused_def)
      ultimately have "paused lo hi left (w # ws)"
        using paused_append[of lo hi 1 "[w]" "left - 1" ws] ws(2) by simp
      with waits ws(1) show ?thesis by (intro exI[of _ "w # ws"]) simp
    next
      case False
      with Suc.prems(1) Inl show ?thesis
        by (auto simp: Let_def split: if_splits may_panic.splits)
    qed
  qed (use Suc.prems(1) in \<open>auto simp: Let_def\<close>)
qed simp

lemma try_providers_waits:
  assumes "try_providers R L W request model ps st = (ctl, st')"
    and "lo \<le> rl_base_backoff_ms R" and "lo \<le> 10000" and "max 30000 (rl_base_backoff_ms R) \<le> hi"
  shows "\<exists>ws. al_waits st' = al_waits st @ ws \<and> paused lo hi (length ps * rl_max_retries R) ws"
  using assms(1)
proof (induction ps arbitrary: st)
  case (Cons np ps)
  obtain name p where np: "np = (name, p)" by (cases np)
  obtain ctl1 st1 where one:
    "try_provider R L W request model name p 0 (rl_base_backoff_ms R) (Suc (rl_max_retries R)) st = (ctl1, st1)"
    by fastforce
  have "\<exists>ws. al_waits st1 = al_waits st @ ws \<and> paused lo hi (Suc (rl_max_retries R) - 1) ws"
    by (rule try_provider_waits[OF one]) (use assms in auto)
  then obtain ws where ws: "al_waits st1 = al_waits st @ ws" "paused lo hi (rl_max_retries R) ws" by auto
  show ?case
  proof (cases ctl1)
    case (Leave out)
    with one Cons.prems np have "st' = st1" by auto
    with ws show ?thesis by (auto simp: paused_def)
  next
    case Go_On
    with one Cons.prems np have "try_providers R L W request model ps st1 = (ctl, st')" by simp
    from Cons.IH[OF this] obtain vs where "al_waits st' = al_waits st1 @ vs"
      "paused lo hi (length ps * rl_max_retries R) vs" by blast
    with ws paused_append[OF ws(2)] show ?thesis by (intro exI[of _ "ws @ vs"]) simp
  qed
qed simp

lemma try_models_waits:
  assumes "try_models R L W request ms st = (ctl, st')"
    and "lo \<le> rl_base_backoff_ms R" and "lo \<le> 10000" and "max 30000 (rl_base_backoff_ms R) \<le> hi"
  shows "\<exists>ws. al_waits st' = al_waits st @ ws
    \<and> paused lo hi (length ms * (length (rl_providers R) * rl_max_retries R)) ws"
  using assms(1)
proof (induction ms arbitrary: st)
  case (Cons m ms)
  obtain ctl1 st1 where one: "try_providers R L W request m (rl_providers R) st = (ctl1, st1)" by fastforce
  from try_providers_waits[OF one assms(2-4)] obtain ws where ws: "al_waits st1 = al_waits st @ ws"
    "paused lo hi (length (rl_providers R) * rl_max_retries R) ws" by blast
  show ?case
  proof (cases ctl1)
    case (Leave out)
    with one Cons.prems have "st' = st1" by auto
    with ws show ?thesis by (auto simp: paused_def)
  next
    case Go_On
    with one Cons.prems have "try_models R L W request ms st1 = (ctl, st')" by simp
    from Cons.IH[OF this] obtain vs where "al_waits st' = al_waits st1 @ vs"
      "paused lo hi (length ms * (length (rl_providers R) * rl_max_retries R)) vs" by blast
    with ws paused_append[OF ws(2)] show ?thesis by (intro exI[of _ "ws @ vs"]) simp
  qed
qed simp

lemma reliable_run_waits:
  assumes "reliable_run R L W request model k = (out, st)" and "50 \<le> rl_base_backoff_ms R"
  shows "paused 50 (max 30000 (rl_base_backoff_ms R))
    (length (model_chain R model) * (length (rl_providers R) * rl_max_retries R)) (al_waits st)"
proof -
  obtain ctl st' where run: "try_models R L W request (model_chain R model) (log_start k) = (ctl, st')" by fastforce
  from assms(1) run have "st = st'" by (cases ctl) (auto simp: reliable_run_def)
  with try_models_waits[OF run assms(2), of "max 30000 (rl_base_backoff_ms R)"] show ?thesis
    by (auto simp: log_start_def)
qed

section \<open>Keys\<close>

text \<open>Two logs that differ in the rotation index at most.\<close>

definition same_but_key :: "'c call_log \<Rightarrow> 'c call_log \<Rightarrow> bool" where
  "same_but_key s t \<longleftrightarrow> al_calls s = al_calls t \<and> al_waits s = al_waits t \<and> al_failures s = al_failures t"

lemma try_provider_keys:
  assumes "same_but_key s t"
  shows "fst (try_provider (R\<lparr>rl_api_keys := ks\<rparr>) L W request model name p attempt backoff left s) =
         fst (try_provider R L W request model name p attempt backoff left t)
    \<and> same_but_key (snd (try_provider (R\<lparr>rl_api_keys := ks\<rparr>) L W request model name p attempt backoff left s))
         (snd (try_provider R L W request model name p attempt backoff left t))"
  using assms
proof (induction left arbitrary: attempt backoff s t)
  case (Suc left)
  show ?case
  proof (cases "W (al_calls t) (p, model, request attempt)")
    case (Inl e)
    with Suc.prems show ?thesis
      by (cases "compute_backoff L backoff e")
         (auto simp: same_but_key_def Let_def intro!: Suc.IH[unfolded same_but_key_def])
  qed (use Suc.prems in \<open>auto simp: same_but_key_def Let_def\<close>)
qed simp

lemma try_providers_keys:
  assumes "same_but_key s t"
  shows "fst (try_providers (R\<lparr>rl_api_keys := ks\<rparr>) L W request model ps s) = fst (try_providers R L W request model ps t)
    \<and> same_but_key (snd (try_providers (R\<lparr>rl_api_keys := ks\<rparr>) L W request model ps s))
         (snd (try_providers R L W request model ps t))"
  using assms
proof (induction ps arbitrary: s t)
  case (Cons np ps)
  obtain name p where np: "np = (name, p)" by (cases np)
  let ?one = "try_provider (R\<lparr>rl_api_keys := ks\<rparr>) L W request model name p 0 (rl_base_backoff_ms R) (Suc (rl_max_retries R)) s"
  let ?two = "try_provider R L W request model name p 0 (rl_base_backoff_ms R) (Suc (rl_max_retries R)) t"
  have "fst ?one = fst ?two \<and> same_but_key (snd ?one) (snd ?two)" using try_provider_keys[OF Cons.prems] .
  with Cons.IH show ?case by (auto simp: np simp del: try_provider.simps split: prod.splits control.splits)
qed simp

lemma try_models_keys:
  assumes "same_but_key s t"
  shows "fst (try_models (R\<lparr>rl_api_keys := ks\<rparr>) L W request ms s) = fst (try_models R L W request ms t)
    \<and> same_but_key (snd (try_models (R\<lparr>rl_api_keys := ks\<rparr>) L W request ms s)) (snd (try_models R L W request ms t))"
  using assms
proof (induction ms arbitrary: s t)
  case (Cons m ms)
  let ?one = "try_providers (R\<lparr>rl_api_keys := ks\<rparr>) L W request m (rl_providers R) s"
  let ?two = "try_providers R L W request m (rl_providers R) t"
  have "fst ?one = fst ?two \<and> same_but_key (snd ?one) (snd ?two)" using try_providers_keys[OF Cons.prems] .
  with Cons.IH show ?case by (auto split: prod.splits control.splits)
qed simp

text \<open>The extra keys change neither the outcome, nor a call, nor a wait, nor a line of the report.\<close>

lemma keys_change_nothing:
  assumes "reliable_run (with_api_keys ks R) L W request model k = (out, st)"
    and "reliable_run R L W request model k' = (out', st')"
  shows "out = out' \<and> same_but_key st st'"
proof -
  have start: "same_but_key (log_start k) (log_start k')" by (simp add: same_but_key_def log_start_def)
  have "model_chain (R\<lparr>rl_api_keys := ks\<rparr>) model = model_chain R model" by (simp add: model_chain_def)
  with assms try_models_keys[OF start, where R = R and ks = ks and L = L and W = W and request = request
      and ms = "model_chain R model"] show ?thesis
    by (auto simp: reliable_run_def with_api_keys_def same_but_key_def split: prod.splits control.splits)
qed

lemma rotated_key_slot_range: "0 < n \<Longrightarrow> 1 \<le> rotated_key_slot i n \<and> rotated_key_slot i n \<le> n"
  by (simp add: rotated_key_slot_def Suc_leI)

lemma rotation_is_round_robin:
  assumes "rl_api_keys R \<noteq> []" and "k + length (rl_api_keys R) < 2 ^ 64"
  shows "map (\<lambda>i. fst (rotate_key R (k + i))) [0..<length (rl_api_keys R)]
       = map Some (rotate k (rl_api_keys R))"
  using assms by (intro nth_equalityI) (auto simp: rotate_key_def nth_rotate)

section \<open>Streams\<close>

definition committed :: "(stream_error + 'c) list \<Rightarrow> bool" where
  "committed items = (case items of Inr _ # _ \<Rightarrow> True | _ \<Rightarrow> False)"

text \<open>None of the streams created by the calls \<open>cs\<close> after \<open>base\<close> started with a chunk.\<close>

fun none_committed :: "('c list \<Rightarrow> 'c \<Rightarrow> (stream_error + 'd) list) \<Rightarrow> 'c list \<Rightarrow> 'c list \<Rightarrow> bool" where
  "none_committed W base [] = True"
| "none_committed W base (c # cs) = (\<not> committed (W base c) \<and> none_committed W (base @ [c]) cs)"

lemma none_committed_append:
  "none_committed W base (xs @ ys) \<longleftrightarrow> none_committed W base xs \<and> none_committed W (base @ xs) ys"
  by (induction xs arbitrary: base) auto

definition stream_run :: "('c list \<Rightarrow> 'c \<Rightarrow> (stream_error + 'd) list) \<Rightarrow> 'c list \<Rightarrow> (stream_error + 'd) list option \<Rightarrow> 'c list \<Rightarrow> bool" where
  "stream_run W base out cs \<longleftrightarrow>
     (case out of
        None \<Rightarrow> none_committed W base cs
      | Some items \<Rightarrow> \<exists>init c. cs = init @ [c] \<and> none_committed W base init \<and> committed items \<and> items = W (base @ init) c)"

lemma stream_run_append:
  assumes "none_committed W base xs" and "stream_run W (base @ xs) out ys"
  shows "stream_run W base out (xs @ ys)"
proof (cases out)
  case (Some items)
  with assms(2) obtain init c where "ys = init @ [c]" "none_committed W (base @ xs) init" "committed items"
    "items = W ((base @ xs) @ init) c"
    by (auto simp: stream_run_def)
  with assms(1) Some show ?thesis
    by (auto simp: stream_run_def none_committed_append intro!: exI[of _ "xs @ init"])
qed (use assms in \<open>simp add: stream_run_def none_committed_append\<close>)

lemma stream_candidate_run:
  assumes "stream_candidate L W q p model backoff left st = (out, st')"
  shows "\<exists>cs. al_calls st' = al_calls st @ cs \<and> stream_run W (al_calls st) out cs
    \<and> set cs \<subseteq> {(p, model, q)} \<and> length cs \<le> Suc left"
  using assms
proof (induction left arbitrary: backoff st)
  case 0
  then show ?case
    by (subst (asm) stream_candidate.simps)
       (auto simp: Let_def stream_run_def committed_def intro!: exI[of _ "[(p, model, q)]"]
         split: list.splits sum.splits if_splits)
next
  case (Suc left)
  let ?c = "(p, model, q)"
  show ?case
  proof (cases "\<exists>e es. W (al_calls st) ?c = Inl e # es \<and> \<not> is_stream_error_non_retryable L e")
    case True
    then obtain e es where e: "W (al_calls st) ?c = Inl e # es" "\<not> is_stream_error_non_retryable L e" by blast
    from Suc.prems e obtain stx where
      rec: "stream_candidate L W q p model (min (backoff * 2) 10000) left stx = (out, st')"
      and calls: "al_calls stx = al_calls st @ [?c]"
      by (subst (asm) stream_candidate.simps) (simp add: Let_def)
    from Suc.IH[OF rec] obtain cs where cs: "al_calls st' = al_calls stx @ cs" "stream_run W (al_calls stx) out cs"
      "set cs \<subseteq> {?c}" "length cs \<le> Suc left" by blast
    have "stream_run W (al_calls st) out ([?c] @ cs)"
      by (rule stream_run_append) (use cs(2) calls e in \<open>auto simp: committed_def\<close>)
    with cs calls show ?thesis by (intro exI[of _ "?c # cs"]) auto
  next
    case False
    with Suc.prems show ?thesis
      by (subst (asm) stream_candidate.simps)
         (auto simp: Let_def stream_run_def committed_def intro!: exI[of _ "[(p, model, q)]"]
           split: list.splits sum.splits if_splits)
  qed
qed

lemma stream_candidates_run:
  assumes "stream_candidates R L W q pms st = (items, st')"
  shows "\<exists>cs. al_calls st' = al_calls st @ cs
    \<and> (stream_run W (al_calls st) (Some items) cs
       \<or> none_committed W (al_calls st) cs \<and> items = [Inl (Stream_Provider ''All streaming providers/models failed'')])
    \<and> set cs \<subseteq> {(p, m, q) | p m. (p, m) \<in> set pms} \<and> length cs \<le> length pms * Suc (rl_max_retries R)"
  using assms
proof (induction pms arbitrary: st)
  case (Cons pm pms)
  obtain p m where pm: "pm = (p, m)" by (cases pm)
  obtain out1 st1 where one: "stream_candidate L W q p m (rl_base_backoff_ms R) (rl_max_retries R) st = (out1, st1)"
    by fastforce
  from stream_candidate_run[OF one] obtain cs where cs: "al_calls st1 = al_calls st @ cs"
    "stream_run W (al_calls st) out1 cs" "set cs \<subseteq> {(p, m, q)}" "length cs \<le> Suc (rl_max_retries R)" by blast
  show ?case
  proof (cases out1)
    case (Some its)
    with one Cons.prems pm have "items = its" "st' = st1" by auto
    with cs Some pm show ?thesis by (intro exI[of _ cs]) auto
  next
    case None
    with one Cons.prems pm have "stream_candidates R L W q pms st1 = (items, st')" by simp
    from Cons.IH[OF this] obtain ds where ds: "al_calls st' = al_calls st1 @ ds"
      "stream_run W (al_calls st1) (Some items) ds
       \<or> none_committed W (al_calls st1) ds \<and> items = [Inl (Stream_Provider ''All streaming providers/models failed'')]"
      "set ds \<subseteq> {(p, m, q) | p m. (p, m) \<in> set pms}" "length ds \<le> length pms * Suc (rl_max_retries R)" by blast
    have no: "none_committed W (al_calls st) cs" using cs(2) None by (simp add: stream_run_def)
    have "stream_run W (al_calls st) (Some items) (cs @ ds)
       \<or> none_committed W (al_calls st) (cs @ ds) \<and> items = [Inl (Stream_Provider ''All streaming providers/models failed'')]"
      using ds(2) cs(1) stream_run_append[OF no] by (auto simp: none_committed_append no)
    moreover have "set (cs @ ds) \<subseteq> {(p, m, q) | p m. (p, m) \<in> set (pm # pms)}" using cs(3) ds(3) pm by auto
    moreover have "length (cs @ ds) \<le> length (pm # pms) * Suc (rl_max_retries R)" using cs(4) ds(4) by simp
    ultimately show ?thesis using cs(1) ds(1) by (intro exI[of _ "cs @ ds"]) simp
  qed
qed simp

section \<open>Properties of the operations\<close>

text \<open>C12. A structured request is sent along the plan of models, providers and attempts, skipping forward but never
  back, and at most once for each of its positions.  When it is answered, the answer is that of the last
  call and every call before it failed; when it fails without an overflow of the context, every model of the
  chain was sent to every provider and the text lists the attempts; and only the first
  attempt at a provider may stream.\<close>

theorem chat_fails_over:
  assumes "reliable_chat R L W q model k = (out, st)"
  shows "subseq (al_calls st) (call_plan R (attempt_request q) (model_chain R model))
    \<and> length (al_calls st) \<le> length (model_chain R model) * (length (rl_providers R) * Suc (rl_max_retries R))
    \<and> (case out of
          Answered r \<Rightarrow> \<exists>cs c. al_calls st = cs @ [c] \<and> W cs c = Inr r \<and> all_failed W [] cs
        | Failed t \<Rightarrow>
            (\<exists>cs c e. al_calls st = cs @ [c] \<and> all_failed W [] cs \<and> W cs c = Inl e \<and> overflows e)
            \<or> all_failed W [] (al_calls st) \<and> t = aggregate_of R model st
              \<and> (\<forall>m \<in> set (model_chain R model). tried (attempt_request q) m (rl_providers R) (al_calls st))
        | Panicked \<Rightarrow> \<exists>cs c e. al_calls st = cs @ [c] \<and> W cs c = Inl e \<and> parse_retry_after_ms L e = Panics)
    \<and> \<not> rq_stream (attempt_request q (Suc a))"
proof -
  note c = chat_calls.op_contract[OF assms]
  have "length (al_calls st) \<le> length (call_plan R (attempt_request q) (model_chain R model))"
    using c list_emb_length unfolding contract_def by blast
  moreover have "case out of
          Answered r \<Rightarrow> \<exists>cs c. al_calls st = cs @ [c] \<and> W cs c = Inr r \<and> all_failed W [] cs
        | Failed t \<Rightarrow>
            (\<exists>cs c e. al_calls st = cs @ [c] \<and> all_failed W [] cs \<and> W cs c = Inl e \<and> overflows e)
            \<or> all_failed W [] (al_calls st) \<and> t = aggregate_of R model st
              \<and> (\<forall>m \<in> set (model_chain R model). tried (attempt_request q) m (rl_providers R) (al_calls st))
        | Panicked \<Rightarrow> \<exists>cs c e. al_calls st = cs @ [c] \<and> W cs c = Inl e \<and> parse_retry_after_ms L e = Panics"
    using c unfolding contract_def by (elim conjE disjE endedE) (fastforce split: outcome.splits)+
  ultimately show ?thesis
    using c by (simp add: length_call_plan contract_def attempt_request_def)
qed

definition two_providers :: "nat reliable" where
  "two_providers = with_model_fallbacks [''m1'' \<mapsto> [''m2'']] (reliable_new [(''first'', 1), (''second'', 2)] 1 50)"

lemma two_providers_simps [simp]:
  "rl_providers two_providers = [(''first'', 1), (''second'', 2)]"
  "rl_max_retries two_providers = 1" "rl_base_backoff_ms two_providers = 50"
  "model_chain two_providers ''m1'' = [''m1'', ''m2'']"
  "with_api_keys [] two_providers = two_providers"
  by (simp_all add: two_providers_def with_model_fallbacks_def with_api_keys_def reliable_new_def model_chain_def)

definition flaky :: "(nat, 'q, provider_error + 'r) upstream" where
  "flaky = (\<lambda>_ _. Inl (error_text ''connection reset''))"

definition recovering :: "'r \<Rightarrow> (nat, 'q, provider_error + 'r) upstream" where
  "recovering r = (\<lambda>_ (p, m, _). if p = 2 then Inr r else Inl (error_text ''connection reset''))"

lemma reset_is_retryable:
  "\<not> is_non_retryable ascii_lib (error_text ''connection reset'')"
  "\<not> is_non_retryable_rate_limit ascii_lib (error_text ''connection reset'')"
  "\<not> is_rate_limited_error (error_text ''connection reset'')"
  "parse_retry_after_ms ascii_lib (error_text ''connection reset'') = Done None"
  "\<not> overflows (error_text ''connection reset'')"
  unfolding overflows_def by code_simp+

definition hello_response :: chat_response where
  "hello_response = \<lparr>cr_text = Some ''hello'', cr_tool_calls = [], cr_usage = None, cr_reasoning = None\<rparr>"

theorem chat_fails_over_witness:
  "\<exists>out st. reliable_chat two_providers ascii_lib (recovering hello_response) plain_request ''m1'' 0 = (out, st)
     \<and> length (al_calls st) \<le> 8"
proof -
  obtain out st where run: "reliable_chat two_providers ascii_lib (recovering hello_response) plain_request ''m1'' 0 = (out, st)"
    by fastforce
  from chat_fails_over[OF run] have "length (al_calls st) \<le> 8" by (auto simp del: One_nat_def)
  with run show ?thesis by auto
qed



text \<open>C15. If one of the providers answers every call, and no provider reports an overflow or a Retry-After that cannot
  be read, a text request is answered.\<close>

theorem working_provider_suffices:
  assumes "reliable_chat_with_system R L W q model k = (out, st)" and "(name, p) \<in> set (rl_providers R)"
    and "\<And>h m. \<exists>r. W h (p, m, q) = Inr r"
    and "\<And>h c e. W h c = Inl e \<Longrightarrow> \<not> is_context_window_exceeded_message (pe_text e) \<and> parse_retry_after_ms L e \<noteq> Panics"
  shows "\<exists>r. out = Answered r"
  by (rule one_shot_calls.working_provider_answers[OF assms(1,2)])
     (use assms(3,4) in \<open>auto simp: overflows_def\<close>)

theorem working_provider_suffices_witness:
  "\<exists>r. fst (reliable_chat_with_system two_providers ascii_lib (recovering ''hello'') ''q'' ''m1'' 0) = Answered r"
proof -
  obtain out st where run: "reliable_chat_with_system two_providers ascii_lib (recovering ''hello'') ''q'' ''m1'' 0 = (out, st)"
    by fastforce
  have "\<exists>r. out = Answered r"
    by (rule working_provider_suffices[OF run, of "''second''" 2])
       (use reset_is_retryable in \<open>auto simp: recovering_def overflows_def split: if_splits\<close>)
  with run show ?thesis by simp
qed

text \<open>C18. A request waits between two attempts at a provider only, so at most as often as there are retries for each
  model and provider; each wait lasts at least 50 milliseconds and at most 30 seconds or the configured
  base, whatever a Retry-After says.\<close>

theorem waits_are_bounded:
  assumes "reliable_chat_with_tools R L W q model k = (out, st)" and "R = with_api_keys ks (with_model_fallbacks fb (reliable_new ps n base))"
  shows "length (al_waits st) \<le> length (model_chain R model) * (length ps * n)
    \<and> (\<forall>w \<in> set (al_waits st). 50 \<le> w \<and> w \<le> max 30000 base)"
  using reliable_run_waits[OF assms(1)[unfolded reliable_chat_with_tools_def]] assms(2)
  by (auto simp: paused_def with_api_keys_def with_model_fallbacks_def reliable_new_def)

theorem waits_are_bounded_witness:
  "length (al_waits (snd (reliable_chat_with_tools (with_api_keys [] two_providers) ascii_lib flaky ''q'' ''m1'' 0))) \<le> 4"
proof -
  obtain out st where run: "reliable_chat_with_tools (with_api_keys [] two_providers) ascii_lib flaky ''q'' ''m1'' 0 = (out, st)"
    by fastforce
  have "with_api_keys [] two_providers = with_api_keys []
      (with_model_fallbacks [''m1'' \<mapsto> [''m2'']] (reliable_new [(''first'', 1), (''second'', 2)] 1 50))"
    by (simp only: two_providers_def)
  from waits_are_bounded[OF run this] have "length (al_waits st) \<le> 4" by simp
  then show ?thesis using run by simp
qed

text \<open>C16. A stream never mixes two answers and never repeats a piece of one.  What the consumer gets is either one
  error or the items of exactly one upstream stream, that of the last call, whole; of every stream created
  before it nothing was forwarded, and the streams are created one after the other, at most one for each
  candidate and attempt.\<close>

theorem stream_commits_to_one_answer:
  assumes "reliable_stream streaming R L W enabled q model = (items, st)"
  shows "((\<exists>e. items = [Inl e] \<and> none_committed W [] (al_calls st))
      \<or> (\<exists>cs c. al_calls st = cs @ [c] \<and> items = W cs c \<and> committed items \<and> none_committed W [] cs))
    \<and> length (al_calls st) \<le> length (candidate_list streaming R model) * Suc (rl_max_retries R)"
proof (cases "enabled \<and> filter (\<lambda>(_, p). streaming p) (rl_providers R) \<noteq> []")
  case True
  with assms have "stream_candidates R L W q (candidate_list streaming R model) (log_start 0) = (items, st)"
    by (simp add: reliable_stream_def)
  from stream_candidates_run[OF this] show ?thesis
    by (auto simp: log_start_def stream_run_def)
next
  case False
  with assms show ?thesis by (auto simp: reliable_stream_def log_start_def split: if_splits)
qed

theorem stream_commits_to_one_answer_witness:
  "\<exists>items st. reliable_stream (\<lambda>_. True) two_providers ascii_lib
       (\<lambda>_ (p, _, _). if p = 1 then [] else [Inr ''he'', Inr ''llo'']) True ''q'' ''m1'' = (items, st)
     \<and> length (al_calls st) \<le> 8"
proof -
  let ?W = "\<lambda>(_ :: (nat, string) provider_call list) (p :: nat, _ :: string, _ :: string).
      if p = 1 then [] else [Inr ''he'', Inr ''llo'']"
  obtain items st where run: "reliable_stream (\<lambda>_. True) two_providers ascii_lib ?W True ''q'' ''m1'' = (items, st)"
    by fastforce
  from stream_commits_to_one_answer[OF run] have
    "length (al_calls st) \<le> length (candidate_list (\<lambda>_. True) two_providers ''m1'') * 2"
    by simp
  moreover have "length (candidate_list (\<lambda>_. True) two_providers ''m1'') = 4"
    by (simp add: candidate_list_def)
  ultimately show ?thesis using run by auto
qed

text \<open>A stream that reports an overflow is tried again, and after it the other providers and models.\<close>

lemma stream_retries_overflow:
  "length (al_calls (snd (reliable_stream (\<lambda>_. True) two_providers ascii_lib
     (\<lambda>_ _. [Inl (Stream_Provider ''prompt is too long'')]) True ''q'' ''m1''))) = 8"
proof -
  have "\<not> is_session_expired_message ''prompt is too long''"
    "\<not> contains_any [''invalid api key'', ''unauthorized'', ''forbidden''] (lowercase ascii_lib ''prompt is too long'')"
    "\<not> sublist ''model'' (lowercase ascii_lib ''prompt is too long'')"
    by code_simp+
  then have no: "\<not> is_stream_error_non_retryable ascii_lib (Stream_Provider ''prompt is too long'')"
    by (simp add: Let_def)
  show ?thesis
    by (simp add: reliable_stream_def candidate_list_def stream_candidate.simps Let_def log_start_def no
        del: is_stream_error_non_retryable.simps)
qed

end
