(* ===== verification/Spec2Isabelle.thy ===== *)
theory Spec2Isabelle
  imports Command_Facts Enforcement Queue_Facts Approval_Facts Task_Facts Loop_Guards Path_Facts
    Context_Facts Url_Facts Message_Windows Scheduler_Gate Compaction_Facts Compaction_Text_Facts
    Tool_Result_Facts Cron_Ops_Facts Cron_Tick_Facts Routing_Facts Provider_Error_Facts Reliable_Facts
begin

text \<open>
  A model of the decision-making core of OpenHuman, the Rust program under \<open>src/src\<close> (paths
  below are relative to \<open>src/src/openhuman\<close>), and the theorems that make it correct.

  \<^bold>\<open>The program.\<close>  An agent turn is a loop: the harness sends the conversation to a model, the model
  answers with tool calls, the calls run, their results enter the conversation.  The parts
  modelled here are those that decide what may happen in that loop and that keep its durable
  state:

  \<^item> the \<^bold>\<open>security policy\<close> (\<open>security/policy\<close>) decides whether a command line, a path or a tool
    operation is allowed in the configured autonomy tier, and counts actions against an hourly
    budget;
  \<^item> the \<^bold>\<open>URL guard\<close> (\<open>tools/impl/network/url_guard.rs\<close>) decides whether the network tools may
    request a URL;
  \<^item> the \<^bold>\<open>approval gate\<close> (\<open>approval\<close>) parks a call until the user decides, times out, and keeps
    the decision in a table;
  \<^item> the \<^bold>\<open>loop guards\<close> (\<open>agent/harness/tool_loop.rs\<close>) stop a turn that repeats itself; they
    recognise the refusals of the policy and the gate by markers in their texts;
  \<^item> \<^bold>\<open>context management\<close> (\<open>context\<close>, \<open>agent/harness/token_budget.rs\<close>) keeps the conversation
    within the model's window before each request; the \<^bold>\<open>message windows\<close>
    (\<open>agent/harness/session/turn/context.rs\<close>) cut it by message count, and the provider's adapter
    repairs what is left of the tool messages (\<open>inference/provider/compatible_helpers.rs\<close>);
  \<^item> the \<^bold>\<open>scheduler gate\<close> (\<open>scheduler_gate\<close>) holds back background work by battery, load and
    session and hands out the one slot for calls to the model;
  \<^item> the \<^bold>\<open>compaction of tool outputs\<close> (\<open>agent/harness/compaction\<close>) shortens logs, diffs and JSON and
    keeps the originals for a retrieval tool; what is still too long becomes a \<^bold>\<open>tool-result artifact\<close>
    in the action directory (\<open>agent/harness/tool_result_artifacts\<close>);
  \<^item> \<^bold>\<open>cron\<close> (\<open>cron\<close>) runs commands and agents on schedules: the store of jobs and of their runs, the
    scheduler, which asks the security policy before it spawns a command, and runs on request;
  \<^item> \<^bold>\<open>inference routing\<close> (\<open>routing\<close>, \<open>inference/provider/router.rs\<close>) sends a request to the local or
    the remote model, and the \<^bold>\<open>reliable provider\<close> (\<open>inference/provider/reliable.rs\<close>) retries it and
    fails over along models and providers, by the \<^bold>\<open>classes of provider errors\<close>
    (\<open>inference/provider/ops\<close>, \<open>error_code.rs\<close>, \<open>config_rejection.rs\<close>), whose texts it redacts;
  \<^item> the \<^bold>\<open>memory job queue\<close> (\<open>memory_queue\<close>) runs background work in leased, retried jobs;
  \<^item> the \<^bold>\<open>task boards\<close> (\<open>todos\<close>, \<open>agent/task_board.rs\<close>) hold the cards agents work off and
    claim.

  \<^bold>\<open>The theories.\<close>  Each component has theories with its types and operations, in the order of the
  source and with its names, and a theory \<open>..._Facts\<close> with what it guarantees.

  \<^item> \<open>Prelude\<close>: fact collections (\<open>queue_simps\<close>, \<open>board_simps\<close>), lemmas on lists and options.
  \<^item> \<open>Rust_Str\<close>, \<open>Rust_Path\<close>, \<open>Rust_Float\<close>, \<open>Net_Addr\<close>: what the code uses of Rust's \<open>str\<close> (a
    \<open>string\<close> is the UTF-8 bytes), \<open>Path\<close>, \<open>f64\<close> and \<open>IpAddr\<close>; \<open>floor_char_boundary\<close> of \<open>util.rs\<close>.
  \<^item> \<open>Policy_Types\<close> (\<open>types.rs\<close>: tiers, classes, the policy record, the action tracker),
    \<open>Shell_Lexer\<close> and \<open>Command_Class\<close> (\<open>policy_command.rs\<close>), \<open>Command_Checks\<close>
    (\<open>command_checks.rs\<close>), \<open>Enforcement\<close> (\<open>enforcement.rs\<close>, with the theorem on the hourly
    budget), \<open>Path_Policy\<close> (\<open>path_checks.rs\<close>); facts in \<open>Command_Facts\<close> and \<open>Path_Facts\<close>.
  \<^item> \<open>Url_Guard\<close> and \<open>Url_Facts\<close> (\<open>url_guard.rs\<close>).
  \<^item> \<open>Approval_Store\<close> (\<open>approval/store.rs\<close>, \<open>types.rs\<close>), \<open>Approval_Gate\<close> (\<open>gate.rs\<close>,
    \<open>agent/turn_origin.rs\<close>), \<open>Approval_Facts\<close>.
  \<^item> \<open>Loop_Guards\<close> (\<open>tool_loop.rs\<close>, with its facts).
  \<^item> \<open>Conversation\<close> (messages of \<open>inference/provider/traits.rs\<close>, token estimates), \<open>Token_Budget\<close>
    (the trim of \<open>token_budget.rs\<close>, with its facts), \<open>Context_Mgmt\<close> (\<open>tool_result_budget.rs\<close>,
    \<open>guard.rs\<close>, \<open>microcompact.rs\<close>, \<open>session_memory.rs\<close>, \<open>pipeline.rs\<close>, \<open>manager.rs\<close>),
    \<open>Summarizer\<close> (\<open>summarizer.rs\<close>, \<open>segment_recap_summarizer.rs\<close>, and what the engine and the
    agent do before a request), \<open>Context_Facts\<close>.
  \<^item> \<open>Message_Windows\<close> (\<open>trim_history\<close>, \<open>bound_cached_transcript_messages\<close> and
    \<open>enforce_tool_message_invariants\<close>, with their facts).
  \<^item> \<open>Scheduler_Gate\<close> (\<open>policy.rs\<close>, \<open>signals.rs\<close>, \<open>gate.rs\<close>, with its facts).
  \<^item> \<open>Queue_Types\<close> (\<open>types.rs\<close>, \<open>memory_tree/health\<close>), \<open>Queue_Store\<close> (\<open>store.rs\<close>, \<open>settle_job\<close>
    of \<open>worker.rs\<close>, the scheduler tick, the backfill trigger), \<open>Queue_Facts\<close>.
  \<^item> \<open>Task_Board\<close> (\<open>todos/ops.rs\<close>, \<open>agent/task_board.rs\<close>), \<open>Task_Facts\<close>.
  \<^item> \<open>Rust_Text\<close> (\<open>lines\<close>, \<open>u64\<close> texts, \<open>f32\<close>), \<open>Compaction_Detect\<close> (\<open>signals.rs\<close>, \<open>detect.rs\<close>,
    \<open>cache_align.rs\<close>), \<open>Compaction_Diff\<close> (\<open>diff.rs\<close>, \<open>logs.rs\<close>), \<open>Compaction\<close> (\<open>json_crusher.rs\<close>,
    \<open>store.rs\<close>, \<open>mod.rs\<close>, the retrieval tool), \<open>Tool_Results\<close>; facts in \<open>Compaction_Facts\<close>,
    \<open>Compaction_Text_Facts\<close> and \<open>Tool_Result_Facts\<close>.
  \<^item> \<open>Cron_Schedule\<close> (\<open>cron/types.rs\<close>, \<open>schedule.rs\<close>), \<open>Cron_Store\<close> (\<open>store.rs\<close>), \<open>Cron_Ops\<close> (\<open>ops.rs\<close>,
    \<open>seed.rs\<close>), \<open>Cron_Scheduler\<close> (\<open>scheduler.rs\<close>); facts in \<open>Cron_Store_Facts\<close>, \<open>Cron_Dedup\<close>,
    \<open>Cron_Ops_Facts\<close>, \<open>Cron_Scheduler_Facts\<close> (gate, retries, delivery) and \<open>Cron_Tick_Facts\<close>
    (recording, health, the jobs of a tick side by side).
  \<^item> \<open>Routing\<close> (\<open>routing/policy.rs\<close>, \<open>quality.rs\<close>, \<open>health.rs\<close>, \<open>provider.rs\<close>, \<open>telemetry.rs\<close>,
    \<open>router.rs\<close>), \<open>Provider_Errors\<close> (\<open>sanitize.rs\<close>, \<open>http_error.rs\<close>, \<open>error_code.rs\<close>, \<open>config_rejection.rs\<close>,
    \<open>billing_error.rs\<close> and the classes of \<open>reliable.rs\<close>), \<open>Reliable\<close> (the rest of \<open>reliable.rs\<close>); facts in
    \<open>Routing_Facts\<close>, \<open>Provider_Error_Facts\<close> and \<open>Reliable_Facts\<close>.
  \<^item> This theory: the property that spans the policy, the gate and the loop guards.

  \<^bold>\<open>How state and operations correspond.\<close>  A struct is a record and an enum a datatype with the
  constructors of the source.  A method that changes its receiver returns the new state; the
  database statements are functions of a list of rows, aborted as a whole where SQLite would.
  Errors are \<open>Inl\<close> of a datatype with its text in a function of its own, or of the text where
  the source builds it in place.  Counters keep their width (32-bit in the loop guards and the
  policy, 8-bit failures and 64-bit tokens in the context guard, 64-bit milliseconds in the
  queue with the saturation written out); lengths of strings and lists are natural numbers.
  Concurrency is explicit: the two gates are step relations whose steps are the atomic actions of
  the code, the queue and the manager of the context have labelled or unlabelled runs of their
  operations, the board operations are split at their loads and saves.

  \<^bold>\<open>What the lemmas show.\<close>
  \<^item> Commands: the class of a command bounds all its segments; the gate is monotone; the
    read-only tier runs only reads; the allowlist admits only listed programs; unapproved
    commands are low risk; the byte-level searches agree with a reference reading of quotes.
  \<^item> Paths: validated paths are confined to the workspace and the granted folders and are never
    protected, whatever the user grants; the walk to an existing ancestor ends at the first.
  \<^item> Operations: in no window of an hour more actions than the budget.
  \<^item> URLs: what the DNS check passes is public, through the round trip of addresses and their
    texts; the refused IPv4 addresses are thirteen blocks; an allowlist stays strict.
  \<^item> Approvals: allowed calls are approved durably, results agree with the record, a decision is
    final, late approvals are refused; over all interleavings.
  \<^item> Loop guards: each trips by a rule over the history of the turn.
  \<^item> Context: the trim and the reductions keep calls with their results, the trim keeps the
    system messages and the most recent others and fits the budget, microcompaction touches old
    tool results only, errors leave the history alone, the breaker is final, a failing
    summarizer ends in exhaustion, extractions are spaced; what the repair at the wire sends is
    a history in which every call has its answers and every answer its call.
  \<^item> Scheduler gate: at most one call to the model is in flight in every reachable state; more
    pressure on the host never loosens the policy.
  \<^item> Tool results: an original whose hash is shown is retrieved exactly while the store holds it, at
    least through 254 further texts; diffs keep their changes, logs account for every line; a
    batch of results fits its budget; artifacts stay inside the action directory.
  \<^item> Cron: the next run is the first occurrence in the active hours; the tables stay sound, are read
    back as written and polled earliest first; commands are spawned only with the consent of the
    policy, within its budget and a bounded number of times; jobs side by side do not interfere,
    each is run once and recorded; one run on request at a time; seeding is idempotent; the
    reported health follows the polls.
  \<^item> Routing and providers: private requests stay local; requests are routed by one rule; a request
    follows the plan of its attempts, is answered when one provider works, ends on an overflow and
    waits within bounds; a stream is one answer; error texts hide keys.
  \<^item> Queue: runs keep identifiers, deduplication keys and leases sound; claiming is fair; stale
    settlements are no-ops; the retry budget holds without crash recovery.
  \<^item> Boards: each operation refines a pure function of the board and is atomic; stored boards
    are normalised with one card in progress; a claim has one winner; a plan decision is final.

  The interfaces are locales, interpreted on the model's definitions: the lattice of command
  classes and the gate, a store of decisions under a waiting client (gate), a table under leases
  (queue), the card store under the board operations, a compactor of histories under the
  context manager (\<open>compactor\<close>, for the provider's summarizer and the recap over it), a bounded
  store of originals under the compaction (\<open>original_store\<close>), a store whose operations stay
  with their owner under the concurrent jobs of cron (\<open>owned_store\<close>), a dispatch between a local and a
  remote provider (\<open>routed_dispatch\<close>, for the three kinds of requests) and an operation with
  failover (\<open>failover\<close>, for the four operations of the reliable provider).
  Sections named after gaps hold closed theorems on inputs where the code does less than its
  comments say.

  \<^bold>\<open>Parameters and bounds.\<close>  Arguments of the definitions stand for what is outside the
  program: clock readings (\<open>now\<close> and the instants of the tracker), the answers of the file
  system (\<open>file_system\<close>: canonical forms, existence, home), SQLite's time conversion \<open>secs\<close> and
  scan order \<open>scan\<close>, redaction (\<open>sanitize\<close>) and JSON printing, the hash of an output, the UUIDs
  and progress events of the boards, the model's answer \<open>chat\<close>, the archivist's \<open>recap\<close>, the
  resolver, the probes of battery, load and environment, the lower case of text outside ASCII (\<open>uni\<close>), the hash and JSON texts of the compaction (\<open>codec\<close>),
  the files of artifacts (\<open>artifact_env\<close>), the calendar (\<open>time_lib\<close>), the texts of the cron columns
  (\<open>cron_codec\<close>), what spawned commands and agents answer, the upstream answers of the providers
  behind the routing and the failover, the phrase automaton (\<open>phrase_search\<close>) and the expression that finds a
  status code (\<open>text_lib\<close>).  All functions terminate: the
  scanning loops by the length of the rest of the input, the walk to an ancestor by the length of
  the path; the search for the next run tries 100,000 occurrences, as the code does; no definition
  uses fuel.  Loop-guard rules hold for turns of fewer than \<open>2 ^ 32\<close>
  calls, the result budget for contents below \<open>2 ^ 64\<close> bytes, both far above what fits a
  machine.  \<open>f64\<close> is rounding of rationals to 53 bits, exact in the range the guard uses.

  \<^bold>\<open>Not modelled.\<close>  The model and tool I/O around these parts (the rest of the agent harness and
  its prompts), channels, sockets and the HTTP clients of the providers (protocols of external services), the memory
  tree beyond the queue and its failure classes, integrations, wallet and billing, configuration
  and key stores (serialisation and operating-system services), RPC and CLI routing, and the
  front end, which is not Rust.  Of the parts above: the worker loop and the job handlers (their
  statements on the table are modelled), the building of a cron job's agent, the migration of the
  cron columns, event publication and logging, Windows paths, and the
  assembly of system prompts.
\<close>

section \<open>Policy and approval rejections end a turn\<close>

text \<open>
  The texts by which the security policy and the approval gate refuse a call for good.  The two
  errors that ask for an approval, an exhausted hourly budget and a path that does not resolve
  are not among them: those calls may succeed later.
\<close>

inductive rejection_text :: "string \<Rightarrow> bool" where
  command: "err \<notin> {Err_HighRiskApproval, Err_MediumRiskApproval} \<Longrightarrow> rejection_text (command_error_text err)"
| path: "err \<in> {Path_Not_Allowed p, Path_Escapes p, Path_Protected p, Path_Forbidden p, Path_Parent_Escapes p} \<Longrightarrow>
    rejection_text (path_error_text err)"
| read_only: "rejection_text (policy_error_text (Read_Only_Mode operation))"
| denied: "rejection_text (deny_text reason)"

lemma rejection_text_marked:
  assumes "rejection_text t"
  shows "\<exists>rest. t = POLICY_BLOCKED_MARKER @ rest \<or> t = POLICY_DENIED_MARKER @ rest"
  using assms
proof cases
  case (command err)
  then show ?thesis by (cases err) (fastforce simp del: append_Cons)+
next
  case (denied reason)
  then show ?thesis by (cases reason) auto
qed auto

lemma rejection_is_hard: "rejection_text t \<Longrightarrow> hard_reject_kind (pre @ t @ post) \<noteq> None"
  using rejection_text_marked[of t] marked_is_hard by (metis append.assoc)

text \<open>C1. A call that the command checks, the path checks, the enforcement of operations or the approval gate
  refuses for good stops the turn as soon as it is issued a second time with the same
  arguments and fails, whatever text the tool layer wraps around the refusal and whatever
  other calls, successful ones included, came in between.
\<close>

theorem repeated_rejection_halts:
  assumes "rejection_text t" and "\<not> to_success e" and "to_result e = pre @ t @ post"
    and "\<exists>f \<in> set h. \<not> to_success f \<and> outcome_sig f = outcome_sig e"
    and "length h + 1 < 2 ^ 32"
  shows "\<exists>summary. fst (record_outcome e (guard_after h)) = Some summary"
proof -
  have "0 < failures_of (outcome_sig e) h"
    using assms(4) by (auto simp: failures_of_def filter_empty_conv)
  moreover have "hard_reject_kind (to_result e) \<noteq> None"
    using assms(1,3) by (simp add: rejection_is_hard)
  ultimately show ?thesis using hard_reject_trips[OF assms(5,2)] by auto
qed

theorem repeated_rejection_halts_witness:
  "\<exists>summary. fst (record_outcome (demo_outcome False (''Error: '' @ command_error_text Err_HiddenExecution @ []))
       (guard_after [demo_outcome False [], demo_outcome True []])) = Some summary"
proof -
  let ?t = "command_error_text Err_HiddenExecution"
  have "rejection_text ?t" by (rule rejection_text.command) simp
  moreover have "\<not> to_success (demo_outcome False r)" "to_result (demo_outcome False r) = r"
    "outcome_sig (demo_outcome ok r) = outcome_sig (demo_outcome False r')" for r r' ok
    by (simp_all add: demo_outcome_def outcome_sig_def)
  ultimately show ?thesis
    by (intro repeated_rejection_halts[of ?t _ "''Error: ''" "[]"])
       (simp_all del: command_error_text.simps append_Cons)
qed

end
